(* ===== verification/Prelude.thy ===== *)
theory Prelude
  imports Main "HOL-Library.Word"
begin

section \<open>Shared types, automation and lemmas\<close>

text \<open>
  The vocabulary the component theories share: machine integers at their width, the
  result type of the operations that can fault, the iteration order of an unordered set,
  and generic lemmas on byte lists, folds and function updates.
\<close>

named_theorems fault_simps \<open>how results are sequenced\<close>
named_theorems frame_simps \<open>fields an operation leaves alone\<close>

type_synonym u8 = "8 word"
type_synonym u32 = "32 word"
type_synonym u64 = "64 word"
type_synonym bytes = "8 word list"

text \<open>\<open>PID\<close> is \<open>long long\<close>: a signed 64-bit identifier, kept as its integer value.\<close>

type_synonym pid = int

text \<open>\<open>SOCKET\<close> is an opaque handle of the operating system; 0 is \<open>NULL\<close>.\<close>

type_synonym socket = nat

abbreviation (input) NULL_SOCKET :: socket where "NULL_SOCKET \<equiv> 0"

text \<open>An unsigned number in decimal, as \<open>std::to_string\<close> and \<open>printf\<close> write it in ASCII.\<close>

fun decimal :: "nat \<Rightarrow> bytes" where
  "decimal n = (if n < 10 then [word_of_nat (48 + n)]
     else decimal (n div 10) @ [word_of_nat (48 + n mod 10)])"

declare decimal.simps [simp del]

subsection \<open>Results\<close>

text \<open>
  What stops a handler in the middle: an uncaught \<open>std::out_of_range\<close> from \<open>vector::at\<close>,
  a member access through a null pointer, a dereferenced end iterator, an access past the
  end of a buffer, a loop that does not end, a call of \<open>exit\<close>, an exception nobody catches, a
  \<open>delete\<close> of memory that was not allocated by itself.
\<close>

datatype fault = OutOfRange | NullDeref | EndIterator | BufferOverrun | NoReturn | Exited | Thrown | BadFree

type_synonym 'a res = "fault + 'a"

definition rbind :: "'a res \<Rightarrow> ('a \<Rightarrow> 'b res) \<Rightarrow> 'b res" where
  "rbind r f = (case r of Inl e \<Rightarrow> Inl e | Inr x \<Rightarrow> f x)"

lemma rbind_Inl [simp, fault_simps]: "rbind (Inl e) f = Inl e"
  by (simp add: rbind_def)

lemma rbind_Inr [simp, fault_simps]: "rbind (Inr x) f = f x"
  by (simp add: rbind_def)

lemma rbind_eq_Inr [fault_simps]:
  "rbind r f = Inr y \<longleftrightarrow> (\<exists>x. r = Inr x \<and> f x = Inr y)"
  by (cases r) auto

lemma rbind_InrE:
  assumes "rbind r f = Inr y"
  obtains x where "r = Inr x" and "f x = Inr y"
  using assms by (auto simp: rbind_eq_Inr)

lemma rbind_cong [fundef_cong]:
  "r = r' \<Longrightarrow> (\<And>x. r' = Inr x \<Longrightarrow> f x = f' x) \<Longrightarrow> rbind r f = rbind r' f'"
  by (cases r') auto

text \<open>A loop over a list whose body may fault.\<close>

fun foldR :: "('a \<Rightarrow> 's \<Rightarrow> 's res) \<Rightarrow> 'a list \<Rightarrow> 's \<Rightarrow> 's res" where
  "foldR f [] s = Inr s"
| "foldR f (x # xs) s = rbind (f x s) (foldR f xs)"

lemma foldR_append: "foldR f (xs @ ys) s = rbind (foldR f xs s) (foldR f ys)"
  by (induction xs arbitrary: s) (auto simp: rbind_def split: sum.splits)

lemma foldR_total:
  assumes "\<And>x s. x \<in> set xs \<Longrightarrow> I s \<Longrightarrow> \<exists>s'. f x s = Inr s' \<and> I s'" and "I s"
  shows "\<exists>s'. foldR f xs s = Inr s' \<and> I s'"
  using assms
proof (induction xs arbitrary: s)
  case Nil
  then show ?case by simp
next
  case (Cons x xs)
  then obtain t where "f x s = Inr t" "I t" by (meson list.set_intros(1))
  with Cons show ?case by simp
qed

lemma foldR_invariant:
  assumes "foldR f xs s = Inr s'" and "I s"
    and "\<And>x s s'. x \<in> set xs \<Longrightarrow> f x s = Inr s' \<Longrightarrow> I s \<Longrightarrow> I s'"
  shows "I s'"
  using assms
proof (induction xs arbitrary: s)
  case Nil
  then show ?case by simp
next
  case (Cons x xs)
  from Cons.prems(1) obtain t where t: "f x s = Inr t" "foldR f xs t = Inr s'"
    by (auto simp: rbind_eq_Inr)
  moreover from t Cons.prems(2,3) have "I t" by (meson list.set_intros(1))
  ultimately show ?case using Cons.IH Cons.prems(3) by (meson list.set_intros(2))
qed

lemma fold_invariant2:
  assumes "I s" and "\<And>x s. x \<in> set xs \<Longrightarrow> I s \<Longrightarrow> I (f x s)"
  shows "I (fold f xs s)"
  using assms by (induction xs arbitrary: s) auto

text \<open>An invariant that knows which elements of a duplicate-free list were visited.\<close>

lemma fold_visited:
  assumes "distinct xs" and "I {} s"
    and "\<And>x S s. x \<in> set xs \<Longrightarrow> x \<notin> S \<Longrightarrow> S \<subseteq> set xs \<Longrightarrow> I S s \<Longrightarrow> I (insert x S) (f x s)"
  shows "I (set xs) (fold f xs s)"
  using assms
proof (induction xs rule: rev_induct)
  case Nil
  then show ?case by simp
next
  case (snoc x xs)
  have "I (set xs) (fold f xs s)"
  proof (rule snoc.IH)
    show "distinct xs" "I {} s" using snoc.prems by simp_all
  next
    fix y S t assume "y \<in> set xs" "y \<notin> S" "S \<subseteq> set xs" "I S t"
    then show "I (insert y S) (f y t)" using snoc.prems(3) [of y S t] by auto
  qed
  then show ?case using snoc.prems(1) snoc.prems(3) [of x "set xs"] by auto
qed

subsection \<open>Iterating an unordered set\<close>

text \<open>
  \<open>std::unordered_set\<close> promises its elements once each, in no specified order. An
  iteration takes the order as a function of the set.
\<close>

definition is_order :: "(pid set \<Rightarrow> pid list) \<Rightarrow> bool" where
  "is_order enum \<longleftrightarrow> (\<forall>S. finite S \<longrightarrow> set (enum S) = S \<and> distinct (enum S))"

lemma is_order_set: "is_order enum \<Longrightarrow> finite S \<Longrightarrow> set (enum S) = S"
  by (simp add: is_order_def)

lemma is_order_distinct: "is_order enum \<Longrightarrow> finite S \<Longrightarrow> distinct (enum S)"
  by (simp add: is_order_def)

lemma is_order_sorted: "is_order sorted_list_of_set"
  by (simp add: is_order_def)

text \<open>
  What a container of identifiers promises its clients: the sight list of a sector and the
  view list of a session are instances.
\<close>

locale id_set =
  fixes add :: "pid \<Rightarrow> 's \<Rightarrow> 's" and remove :: "pid \<Rightarrow> 's \<Rightarrow> 's"
    and members :: "'s \<Rightarrow> pid set"
  assumes members_add: "members (add i s) = insert i (members s)"
    and members_remove: "members (remove i s) = members s - {i}"
begin

lemma finite_add: "finite (members s) \<Longrightarrow> finite (members (add i s))"
  by (simp add: members_add)

lemma finite_remove: "finite (members s) \<Longrightarrow> finite (members (remove i s))"
  by (simp add: members_remove)

lemma members_remove_add: "members (remove i (add i s)) = members s - {i}"
  by (simp add: members_add members_remove)

lemma members_add_commute: "members (add i (add j s)) = members (add j (add i s))"
  by (auto simp: members_add)

lemma members_add_remove_other:
  "i \<noteq> j \<Longrightarrow> members (add i (remove j s)) = members (remove j (add i s))"
  by (auto simp: members_add members_remove)

end

subsection \<open>Bytes\<close>

text \<open>Reading and writing \<open>n\<close>-byte little-endian integers at an offset of a buffer.\<close>

definition byte_at :: "bytes \<Rightarrow> nat \<Rightarrow> u8" where
  "byte_at bs i = (if i < length bs then bs ! i else 0)"

fun le_bytes :: "nat \<Rightarrow> nat \<Rightarrow> bytes" where
  "le_bytes 0 v = []"
| "le_bytes (Suc n) v = word_of_nat (v mod 256) # le_bytes n (v div 256)"

fun le_value :: "bytes \<Rightarrow> nat" where
  "le_value [] = 0"
| "le_value (b # bs) = unat b + 256 * le_value bs"

definition read_le :: "bytes \<Rightarrow> nat \<Rightarrow> nat \<Rightarrow> nat" where
  "read_le bs off n = le_value (take n (drop off bs))"

lemma length_le_bytes [simp]: "length (le_bytes n v) = n"
  by (induction n arbitrary: v) auto

lemma le_value_bound: "le_value bs < 256 ^ length bs"
proof (induction bs)
  case Nil
  then show ?case by simp
next
  case (Cons b bs)
  have "unat b < 256" using unsigned_less [of b] by simp
  with Cons show ?case by simp
qed

lemma le_value_le_bytes: "le_value (le_bytes n v) = v mod 256 ^ n"
proof (induction n arbitrary: v)
  case 0
  then show ?case by simp
next
  case (Suc n)
  have "unat (word_of_nat (v mod 256) :: u8) = v mod 256"
    by (simp add: unat_of_nat)
  with Suc show ?case
    by (simp add: mod_mult2_eq)
qed

lemma le_value_round_trip [simp]: "v < 256 ^ n \<Longrightarrow> le_value (le_bytes n v) = v"
  by (simp add: le_value_le_bytes)

lemma read_le_append1 [simp]:
  "off = length xs \<Longrightarrow> n = length ys \<Longrightarrow> read_le (xs @ ys @ zs) off n = le_value ys"
  by (simp add: read_le_def)

lemma read_le_append2 [simp]:
  "off = length xs \<Longrightarrow> n = length ys \<Longrightarrow> read_le (xs @ ys) off n = le_value ys"
  by (simp add: read_le_def)

lemma read_le_take: "off + n \<le> m \<Longrightarrow> read_le (take m bs) off n = read_le bs off n"
  by (simp add: read_le_def drop_take min_def)

lemma byte_at_append1: "i < length xs \<Longrightarrow> byte_at (xs @ ys) i = byte_at xs i"
  by (simp add: byte_at_def nth_append)

lemma byte_at_take: "i < m \<Longrightarrow> byte_at (take m bs) i = byte_at bs i"
  by (simp add: byte_at_def)

text \<open>Two's complement reading of an \<open>n\<close>-byte value, as \<open>long long\<close> and \<open>int\<close> fields.\<close>

definition signed_of :: "nat \<Rightarrow> nat \<Rightarrow> int" where
  "signed_of n v = (if 2 * v < 256 ^ n then int v else int v - 256 ^ n)"

definition unsigned_of :: "nat \<Rightarrow> int \<Rightarrow> nat" where
  "unsigned_of n i = nat (i mod 256 ^ n)"

lemma unsigned_of_bound [simp]: "unsigned_of n i < 256 ^ n"
  by (simp add: unsigned_of_def nat_less_iff)

lemma signed_of_nat:
  "0 \<le> j \<Longrightarrow> signed_of n (nat j) = (if 2 * j < 256 ^ n then j else j - 256 ^ n)"
proof -
  assume j: "0 \<le> j"
  have "2 * nat j < 256 ^ n \<longleftrightarrow> int (2 * nat j) < int (256 ^ n)"
    by (simp only: of_nat_less_iff)
  also have "\<dots> \<longleftrightarrow> 2 * j < 256 ^ n" using j by simp
  finally show ?thesis using j by (simp add: signed_of_def)
qed

lemma signed_round_trip:
  assumes "- (256 ^ n) \<le> 2 * i" and "2 * i < 256 ^ n"
  shows "signed_of n (unsigned_of n i) = i"
proof -
  have pos: "(0::int) < 256 ^ n" by simp
  show ?thesis
  proof (cases "0 \<le> i")
    case True
    with assms have "i mod 256 ^ n = i" by (intro mod_pos_pos_trivial) auto
    with True assms show ?thesis by (simp add: unsigned_of_def signed_of_nat)
  next
    case False
    have "(i + 256 ^ n) mod 256 ^ n = i + 256 ^ n"
      using False assms pos by (intro mod_pos_pos_trivial) auto
    then have m: "i mod 256 ^ n = i + 256 ^ n" by simp
    moreover from assms(1) pos have "0 \<le> i + 256 ^ n" by linarith
    moreover from assms(1) have "\<not> 2 * (i + 256 ^ n) < 256 ^ n"
      by (simp add: not_less algebra_simps)
    ultimately show ?thesis by (simp add: unsigned_of_def signed_of_nat)
  qed
qed

subsection \<open>Runs\<close>

text \<open>The states a step relation leads to, and what holds in all of them.\<close>

inductive reaches :: "('s \<Rightarrow> 's \<Rightarrow> bool) \<Rightarrow> 's \<Rightarrow> 's \<Rightarrow> bool" for r where
  reaches_refl: "reaches r s s"
| reaches_step: "reaches r s t \<Longrightarrow> r t u \<Longrightarrow> reaches r s u"

lemma reaches_invariant:
  assumes "reaches r s t" and "I s" and "\<And>t u. I t \<Longrightarrow> r t u \<Longrightarrow> I u"
  shows "I t"
  using assms by (induction rule: reaches.induct) auto

end
