(* ===== verification/Float32.thy ===== *)
theory Float32
  imports Prelude Complex_Main "HOL-Library.Log_Nat"
begin

section \<open>Single-precision arithmetic\<close>

text \<open>
  World coordinates are \<open>float\<close>. A finite \<open>float\<close> is modelled by the rational it denotes;
  an operation computes exactly and rounds to the nearest single-precision value, ties to
  even, as IEEE 754 prescribes. Every finite \<open>float\<close> is a multiple of \<open>2 ^ -149\<close>, so the
  rounding counts the bits of the value in that unit and keeps the 24 leading ones.
  Magnitudes of \<open>2 ^ 128\<close> and above, where the machine would produce an infinity, do not
  occur: coordinates stay within a few multiples of the world's size.
\<close>

definition f32_unit :: rat where
  "f32_unit = 2 ^ 149"

text \<open>Round to the nearest integer, ties to even.\<close>

definition rne :: "rat \<Rightarrow> int" where
  "rne y = (let r = \<lfloor>y\<rfloor>; d = y - of_int r in
     if d < 1 / 2 then r else if 1 / 2 < d then r + 1
     else if even r then r else r + 1)"

definition f32_shift :: "rat \<Rightarrow> nat" where
  "f32_shift y = floorlog 2 (nat \<lfloor>\<bar>y\<bar>\<rfloor>) - 24"

definition f32_round :: "rat \<Rightarrow> rat" where
  "f32_round y = of_int (rne (y / 2 ^ f32_shift y)) * 2 ^ f32_shift y"

definition f32 :: "rat \<Rightarrow> rat" where
  "f32 x = f32_round (x * f32_unit) / f32_unit"

definition is_f32 :: "rat \<Rightarrow> bool" where
  "is_f32 x \<longleftrightarrow> f32 x = x"

text \<open>The machine's \<open>+\<close>, \<open>-\<close> and \<open>/\<close>.\<close>

definition fadd :: "rat \<Rightarrow> rat \<Rightarrow> rat" where "fadd x y = f32 (x + y)"
definition fsub :: "rat \<Rightarrow> rat \<Rightarrow> rat" where "fsub x y = f32 (x - y)"
definition fmul :: "rat \<Rightarrow> rat \<Rightarrow> rat" where "fmul x y = f32 (x * y)"
definition fdiv :: "rat \<Rightarrow> rat \<Rightarrow> rat" where "fdiv x y = f32 (x / y)"

text \<open>
  \<open>static_cast<int>\<close> truncates towards zero. A value outside \<open>int\<close> is undefined behaviour
  in C++; the x64 conversion instruction returns the most negative integer.
\<close>

definition truncate_rat :: "rat \<Rightarrow> int" where
  "truncate_rat x = (if 0 \<le> x then \<lfloor>x\<rfloor> else \<lceil>x\<rceil>)"

definition to_int32 :: "rat \<Rightarrow> int" where
  "to_int32 x = (let t = truncate_rat x in
     if - (2 ^ 31) \<le> t \<and> t < 2 ^ 31 then t else - (2 ^ 31))"

subsection \<open>Rounding to the nearest integer\<close>

lemma rne_of_int [simp]: "rne (of_int n) = n"
  by (simp add: rne_def)

lemma rne_bounds: "\<lfloor>y\<rfloor> \<le> rne y" "rne y \<le> \<lfloor>y\<rfloor> + 1"
  by (auto simp: rne_def Let_def)

lemma rne_mono: "x \<le> y \<Longrightarrow> rne x \<le> rne y"
proof -
  assume le: "x \<le> y"
  then consider "\<lfloor>x\<rfloor> < \<lfloor>y\<rfloor>" | "\<lfloor>x\<rfloor> = \<lfloor>y\<rfloor>"
    by (meson floor_mono le_less)
  then show ?thesis
  proof cases
    case 1
    with rne_bounds(2) [of x] rne_bounds(1) [of y] show ?thesis by linarith
  next
    case 2
    with le show ?thesis by (auto simp: rne_def Let_def)
  qed
qed

lemma rne_ge: "of_int n \<le> y \<Longrightarrow> n \<le> rne y"
  using rne_mono [of "of_int n" y] by simp

lemma rne_le: "y \<le> of_int n \<Longrightarrow> rne y \<le> n"
  using rne_mono [of y "of_int n"] by simp

lemma rne_minus: "rne (- y) = - rne y"
proof (cases "y = of_int \<lfloor>y\<rfloor>")
  case True
  then have "rne (- y) = rne (of_int (- \<lfloor>y\<rfloor>))" by simp
  also have "\<dots> = - rne (of_int \<lfloor>y\<rfloor>)" by (simp only: rne_of_int)
  finally show ?thesis using True by simp
next
  case False
  then have "of_int \<lfloor>y\<rfloor> < y" using of_int_floor_le [of y] by linarith
  then have "\<lfloor>- y\<rfloor> = - \<lfloor>y\<rfloor> - 1"
    using floor_correct [of y] by (intro floor_unique) simp_all
  then show ?thesis by (auto simp: rne_def Let_def)
qed

subsection \<open>The shift\<close>

lemma f32_shift_minus [simp]: "f32_shift (- y) = f32_shift y"
  by (simp add: f32_shift_def)

lemma f32_shift_mono:
  "0 \<le> x \<Longrightarrow> x \<le> y \<Longrightarrow> f32_shift x \<le> f32_shift y"
  unfolding f32_shift_def
  by (intro diff_le_mono floorlog_mono nat_mono floor_mono) auto

lemma f32_shift_less:
  assumes "0 \<le> x"
  shows "x < 2 ^ (24 + f32_shift x)"
proof -
  have "nat \<lfloor>x\<rfloor> < 2 ^ (24 + f32_shift x)"
    using assms by (intro floorlog_leD) (auto simp: f32_shift_def)
  then have "int (nat \<lfloor>x\<rfloor>) < int (2 ^ (24 + f32_shift x))"
    by (simp only: of_nat_less_iff)
  then have "\<lfloor>x\<rfloor> < 2 ^ (24 + f32_shift x)" using assms by simp
  then show ?thesis by (simp add: floor_less_iff)
qed

lemma f32_shift_ge:
  assumes "0 \<le> x" and "0 < f32_shift x"
  shows "2 ^ (23 + f32_shift x) \<le> x"
proof -
  have "2 ^ (24 + f32_shift x - 1) \<le> nat \<lfloor>x\<rfloor>"
    using assms by (intro floorlog_geD) (auto simp: f32_shift_def)
  then have "int (2 ^ (23 + f32_shift x)) \<le> int (nat \<lfloor>x\<rfloor>)"
    by (simp only: of_nat_le_iff) simp
  then have "2 ^ (23 + f32_shift x) \<le> \<lfloor>x\<rfloor>" using assms(1) by simp
  then show ?thesis by (simp add: le_floor_iff)
qed

lemma f32_shift_leI:
  assumes "\<bar>x\<bar> < 2 ^ (24 + k)"
  shows "f32_shift x \<le> k"
proof -
  have "\<lfloor>\<bar>x\<bar>\<rfloor> < 2 ^ (24 + k)" using assms by (simp add: floor_less_iff)
  then have "nat \<lfloor>\<bar>x\<bar>\<rfloor> < 2 ^ (24 + k)" by (simp add: nat_less_iff)
  then have "floorlog 2 (nat \<lfloor>\<bar>x\<bar>\<rfloor>) \<le> 24 + k" by (intro floorlog_leI) auto
  then show ?thesis by (simp add: f32_shift_def)
qed

subsection \<open>Rounding is monotone and exact on representable values\<close>

lemma f32_round_minus: "f32_round (- y) = - f32_round y"
  by (simp add: f32_round_def rne_minus)

lemma f32_round_nonneg: "0 \<le> y \<Longrightarrow> 0 \<le> f32_round y"
  using rne_ge [of 0 "y / 2 ^ f32_shift y"] by (simp add: f32_round_def)

lemma f32_round_mono_nonneg:
  assumes "0 \<le> x" and "x \<le> y"
  shows "f32_round x \<le> f32_round y"
proof (cases "f32_shift x = f32_shift y")
  case True
  have "rne (x / 2 ^ f32_shift x) \<le> rne (y / 2 ^ f32_shift x)"
    using assms by (intro rne_mono divide_right_mono) auto
  then show ?thesis by (simp add: f32_round_def True)
next
  case False
  with assms have lt: "f32_shift x < f32_shift y"
    by (simp add: f32_shift_mono le_neq_implies_less)
  have "x / 2 ^ f32_shift x \<le> of_int (2 ^ 24)"
    using f32_shift_less [OF assms(1)] by (simp add: field_simps power_add)
  then have "rne (x / 2 ^ f32_shift x) \<le> 2 ^ 24" by (rule rne_le)
  then have "(of_int (rne (x / 2 ^ f32_shift x)) :: rat) \<le> of_int (2 ^ 24)"
    by (simp only: of_int_le_iff)
  then have "f32_round x \<le> 2 ^ 24 * 2 ^ f32_shift x"
    by (simp add: f32_round_def)
  also have "\<dots> \<le> 2 ^ 23 * 2 ^ f32_shift y"
  proof -
    have "(2::rat) ^ (24 + f32_shift x) \<le> 2 ^ (23 + f32_shift y)"
      using lt by (intro power_increasing) auto
    then show ?thesis by (simp add: power_add)
  qed
  also have "\<dots> \<le> f32_round y"
  proof -
    have "of_int (2 ^ 23) \<le> y / 2 ^ f32_shift y"
      using f32_shift_ge [of y] assms lt by (simp add: field_simps power_add)
    then have "2 ^ 23 \<le> rne (y / 2 ^ f32_shift y)" by (rule rne_ge)
    then have "(of_int (2 ^ 23) :: rat) \<le> of_int (rne (y / 2 ^ f32_shift y))"
      by (simp only: of_int_le_iff)
    then show ?thesis by (simp add: f32_round_def)
  qed
  finally show ?thesis .
qed

lemma f32_round_mono: "x \<le> y \<Longrightarrow> f32_round x \<le> f32_round y"
proof -
  assume le: "x \<le> y"
  consider "0 \<le> x" | "x < 0" "0 \<le> y" | "y < 0" by linarith
  then show ?thesis
  proof cases
    case 1
    with le show ?thesis by (intro f32_round_mono_nonneg)
  next
    case 2
    then have "0 \<le> f32_round (- x)" "0 \<le> f32_round y"
      by (simp_all add: f32_round_nonneg)
    then show ?thesis by (simp add: f32_round_minus)
  next
    case 3
    with le have "f32_round (- y) \<le> f32_round (- x)"
      by (intro f32_round_mono_nonneg) auto
    then show ?thesis by (simp add: f32_round_minus)
  qed
qed

lemma f32_round_exact:
  assumes "\<bar>m\<bar> < 2 ^ 24"
  shows "f32_round (of_int m * 2 ^ k) = of_int m * 2 ^ k"
proof -
  let ?x = "of_int m * 2 ^ k :: rat"
  have "(of_int \<bar>m\<bar> :: rat) < of_int (2 ^ 24)"
    using assms by (simp only: of_int_less_iff)
  then have "\<bar>?x\<bar> < 2 ^ (24 + k)" by (simp add: abs_mult power_add)
  then have s: "f32_shift ?x \<le> k" by (rule f32_shift_leI)
  then obtain j where k: "k = f32_shift ?x + j" by (auto simp: le_iff_add)
  have "?x / 2 ^ f32_shift ?x = of_int m * (2 ^ k / 2 ^ f32_shift ?x)" by simp
  also have "(2 :: rat) ^ k / 2 ^ f32_shift ?x = 2 ^ j"
    by (subst (1) k) (simp add: power_add)
  finally have "?x / 2 ^ f32_shift ?x = of_int (m * 2 ^ j)" by simp
  then have "f32_round ?x = of_int (m * 2 ^ j) * 2 ^ f32_shift ?x"
    by (simp only: f32_round_def rne_of_int)
  also have "\<dots> = of_int m * 2 ^ (f32_shift ?x + j)" by (simp add: power_add)
  also have "\<dots> = ?x" using k by simp
  finally show ?thesis .
qed

lemma f32_mono: "x \<le> y \<Longrightarrow> f32 x \<le> f32 y"
  unfolding f32_def f32_unit_def
  by (intro divide_right_mono f32_round_mono mult_right_mono) auto

lemma f32_minus: "f32 (- x) = - f32 x"
  by (simp add: f32_def f32_round_minus)

lemma is_f32_int: "\<bar>n\<bar> < 2 ^ 24 \<Longrightarrow> is_f32 (of_int n)"
  using f32_round_exact [of n 149] by (simp add: is_f32_def f32_def f32_unit_def)

lemma is_f32_scaled:
  assumes "\<bar>m\<bar> < 2 ^ 24" and "k \<le> 149"
  shows "is_f32 (of_int m / 2 ^ k)"
proof -
  have "of_int m / 2 ^ k * f32_unit = of_int m * 2 ^ (149 - k)"
    using assms(2) by (simp add: f32_unit_def power_diff)
  moreover have "of_int m * 2 ^ (149 - k) / f32_unit = of_int m / 2 ^ k"
    using assms(2) by (simp add: f32_unit_def power_diff)
  ultimately show ?thesis
    using f32_round_exact [OF assms(1), of "149 - k"] by (simp add: is_f32_def f32_def)
qed

lemma f32_numeral [simp]:
  "(numeral n :: int) < 2 ^ 24 \<Longrightarrow> f32 (numeral n) = numeral n"
  using is_f32_int [of "numeral n"] by (simp add: is_f32_def)

lemma f32_neg_numeral [simp]:
  "(numeral n :: int) < 2 ^ 24 \<Longrightarrow> f32 (- numeral n) = - numeral n"
  by (simp add: f32_minus)

lemma f32_zero [simp]: "f32 0 = 0"
  using is_f32_int [of 0] by (simp add: is_f32_def)

lemma f32_one [simp]: "f32 1 = 1"
  using is_f32_int [of 1] by (simp add: is_f32_def)

lemma is_f32_numeral [simp]: "(numeral n :: int) < 2 ^ 24 \<Longrightarrow> is_f32 (numeral n)"
  by (simp add: is_f32_def)

lemma f32_le_bound: "x \<le> c \<Longrightarrow> is_f32 c \<Longrightarrow> f32 x \<le> c"
  using f32_mono [of x c] by (simp add: is_f32_def)

lemma f32_ge_bound: "c \<le> x \<Longrightarrow> is_f32 c \<Longrightarrow> c \<le> f32 x"
  using f32_mono [of c x] by (simp add: is_f32_def)

lemma f32_round_idem: "f32_round (f32_round y) = f32_round y"
proof -
  let ?s = "f32_shift y" let ?r = "rne (y / 2 ^ ?s)"
  have "\<bar>y\<bar> < 2 ^ (24 + ?s)"
    using f32_shift_less [of "\<bar>y\<bar>"] by (simp add: f32_shift_def)
  then have "\<bar>y\<bar> \<le> 2 ^ 24 * 2 ^ ?s" by (simp add: power_add)
  then have "y / 2 ^ ?s \<le> of_int (2 ^ 24)" "of_int (- (2 ^ 24)) \<le> y / 2 ^ ?s"
    by (simp_all add: abs_le_iff divide_le_eq le_divide_eq)
  then have "?r \<le> 2 ^ 24" "- (2 ^ 24) \<le> ?r"
    using rne_le [of "y / 2 ^ ?s" "2 ^ 24"] rne_ge [of "- (2 ^ 24)" "y / 2 ^ ?s"] by auto
  then consider "\<bar>?r\<bar> < 2 ^ 24" | "?r = 2 ^ 24" | "?r = - (2 ^ 24)" by linarith
  then show ?thesis
  proof cases
    case 1
    then show ?thesis unfolding f32_round_def [of y] by (rule f32_round_exact)
  next
    case 2
    have "f32_round y = of_int (2 ^ 23) * 2 ^ Suc ?s"
      by (simp add: f32_round_def [of y] 2)
    then show ?thesis using f32_round_exact [of "2 ^ 23" "Suc ?s"] by simp
  next
    case 3
    have "f32_round y = of_int (- (2 ^ 23)) * 2 ^ Suc ?s"
      by (simp add: f32_round_def [of y] 3)
    then show ?thesis using f32_round_exact [of "- (2 ^ 23)" "Suc ?s"] by simp
  qed
qed

text \<open>The result of every machine operation is representable.\<close>

lemma is_f32_f32 [simp]: "is_f32 (f32 x)"
  by (simp add: is_f32_def f32_def f32_round_idem f32_unit_def)

lemma is_f32_fadd [simp]: "is_f32 (fadd x y)"
  and is_f32_fsub [simp]: "is_f32 (fsub x y)"
  by (simp_all add: fadd_def fsub_def)

lemma f32_of_is_f32: "is_f32 x \<Longrightarrow> f32 x = x"
  by (simp add: is_f32_def)

subsection \<open>Truncation\<close>

lemma truncate_rat_mono: "x \<le> y \<Longrightarrow> truncate_rat x \<le> truncate_rat y"
proof -
  assume le: "x \<le> y"
  consider "0 \<le> x" | "x < 0" "0 \<le> y" | "y < 0" by linarith
  then show ?thesis
  proof cases
    case 1
    with le show ?thesis by (simp add: truncate_rat_def floor_mono)
  next
    case 2
    then have "truncate_rat x \<le> 0" "0 \<le> truncate_rat y"
      by (simp_all add: truncate_rat_def)
    then show ?thesis by linarith
  next
    case 3
    with le show ?thesis by (simp add: truncate_rat_def ceiling_mono)
  qed
qed

lemma to_int32_exact:
  "- (2 ^ 31) \<le> x \<Longrightarrow> x < 2 ^ 31 \<Longrightarrow> to_int32 x = truncate_rat x"
proof -
  assume "- (2 ^ 31) \<le> x" "x < 2 ^ 31"
  then have "- (2 ^ 31) \<le> truncate_rat x" "truncate_rat x < 2 ^ 31"
    by (auto simp: truncate_rat_def le_ceiling_iff floor_less_iff ceiling_less_iff)
  then show ?thesis by (simp add: to_int32_def)
qed

lemma to_int32_of_int: "- (2 ^ 31) \<le> n \<Longrightarrow> n < 2 ^ 31 \<Longrightarrow> to_int32 (of_int n) = n"
  by (simp add: to_int32_def truncate_rat_def)

lemma to_int32_numeral [simp]:
  "(numeral n :: int) < 2 ^ 31 \<Longrightarrow> to_int32 (numeral n) = numeral n"
  using to_int32_of_int [of "numeral n"] by simp

lemma to_int32_zero [simp]: "to_int32 0 = 0"
  using to_int32_of_int [of 0] by simp

end
