(* ===== verification/Protocol.thy ===== *)
theory Protocol
  imports Prelude Float32
begin

section \<open>The protocol\<close>

text \<open>
  \<open>WorldServer/Commons.hpp\<close>, which the server and the client both include: the
  enumerations, the packets and their constructors, the sizes of the world and the split
  of the identifiers between players and the rest. An enumeration has one more
  constructor for the byte values it does not name, since a received byte is cast to it
  unchecked.
\<close>

named_theorems const_simps \<open>the constants of Commons.hpp\<close>

subsection \<open>Enumerations\<close>

datatype packet_type =
  PT_NONE | CS_SIGNIN | CS_SIGNOUT | CS_MOVE | CS_ATTACK_TARGET | CS_ATTACK_NONTARGET
  | CS_ATTACK_PLACE | CS_SKILL_0 | CS_SKILL_1 | CS_SKILL_2 | CS_CHAT
  | SC_SIGNUP | SC_SIGNOUT | SC_CREATE_PLAYER | SC_SIGNIN_FAILED | SC_CHAT
  | SC_APPEAR_OBJ | SC_DISAPPEAR_OBJ | SC_MOVE_OBJ | SC_STAT_OBJ | SC_UPDATE_PLAYER
  | PT_OTHER u8

fun packet_code :: "packet_type \<Rightarrow> u8" where
  "packet_code PT_NONE = 0"
| "packet_code CS_SIGNIN = 1"
| "packet_code CS_SIGNOUT = 2"
| "packet_code CS_MOVE = 3"
| "packet_code CS_ATTACK_TARGET = 4"
| "packet_code CS_ATTACK_NONTARGET = 5"
| "packet_code CS_ATTACK_PLACE = 6"
| "packet_code CS_SKILL_0 = 7"
| "packet_code CS_SKILL_1 = 8"
| "packet_code CS_SKILL_2 = 9"
| "packet_code CS_CHAT = 10"
| "packet_code SC_SIGNUP = 50"
| "packet_code SC_SIGNOUT = 51"
| "packet_code SC_CREATE_PLAYER = 52"
| "packet_code SC_SIGNIN_FAILED = 53"
| "packet_code SC_CHAT = 54"
| "packet_code SC_APPEAR_OBJ = 150"
| "packet_code SC_DISAPPEAR_OBJ = 151"
| "packet_code SC_MOVE_OBJ = 152"
| "packet_code SC_STAT_OBJ = 153"
| "packet_code SC_UPDATE_PLAYER = 154"
| "packet_code (PT_OTHER c) = c"

definition packet_types :: "packet_type list" where
  "packet_types =
     [PT_NONE, CS_SIGNIN, CS_SIGNOUT, CS_MOVE, CS_ATTACK_TARGET, CS_ATTACK_NONTARGET,
      CS_ATTACK_PLACE, CS_SKILL_0, CS_SKILL_1, CS_SKILL_2, CS_CHAT, SC_SIGNUP, SC_SIGNOUT,
      SC_CREATE_PLAYER, SC_SIGNIN_FAILED, SC_CHAT, SC_APPEAR_OBJ, SC_DISAPPEAR_OBJ,
      SC_MOVE_OBJ, SC_STAT_OBJ, SC_UPDATE_PLAYER]"

definition packet_of_code :: "u8 \<Rightarrow> packet_type" where
  "packet_of_code c =
     (case find (\<lambda>t. packet_code t = c) packet_types of Some t \<Rightarrow> t | None \<Rightarrow> PT_OTHER c)"

datatype login_error = LE_NONE | LE_SUCEED | LE_USERS_LIMITED | LE_BANNED | LE_NETWORK_ERROR
  | LE_OTHER u8

fun login_error_code :: "login_error \<Rightarrow> u8" where
  "login_error_code LE_NONE = 0"
| "login_error_code LE_SUCEED = 1"
| "login_error_code LE_USERS_LIMITED = 2"
| "login_error_code LE_BANNED = 3"
| "login_error_code LE_NETWORK_ERROR = 4"
| "login_error_code (LE_OTHER c) = c"

definition login_error_of_code :: "u8 \<Rightarrow> login_error" where
  "login_error_of_code c =
     (case find (\<lambda>t. login_error_code t = c)
        [LE_NONE, LE_SUCEED, LE_USERS_LIMITED, LE_BANNED, LE_NETWORK_ERROR]
      of Some t \<Rightarrow> t | None \<Rightarrow> LE_OTHER c)"

datatype chat_type = CM_NONE | CM_PLAIN | CM_ONE_ON_ONE | CM_SHOUT | CM_SYSTEM | CM_OTHER u8

fun chat_code :: "chat_type \<Rightarrow> u8" where
  "chat_code CM_NONE = 0"
| "chat_code CM_PLAIN = 1"
| "chat_code CM_ONE_ON_ONE = 2"
| "chat_code CM_SHOUT = 3"
| "chat_code CM_SYSTEM = 4"
| "chat_code (CM_OTHER c) = c"

definition chat_of_code :: "u8 \<Rightarrow> chat_type" where
  "chat_of_code c =
     (case find (\<lambda>t. chat_code t = c) [CM_NONE, CM_PLAIN, CM_ONE_ON_ONE, CM_SHOUT, CM_SYSTEM]
      of Some t \<Rightarrow> t | None \<Rightarrow> CM_OTHER c)"

datatype entity_category = CAT_NONE | CAT_NPC | CAT_MOB | CAT_BOSS | CAT_PLAYER | CAT_OTHER u8

fun category_code :: "entity_category \<Rightarrow> u8" where
  "category_code CAT_NONE = 0"
| "category_code CAT_NPC = 1"
| "category_code CAT_MOB = 2"
| "category_code CAT_BOSS = 3"
| "category_code CAT_PLAYER = 4"
| "category_code (CAT_OTHER c) = c"

definition category_of_code :: "u8 \<Rightarrow> entity_category" where
  "category_of_code c =
     (case find (\<lambda>t. category_code t = c) [CAT_NONE, CAT_NPC, CAT_MOB, CAT_BOSS, CAT_PLAYER]
      of Some t \<Rightarrow> t | None \<Rightarrow> CAT_OTHER c)"

datatype entity_type =
  ENT_NONE | PLAYER_WARRIOR | PLAYER_ARCHER | PLAYER_MAGICIAN | NPC_SHOPKEEPER | NPC_GUARD
  | MOB_SLIME_1 | MOB_DEMON | MOB_SKELETON | MOB_SKELETON_KING | ENT_OTHER u32

fun entity_code :: "entity_type \<Rightarrow> u32" where
  "entity_code ENT_NONE = 0"
| "entity_code PLAYER_WARRIOR = 1"
| "entity_code PLAYER_ARCHER = 2"
| "entity_code PLAYER_MAGICIAN = 3"
| "entity_code NPC_SHOPKEEPER = 1000"
| "entity_code NPC_GUARD = 1001"
| "entity_code MOB_SLIME_1 = 10000"
| "entity_code MOB_DEMON = 10001"
| "entity_code MOB_SKELETON = 10002"
| "entity_code MOB_SKELETON_KING = 10003"
| "entity_code (ENT_OTHER c) = c"

definition entity_of_code :: "u32 \<Rightarrow> entity_type" where
  "entity_of_code c =
     (case find (\<lambda>t. entity_code t = c)
        [ENT_NONE, PLAYER_WARRIOR, PLAYER_ARCHER, PLAYER_MAGICIAN, NPC_SHOPKEEPER, NPC_GUARD,
         MOB_SLIME_1, MOB_DEMON, MOB_SKELETON, MOB_SKELETON_KING]
      of Some t \<Rightarrow> t | None \<Rightarrow> ENT_OTHER c)"

datatype overlap_op =
  OP_NONE | OP_LISTEN | OP_ACCEPT | OP_RECV | OP_SEND | OP_ENTITY_MOVE | OP_ENTITY_ATTACK
  | OP_PLAYER_ATTACK | OP_ENTITY_ACTION | OP_ENTITY_HEAL | OP_ENTITY_DEAD

datatype move_type = MV_NONE | MV_LEFT | MV_UP | MV_RIGHT | MV_DOWN | MV_OTHER u8

fun move_code :: "move_type \<Rightarrow> u8" where
  "move_code MV_NONE = 0"
| "move_code MV_LEFT = 1"
| "move_code MV_UP = 2"
| "move_code MV_RIGHT = 3"
| "move_code MV_DOWN = 4"
| "move_code (MV_OTHER c) = c"

definition move_of_code :: "u8 \<Rightarrow> move_type" where
  "move_of_code c =
     (case find (\<lambda>t. move_code t = c) [MV_NONE, MV_LEFT, MV_UP, MV_RIGHT, MV_DOWN]
      of Some t \<Rightarrow> t | None \<Rightarrow> MV_OTHER c)"

text \<open>An enumeration value that the header names.\<close>

definition named_packet_type :: "packet_type \<Rightarrow> bool" where
  "named_packet_type t \<longleftrightarrow> t \<in> set packet_types"

definition named_move :: "move_type \<Rightarrow> bool" where
  "named_move t \<longleftrightarrow> (case t of MV_OTHER _ \<Rightarrow> False | _ \<Rightarrow> True)"

definition named_category :: "entity_category \<Rightarrow> bool" where
  "named_category t \<longleftrightarrow> (case t of CAT_OTHER _ \<Rightarrow> False | _ \<Rightarrow> True)"

definition named_entity :: "entity_type \<Rightarrow> bool" where
  "named_entity t \<longleftrightarrow> (case t of ENT_OTHER _ \<Rightarrow> False | _ \<Rightarrow> True)"

definition named_chat :: "chat_type \<Rightarrow> bool" where
  "named_chat t \<longleftrightarrow> (case t of CM_OTHER _ \<Rightarrow> False | _ \<Rightarrow> True)"

definition named_login_error :: "login_error \<Rightarrow> bool" where
  "named_login_error t \<longleftrightarrow> (case t of LE_OTHER _ \<Rightarrow> False | _ \<Rightarrow> True)"

lemma packet_of_code_code [simp]: "named_packet_type t \<Longrightarrow> packet_of_code (packet_code t) = t"
  by (cases t) (simp_all add: named_packet_type_def packet_types_def packet_of_code_def)

lemma move_of_code_code [simp]: "named_move t \<Longrightarrow> move_of_code (move_code t) = t"
  by (cases t) (simp_all add: named_move_def move_of_code_def)

lemma category_of_code_code [simp]:
  "named_category t \<Longrightarrow> category_of_code (category_code t) = t"
  by (cases t) (simp_all add: named_category_def category_of_code_def)

lemma entity_of_code_code [simp]: "named_entity t \<Longrightarrow> entity_of_code (entity_code t) = t"
  by (cases t) (simp_all add: named_entity_def entity_of_code_def)

lemma chat_of_code_code [simp]: "named_chat t \<Longrightarrow> chat_of_code (chat_code t) = t"
  by (cases t) (simp_all add: named_chat_def chat_of_code_def)

lemma login_error_of_code_code [simp]:
  "named_login_error t \<Longrightarrow> login_error_of_code (login_error_code t) = t"
  by (cases t) (simp_all add: named_login_error_def login_error_of_code_def)

subsection \<open>Constants\<close>

definition CLIENT_W :: int where [const_simps]: "CLIENT_W = 800"
definition CLIENT_H :: int where [const_simps]: "CLIENT_H = 600"
definition FRAME_W :: rat where [const_simps]: "FRAME_W = of_int CLIENT_W"
definition FRAME_H :: rat where [const_simps]: "FRAME_H = of_int CLIENT_H"

definition BUFFSZ :: nat where [const_simps]: "BUFFSZ = 256"

definition USERS_MAX :: nat where [const_simps]: "USERS_MAX = 10000"
definition NPCS_MAX :: nat where [const_simps]: "NPCS_MAX = 200000"
definition ENTITIES_MAX_NUMBER :: nat where
  [const_simps]: "ENTITIES_MAX_NUMBER = USERS_MAX + NPCS_MAX"
definition NPC_ID_BEGIN :: nat where [const_simps]: "NPC_ID_BEGIN = 0"
definition NPC_ID_END :: nat where [const_simps]: "NPC_ID_END = NPCS_MAX"
definition USERS_ID_BEGIN :: nat where
  [const_simps]: "USERS_ID_BEGIN = NPC_ID_BEGIN + NPCS_MAX"
definition USERS_ID_END :: nat where
  [const_simps]: "USERS_ID_END = USERS_ID_BEGIN + USERS_MAX"
definition CLIENTS_ORDER_BEGIN :: pid where
  [const_simps]: "CLIENTS_ORDER_BEGIN = int NPCS_MAX"

definition CELL_SIZE :: rat where [const_simps]: "CELL_SIZE = 32"
definition CELL_W :: rat where [const_simps]: "CELL_W = CELL_SIZE"
definition CELL_H :: rat where [const_simps]: "CELL_H = CELL_SIZE"
definition WORLD_CELLS_CNT_H :: int where [const_simps]: "WORLD_CELLS_CNT_H = 2000"
definition WORLD_CELLS_CNT_V :: int where [const_simps]: "WORLD_CELLS_CNT_V = 2000"
definition WORLD_W :: rat where
  [const_simps]: "WORLD_W = CELL_W * of_int WORLD_CELLS_CNT_H"
definition WORLD_H :: rat where
  [const_simps]: "WORLD_H = CELL_H * of_int WORLD_CELLS_CNT_V"
definition SIGHT_CELLS_CNT_H :: int where [const_simps]: "SIGHT_CELLS_CNT_H = 15"
definition SIGHT_CELLS_CNT_V :: int where [const_simps]: "SIGHT_CELLS_CNT_V = 15"
definition SIGHT_CELLS_RAD_H :: int where
  [const_simps]: "SIGHT_CELLS_RAD_H = SIGHT_CELLS_CNT_H div 2"
definition SIGHT_CELLS_RAD_V :: int where
  [const_simps]: "SIGHT_CELLS_RAD_V = SIGHT_CELLS_CNT_H div 2"
definition SIGHT_W :: rat where
  [const_simps]: "SIGHT_W = CELL_W * of_int SIGHT_CELLS_CNT_H"
definition SIGHT_H :: rat where
  [const_simps]: "SIGHT_H = CELL_H * of_int SIGHT_CELLS_CNT_V"
definition SIGHT_RAD_W :: rat where
  [const_simps]: "SIGHT_RAD_W = CELL_W * of_int SIGHT_CELLS_RAD_H"
definition SIGHT_RAD_H :: rat where
  [const_simps]: "SIGHT_RAD_H = CELL_H * of_int SIGHT_CELLS_RAD_V"

definition IsPlayer :: "pid \<Rightarrow> bool" where
  "IsPlayer i \<longleftrightarrow> CLIENTS_ORDER_BEGIN \<le> i"

definition IsNonPlayer :: "pid \<Rightarrow> bool" where
  "IsNonPlayer i \<longleftrightarrow> i < CLIENTS_ORDER_BEGIN"

lemma IsPlayer_or_not: "IsNonPlayer i \<longleftrightarrow> \<not> IsPlayer i"
  by (auto simp: IsPlayer_def IsNonPlayer_def)

end
