(* ===== verification/Sector.thy ===== *)
theory Sector
  imports Protocol
begin

section \<open>Sight sectors\<close>

text \<open>
  \<open>WorldServer/SightSector\<close>: a cell of the world's grid, the set of identifiers in it and
  the flag meant to guard it. The operations here are the sequential ones; theory
  \<open>Interleaving\<close> looks at what the flag does between threads.
\<close>

record sector =
  index_x :: int
  index_y :: int
  isOwned :: bool
  mySight :: "pid set"

definition SightSector :: "int \<Rightarrow> int \<Rightarrow> rat \<Rightarrow> rat \<Rightarrow> sector" where
  "SightSector x y w h = \<lparr>index_x = x, index_y = y, isOwned = False, mySight = {}\<rparr>"

text \<open>\<open>Acquire\<close> sets the flag and does not look at its old value; only \<open>TryAcquire\<close> does.\<close>

definition Acquire :: "sector \<Rightarrow> sector" where
  "Acquire s = s\<lparr>isOwned := True\<rparr>"

definition Release :: "sector \<Rightarrow> sector" where
  "Release s = s\<lparr>isOwned := False\<rparr>"

definition TryAcquire :: "sector \<Rightarrow> bool \<times> sector" where
  "TryAcquire s = (\<not> isOwned s, s\<lparr>isOwned := True\<rparr>)"

definition Add :: "pid \<Rightarrow> sector \<Rightarrow> sector" where
  "Add i s = s\<lparr>mySight := insert i (mySight s)\<rparr>"

definition Remove :: "pid \<Rightarrow> sector \<Rightarrow> sector" where
  "Remove i s = (if i \<in> mySight s then s\<lparr>mySight := mySight s - {i}\<rparr> else s)"

definition GetSightList :: "sector \<Rightarrow> pid set" where
  "GetSightList s = mySight s"

definition sector_eq :: "sector \<Rightarrow> sector \<Rightarrow> bool" where
  "sector_eq s other \<longleftrightarrow> index_x other = index_x s \<and> index_y other = index_y s"

named_theorems sector_simps \<open>the fields after each sector operation\<close>

lemma Acquire_fields [sector_simps]:
  "mySight (Acquire s) = mySight s" "isOwned (Acquire s)"
  "index_x (Acquire s) = index_x s" "index_y (Acquire s) = index_y s"
  by (simp_all add: Acquire_def)

lemma Release_fields [sector_simps]:
  "mySight (Release s) = mySight s" "\<not> isOwned (Release s)"
  "index_x (Release s) = index_x s" "index_y (Release s) = index_y s"
  by (simp_all add: Release_def)

lemma Add_fields [sector_simps]:
  "mySight (Add i s) = insert i (mySight s)" "isOwned (Add i s) = isOwned s"
  "index_x (Add i s) = index_x s" "index_y (Add i s) = index_y s"
  by (simp_all add: Add_def)

lemma Remove_fields [sector_simps]:
  "mySight (Remove i s) = mySight s - {i}" "isOwned (Remove i s) = isOwned s"
  "index_x (Remove i s) = index_x s" "index_y (Remove i s) = index_y s"
  by (auto simp: Remove_def)

lemma TryAcquire_fields [sector_simps]:
  "fst (TryAcquire s) = (\<not> isOwned s)" "mySight (snd (TryAcquire s)) = mySight s"
  "isOwned (snd (TryAcquire s))" "index_x (snd (TryAcquire s)) = index_x s"
  "index_y (snd (TryAcquire s)) = index_y s"
  by (simp_all add: TryAcquire_def)

interpretation sector: id_set Add Remove GetSightList
  by unfold_locales (auto simp: GetSightList_def sector_simps)

end
