(* ===== verification/SightGrid.thy ===== *)
theory SightGrid
  imports Sector
begin

section \<open>The grid of sectors\<close>

text \<open>
  \<open>WorldServer/SightManager\<close>: the world cut into sectors of the size of a client's view,
  and the arithmetic from positions to sectors and back. A reference to a sector is its
  row and column in \<open>mySectors\<close>; an index outside the vectors throws.
\<close>

record sight_manager =
  sizeWorldH :: rat
  sizeWorldV :: rat
  sizeSectorH :: rat
  sizeSectorV :: rat
  countHrzSectors :: nat
  countVrtSectors :: nat
  mySectors :: "sector list list"

type_synonym sector_ref = "nat \<times> nat"

definition std_clamp :: "'a::linorder \<Rightarrow> 'a \<Rightarrow> 'a \<Rightarrow> 'a" where
  "std_clamp v lo hi = (if v < lo then lo else if hi < v then hi else v)"

definition BuildSectors :: "rat \<Rightarrow> rat \<Rightarrow> nat \<Rightarrow> nat \<Rightarrow> sector list list" where
  "BuildSectors sector_w sector_h count_h count_v =
     fold (\<lambda>i result.
        let pusher = fold (\<lambda>j pusher. pusher @
              [SightSector (int j) (int i) (fmul sector_w (of_nat i)) (fmul sector_h (of_nat j))])
            [0..<count_h] []
        in result @ [pusher]) [0..<count_v] []"

definition SightManager :: "rat \<Rightarrow> rat \<Rightarrow> rat \<Rightarrow> rat \<Rightarrow> sight_manager" where
  "SightManager w h sector_w sector_h =
     (let ch = nat \<lceil>fdiv w sector_w\<rceil>; cv = nat \<lceil>fdiv h sector_h\<rceil>
      in \<lparr>sizeWorldH = w, sizeWorldV = h, sizeSectorH = sector_w, sizeSectorV = sector_h,
          countHrzSectors = ch, countVrtSectors = cv,
          mySectors = BuildSectors sector_w sector_h ch cv\<rparr>)"

definition At :: "sight_manager \<Rightarrow> int \<Rightarrow> int \<Rightarrow> sector_ref res" where
  "At m x y =
     (if 0 \<le> y \<and> y < int (length (mySectors m)) then
        (if 0 \<le> x \<and> x < int (length (mySectors m ! nat y)) then Inr (nat y, nat x)
         else Inl OutOfRange)
      else Inl OutOfRange)"

definition At_pair :: "sight_manager \<Rightarrow> int \<times> int \<Rightarrow> sector_ref res" where
  "At_pair m coords = At m (fst coords) (snd coords)"

definition PickCoords :: "sight_manager \<Rightarrow> rat \<Rightarrow> rat \<Rightarrow> int \<times> int" where
  "PickCoords m x y =
     (let index_x = std_clamp (to_int32 (fdiv x (sizeSectorH m))) 0 (WORLD_CELLS_CNT_H - 1);
          index_y = std_clamp (to_int32 (fdiv y (sizeSectorV m))) 0 (WORLD_CELLS_CNT_V - 1)
      in (index_y, index_x))"

definition PickCoords_pair :: "sight_manager \<Rightarrow> rat \<times> rat \<Rightarrow> int \<times> int" where
  "PickCoords_pair m p = PickCoords m (fst p) (snd p)"

definition AtByPosition :: "sight_manager \<Rightarrow> rat \<Rightarrow> rat \<Rightarrow> sector_ref res" where
  "AtByPosition m x y = At_pair m (PickCoords m x y)"

text \<open>The arguments of \<open>std::clamp\<close> are in the order the source has them.\<close>

definition ClampCoords :: "sight_manager \<Rightarrow> rat \<times> rat \<Rightarrow> int \<times> int" where
  "ClampCoords m position =
     (let clamped_x = std_clamp 0 (fst position) (sizeWorldH m);
          clamped_y = std_clamp 0 (snd position) (sizeWorldV m)
      in PickCoords m clamped_x clamped_y)"

definition PickPositionFirst :: "sight_manager \<Rightarrow> int \<Rightarrow> int \<Rightarrow> rat \<times> rat" where
  "PickPositionFirst m x y =
     (let world_x = fmul (of_int x) (sizeSectorH m); world_y = fmul (of_int y) (sizeSectorV m)
      in (world_y, world_x))"

definition PickPositionLast :: "sight_manager \<Rightarrow> int \<Rightarrow> int \<Rightarrow> rat \<times> rat" where
  "PickPositionLast m x y =
     (let world_x = fmul (of_int (x + 1)) (sizeSectorH m);
          world_y = fmul (of_int (y + 1)) (sizeSectorV m)
      in (world_y, world_x))"

text \<open>Reading and updating the sector a reference points to.\<close>

definition sector_at :: "sight_manager \<Rightarrow> sector_ref \<Rightarrow> sector" where
  "sector_at m r = mySectors m ! fst r ! snd r"

definition update_sector :: "sector_ref \<Rightarrow> (sector \<Rightarrow> sector) \<Rightarrow> sight_manager \<Rightarrow> sight_manager" where
  "update_sector r f m =
     m\<lparr>mySectors := (mySectors m)[fst r := (mySectors m ! fst r)[snd r := f (sector_at m r)]]\<rparr>"

subsection \<open>The server's grid\<close>

definition world_grid :: sight_manager where
  "world_grid = SightManager WORLD_W WORLD_H SIGHT_W SIGHT_H"

lemma fold_push_back: "fold (\<lambda>x acc. acc @ [f x]) xs acc = acc @ map f xs"
  by (induction xs arbitrary: acc) auto

lemma BuildSectors_map:
  "BuildSectors sw sh ch cv =
     map (\<lambda>i. map (\<lambda>j. SightSector (int j) (int i) (fmul sw (of_nat i)) (fmul sh (of_nat j)))
       [0..<ch]) [0..<cv]"
  by (simp add: BuildSectors_def fold_push_back)

text \<open>The shape every operation on the sectors keeps.\<close>

definition wf_grid :: "sight_manager \<Rightarrow> bool" where
  "wf_grid m \<longleftrightarrow> sizeWorldH m = 64000 \<and> sizeWorldV m = 64000
     \<and> sizeSectorH m = 480 \<and> sizeSectorV m = 480
     \<and> length (mySectors m) = 134 \<and> (\<forall>row \<in> set (mySectors m). length row = 134)
     \<and> (\<forall>y < 134. \<forall>x < 134. finite (mySight (mySectors m ! y ! x)))"

definition valid_ref :: "sector_ref \<Rightarrow> bool" where
  "valid_ref r \<longleftrightarrow> fst r < 134 \<and> snd r < 134"

lemma ceiling_world: "\<lceil>fdiv 64000 480\<rceil> = 134"
proof (rule ceiling_unique)
  have "is_f32 (267 / 2)" using is_f32_scaled [of 267 1] by simp
  then show "fdiv 64000 480 \<le> of_int 134"
    using f32_le_bound [of "64000 / 480" "267 / 2"] by (simp add: fdiv_def)
  have "is_f32 (533 / 4)" using is_f32_scaled [of 533 2] by simp
  then show "of_int 134 - 1 < fdiv 64000 480"
    using f32_ge_bound [of "533 / 4" "64000 / 480"] by (simp add: fdiv_def)
qed

lemma world_grid_counts:
  "countHrzSectors world_grid = 134" "countVrtSectors world_grid = 134"
  by (simp_all add: world_grid_def SightManager_def Let_def const_simps ceiling_world)

lemma wf_world_grid: "wf_grid world_grid"
  by (auto simp: wf_grid_def world_grid_def SightManager_def Let_def const_simps ceiling_world
      BuildSectors_map SightSector_def)

lemma world_grid_empty: "valid_ref r \<Longrightarrow> mySight (sector_at world_grid r) = {}"
  by (simp add: valid_ref_def sector_at_def world_grid_def SightManager_def Let_def const_simps
      ceiling_world BuildSectors_map SightSector_def)

lemma world_grid_free: "valid_ref r \<Longrightarrow> \<not> isOwned (sector_at world_grid r)"
  by (simp add: valid_ref_def sector_at_def world_grid_def SightManager_def Let_def const_simps
      ceiling_world BuildSectors_map SightSector_def)

lemma wf_grid_sizes:
  assumes "wf_grid m"
  shows "sizeSectorH m = 480" "sizeSectorV m = 480" "sizeWorldH m = 64000"
    "sizeWorldV m = 64000" "length (mySectors m) = 134"
    "y < 134 \<Longrightarrow> length (mySectors m ! y) = 134"
  using assms by (auto simp: wf_grid_def)

lemma At_iff:
  assumes "wf_grid m"
  shows "At m x y = (if 0 \<le> y \<and> y < 134 \<and> 0 \<le> x \<and> x < 134 then Inr (nat y, nat x)
    else Inl OutOfRange)"
  using wf_grid_sizes [OF assms] by (auto simp: At_def nat_less_iff)

lemma sector_at_update [simp]:
  assumes "wf_grid m" and "valid_ref r" and "valid_ref r'"
  shows "sector_at (update_sector r f m) r' = (if r = r' then f (sector_at m r) else sector_at m r')"
  using assms wf_grid_sizes [OF assms(1)]
  by (cases r; cases r') (auto simp: sector_at_def update_sector_def valid_ref_def nth_list_update)

lemma wf_update_sector:
  assumes "wf_grid m" and "valid_ref r" and "finite (mySight (f (sector_at m r)))"
  shows "wf_grid (update_sector r f m)"
  using assms unfolding wf_grid_def
  by (auto simp: update_sector_def valid_ref_def nth_list_update sector_at_def
      dest!: set_update_subset_insert [THEN subsetD])

lemma finite_sector: "wf_grid m \<Longrightarrow> valid_ref r \<Longrightarrow> finite (mySight (sector_at m r))"
  by (auto simp: wf_grid_def valid_ref_def sector_at_def)

subsection \<open>From positions to sectors\<close>

text \<open>The row or column a coordinate falls into.\<close>

definition cell :: "rat \<Rightarrow> int" where
  "cell p = std_clamp (to_int32 (fdiv p 480)) 0 1999"

lemma PickCoords_cell: "wf_grid m \<Longrightarrow> PickCoords m x y = (cell y, cell x)"
  by (simp add: PickCoords_def cell_def wf_grid_sizes const_simps)

lemma to_int32_le: "x \<le> of_int n \<Longrightarrow> - (2 ^ 31) \<le> n \<Longrightarrow> to_int32 x \<le> n"
proof -
  assume "x \<le> of_int n" and n: "- (2 ^ 31) \<le> n"
  then have "truncate_rat x \<le> truncate_rat (of_int n)" by (intro truncate_rat_mono)
  also have "\<dots> = n" by (simp add: truncate_rat_def)
  finally show ?thesis using n by (simp add: to_int32_def Let_def)
qed

lemma cell_nonneg: "0 \<le> cell p"
  by (simp add: cell_def std_clamp_def)

lemma fdiv_480_less:
  assumes "p \<le> of_int (480 * k) - 15" and "0 \<le> k" and "k < 2 ^ 10"
  shows "fdiv p 480 \<le> of_int k - 1 / 32"
proof -
  have "p / 480 \<le> of_int (32 * k - 1) / 2 ^ 5" using assms(1) by (simp add: field_simps)
  moreover have "is_f32 (of_int (32 * k - 1) / 2 ^ 5)"
    using assms by (intro is_f32_scaled) auto
  ultimately have "fdiv p 480 \<le> of_int (32 * k - 1) / 2 ^ 5"
    unfolding fdiv_def by (rule f32_le_bound)
  then show ?thesis by (simp add: field_simps)
qed

lemma truncate_rat_less: "x < of_int k \<Longrightarrow> 0 < k \<Longrightarrow> truncate_rat x < k"
  by (auto simp: truncate_rat_def floor_less_iff ceiling_le_zero
      intro: le_less_trans [of _ 0])

lemma to_int32_less: "x < of_int k \<Longrightarrow> 0 < k \<Longrightarrow> to_int32 x < k"
  using truncate_rat_less [of x k] by (simp add: to_int32_def Let_def)

lemma cell_less:
  assumes "p \<le> of_int (480 * k) - 15" and "0 < k" and "k < 2 ^ 10"
  shows "cell p < k"
proof -
  have "fdiv p 480 < of_int k" using fdiv_480_less [of p k] assms by simp
  then have "to_int32 (fdiv p 480) < k" using assms(2) by (rule to_int32_less)
  then show ?thesis using assms(2) by (simp add: cell_def std_clamp_def)
qed

lemma cell_ge:
  assumes "of_int (480 * k) \<le> p" and "0 \<le> k" and "k \<le> 1999" and "p \<le> 2 ^ 31"
  shows "k \<le> cell p"
proof -
  have "of_int k \<le> fdiv p 480" unfolding fdiv_def
    using assms by (intro f32_ge_bound is_f32_int) (auto simp: field_simps)
  moreover have "fdiv p 480 \<le> 2 ^ 23" unfolding fdiv_def
    using assms is_f32_int [of "2 ^ 23"] by (intro f32_le_bound) (auto simp: field_simps)
  moreover have "(0::rat) \<le> of_int k" using assms(2) by simp
  ultimately have "to_int32 (fdiv p 480) = truncate_rat (fdiv p 480)"
    by (intro to_int32_exact) auto
  moreover have "k \<le> truncate_rat (fdiv p 480)"
    using \<open>of_int k \<le> fdiv p 480\<close> \<open>(0::rat) \<le> of_int k\<close>
    by (simp add: truncate_rat_def le_floor_iff)
  ultimately have "k \<le> to_int32 (fdiv p 480)" by simp
  then show ?thesis using assms by (simp add: cell_def std_clamp_def)
qed

lemma cell_eq:
  assumes "of_int (480 * k) \<le> p" and "p \<le> of_int (480 * k) + 465" and "0 \<le> k" and "k \<le> 133"
  shows "cell p = k"
proof -
  have "p \<le> of_int (480 * (k + 1)) - 15" using assms(2) by (simp add: algebra_simps)
  then have "cell p < k + 1" using assms(3,4) by (intro cell_less) auto
  moreover have "k \<le> cell p"
  proof (rule cell_ge)
    have "(of_int (480 * k) :: rat) \<le> of_int 63840" using assms(4) by (simp only: of_int_le_iff)
    then show "p \<le> 2 ^ 31" using assms(2) by simp
  qed (use assms in auto)
  ultimately show ?thesis by simp
qed

lemma cell_in_grid: "p \<le> 64305 \<Longrightarrow> cell p \<le> 133"
  using cell_less [of p 134] by simp

lemma cell_mono:
  assumes "x \<le> y" and "y \<le> 2 ^ 31" and "- (2 ^ 31) \<le> x"
  shows "cell x \<le> cell y"
proof -
  have b: "is_f32 (of_int (2 ^ 23))" "is_f32 (of_int (- (2 ^ 23)))"
    by (intro is_f32_int; simp)+
  have "fdiv x 480 \<le> fdiv y 480" unfolding fdiv_def
    using assms(1) by (intro f32_mono divide_right_mono) auto
  moreover have "fdiv y 480 \<le> 2 ^ 23" unfolding fdiv_def
    using assms(2) f32_le_bound [OF _ b(1)] by simp
  moreover have "- (2 ^ 23) \<le> fdiv x 480" unfolding fdiv_def
    using assms(3) f32_ge_bound [OF _ b(2), of "x / 480"] by simp
  ultimately have "to_int32 (fdiv x 480) \<le> to_int32 (fdiv y 480)"
    by (simp add: to_int32_exact truncate_rat_mono)
  then show ?thesis by (simp add: cell_def std_clamp_def)
qed

lemma AtByPosition_cell:
  "wf_grid m \<Longrightarrow> AtByPosition m x y = At m (cell y) (cell x)"
  by (simp add: AtByPosition_def At_pair_def PickCoords_cell)

text \<open>The lookup of a position inside the world, or as far outside as the corners of a
  view reach, never throws: it gives a sector of the grid, the one in the position's row
  and column with the two exchanged.\<close>

theorem at_by_position_total:
  assumes "wf_grid m" and "x \<le> 64305" and "y \<le> 64305"
  shows "AtByPosition m x y = Inr (nat (cell x), nat (cell y))
    \<and> valid_ref (nat (cell x), nat (cell y))"
  using assms cell_in_grid [of x] cell_in_grid [of y] cell_nonneg [of x] cell_nonneg [of y]
  by (auto simp: AtByPosition_cell At_iff valid_ref_def)

theorem at_by_position_total_witness:
  "AtByPosition world_grid 1000 64000 = Inr (nat (cell 1000), nat (cell 64000))"
  using at_by_position_total [OF wf_world_grid, of 1000 64000] by simp

text \<open>A position beyond the last sector throws \<open>std::out_of_range\<close>: \<open>PickCoords\<close> clamps
  to the 2000 cells of the world, not to the 134 sectors.\<close>

theorem at_by_position_throws:
  assumes "wf_grid m" and "64320 \<le> x \<or> 64320 \<le> y" and "x \<le> 2 ^ 31" and "y \<le> 2 ^ 31"
  shows "AtByPosition m x y = Inl OutOfRange"
proof -
  from assms(2) have "134 \<le> cell x \<or> 134 \<le> cell y"
    using cell_ge [of 134 x] cell_ge [of 134 y] assms(3,4) by auto
  then show ?thesis using assms(1) by (auto simp: AtByPosition_cell At_iff)
qed

theorem at_by_position_throws_witness:
  "AtByPosition world_grid 70000 0 = Inl OutOfRange"
  using at_by_position_throws [OF wf_world_grid, of 70000 0] by simp

end
