(* ===== verification/Entity.thy ===== *)
theory Entity
  imports Protocol
begin

section \<open>Bodies in the world\<close>

text \<open>
  \<open>WorldServer/GameObject\<close> and \<open>WorldServer/PlayerCharacter\<close>: position, bounding box,
  movement inside the world and the collision test. \<open>Session\<close> has the same operations
  over its own fields, so what they promise is stated once, in the locales \<open>moving_body\<close>
  and \<open>boxed_body\<close>, and both are instances.
\<close>

subsection \<open>The contract of movement\<close>

text \<open>
  The four moves step by a distance, stop 8 units from the world's border, report whether
  they changed the position, and touch one coordinate only.
\<close>

locale moving_body =
  fixes px :: "'s \<Rightarrow> rat" and py :: "'s \<Rightarrow> rat"
    and lt :: "'s \<Rightarrow> rat \<Rightarrow> bool \<times> 's" and rt :: "'s \<Rightarrow> rat \<Rightarrow> bool \<times> 's"
    and up :: "'s \<Rightarrow> rat \<Rightarrow> bool \<times> 's" and dw :: "'s \<Rightarrow> rat \<Rightarrow> bool \<times> 's"
  assumes lt_px: "px (snd (lt s d)) = (if 8 < fsub (px s) d then fsub (px s) d else 8)"
    and lt_py: "py (snd (lt s d)) = py s"
    and lt_moved: "fst (lt s d) \<longleftrightarrow> 8 < fsub (px s) d \<or> px s \<noteq> 8"
    and rt_px: "px (snd (rt s d)) = (if fadd (px s) d < 63992 then fadd (px s) d else 63992)"
    and rt_py: "py (snd (rt s d)) = py s"
    and rt_moved: "fst (rt s d) \<longleftrightarrow> fadd (px s) d < 63992 \<or> px s \<noteq> 63992"
    and up_py: "py (snd (up s d)) = (if 8 < fsub (py s) d then fsub (py s) d else 8)"
    and up_px: "px (snd (up s d)) = px s"
    and up_moved: "fst (up s d) \<longleftrightarrow> 8 < fsub (py s) d \<or> py s \<noteq> 8"
    and dw_py: "py (snd (dw s d)) = (if fadd (py s) d < 63992 then fadd (py s) d else 63992)"
    and dw_px: "px (snd (dw s d)) = px s"
    and dw_moved: "fst (dw s d) \<longleftrightarrow> fadd (py s) d < 63992 \<or> py s \<noteq> 63992"
begin

lemmas steps = lt_px lt_py rt_px rt_py up_px up_py dw_px dw_py

definition coords_within :: "rat \<Rightarrow> rat \<Rightarrow> 's \<Rightarrow> bool" where
  "coords_within lo hi s \<longleftrightarrow>
     is_f32 (px s) \<and> is_f32 (py s) \<and> lo \<le> px s \<and> px s \<le> hi \<and> lo \<le> py s \<and> py s \<le> hi"

lemma sub_le: "0 \<le> d \<Longrightarrow> is_f32 x \<Longrightarrow> fsub x d \<le> x"
  unfolding fsub_def by (rule f32_le_bound) auto

lemma add_ge: "0 \<le> d \<Longrightarrow> is_f32 x \<Longrightarrow> x \<le> fadd x d"
  unfolding fadd_def by (rule f32_ge_bound) auto

lemma moves_within:
  assumes "coords_within lo hi s" and "0 \<le> d" and "lo \<le> 8" and "63992 \<le> hi"
  shows "coords_within lo hi (snd (lt s d))" "coords_within lo hi (snd (rt s d))"
    "coords_within lo hi (snd (up s d))" "coords_within lo hi (snd (dw s d))"
  using assms sub_le [OF assms(2), of "px s"] sub_le [OF assms(2), of "py s"]
    add_ge [OF assms(2), of "px s"] add_ge [OF assms(2), of "py s"]
  by (auto simp: coords_within_def steps)

text \<open>A move to one side and back ends where it began, away from the border.\<close>

lemma rt_lt_back:
  assumes "px s = of_int n" and "0 \<le> k" and "8 < n" and "n + k < 63992"
  shows "px (snd (lt (snd (rt s (of_int k))) (of_int k))) = px s"
proof -
  have s: "fadd (of_int n) (of_int k) = of_int (n + k)" unfolding fadd_def
    using assms is_f32_int [of "n + k"] by (simp add: is_f32_def)
  moreover have "fsub (of_int (n + k)) (of_int k) = of_int n" unfolding fsub_def
    using assms is_f32_int [of n] by (simp add: is_f32_def)
  moreover have "(of_int (n + k) :: rat) < of_int 63992" "(of_int 8 :: rat) < of_int n"
    using assms by (simp_all only: of_int_less_iff)
  ultimately show ?thesis using assms(1) by (simp add: steps)
qed

lemma lt_moves_left:
  assumes "coords_within 8 63992 s" and "0 < d" and "is_f32 (px s - d)"
  shows "fst (lt s d) \<longleftrightarrow> px (snd (lt s d)) < px s"
  using assms by (auto simp: coords_within_def lt_moved lt_px fsub_def is_f32_def)

end

subsection \<open>The contract of collision\<close>

locale boxed_body =
  fixes left :: "'s \<Rightarrow> rat" and top :: "'s \<Rightarrow> rat" and right :: "'s \<Rightarrow> rat" and bottom :: "'s \<Rightarrow> rat"
    and hits :: "'s \<Rightarrow> 's \<Rightarrow> bool"
  assumes hits_iff: "hits a b \<longleftrightarrow>
    \<not> (right b \<le> left a \<or> bottom b \<le> top a \<or> right a < left b \<or> bottom a < top b)"
begin

lemma hits_overlap:
  assumes "left a < right b" "left b < right a" "top a < bottom b" "top b < bottom a"
  shows "hits a b" and "hits b a"
  using assms by (auto simp: hits_iff)

lemma hits_apart:
  assumes "right a < left b \<or> right b < left a \<or> bottom a < top b \<or> bottom b < top a"
  shows "\<not> hits a b" and "\<not> hits b a"
  using assms by (auto simp: hits_iff)

text \<open>The test is asymmetric only where an edge of one box lies on an edge of the other.\<close>

lemma hits_asymmetric:
  assumes "hits a b" and "\<not> hits b a"
  shows "right a = left b \<or> bottom a = top b"
  using assms by (auto simp: hits_iff)

lemma hits_touching:
  assumes "right a = left b" "left a < right b" "top a < bottom b" "top b \<le> bottom a"
  shows "hits a b" and "\<not> hits b a"
  using assms by (auto simp: hits_iff)

end

subsection \<open>GameObject\<close>

record rect =
  r_left :: int
  r_top :: int
  r_right :: int
  r_bottom :: int

record game_object =
  g_myID :: pid
  g_category :: entity_category
  g_type :: entity_type
  g_level :: int
  g_hp :: int
  g_maxhp :: int
  g_mp :: int
  g_maxmp :: int
  g_armour :: int
  g_x :: rat
  g_y :: rat
  g_direction :: move_type
  g_box :: rect

definition GameObject :: "pid \<Rightarrow> rat \<Rightarrow> rat \<Rightarrow> game_object" where
  "GameObject i x y =
     \<lparr>g_myID = i, g_category = CAT_NONE, g_type = ENT_NONE, g_level = 0, g_hp = 1,
      g_maxhp = 1, g_mp = 0, g_maxmp = 0, g_armour = 0, g_x = x, g_y = y,
      g_direction = MV_RIGHT,
      g_box = \<lparr>r_left = -16, r_top = -16, r_right = 16, r_bottom = 16\<rparr>\<rparr>"

definition GameObject_at_origin :: "pid \<Rightarrow> game_object" where
  "GameObject_at_origin i = GameObject i 0 0"

definition g_SetBoundingBox :: "int \<Rightarrow> int \<Rightarrow> int \<Rightarrow> int \<Rightarrow> 'a game_object_scheme \<Rightarrow> 'a game_object_scheme" where
  "g_SetBoundingBox l t r b g =
     g\<lparr>g_box := \<lparr>r_left = l, r_top = t, r_right = r, r_bottom = b\<rparr>\<rparr>"

definition g_SetBoundingBox_rect :: "rect \<Rightarrow> 'a game_object_scheme \<Rightarrow> 'a game_object_scheme" where
  "g_SetBoundingBox_rect box g = g\<lparr>g_box := box\<rparr>"

definition g_GetBoundingLeft :: "'a game_object_scheme \<Rightarrow> rat" where
  "g_GetBoundingLeft g = fadd (g_x g) (f32 (of_int (r_left (g_box g))))"

definition g_GetBoundingTop :: "'a game_object_scheme \<Rightarrow> rat" where
  "g_GetBoundingTop g = fadd (g_y g) (f32 (of_int (r_top (g_box g))))"

definition g_GetBoundingRight :: "'a game_object_scheme \<Rightarrow> rat" where
  "g_GetBoundingRight g = fadd (g_x g) (f32 (of_int (r_right (g_box g))))"

definition g_GetBoundingBottom :: "'a game_object_scheme \<Rightarrow> rat" where
  "g_GetBoundingBottom g = fadd (g_y g) (f32 (of_int (r_bottom (g_box g))))"

definition g_CheckCollision :: "'a game_object_scheme \<Rightarrow> 'a game_object_scheme \<Rightarrow> bool" where
  "g_CheckCollision g other \<longleftrightarrow>
     \<not> (g_GetBoundingRight other \<le> g_GetBoundingLeft g
        \<or> g_GetBoundingBottom other \<le> g_GetBoundingTop g
        \<or> g_GetBoundingRight g < g_GetBoundingLeft other
        \<or> g_GetBoundingBottom g < g_GetBoundingTop other)"

definition g_TryMoveLT :: "'a game_object_scheme \<Rightarrow> rat \<Rightarrow> bool \<times> 'a game_object_scheme" where
  "g_TryMoveLT g distance =
     (if 8 < fsub (g_x g) distance then (True, g\<lparr>g_x := fsub (g_x g) distance\<rparr>)
      else if g_x g \<noteq> 8 then (True, g\<lparr>g_x := 8\<rparr>)
      else (False, g))"

definition g_TryMoveRT :: "'a game_object_scheme \<Rightarrow> rat \<Rightarrow> bool \<times> 'a game_object_scheme" where
  "g_TryMoveRT g distance =
     (if fadd (g_x g) distance < fsub WORLD_W 8 then (True, g\<lparr>g_x := fadd (g_x g) distance\<rparr>)
      else if g_x g \<noteq> fsub WORLD_W 8 then (True, g\<lparr>g_x := fsub WORLD_W 8\<rparr>)
      else (False, g))"

definition g_TryMoveUP :: "'a game_object_scheme \<Rightarrow> rat \<Rightarrow> bool \<times> 'a game_object_scheme" where
  "g_TryMoveUP g distance =
     (if 8 < fsub (g_y g) distance then (True, g\<lparr>g_y := fsub (g_y g) distance\<rparr>)
      else if g_y g \<noteq> 8 then (True, g\<lparr>g_y := 8\<rparr>)
      else (False, g))"

definition g_TryMoveDW :: "'a game_object_scheme \<Rightarrow> rat \<Rightarrow> bool \<times> 'a game_object_scheme" where
  "g_TryMoveDW g distance =
     (if fadd (g_y g) distance < fsub WORLD_H 8 then (True, g\<lparr>g_y := fadd (g_y g) distance\<rparr>)
      else if g_y g \<noteq> fsub WORLD_H 8 then (True, g\<lparr>g_y := fsub WORLD_H 8\<rparr>)
      else (False, g))"

lemma world_border [simp]: "fsub WORLD_W 8 = 63992" "fsub WORLD_H 8 = 63992"
  by (simp_all add: fsub_def const_simps)

interpretation game_object: moving_body g_x g_y g_TryMoveLT g_TryMoveRT g_TryMoveUP g_TryMoveDW
  by unfold_locales
    (auto simp: g_TryMoveLT_def g_TryMoveRT_def g_TryMoveUP_def g_TryMoveDW_def)

interpretation game_object: boxed_body g_GetBoundingLeft g_GetBoundingTop g_GetBoundingRight
    g_GetBoundingBottom g_CheckCollision
  by unfold_locales (simp add: g_CheckCollision_def)

subsection \<open>PlayerCharacter\<close>

text \<open>
  The derived class declares \<open>myCategory\<close> and \<open>myType\<close> again, so an object has both
  pairs; the inherited one keeps the values \<open>GameObject\<close> gives it.
\<close>

record player_character = game_object +
  pc_category :: entity_category
  pc_type :: entity_type

definition PlayerCharacter :: "pid \<Rightarrow> rat \<Rightarrow> rat \<Rightarrow> player_character" where
  "PlayerCharacter i x y = game_object.extend (GameObject i x y)
     \<lparr>pc_category = CAT_PLAYER, pc_type = PLAYER_WARRIOR\<rparr>"

text \<open>A player character seen through its base class has no category: the derived
  declaration hides the inherited member without setting it.\<close>

theorem player_character_shadows:
  "pc_category (PlayerCharacter i x y) = CAT_PLAYER
   \<and> g_category (PlayerCharacter i x y) = CAT_NONE
   \<and> g_type (PlayerCharacter i x y) = ENT_NONE"
  by (simp add: PlayerCharacter_def GameObject_def game_object.extend_def
      game_object.defs player_character.defs)

end
