(* ===== verification/Packets.thy ===== *)
theory Packets
  imports Protocol
begin

section \<open>Packets and their wire format\<close>

text \<open>
  The packet classes of \<open>Commons.hpp\<close> and the bytes they travel as. Under
  \<open>#pragma pack(1)\<close> and the x64 ABI a packet is its virtual table pointer (8 bytes, whose
  value is the sender's and means nothing to the receiver), \<open>Size\<close>, \<open>Type\<close>, the 8 bytes of
  \<open>playerID\<close> and the fields of the derived struct. A receiver looks at the bytes of its
  buffer through a pointer cast: the \<open>view_\<close> functions read the fields at their offsets.
\<close>

subsection \<open>Single-precision bit patterns\<close>

definition f32_bits :: "rat \<Rightarrow> nat" where
  "f32_bits x =
     (let m = nat \<lfloor>\<bar>x\<bar> * f32_unit\<rfloor>; s = floorlog 2 m - 24;
          sign = (if x < 0 then 2 ^ 31 else 0)
      in if m < 2 ^ 23 then sign + m
         else sign + (s + 1) * 2 ^ 23 + (m div 2 ^ s - 2 ^ 23))"

definition f32_of_bits :: "nat \<Rightarrow> rat" where
  "f32_of_bits b =
     (let e = b div 2 ^ 23 mod 2 ^ 8; f = b mod 2 ^ 23;
          m = (if e = 0 then f else (2 ^ 23 + f) * 2 ^ (e - 1));
          v = of_nat m / f32_unit
      in if b div 2 ^ 31 mod 2 = 1 then - v else v)"

subsection \<open>Packets\<close>

type_synonym wstring = "16 word list"

datatype packet_body =
  BNone
| BSignIn bytes
| BMove move_type u32
| BAttack move_type
| BAttackTarget pid u8
| BChat chat_type pid wstring
| BSignUp u32 u32
| BCreatePlayer bytes
| BAppear entity_category entity_type move_type int int int int int int rat rat
| BMoveChar rat rat move_type u32
| BSCChat chat_type wstring
| BSignInFailed login_error u32

record packet =
  Size :: u8
  Type :: packet_type
  playerID :: pid
  body :: packet_body

text \<open>\<open>sizeof\<close> of each class.\<close>

definition sizeof_Packet :: nat where "sizeof_Packet = 18"

fun sizeof_body :: "packet_body \<Rightarrow> nat" where
  "sizeof_body BNone = 0"
| "sizeof_body (BSignIn _) = 30"
| "sizeof_body (BMove _ _) = 5"
| "sizeof_body (BAttack _) = 1"
| "sizeof_body (BAttackTarget _ _) = 9"
| "sizeof_body (BChat _ _ _) = 209"
| "sizeof_body (BSignUp _ _) = 8"
| "sizeof_body (BCreatePlayer _) = 30"
| "sizeof_body (BAppear _ _ _ _ _ _ _ _ _ _ _) = 38"
| "sizeof_body (BMoveChar _ _ _ _) = 13"
| "sizeof_body (BSCChat _ _) = 201"
| "sizeof_body (BSignInFailed _ _) = 5"

definition mk_packet :: "packet_type \<Rightarrow> pid \<Rightarrow> packet_body \<Rightarrow> packet" where
  "mk_packet t i b =
     \<lparr>Size = word_of_nat (sizeof_Packet + sizeof_body b), Type = t, playerID = i, body = b\<rparr>"

text \<open>
  \<open>strcpy_s\<close> into an array of \<open>n\<close> characters calls the invalid-parameter handler (\<open>None\<close>)
  when the string and its terminator do not fit. \<open>lstrcpyn\<close> copies at most \<open>len - 1\<close>
  characters and terminates; \<open>None\<close> is a write past the array.
\<close>

definition strcpy_s :: "nat \<Rightarrow> bytes \<Rightarrow> bytes option" where
  "strcpy_s n s =
     (let t = takeWhile (\<lambda>c. c \<noteq> 0) s in
      if length t < n then Some (t @ replicate (n - length t) 0) else None)"

definition lstrcpyn :: "nat \<Rightarrow> wstring \<Rightarrow> int \<Rightarrow> wstring option" where
  "lstrcpyn n s len =
     (let t = take (nat (len - 1)) (takeWhile (\<lambda>c. c \<noteq> 0) s) in
      if len \<le> 0 then Some (replicate n 0)
      else if length t < n then Some (t @ replicate (n - length t) 0) else None)"

definition lstrcpy :: "nat \<Rightarrow> wstring \<Rightarrow> wstring option" where
  "lstrcpy n s =
     (let t = takeWhile (\<lambda>c. c \<noteq> 0) s in
      if length t < n then Some (t @ replicate (n - length t) 0) else None)"

definition CSPacketSignIn :: "bytes \<Rightarrow> packet option" where
  "CSPacketSignIn nickname =
     map_option (\<lambda>n. mk_packet CS_SIGNIN 0 (BSignIn n)) (strcpy_s 30 nickname)"

definition CSPacketSignOut :: "pid \<Rightarrow> packet" where
  "CSPacketSignOut pid = mk_packet CS_SIGNOUT pid BNone"

definition CSPacketMove :: "pid \<Rightarrow> move_type \<Rightarrow> packet" where
  "CSPacketMove pid dir = mk_packet CS_MOVE pid (BMove dir 0)"

definition CSPacketAttack :: "pid \<Rightarrow> move_type \<Rightarrow> packet" where
  "CSPacketAttack pid dir = mk_packet CS_ATTACK_NONTARGET pid (BAttack dir)"

definition CSPacketAttackTarget :: "pid \<Rightarrow> pid \<Rightarrow> u8 \<Rightarrow> packet" where
  "CSPacketAttackTarget pid target_id attack_type =
     mk_packet CS_ATTACK_TARGET pid (BAttackTarget target_id attack_type)"

definition CSPacketChatMessage :: "pid \<Rightarrow> pid \<Rightarrow> chat_type \<Rightarrow> wstring \<Rightarrow> int \<Rightarrow> packet option" where
  "CSPacketChatMessage fid tid type msg len =
     map_option (\<lambda>c. mk_packet CS_CHAT fid (BChat type tid c)) (lstrcpyn 100 msg len)"

text \<open>The overload without a length ignores the recipient it is given.\<close>

definition CSPacketChatMessage2 :: "pid \<Rightarrow> pid \<Rightarrow> chat_type \<Rightarrow> wstring \<Rightarrow> packet option" where
  "CSPacketChatMessage2 fid tid type msg =
     map_option (\<lambda>c. mk_packet CS_CHAT fid (BChat type 0 c)) (lstrcpy 100 msg)"

definition SCPacketSignUp :: "pid \<Rightarrow> u32 \<Rightarrow> u32 \<Rightarrow> packet" where
  "SCPacketSignUp nid users usersmax = mk_packet SC_SIGNUP nid (BSignUp users usersmax)"

text \<open>The constructor passes the size of another packet, \<open>SCPacketSignUp\<close>.\<close>

definition SCPacketSignOut :: "pid \<Rightarrow> packet" where
  "SCPacketSignOut pid = (mk_packet SC_SIGNOUT pid BNone)
     \<lparr>Size := word_of_nat (sizeof_Packet + sizeof_body (BSignUp 0 0))\<rparr>"

definition SCPacketCreatePlayer :: "pid \<Rightarrow> bytes \<Rightarrow> packet option" where
  "SCPacketCreatePlayer pid nickname =
     map_option (\<lambda>n. mk_packet SC_CREATE_PLAYER pid (BCreatePlayer n)) (strcpy_s 30 nickname)"

text \<open>The two constructors of \<open>SCPacketAppearEntity\<close>, whose members have initialisers.\<close>

definition SCPacketAppearEntity :: "pid \<Rightarrow> packet" where
  "SCPacketAppearEntity cid = mk_packet SC_APPEAR_OBJ cid
     (BAppear CAT_NONE ENT_NONE MV_NONE 0 1 1 0 0 0 0 0)"

definition SCPacketAppearEntity2 ::
  "pid \<Rightarrow> entity_category \<Rightarrow> entity_type \<Rightarrow> rat \<Rightarrow> rat \<Rightarrow> packet" where
  "SCPacketAppearEntity2 cid category type cx cy = mk_packet SC_APPEAR_OBJ cid
     (BAppear category type MV_NONE 0 1 1 0 0 0 cx cy)"

definition SCPacketMoveCharacter :: "pid \<Rightarrow> rat \<Rightarrow> rat \<Rightarrow> move_type \<Rightarrow> packet" where
  "SCPacketMoveCharacter cid nx ny dir = mk_packet SC_MOVE_OBJ cid (BMoveChar nx ny dir 0)"

definition SCPacketDisppearCharacter :: "pid \<Rightarrow> packet" where
  "SCPacketDisppearCharacter cid = mk_packet SC_DISAPPEAR_OBJ cid BNone"

definition SCPacketChatMessage :: "pid \<Rightarrow> chat_type \<Rightarrow> wstring \<Rightarrow> int \<Rightarrow> packet option" where
  "SCPacketChatMessage tid type msg len =
     map_option (\<lambda>c. mk_packet SC_CHAT tid (BSCChat type c)) (lstrcpyn 100 msg len)"

definition SCPacketChatMessage2 :: "pid \<Rightarrow> chat_type \<Rightarrow> wstring \<Rightarrow> packet option" where
  "SCPacketChatMessage2 tid type msg =
     map_option (\<lambda>c. mk_packet SC_CHAT tid (BSCChat type c)) (lstrcpy 100 msg)"

definition SCPacketSignInFailed :: "pid \<Rightarrow> login_error \<Rightarrow> u32 \<Rightarrow> packet" where
  "SCPacketSignInFailed pid reason users =
     mk_packet SC_SIGNIN_FAILED pid (BSignInFailed reason users)"

subsection \<open>Bytes of a packet\<close>

abbreviation u32_bytes :: "u32 \<Rightarrow> bytes" where "u32_bytes w \<equiv> le_bytes 4 (unat w)"
abbreviation int_bytes :: "int \<Rightarrow> bytes" where "int_bytes i \<equiv> le_bytes 4 (unsigned_of 4 i)"
abbreviation pid_bytes :: "pid \<Rightarrow> bytes" where "pid_bytes i \<equiv> le_bytes 8 (unsigned_of 8 i)"
abbreviation f32_bytes :: "rat \<Rightarrow> bytes" where "f32_bytes x \<equiv> le_bytes 4 (f32_bits x)"

definition wide_bytes :: "wstring \<Rightarrow> bytes" where
  "wide_bytes s = concat (map (\<lambda>c. le_bytes 2 (unat c)) s)"

fun body_bytes :: "packet_body \<Rightarrow> bytes" where
  "body_bytes BNone = []"
| "body_bytes (BSignIn n) = n"
| "body_bytes (BMove d t) = [move_code d] @ u32_bytes t"
| "body_bytes (BAttack d) = [move_code d]"
| "body_bytes (BAttackTarget i a) = pid_bytes i @ [a]"
| "body_bytes (BChat t i c) = [chat_code t] @ pid_bytes i @ wide_bytes c"
| "body_bytes (BSignUp u m) = u32_bytes u @ u32_bytes m"
| "body_bytes (BCreatePlayer n) = n"
| "body_bytes (BAppear c e d lv hp mhp mp mmp am x y) =
     [category_code c] @ u32_bytes (entity_code e) @ [move_code d] @ int_bytes lv
     @ int_bytes hp @ int_bytes mhp @ int_bytes mp @ int_bytes mmp @ int_bytes am
     @ f32_bytes x @ f32_bytes y"
| "body_bytes (BMoveChar x y d t) = f32_bytes x @ f32_bytes y @ [move_code d] @ u32_bytes t"
| "body_bytes (BSCChat t c) = [chat_code t] @ wide_bytes c"
| "body_bytes (BSignInFailed r u) = [login_error_code r] @ u32_bytes u"

definition packet_bytes :: "u64 \<Rightarrow> packet \<Rightarrow> bytes" where
  "packet_bytes vptr p =
     le_bytes 8 (unat vptr) @ [Size p, packet_code (Type p)] @ pid_bytes (playerID p)
     @ body_bytes (body p)"

text \<open>
  What a send transmits: \<open>Size\<close> bytes from the packet's address, so bytes of the memory
  after the packet when \<open>Size\<close> is too large.
\<close>

definition sent_bytes :: "u64 \<Rightarrow> packet \<Rightarrow> bytes \<Rightarrow> bytes" where
  "sent_bytes vptr p after = take (unat (Size p)) (packet_bytes vptr p @ after)"

subsection \<open>Looking at bytes as a packet\<close>

definition view_size :: "bytes \<Rightarrow> u8" where "view_size bs = byte_at bs 8"
definition view_type :: "bytes \<Rightarrow> packet_type" where
  "view_type bs = packet_of_code (byte_at bs 9)"
definition view_pid :: "bytes \<Rightarrow> pid" where "view_pid bs = signed_of 8 (read_le bs 10 8)"

definition view_byte :: "bytes \<Rightarrow> nat \<Rightarrow> u8" where "view_byte bs i = byte_at bs (18 + i)"
definition view_u32 :: "bytes \<Rightarrow> nat \<Rightarrow> u32" where
  "view_u32 bs i = word_of_nat (read_le bs (18 + i) 4)"
definition view_int :: "bytes \<Rightarrow> nat \<Rightarrow> int" where
  "view_int bs i = signed_of 4 (read_le bs (18 + i) 4)"
definition view_f32 :: "bytes \<Rightarrow> nat \<Rightarrow> rat" where
  "view_f32 bs i = f32_of_bits (read_le bs (18 + i) 4)"

definition view_wide :: "bytes \<Rightarrow> nat \<Rightarrow> nat \<Rightarrow> wstring" where
  "view_wide bs i n = map (\<lambda>k. word_of_nat (read_le bs (18 + i + 2 * k) 2)) [0..<n]"

fun view_body :: "packet_type \<Rightarrow> bytes \<Rightarrow> packet_body" where
  "view_body CS_SIGNIN bs = BSignIn (take 30 (drop 18 bs))"
| "view_body CS_MOVE bs = BMove (move_of_code (view_byte bs 0)) (view_u32 bs 1)"
| "view_body CS_ATTACK_NONTARGET bs = BAttack (move_of_code (view_byte bs 0))"
| "view_body CS_ATTACK_TARGET bs =
     BAttackTarget (signed_of 8 (read_le bs 18 8)) (view_byte bs 8)"
| "view_body CS_CHAT bs =
     BChat (chat_of_code (view_byte bs 0)) (signed_of 8 (read_le bs 19 8)) (view_wide bs 9 100)"
| "view_body SC_SIGNUP bs = BSignUp (view_u32 bs 0) (view_u32 bs 4)"
| "view_body SC_CREATE_PLAYER bs = BCreatePlayer (take 30 (drop 18 bs))"
| "view_body SC_APPEAR_OBJ bs =
     BAppear (category_of_code (view_byte bs 0)) (entity_of_code (view_u32 bs 1))
       (move_of_code (view_byte bs 5)) (view_int bs 6) (view_int bs 10) (view_int bs 14)
       (view_int bs 18) (view_int bs 22) (view_int bs 26) (view_f32 bs 30) (view_f32 bs 34)"
| "view_body SC_MOVE_OBJ bs =
     BMoveChar (view_f32 bs 0) (view_f32 bs 4) (move_of_code (view_byte bs 8)) (view_u32 bs 9)"
| "view_body SC_CHAT bs = BSCChat (chat_of_code (view_byte bs 0)) (view_wide bs 1 100)"
| "view_body SC_SIGNIN_FAILED bs =
     BSignInFailed (login_error_of_code (view_byte bs 0)) (view_u32 bs 1)"
| "view_body _ bs = BNone"

definition view_packet :: "bytes \<Rightarrow> packet" where
  "view_packet bs = \<lparr>Size = view_size bs, Type = view_type bs, playerID = view_pid bs,
     body = view_body (view_type bs) bs\<rparr>"

subsection \<open>Round trips\<close>

lemma f32_decode_fields:
  assumes "e < 256" and "f < 2 ^ 23" and "g \<le> 1"
  shows "f32_of_bits (g * 2 ^ 31 + e * 2 ^ 23 + f) =
    (let v = of_nat (if e = 0 then f else (2 ^ 23 + f) * 2 ^ (e - 1)) / f32_unit
     in if g = 1 then - v else v)"
proof -
  let ?b = "g * 2 ^ 31 + e * 2 ^ 23 + f"
  have b: "?b = f + (e + g * 2 ^ 8) * 2 ^ 23" by (simp add: algebra_simps)
  have "?b mod 2 ^ 23 = f"
    using assms(2) by (simp only: b mod_mult_self1 mod_less)
  moreover have d: "?b div 2 ^ 23 = e + g * 2 ^ 8"
    using assms(2) div_mult_self1 [of "2 ^ 23" f "e + g * 2 ^ 8"] by (simp only: b) simp
  moreover from d have "?b div 2 ^ 23 mod 2 ^ 8 = e" using assms(1) by simp
  moreover have "?b div 2 ^ 31 = ?b div 2 ^ 23 div 2 ^ 8" by (simp add: div_mult2_eq [symmetric])
  then have "?b div 2 ^ 31 = g" using d assms(1) by simp
  ultimately show ?thesis using assms(3) by (auto simp: f32_of_bits_def Let_def)
qed

lemma is_f32_digits:
  assumes "is_f32 x" and "0 \<le> x"
  obtains r where "x * f32_unit = of_nat (r * 2 ^ f32_shift (x * f32_unit))" and "r < 2 ^ 24"
    and "0 < f32_shift (x * f32_unit) \<Longrightarrow> 2 ^ 23 \<le> r"
proof -
  let ?X = "x * f32_unit" let ?s = "f32_shift ?X" let ?n = "rne (?X / 2 ^ ?s)"
  have X0: "0 \<le> ?X" using assms(2) by (simp add: f32_unit_def)
  have "f32_round ?X = ?X" using assms(1) by (simp add: is_f32_def f32_def f32_unit_def)
  then have X: "?X = of_int ?n * 2 ^ ?s" by (simp add: f32_round_def)
  have n0: "0 \<le> ?n" using X0 by (intro rne_ge) simp
  have "of_int ?n * (2::rat) ^ ?s < 2 ^ 24 * 2 ^ ?s"
    using f32_shift_less [OF X0] X by (simp add: power_add)
  then have "(of_int ?n :: rat) < of_int (2 ^ 24)" by simp
  then have lt: "?n < 2 ^ 24" by (simp only: of_int_less_iff)
  have ge: "2 ^ 23 \<le> ?n" if "0 < ?s"
  proof -
    have "2 ^ 23 * 2 ^ ?s \<le> of_int ?n * (2::rat) ^ ?s"
      using f32_shift_ge [OF X0 that] X by (simp add: power_add)
    then have "of_int (2 ^ 23) \<le> (of_int ?n :: rat)" by simp
    then show ?thesis by (simp only: of_int_le_iff)
  qed
  show thesis
  proof (rule that [of "nat ?n"])
    show "?X = of_nat (nat ?n * 2 ^ ?s)" using X n0 by simp
    show "nat ?n < 2 ^ 24" using lt by (simp add: nat_less_iff)
    show "2 ^ 23 \<le> nat ?n" if "0 < ?s" using ge [OF that] by (simp add: le_nat_iff)
  qed
qed

lemma f32_bits_fields:
  assumes "is_f32 x" and "\<bar>x\<bar> < 2 ^ 128"
  obtains g e f where "f32_bits x = g * 2 ^ 31 + e * 2 ^ 23 + f" and "e < 255"
    and "f < 2 ^ 23" and "g = (if x < 0 then 1 else 0)"
    and "\<bar>x\<bar> = of_nat (if e = 0 then f else (2 ^ 23 + f) * 2 ^ (e - 1)) / f32_unit"
proof -
  have ax: "is_f32 \<bar>x\<bar>" using assms(1) f32_minus [of x] by (simp add: is_f32_def abs_if)
  obtain r where r: "\<bar>x\<bar> * f32_unit = of_nat (r * 2 ^ f32_shift (\<bar>x\<bar> * f32_unit))"
      "r < 2 ^ 24" "0 < f32_shift (\<bar>x\<bar> * f32_unit) \<Longrightarrow> 2 ^ 23 \<le> r"
    using is_f32_digits [OF ax] by auto
  define s where "s = f32_shift (\<bar>x\<bar> * f32_unit)"
  define m where "m = r * 2 ^ s"
  have m: "\<bar>x\<bar> * f32_unit = of_nat m" using r(1) by (simp add: m_def s_def)
  then have fl: "nat \<lfloor>\<bar>x\<bar> * f32_unit\<rfloor> = m" by simp
  have s: "s = floorlog 2 m - 24" using m by (simp add: s_def f32_shift_def)
  have "s \<le> 253" unfolding s_def
  proof (rule f32_shift_leI)
    have "\<bar>x\<bar> * f32_unit < 2 ^ 128 * 2 ^ 149"
      using assms(2) by (simp add: f32_unit_def)
    then show "\<bar>\<bar>x\<bar> * f32_unit\<bar> < 2 ^ (24 + 253)" by (simp add: f32_unit_def)
  qed
  have x: "\<bar>x\<bar> = of_nat m / f32_unit" using m by (simp add: f32_unit_def field_simps)
  have bits: "f32_bits x = (let sign = (if x < 0 then 2 ^ 31 else 0)
      in if m < 2 ^ 23 then sign + m else sign + (s + 1) * 2 ^ 23 + (r - 2 ^ 23))"
    by (simp add: f32_bits_def Let_def fl s [symmetric]) (simp add: m_def)
  show thesis
  proof (cases "m < 2 ^ 23")
    case True
    show ?thesis
      by (rule that [of "if x < 0 then 1 else 0" 0 m])
         (use True bits x in \<open>simp_all add: Let_def\<close>)
  next
    case False
    have r23: "2 ^ 23 \<le> r"
    proof (cases "s = 0")
      case True
      with False show ?thesis by (simp add: m_def)
    next
      case False
      then show ?thesis using r(3) by (simp add: s_def)
    qed
    show ?thesis
      by (rule that [of "if x < 0 then 1 else 0" "s + 1" "r - 2 ^ 23"])
         (use False bits x r23 r(2) \<open>s \<le> 253\<close> in \<open>simp_all add: Let_def m_def\<close>)
  qed
qed

lemma f32_bits_bound: "is_f32 x \<Longrightarrow> \<bar>x\<bar> < 2 ^ 128 \<Longrightarrow> f32_bits x < 256 ^ 4"
  by (erule (1) f32_bits_fields) (auto split: if_splits)

lemma f32_bits_round_trip:
  assumes "is_f32 x" and "\<bar>x\<bar> < 2 ^ 128"
  shows "f32_of_bits (f32_bits x) = x"
proof -
  obtain g e f where b: "f32_bits x = g * 2 ^ 31 + e * 2 ^ 23 + f" "e < 255" "f < 2 ^ 23"
      "g = (if x < 0 then 1 else 0)"
      "\<bar>x\<bar> = of_nat (if e = 0 then f else (2 ^ 23 + f) * 2 ^ (e - 1)) / f32_unit"
    using assms by (rule f32_bits_fields)
  have "f32_of_bits (f32_bits x) = (if g = 1 then - \<bar>x\<bar> else \<bar>x\<bar>)"
    using b f32_decode_fields [of e f g] by (simp add: Let_def)
  with b(4) show ?thesis by auto
qed

definition in_range :: "nat \<Rightarrow> int \<Rightarrow> bool" where
  "in_range n i \<longleftrightarrow> - (256 ^ n) \<le> 2 * i \<and> 2 * i < 256 ^ n"

definition fits_f32 :: "rat \<Rightarrow> bool" where
  "fits_f32 x \<longleftrightarrow> is_f32 x \<and> \<bar>x\<bar> < 2 ^ 128"

text \<open>
  A well-formed packet: the values its C++ types can hold, named enumerators, arrays of
  their declared length.
\<close>

fun wf_body :: "packet_body \<Rightarrow> bool" where
  "wf_body BNone = True"
| "wf_body (BSignIn n) = (length n = 30)"
| "wf_body (BMove d t) = named_move d"
| "wf_body (BAttack d) = named_move d"
| "wf_body (BAttackTarget i a) = in_range 8 i"
| "wf_body (BChat t i c) = (named_chat t \<and> in_range 8 i \<and> length c = 100)"
| "wf_body (BSignUp u m) = True"
| "wf_body (BCreatePlayer n) = (length n = 30)"
| "wf_body (BAppear c e d lv hp mhp mp mmp am x y) =
     (named_category c \<and> named_entity e \<and> named_move d \<and> in_range 4 lv \<and> in_range 4 hp
      \<and> in_range 4 mhp \<and> in_range 4 mp \<and> in_range 4 mmp \<and> in_range 4 am
      \<and> fits_f32 x \<and> fits_f32 y)"
| "wf_body (BMoveChar x y d t) = (fits_f32 x \<and> fits_f32 y \<and> named_move d)"
| "wf_body (BSCChat t c) = (named_chat t \<and> length c = 100)"
| "wf_body (BSignInFailed r u) = named_login_error r"

text \<open>The body a packet of each type carries.\<close>

fun body_of_type :: "packet_type \<Rightarrow> packet_body \<Rightarrow> bool" where
  "body_of_type t BNone = (t = CS_SIGNOUT \<or> t = SC_SIGNOUT \<or> t = SC_DISAPPEAR_OBJ)"
| "body_of_type t (BSignIn _) = (t = CS_SIGNIN)"
| "body_of_type t (BMove _ _) = (t = CS_MOVE)"
| "body_of_type t (BAttack _) = (t = CS_ATTACK_NONTARGET)"
| "body_of_type t (BAttackTarget _ _) = (t = CS_ATTACK_TARGET)"
| "body_of_type t (BChat _ _ _) = (t = CS_CHAT)"
| "body_of_type t (BSignUp _ _) = (t = SC_SIGNUP)"
| "body_of_type t (BCreatePlayer _) = (t = SC_CREATE_PLAYER)"
| "body_of_type t (BAppear _ _ _ _ _ _ _ _ _ _ _) = (t = SC_APPEAR_OBJ)"
| "body_of_type t (BMoveChar _ _ _ _) = (t = SC_MOVE_OBJ)"
| "body_of_type t (BSCChat _ _) = (t = SC_CHAT)"
| "body_of_type t (BSignInFailed _ _) = (t = SC_SIGNIN_FAILED)"

definition wf_packet :: "packet \<Rightarrow> bool" where
  "wf_packet p \<longleftrightarrow> body_of_type (Type p) (body p) \<and> wf_body (body p) \<and> in_range 8 (playerID p)"

lemma length_wide_bytes [simp]: "length (wide_bytes s) = 2 * length s"
  by (induction s) (simp_all add: wide_bytes_def)

lemma length_body_bytes: "wf_body b \<Longrightarrow> length (body_bytes b) = sizeof_body b"
  by (cases b) auto

lemma length_packet_bytes: "length (packet_bytes v p) = sizeof_Packet + length (body_bytes (body p))"
  by (simp add: packet_bytes_def sizeof_Packet_def)

lemma pid_round_trip: "in_range 8 i \<Longrightarrow> signed_of 8 (unsigned_of 8 i) = i"
  using signed_round_trip [of 8 i] by (simp add: in_range_def)

lemma int_round_trip: "in_range 4 i \<Longrightarrow> signed_of 4 (unsigned_of 4 i) = i"
  using signed_round_trip [of 4 i] by (simp add: in_range_def)

text \<open>Reading a field whose bytes follow a prefix of known length.\<close>

lemma byte_at_prefix: "length xs = i \<Longrightarrow> byte_at (xs @ b # ys) i = b"
  by (auto simp: byte_at_def nth_append)

lemma read_le_prefix:
  "length xs = i \<Longrightarrow> length ys = n \<Longrightarrow> read_le (xs @ ys @ zs) i n = le_value ys"
  by (simp add: read_le_def)

lemma read_le_skip: "length xs \<le> i \<Longrightarrow> read_le (xs @ ys) i n = read_le ys (i - length xs) n"
  by (simp add: read_le_def)

lemma byte_at_skip: "length xs \<le> i \<Longrightarrow> byte_at (xs @ ys) i = byte_at ys (i - length xs)"
  by (auto simp: byte_at_def nth_append)

lemma read_le_skip1: "0 < i \<Longrightarrow> read_le (b # ys) i n = read_le ys (i - 1) n"
  by (cases i) (simp_all add: read_le_def)

lemma byte_at_skip1: "0 < i \<Longrightarrow> byte_at (b # ys) i = byte_at ys (i - 1)"
  by (cases i) (auto simp: byte_at_def)

lemma read_le_here: "length xs = n \<Longrightarrow> read_le (xs @ ys) 0 n = le_value xs"
  by (simp add: read_le_def)

lemma byte_at_here: "byte_at (b # ys) 0 = b"
  by (simp add: byte_at_def)

lemma le_value_u32 [simp]: "word_of_nat (le_value (u32_bytes w)) = w"
proof -
  have "unat w < 256 ^ 4" using unsigned_less [of w] by simp
  then show ?thesis by (simp only: le_value_round_trip) simp
qed

lemma le_value_pid [simp]: "in_range 8 i \<Longrightarrow> signed_of 8 (le_value (pid_bytes i)) = i"
  by (simp only: le_value_round_trip unsigned_of_bound pid_round_trip)

lemma le_value_int [simp]: "in_range 4 i \<Longrightarrow> signed_of 4 (le_value (int_bytes i)) = i"
  by (simp only: le_value_round_trip unsigned_of_bound int_round_trip)

lemma le_value_f32 [simp]: "fits_f32 x \<Longrightarrow> f32_of_bits (le_value (f32_bytes x)) = x"
  by (simp only: fits_f32_def le_value_round_trip f32_bits_bound f32_bits_round_trip)

lemmas field_reads = read_le_skip byte_at_skip read_le_skip1 byte_at_skip1
  read_le_here byte_at_here

lemma wide_read:
  assumes "k < length c"
  shows "read_le (wide_bytes c @ ys) (2 * k) 2 = unat (c ! k)"
  using assms
proof (induction c arbitrary: k)
  case Nil
  then show ?case by simp
next
  case (Cons w c)
  have w: "unat w < 256 ^ 2" using unsigned_less [of w] by simp
  have split: "wide_bytes (w # c) @ ys = le_bytes 2 (unat w) @ wide_bytes c @ ys"
    by (simp add: wide_bytes_def)
  show ?case
  proof (cases k)
    case 0
    then show ?thesis unfolding split using w
      by (simp only: mult_0_right read_le_here length_le_bytes le_value_round_trip)
         simp
  next
    case (Suc j)
    then have "read_le (wide_bytes c @ ys) (2 * j) 2 = unat (c ! j)"
      using Cons by simp
    with Suc show ?thesis unfolding split by (simp add: read_le_skip)
  qed
qed

lemma view_wide_bytes:
  assumes "length pre = 18 + i" and "length c = n"
  shows "view_wide (pre @ wide_bytes c @ ys) i n = c"
proof (rule nth_equalityI)
  show "length (view_wide (pre @ wide_bytes c @ ys) i n) = length c"
    by (simp add: view_wide_def assms)
next
  fix k assume "k < length (view_wide (pre @ wide_bytes c @ ys) i n)"
  then have k: "k < n" by (simp add: view_wide_def)
  have "read_le (pre @ wide_bytes c @ ys) (18 + i + 2 * k) 2 = unat (c ! k)"
    using assms k by (simp add: read_le_skip wide_read)
  with k show "view_wide (pre @ wide_bytes c @ ys) i n ! k = c ! k"
    by (simp add: view_wide_def)
qed

definition header_bytes :: "u64 \<Rightarrow> packet \<Rightarrow> bytes" where
  "header_bytes v p = le_bytes 8 (unat v) @ Size p # packet_code (Type p) # pid_bytes (playerID p)"

lemma length_header_bytes [simp]: "length (header_bytes v p) = 18"
  by (simp add: header_bytes_def)

lemma packet_bytes_header: "packet_bytes v p = header_bytes v p @ body_bytes (body p)"
  by (simp add: packet_bytes_def header_bytes_def)

lemma view_header:
  assumes "in_range 8 (playerID p)" and "named_packet_type (Type p)"
  shows "view_size (header_bytes v p @ xs) = Size p"
    and "view_type (header_bytes v p @ xs) = Type p"
    and "view_pid (header_bytes v p @ xs) = playerID p"
  using assms
  by (simp_all add: header_bytes_def view_size_def view_type_def view_pid_def field_reads)

lemma body_named_type: "body_of_type t b \<Longrightarrow> named_packet_type t"
  by (cases b) (auto simp: named_packet_type_def packet_types_def)

lemma view_body_bytes:
  assumes "body_of_type t b" and "wf_body b" and h: "length h = 18"
  shows "view_body t (h @ body_bytes b @ xs) = b"
proof (cases b)
  case BNone
  with assms show ?thesis by auto
next
  case (BChat c i w)
  have "view_wide ((h @ [chat_code c] @ pid_bytes i) @ wide_bytes w @ xs) 9 100 = w"
    by (rule view_wide_bytes) (use assms BChat h in simp_all)
  with BChat assms show ?thesis
    by (simp add: view_byte_def field_reads)
next
  case (BSCChat c w)
  have "view_wide ((h @ [chat_code c]) @ wide_bytes w @ xs) 1 100 = w"
    by (rule view_wide_bytes) (use assms BSCChat h in simp_all)
  with BSCChat assms show ?thesis
    by (simp add: view_byte_def field_reads)
qed (use assms in \<open>simp_all add: view_byte_def view_u32_def view_int_def view_f32_def
       field_reads\<close>)

subsection \<open>The properties\<close>

lemma view_packet_bytes:
  assumes "wf_packet p"
  shows "view_packet (packet_bytes vptr p @ rest) = p"
proof -
  have ty: "body_of_type (Type p) (body p)" and wb: "wf_body (body p)" and r: "in_range 8 (playerID p)"
    using assms by (simp_all add: wf_packet_def)
  have n: "named_packet_type (Type p)" using ty by (rule body_named_type)
  show ?thesis
    using view_header [OF r n, of vptr "body_bytes (body p) @ rest"]
      view_body_bytes [OF ty wb, of "header_bytes vptr p" rest]
    by (simp add: view_packet_def packet_bytes_header)
qed



definition size_is_exact :: "packet \<Rightarrow> bool" where
  "size_is_exact p \<longleftrightarrow> unat (Size p) = sizeof_Packet + sizeof_body (body p)"

lemma size_mk_packet: "sizeof_Packet + sizeof_body b < 256 \<Longrightarrow> size_is_exact (mk_packet t i b)"
  by (simp add: size_is_exact_def mk_packet_def unat_of_nat take_bit_nat_eq_self del: of_nat_add)

lemma sizeof_body_bound: "sizeof_Packet + sizeof_body b < 256"
  by (cases b) (simp_all add: sizeof_Packet_def)

lemmas exact_sizes = size_mk_packet [OF sizeof_body_bound]

text \<open>Every packet a constructor builds announces the number of bytes it occupies, in one
  byte and without wrapping, so that one packet's end is the next one's beginning; the only
  exception is \<open>SCPacketSignOut\<close>, which announces the 26 bytes of a sign-up packet for its
  own 18.\<close>

theorem constructor_sizes:
  "(\<forall>p \<in> {CSPacketSignOut i, CSPacketMove i d, CSPacketAttack i d, CSPacketAttackTarget i j a,
      SCPacketSignUp i u m, SCPacketAppearEntity i, SCPacketAppearEntity2 i c e x y,
      SCPacketMoveCharacter i x y d, SCPacketDisppearCharacter i, SCPacketSignInFailed i r u}.
      size_is_exact p)
   \<and> (\<forall>p \<in> set_option (CSPacketSignIn n) \<union> set_option (SCPacketCreatePlayer i n)
      \<union> set_option (CSPacketChatMessage i j ct w len) \<union> set_option (CSPacketChatMessage2 i j ct w)
      \<union> set_option (SCPacketChatMessage j ct w len) \<union> set_option (SCPacketChatMessage2 j ct w).
      size_is_exact p)
   \<and> \<not> size_is_exact (SCPacketSignOut i)"
proof (intro conjI ballI, goal_cases)
  case (1 p)
  then show ?case
    by (auto simp: CSPacketSignOut_def CSPacketMove_def CSPacketAttack_def exact_sizes
        CSPacketAttackTarget_def SCPacketSignUp_def SCPacketAppearEntity_def
        SCPacketAppearEntity2_def SCPacketMoveCharacter_def SCPacketDisppearCharacter_def
        SCPacketSignInFailed_def)
next
  case (2 p)
  then show ?case
    by (auto simp: CSPacketSignIn_def SCPacketCreatePlayer_def CSPacketChatMessage_def exact_sizes
        CSPacketChatMessage2_def SCPacketChatMessage_def SCPacketChatMessage2_def)
next
  case 3
  show ?case
    by (simp add: size_is_exact_def SCPacketSignOut_def mk_packet_def sizeof_Packet_def)
qed

theorem constructor_sizes_witness:
  "size_is_exact (SCPacketSignUp 200000 1 10000) \<and> \<not> size_is_exact (SCPacketSignOut 200000)"
  using constructor_sizes [of 200000 MV_UP 0 0 1 10000 CAT_MOB MOB_DEMON 0 0 LE_NONE "[]" CM_PLAIN "[]" 3]
  by simp

text \<open>A sign-out packet is sent with eight bytes of the memory behind it: what goes out is
  the whole packet followed by the first eight bytes that lie after it.\<close>

theorem sign_out_leaks_memory:
  "sent_bytes vptr (SCPacketSignOut i) after = packet_bytes vptr (SCPacketSignOut i) @ take 8 after"
  by (simp add: sent_bytes_def length_packet_bytes SCPacketSignOut_def mk_packet_def
      sizeof_Packet_def)

text \<open>The chat constructor without a length addresses its message to player 0 whoever the
  recipient was; the one with a length keeps the recipient. Both refuse text that does not fit
  the 100 characters or cut it.\<close>

theorem chat_recipient:
  "(CSPacketChatMessage2 fid tid ct msg = Some p \<longrightarrow>
      (\<exists>c. body p = BChat ct 0 c \<and> length c = 100))
   \<and> (CSPacketChatMessage fid tid ct msg 100 = Some p \<longrightarrow>
      (\<exists>c. body p = BChat ct tid c \<and> length c = 100))
   \<and> CSPacketChatMessage fid tid ct msg 100 \<noteq> None"
  by (auto simp: CSPacketChatMessage2_def CSPacketChatMessage_def lstrcpy_def lstrcpyn_def
      mk_packet_def Let_def min_def split: if_splits)

theorem chat_recipient_witness:
  "(\<exists>p c. CSPacketChatMessage2 200000 200001 CM_PLAIN [72, 105] = Some p \<and> body p = BChat CM_PLAIN 0 c)
   \<and> (\<exists>p c. CSPacketChatMessage 200000 200001 CM_PLAIN [72, 105] 100 = Some p
        \<and> body p = BChat CM_PLAIN 200001 c)"
proof -
  obtain p q where "CSPacketChatMessage2 200000 200001 CM_PLAIN [72, 105] = Some p"
      and "CSPacketChatMessage 200000 200001 CM_PLAIN [72, 105] 100 = Some q"
    by (simp add: CSPacketChatMessage2_def CSPacketChatMessage_def lstrcpy_def lstrcpyn_def)
  then show ?thesis
    using chat_recipient [of 200000 200001 CM_PLAIN "[72, 105]" p]
      chat_recipient [of 200000 200001 CM_PLAIN "[72, 105]" q] by blast
qed

end
