(* ===== verification/Sessions.thy ===== *)
theory Sessions
  imports SightGrid Entity Packets
begin

section \<open>Sessions\<close>

text \<open>
  \<open>WorldServer/Session\<close>, the part that touches one session only: its fields, accessors,
  receive buffer, view list, movement and collision. What a session does with the rest of
  the server is in the theories \<open>World\<close>, \<open>Login\<close> and \<open>Receiving\<close>.

  \<open>myInfobox\<close> is the \<open>SCPacketAppearEntity\<close> a session keeps ready to send. The reference
  members \<open>myCategory\<close>, \<open>myType\<close>, \<open>myLevel\<close>, \<open>myHP\<close>, \<open>myMaxHP\<close>, \<open>myMP\<close>, \<open>myArmour\<close> and
  \<open>myDirection\<close> are its fields. \<open>int& myMP, myMaxMP\<close> declares a reference and a plain
  \<open>int\<close>: \<open>myMaxMP\<close> is a copy made at construction. The receive buffer is \<open>recvCBuffer\<close>,
  with \<open>recvBuffer.buf\<close> as an offset into it.
\<close>

datatype session_state = SS_NONE | SS_CONNECTED | SS_ACCEPTED

record infobox =
  ib_playerID :: pid
  ib_category :: entity_category
  ib_type :: entity_type
  ib_dir :: move_type
  ib_level :: int
  ib_hp :: int
  ib_maxhp :: int
  ib_mp :: int
  ib_maxmp :: int
  ib_amour :: int
  ib_x :: rat
  ib_y :: rat

definition infobox_packet :: "infobox \<Rightarrow> packet" where
  "infobox_packet ib = mk_packet SC_APPEAR_OBJ (ib_playerID ib)
     (BAppear (ib_category ib) (ib_type ib) (ib_dir ib) (ib_level ib) (ib_hp ib) (ib_maxhp ib)
        (ib_mp ib) (ib_maxmp ib) (ib_amour ib) (ib_x ib) (ib_y ib))"

definition new_infobox :: "pid \<Rightarrow> infobox" where
  "new_infobox i =
     \<lparr>ib_playerID = i, ib_category = CAT_NONE, ib_type = ENT_NONE, ib_dir = MV_NONE,
      ib_level = 0, ib_hp = 1, ib_maxhp = 1, ib_mp = 0, ib_maxmp = 0, ib_amour = 0,
      ib_x = 0, ib_y = 0\<rparr>"

lemma infobox_packet_new: "infobox_packet (new_infobox i) = SCPacketAppearEntity i"
  by (simp add: infobox_packet_def new_infobox_def SCPacketAppearEntity_def)

record session =
  Index :: nat
  myInfobox :: infobox
  myNickname :: bytes
  Status :: session_state
  ID :: pid
  Socket :: socket
  myMaxMP :: int
  pos_x :: rat
  pos_y :: rat
  myBoundingBox :: rect
  recvBuffer_buf :: nat
  recvBuffer_len :: u32
  recvCBuffer :: bytes
  recvBytes :: u32
  mySightSector :: "sector_ref option"
  myViewList :: "pid set"

text \<open>
  The constructor initialises neither \<open>myPosition\<close> nor \<open>myBoundingBox\<close>: what the memory
  held is an argument.
\<close>

definition new_session :: "nat \<Rightarrow> pid \<Rightarrow> rat \<Rightarrow> rat \<Rightarrow> rect \<Rightarrow> session" where
  "new_session index i x0 y0 box0 =
     \<lparr>Index = index, myInfobox = new_infobox i, myNickname = [], Status = SS_NONE, ID = i,
      Socket = NULL_SOCKET, myMaxMP = ib_maxmp (new_infobox i), pos_x = x0, pos_y = y0,
      myBoundingBox = box0, recvBuffer_buf = 0, recvBuffer_len = word_of_nat BUFFSZ,
      recvCBuffer = replicate BUFFSZ 0, recvBytes = 0, mySightSector = None,
      myViewList = {}\<rparr>"

subsection \<open>State, identity, socket\<close>

definition SetStatus :: "session_state \<Rightarrow> session \<Rightarrow> session" where
  "SetStatus st s = s\<lparr>Status := st\<rparr>"

definition SetSocket :: "socket \<Rightarrow> session \<Rightarrow> session" where
  "SetSocket sock s = s\<lparr>Socket := sock\<rparr>"

definition SetID :: "pid \<Rightarrow> session \<Rightarrow> session" where
  "SetID i s = s\<lparr>ID := i, myInfobox := (myInfobox s)\<lparr>ib_playerID := i\<rparr>\<rparr>"

definition AcquireStatus :: "session \<Rightarrow> session_state" where "AcquireStatus s = Status s"
definition AcquireID :: "session \<Rightarrow> pid" where "AcquireID s = ID s"
definition GetStatus :: "session \<Rightarrow> session_state" where "GetStatus s = Status s"
definition GetID :: "session \<Rightarrow> pid" where "GetID s = ID s"

definition ReleaseStatus :: "session_state \<Rightarrow> session \<Rightarrow> session" where
  "ReleaseStatus st s = s\<lparr>Status := st\<rparr>"

definition ReleaseID :: "pid \<Rightarrow> session \<Rightarrow> session" where
  "ReleaseID i s = s\<lparr>ID := i, myInfobox := (myInfobox s)\<lparr>ib_playerID := i\<rparr>\<rparr>"

definition IsConnected :: "session \<Rightarrow> bool" where
  "IsConnected s \<longleftrightarrow> SS_CONNECTED = Status s \<or> SS_ACCEPTED = Status s"

definition IsDisconnected :: "session \<Rightarrow> bool" where
  "IsDisconnected s \<longleftrightarrow> SS_NONE = Status s"

definition IsAccepted :: "session \<Rightarrow> bool" where
  "IsAccepted s \<longleftrightarrow> SS_ACCEPTED = Status s"

subsection \<open>The view list\<close>

definition AddSight :: "pid \<Rightarrow> session \<Rightarrow> session" where
  "AddSight i s = s\<lparr>myViewList := insert i (myViewList s)\<rparr>"

definition RemoveViewOf :: "pid \<Rightarrow> session \<Rightarrow> session" where
  "RemoveViewOf i s = s\<lparr>myViewList := myViewList s - {i}\<rparr>"

definition AssignSight :: "pid set \<Rightarrow> session \<Rightarrow> session" where
  "AssignSight view s = s\<lparr>myViewList := view\<rparr>"

text \<open>The overload for a concurrent set has only commented-out statements.\<close>

definition AssignSight_concurrent :: "pid set \<Rightarrow> session \<Rightarrow> session" where
  "AssignSight_concurrent view s = s"

definition AssignSight_vector :: "pid list \<Rightarrow> session \<Rightarrow> session" where
  "AssignSight_vector view s = s\<lparr>myViewList := set view\<rparr>"

definition GetSight :: "session \<Rightarrow> pid set" where "GetSight s = myViewList s"
definition GetLocalSight :: "session \<Rightarrow> pid set" where "GetLocalSight s = myViewList s"

definition SetSightArea :: "sector_ref option \<Rightarrow> session \<Rightarrow> session" where
  "SetSightArea r s = s\<lparr>mySightSector := r\<rparr>"

definition GetSightArea :: "session \<Rightarrow> sector_ref option" where
  "GetSightArea s = mySightSector s"

interpretation view: id_set AddSight RemoveViewOf GetSight
  by unfold_locales (auto simp: AddSight_def RemoveViewOf_def GetSight_def)

subsection \<open>Position and collision\<close>

definition SetPosition :: "rat \<Rightarrow> rat \<Rightarrow> session \<Rightarrow> session" where
  "SetPosition x y s =
     s\<lparr>pos_x := x, pos_y := y, myInfobox := (myInfobox s)\<lparr>ib_x := x, ib_y := y\<rparr>\<rparr>"

text \<open>
  The overload for an array ends with \<open>*myPosition = *position\<close>, which copies the first
  element.
\<close>

definition SetPosition_array :: "rat \<times> rat \<Rightarrow> session \<Rightarrow> session" where
  "SetPosition_array position s =
     s\<lparr>myInfobox := (myInfobox s)\<lparr>ib_x := fst position, ib_y := snd position\<rparr>,
       pos_x := fst position\<rparr>"

definition SetPosition_pair :: "rat \<times> rat \<Rightarrow> session \<Rightarrow> session" where
  "SetPosition_pair position s =
     s\<lparr>pos_x := fst position, pos_y := snd position,
       myInfobox := (myInfobox s)\<lparr>ib_x := fst position, ib_y := snd position\<rparr>\<rparr>"

definition GetPosition :: "session \<Rightarrow> rat \<times> rat" where
  "GetPosition s = (pos_x s, pos_y s)"

definition SetBoundingBox :: "int \<Rightarrow> int \<Rightarrow> int \<Rightarrow> int \<Rightarrow> session \<Rightarrow> session" where
  "SetBoundingBox l t r b s =
     s\<lparr>myBoundingBox := \<lparr>r_left = l, r_top = t, r_right = r, r_bottom = b\<rparr>\<rparr>"

definition SetBoundingBox_rect :: "rect \<Rightarrow> session \<Rightarrow> session" where
  "SetBoundingBox_rect box s = s\<lparr>myBoundingBox := box\<rparr>"

definition GetBoundingLeft :: "session \<Rightarrow> rat" where
  "GetBoundingLeft s = fadd (pos_x s) (f32 (of_int (r_left (myBoundingBox s))))"

definition GetBoundingTop :: "session \<Rightarrow> rat" where
  "GetBoundingTop s = fadd (pos_y s) (f32 (of_int (r_top (myBoundingBox s))))"

definition GetBoundingRight :: "session \<Rightarrow> rat" where
  "GetBoundingRight s = fadd (pos_x s) (f32 (of_int (r_right (myBoundingBox s))))"

definition GetBoundingBottom :: "session \<Rightarrow> rat" where
  "GetBoundingBottom s = fadd (pos_y s) (f32 (of_int (r_bottom (myBoundingBox s))))"

definition CheckCollision :: "session \<Rightarrow> session \<Rightarrow> bool" where
  "CheckCollision s other \<longleftrightarrow>
     \<not> (GetBoundingRight other \<le> GetBoundingLeft s
        \<or> GetBoundingBottom other \<le> GetBoundingTop s
        \<or> GetBoundingRight s < GetBoundingLeft other
        \<or> GetBoundingBottom s < GetBoundingTop other)"

definition CheckCollision_rect :: "session \<Rightarrow> rect \<Rightarrow> bool" where
  "CheckCollision_rect s other = False"

definition TryMoveLT :: "session \<Rightarrow> rat \<Rightarrow> bool \<times> session" where
  "TryMoveLT s distance =
     (if 8 < fsub (pos_x s) distance then (True, s\<lparr>pos_x := fsub (pos_x s) distance\<rparr>)
      else if pos_x s \<noteq> 8 then (True, s\<lparr>pos_x := 8\<rparr>)
      else (False, s))"

definition TryMoveRT :: "session \<Rightarrow> rat \<Rightarrow> bool \<times> session" where
  "TryMoveRT s distance =
     (if fadd (pos_x s) distance < fsub WORLD_W 8 then
        (True, s\<lparr>pos_x := fadd (pos_x s) distance\<rparr>)
      else if pos_x s \<noteq> fsub WORLD_W 8 then (True, s\<lparr>pos_x := fsub WORLD_W 8\<rparr>)
      else (False, s))"

definition TryMoveUP :: "session \<Rightarrow> rat \<Rightarrow> bool \<times> session" where
  "TryMoveUP s distance =
     (if 8 < fsub (pos_y s) distance then (True, s\<lparr>pos_y := fsub (pos_y s) distance\<rparr>)
      else if pos_y s \<noteq> 8 then (True, s\<lparr>pos_y := 8\<rparr>)
      else (False, s))"

definition TryMoveDW :: "session \<Rightarrow> rat \<Rightarrow> bool \<times> session" where
  "TryMoveDW s distance =
     (if fadd (pos_y s) distance < fsub WORLD_H 8 then
        (True, s\<lparr>pos_y := fadd (pos_y s) distance\<rparr>)
      else if pos_y s \<noteq> fsub WORLD_H 8 then (True, s\<lparr>pos_y := fsub WORLD_H 8\<rparr>)
      else (False, s))"

interpretation session: moving_body pos_x pos_y TryMoveLT TryMoveRT TryMoveUP TryMoveDW
  by unfold_locales (auto simp: TryMoveLT_def TryMoveRT_def TryMoveUP_def TryMoveDW_def)

interpretation session: boxed_body GetBoundingLeft GetBoundingTop GetBoundingRight
    GetBoundingBottom CheckCollision
  by unfold_locales (simp add: CheckCollision_def)

subsection \<open>The receive buffer\<close>

definition ClearRecvBuffer :: "session \<Rightarrow> session" where
  "ClearRecvBuffer s = s\<lparr>recvBytes := 0, recvCBuffer := replicate BUFFSZ 0\<rparr>"

text \<open>
  \<open>MoveStream(buffer, position, max_size)\<close> moves the \<open>max_size - position\<close> bytes at
  \<open>buffer + position\<close> to \<open>buffer\<close> and clears the rest up to \<open>buffer + max_size\<close>. Its
  \<open>buffer\<close> is \<open>recvBuffer.buf\<close>, which need not be the start of \<open>recvCBuffer\<close>; beyond the
  array lie the session's other members.
\<close>

definition MoveStream :: "nat \<Rightarrow> nat \<Rightarrow> session \<Rightarrow> session res" where
  "MoveStream position max_size s =
     (let b = recvBuffer_buf s; mem = recvCBuffer s in
      if max_size < position \<or> length mem < b + max_size then Inl BufferOverrun
      else Inr (s\<lparr>recvCBuffer := take b mem
             @ take (max_size - position) (drop (b + position) mem)
             @ replicate position 0 @ drop (b + max_size) mem\<rparr>))"

text \<open>Where the next bytes are to be received: the state \<open>RecvStream\<close> leaves for \<open>Recv\<close>.\<close>

definition RecvStream_buffer :: "u32 \<Rightarrow> u32 \<Rightarrow> session \<Rightarrow> session" where
  "RecvStream_buffer sz begin_bytes s =
     s\<lparr>recvBuffer_buf := unat begin_bytes, recvBuffer_len := sz - begin_bytes\<rparr>"

text \<open>
  What the operating system does when a receive completes with \<open>data\<close>: it writes the
  bytes at \<open>recvBuffer.buf\<close>, at most \<open>recvBuffer.len\<close> of them.
\<close>

definition deliver :: "bytes \<Rightarrow> session \<Rightarrow> session" where
  "deliver data s =
     (let d = take (unat (recvBuffer_len s)) data; b = recvBuffer_buf s
      in s\<lparr>recvCBuffer := take b (recvCBuffer s) @ d @ drop (b + length d) (recvCBuffer s)\<rparr>)"

lemma length_deliver:
  assumes "length (recvCBuffer s) = n" and "recvBuffer_buf s + unat (recvBuffer_len s) \<le> n"
  shows "length (recvCBuffer (deliver data s)) = n"
  using assms by (auto simp: deliver_def Let_def min_def)

lemma length_MoveStream:
  "MoveStream p n s = Inr s' \<Longrightarrow> length (recvCBuffer s') = length (recvCBuffer s)"
  by (auto simp: MoveStream_def Let_def split: if_splits)

text \<open>
  \<open>Cleanup\<close> after the socket is closed. Identity, state, socket, sector and view list are
  reset; the nickname, the infobox and the bytes received so far are not.
\<close>

definition Cleanup_fields :: "session \<Rightarrow> session" where
  "Cleanup_fields s =
     (SetSocket NULL_SOCKET (SetStatus SS_NONE (SetID (- 1) s)))
       \<lparr>mySightSector := None, myViewList := {}\<rparr>"

named_theorems session_defs \<open>the accessors of a session\<close>

declare SetStatus_def [session_defs] SetSocket_def [session_defs] SetID_def [session_defs]
  AcquireStatus_def [session_defs] AcquireID_def [session_defs] GetStatus_def [session_defs]
  GetID_def [session_defs] ReleaseStatus_def [session_defs] ReleaseID_def [session_defs]
  IsConnected_def [session_defs] IsDisconnected_def [session_defs] IsAccepted_def [session_defs]
  AddSight_def [session_defs] RemoveViewOf_def [session_defs] AssignSight_def [session_defs]
  GetSight_def [session_defs] GetLocalSight_def [session_defs] SetSightArea_def [session_defs]
  GetSightArea_def [session_defs] GetPosition_def [session_defs] SetPosition_def [session_defs]
  Cleanup_fields_def [session_defs] RecvStream_buffer_def [session_defs]

text \<open>A move keeps a session inside the world: with a representable position between 0
  and 64000 and a distance that is not negative, each of the four moves leaves both
  coordinates representable and between 0 and 64000.\<close>

theorem moves_stay_in_world:
  assumes "is_f32 (pos_x s)" "is_f32 (pos_y s)" "0 \<le> pos_x s" "pos_x s \<le> 64000"
    "0 \<le> pos_y s" "pos_y s \<le> 64000" and "0 \<le> d" and "m \<in> {TryMoveLT, TryMoveRT, TryMoveUP, TryMoveDW}"
  shows "is_f32 (pos_x (snd (m s d))) \<and> is_f32 (pos_y (snd (m s d)))
    \<and> 0 \<le> pos_x (snd (m s d)) \<and> pos_x (snd (m s d)) \<le> 64000
    \<and> 0 \<le> pos_y (snd (m s d)) \<and> pos_y (snd (m s d)) \<le> 64000"
proof -
  have "session.coords_within 0 64000 s" using assms by (simp add: session.coords_within_def)
  then have "session.coords_within 0 64000 (snd (m s d))"
    using session.moves_within [of 0 64000 s d] assms(7,8) by auto
  then show ?thesis by (simp add: session.coords_within_def)
qed

theorem moves_stay_in_world_witness:
  "pos_x (snd (TryMoveLT (SetPosition 20 30 (new_session 0 0 0 0 \<lparr>r_left = 0, r_top = 0, r_right = 0, r_bottom = 0\<rparr>)) 15)) \<le> 64000"
  using moves_stay_in_world [of "SetPosition 20 30 (new_session 0 0 0 0 \<lparr>r_left = 0, r_top = 0, r_right = 0, r_bottom = 0\<rparr>)" 15 TryMoveLT]
  by (simp add: SetPosition_def new_session_def)

text \<open>The collision test of two sessions agrees with its mirror image except where an
  edge of one box lies on an edge of the other; there one order of the arguments reports a
  hit and the other does not.\<close>

theorem check_collision_mirror:
  "(CheckCollision a b \<and> \<not> CheckCollision b a \<longrightarrow>
      GetBoundingRight a = GetBoundingLeft b \<or> GetBoundingBottom a = GetBoundingTop b)
   \<and> (GetBoundingRight a = GetBoundingLeft b \<and> GetBoundingLeft a < GetBoundingRight b
      \<and> GetBoundingTop a < GetBoundingBottom b \<and> GetBoundingTop b \<le> GetBoundingBottom a \<longrightarrow>
      CheckCollision a b \<and> \<not> CheckCollision b a)"
  using session.hits_asymmetric [of a b] session.hits_touching [of a b] by blast

theorem check_collision_mirror_witness:
  "CheckCollision (SetPosition 0 0 (new_session 0 0 0 0 \<lparr>r_left = -16, r_top = -16, r_right = 16, r_bottom = 16\<rparr>))
     (SetPosition 32 0 (new_session 1 1 0 0 \<lparr>r_left = -16, r_top = -16, r_right = 16, r_bottom = 16\<rparr>))
   \<and> \<not> CheckCollision (SetPosition 32 0 (new_session 1 1 0 0 \<lparr>r_left = -16, r_top = -16, r_right = 16, r_bottom = 16\<rparr>))
     (SetPosition 0 0 (new_session 0 0 0 0 \<lparr>r_left = -16, r_top = -16, r_right = 16, r_bottom = 16\<rparr>))"
  using check_collision_mirror
    [of "SetPosition 0 0 (new_session 0 0 0 0 \<lparr>r_left = -16, r_top = -16, r_right = 16, r_bottom = 16\<rparr>)"
      "SetPosition 32 0 (new_session 1 1 0 0 \<lparr>r_left = -16, r_top = -16, r_right = 16, r_bottom = 16\<rparr>)"]
  by (simp add: GetBoundingRight_def GetBoundingLeft_def GetBoundingTop_def GetBoundingBottom_def
      SetPosition_def new_session_def fadd_def)

text \<open>The array overload of \<open>SetPosition\<close> updates both coordinates of the infobox but
  only the first coordinate of the position, unlike the other two overloads.\<close>

theorem set_position_array_keeps_y:
  "pos_x (SetPosition_array p s) = fst p \<and> pos_y (SetPosition_array p s) = pos_y s
   \<and> ib_y (myInfobox (SetPosition_array p s)) = snd p
   \<and> SetPosition_pair p s = SetPosition (fst p) (snd p) s"
  by (simp add: SetPosition_array_def SetPosition_pair_def SetPosition_def)

end
