(* ===== verification/World.thy ===== *)
theory World
  imports Sessions
begin

section \<open>The state of the server\<close>

text \<open>
  \<open>IOCPFramework\<close> of \<open>WorldServer/Framework\<close>: its fields, its accessors, the registry of
  players and the packets it sends, with \<open>Asynchron\<close> and the calls of the operating system.

  A place of \<open>clientsPool\<close> stands for the \<open>shared_ptr<Session>\<close> it holds: a pointer to a
  session is the number of its place. What the server asks of the operating system is
  appended to a log, and what the operating system answers is read from the environment
  record \<open>os\<close>, at the index the log has then, so that no two answers need agree. The
  memory of a ticket or an overlapped record, allocated and freed by hand in the source, is
  not modelled.
\<close>

subsection \<open>Overlapped operations\<close>

text \<open>The memory a buffer points to: a packet on the heap or a session's receive buffer.\<close>

datatype memory = MPacket packet | MRecv nat nat

record wsabuf =
  w_buf :: memory
  w_len :: u32

record asynchron =
  Operation :: overlap_op
  a_Type :: packet_type
  sendBuffer :: "wsabuf option"
  sendSize :: u32
  sendSzWant :: u32

definition Asynchron :: "overlap_op \<Rightarrow> asynchron" where
  "Asynchron operation =
     \<lparr>Operation = operation, a_Type = PT_NONE, sendBuffer = None, sendSize = 0, sendSzWant = 0\<rparr>"

definition SetSendBuffer :: "wsabuf \<Rightarrow> asynchron \<Rightarrow> asynchron" where
  "SetSendBuffer buffer a = a\<lparr>sendBuffer := Some buffer, sendSzWant := w_len buffer\<rparr>"

definition SetSendBuffer_raw :: "memory \<Rightarrow> u32 \<Rightarrow> asynchron \<Rightarrow> asynchron" where
  "SetSendBuffer_raw cbuffer sz a =
     (let b = (case sendBuffer a of None \<Rightarrow> \<lparr>w_buf = cbuffer, w_len = 0\<rparr> | Some b \<Rightarrow> b)
      in a\<lparr>sendBuffer := Some (b\<lparr>w_buf := cbuffer, w_len := sz\<rparr>), sendSzWant := sz\<rparr>)"

subsection \<open>Calls of the operating system\<close>

datatype effect =
  ESend socket wsabuf asynchron
| ERecv socket nat u32
| EPost u32 pid asynchron
| EClose socket
| EPort socket pid
| ESocket socket
| EAccept socket

datatype io_result = IoDone | IoPending | IoError

text \<open>
  \<open>order\<close> is the order in which an unordered set is walked. The two random sources are
  the fractions \<open>rand() / RAND_MAX\<close> and the numbers of \<open>uniform_real_distribution\<close>.
\<close>

record os =
  wsa_recv :: "nat \<Rightarrow> io_result"
  wsa_send :: "nat \<Rightarrow> io_result"
  create_port :: "nat \<Rightarrow> bool"
  new_socket :: "nat \<Rightarrow> socket"
  accept_ex :: "nat \<Rightarrow> io_result"
  order :: "pid set \<Rightarrow> pid list"
  rand_unit :: "nat \<Rightarrow> rat"
  rand_percent :: "nat \<Rightarrow> rat"

subsection \<open>The state\<close>

record timeline =
  object_id :: pid
  ev :: overlap_op
  act_time :: int
  target_id :: pid

record world =
  myListener :: socket
  completionPort :: nat
  acceptNewbie :: socket
  acceptBeginPlace :: nat
  clientsPool :: "nat \<Rightarrow> session"
  myClients :: "pid \<rightharpoonup> nat"
  numberClients :: u32
  orderClientIDs :: pid
  mySightManager :: sight_manager
  timerQueue :: "timeline list"
  log :: "effect list"

text \<open>The operations on one session, one sector and the log, lifted to the state.\<close>

definition on_session :: "nat \<Rightarrow> (session \<Rightarrow> session) \<Rightarrow> world \<Rightarrow> world" where
  "on_session p f w = w\<lparr>clientsPool := (clientsPool w)(p := f (clientsPool w p))\<rparr>"

definition on_sector :: "sector_ref \<Rightarrow> (sector \<Rightarrow> sector) \<Rightarrow> world \<Rightarrow> world" where
  "on_sector r f w = w\<lparr>mySightManager := update_sector r f (mySightManager w)\<rparr>"

definition emit :: "effect \<Rightarrow> world \<Rightarrow> world" where
  "emit e w = w\<lparr>log := log w @ [e]\<rparr>"

definition now :: "world \<Rightarrow> nat" where
  "now w = length (log w)"

abbreviation sector_of :: "world \<Rightarrow> sector_ref \<Rightarrow> sector" where
  "sector_of w r \<equiv> sector_at (mySightManager w) r"

definition serverKey :: pid where "serverKey = int ENTITIES_MAX_NUMBER + 1"

definition IOCPFramework :: world where
  "IOCPFramework =
     \<lparr>myListener = NULL_SOCKET, completionPort = 0, acceptNewbie = NULL_SOCKET,
      acceptBeginPlace = 0, clientsPool = (\<lambda>i. new_session 0 0 0 0
        \<lparr>r_left = 0, r_top = 0, r_right = 0, r_bottom = 0\<rparr>), myClients = Map.empty,
      numberClients = 0, orderClientIDs = int USERS_ID_BEGIN, mySightManager = world_grid,
      timerQueue = [], log = []\<rparr>"

subsection \<open>Accessors\<close>

definition SetClientsNumber :: "u32 \<Rightarrow> world \<Rightarrow> world" where
  "SetClientsNumber number w = w\<lparr>numberClients := number\<rparr>"

definition AcquireClientsNumber :: "world \<Rightarrow> u32" where
  "AcquireClientsNumber w = numberClients w"

definition GetClientsNumber :: "world \<Rightarrow> u32" where
  "GetClientsNumber w = numberClients w"

definition ReleaseClientsNumber :: "u32 \<Rightarrow> world \<Rightarrow> world" where
  "ReleaseClientsNumber number w = w\<lparr>numberClients := number\<rparr>"

definition AcquireClient :: "nat \<Rightarrow> world \<Rightarrow> nat" where
  "AcquireClient index w = index"

definition GetClient :: "nat \<Rightarrow> world \<Rightarrow> nat" where
  "GetClient index w = index"

definition AcquireClientByID :: "pid \<Rightarrow> world \<Rightarrow> nat option" where
  "AcquireClientByID i w =
     (case myClients w i of Some place \<Rightarrow> Some (AcquireClient place w) | None \<Rightarrow> None)"

definition GetClientByID :: "pid \<Rightarrow> world \<Rightarrow> nat option" where
  "GetClientByID i w =
     (case myClients w i of Some place \<Rightarrow> Some (GetClient place w) | None \<Rightarrow> None)"

text \<open>Storing a pointer into a place makes the place hold that session.\<close>

definition ReleaseClient :: "nat \<Rightarrow> nat \<Rightarrow> world \<Rightarrow> world" where
  "ReleaseClient home original w =
     w\<lparr>clientsPool := (clientsPool w)(home := clientsPool w original)\<rparr>"

definition AcquireNewbieSocket :: "world \<Rightarrow> socket" where
  "AcquireNewbieSocket w = acceptNewbie w"

definition AcquireNewbieID :: "world \<Rightarrow> pid" where
  "AcquireNewbieID w = orderClientIDs w"

definition ReleaseNewbieSocket :: "socket \<Rightarrow> world \<Rightarrow> world" where
  "ReleaseNewbieSocket n_socket w = w\<lparr>acceptNewbie := n_socket\<rparr>"

definition ReleaseNewbieID :: "pid \<Rightarrow> world \<Rightarrow> world" where
  "ReleaseNewbieID nxt w = w\<lparr>orderClientIDs := nxt\<rparr>"

text \<open>
  \<open>std::find_if\<close> over the places from \<open>acceptBeginPlace\<close> on. When no place is free the
  end iterator is dereferenced.
\<close>

definition FindPlaceForNewbie :: "world \<Rightarrow> nat res" where
  "FindPlaceForNewbie w =
     (case find (\<lambda>p. IsDisconnected (clientsPool w p)) [acceptBeginPlace w..<ENTITIES_MAX_NUMBER]
      of Some p \<Rightarrow> Inr (AcquireClient p w) | None \<Rightarrow> Inl EndIterator)"

definition CreateSocket :: "os \<Rightarrow> world \<Rightarrow> socket \<times> world" where
  "CreateSocket os w = (let s = new_socket os (now w) in (s, emit (ESocket s) w))"

subsection \<open>The registry\<close>

text \<open>\<open>unordered_map::insert\<close> keeps the place an identifier already has.\<close>

definition insert_client :: "pid \<Rightarrow> nat \<Rightarrow> world \<Rightarrow> world" where
  "insert_client i place w =
     (case myClients w i of Some _ \<Rightarrow> w | None \<Rightarrow> w\<lparr>myClients := (myClients w)(i \<mapsto> place)\<rparr>)"

definition erase_client :: "pid \<Rightarrow> world \<Rightarrow> world" where
  "erase_client i w = w\<lparr>myClients := (myClients w)(i := None)\<rparr>"

definition RegisterPlayer :: "pid \<Rightarrow> nat \<Rightarrow> world \<Rightarrow> world" where
  "RegisterPlayer i place w =
     (let value = AcquireClientsNumber w
      in ReleaseClientsNumber (value + 1) (insert_client i place w))"

definition DeregisterPlayer :: "pid \<Rightarrow> world \<Rightarrow> world" where
  "DeregisterPlayer rid w =
     (let value = AcquireClientsNumber w
      in ReleaseClientsNumber (value - 1) (erase_client rid w))"

subsection \<open>Sending\<close>

definition CreateTicket :: "packet \<Rightarrow> wsabuf \<times> asynchron" where
  "CreateTicket packet =
     (let wbuffer = \<lparr>w_buf = MPacket packet, w_len = ucast (Size packet)\<rparr>;
          overlap = (Asynchron OP_SEND)\<lparr>a_Type := Type packet\<rparr>
      in (wbuffer, SetSendBuffer wbuffer overlap))"

text \<open>The result of \<open>Send\<close> is not used by any caller.\<close>

definition Send :: "nat \<Rightarrow> wsabuf \<times> asynchron \<Rightarrow> world \<Rightarrow> world" where
  "Send p ticket w = emit (ESend (Socket (clientsPool w p)) (fst ticket) (snd ticket)) w"

definition SendPlayerCreate :: "nat \<Rightarrow> pid \<Rightarrow> bytes \<Rightarrow> world \<Rightarrow> world option" where
  "SendPlayerCreate target who nickname w =
     map_option (\<lambda>p. Send target (CreateTicket p) w) (SCPacketCreatePlayer who nickname)"

definition SendSignOut :: "nat \<Rightarrow> pid \<Rightarrow> world \<Rightarrow> world" where
  "SendSignOut target who w = Send target (CreateTicket (SCPacketSignOut who)) w"

text \<open>\<open>cid\<close> is only printed: the identifier sent is the one in the infobox.\<close>

definition SendAppearEntity :: "nat \<Rightarrow> pid \<Rightarrow> infobox \<Rightarrow> world \<Rightarrow> world" where
  "SendAppearEntity target cid data w = Send target (CreateTicket (infobox_packet data)) w"

definition SendDisppearEntity :: "nat \<Rightarrow> pid \<Rightarrow> world \<Rightarrow> world" where
  "SendDisppearEntity target cid w = Send target (CreateTicket (SCPacketDisppearCharacter cid)) w"

definition SendMoveEntity :: "nat \<Rightarrow> pid \<Rightarrow> rat \<Rightarrow> rat \<Rightarrow> move_type \<Rightarrow> world \<Rightarrow> world" where
  "SendMoveEntity target cid nx ny dir w =
     Send target (CreateTicket (SCPacketMoveCharacter cid nx ny dir)) w"

subsection \<open>A session's calls of the system\<close>

text \<open>\<open>RecvStream\<close> sets the buffer up and receives; the answer is that of \<open>WSARecv\<close>.\<close>

definition RecvStream :: "os \<Rightarrow> nat \<Rightarrow> u32 \<Rightarrow> world \<Rightarrow> io_result \<times> world" where
  "RecvStream os p begin_bytes w =
     (let w1 = on_session p (RecvStream_buffer (word_of_nat BUFFSZ) begin_bytes) w;
          s = clientsPool w1 p
      in (wsa_recv os (now w1), emit (ERecv (Socket s) (recvBuffer_buf s) (recvBuffer_len s)) w1))"

definition Cleanup :: "nat \<Rightarrow> world \<Rightarrow> world" where
  "Cleanup p w = on_session p Cleanup_fields (emit (EClose (Socket (clientsPool w p))) w)"

definition post :: "u32 \<Rightarrow> pid \<Rightarrow> asynchron \<Rightarrow> world \<Rightarrow> world" where
  "post dw key a w = emit (EPost dw key a) w"

definition TryMove :: "nat \<Rightarrow> move_type \<Rightarrow> world \<Rightarrow> world" where
  "TryMove p dir w =
     (let my_id = AcquireID (clientsPool w p);
          w1 = (if IsPlayer my_id
            then post (ucast (move_code dir)) my_id (Asynchron OP_ENTITY_MOVE) w
            else post (ucast (move_code dir)) my_id (Asynchron OP_ENTITY_MOVE) w)
      in on_session p (ReleaseID my_id) w1)"

definition TryNormalAttack :: "nat \<Rightarrow> move_type \<Rightarrow> world \<Rightarrow> world" where
  "TryNormalAttack p dir w =
     (let my_id = AcquireID (clientsPool w p);
          w1 = (if IsPlayer my_id
            then post (ucast (move_code dir)) my_id (Asynchron OP_PLAYER_ATTACK) w
            else post (ucast (move_code dir)) my_id (Asynchron OP_ENTITY_ATTACK) w)
      in on_session p (ReleaseID my_id) w1)"

text \<open>\<open>ProceedSent\<close> reports an error or not and frees the ticket.\<close>

definition ProceedSent :: "nat \<Rightarrow> u32 \<Rightarrow> world \<Rightarrow> world" where
  "ProceedSent p bytes_sent w = w"

subsection \<open>Fields after each operation\<close>

named_theorems world_simps \<open>the fields of the state after each operation on it\<close>

lemma on_session_fields [world_simps]:
  "clientsPool (on_session p f w) = (clientsPool w)(p := f (clientsPool w p))"
  "myClients (on_session p f w) = myClients w" "log (on_session p f w) = log w"
  "mySightManager (on_session p f w) = mySightManager w"
  "numberClients (on_session p f w) = numberClients w"
  "orderClientIDs (on_session p f w) = orderClientIDs w"
  "acceptNewbie (on_session p f w) = acceptNewbie w"
  "acceptBeginPlace (on_session p f w) = acceptBeginPlace w"
  "timerQueue (on_session p f w) = timerQueue w"
  by (simp_all add: on_session_def)

lemma on_sector_fields [world_simps]:
  "clientsPool (on_sector r f w) = clientsPool w"
  "myClients (on_sector r f w) = myClients w" "log (on_sector r f w) = log w"
  "mySightManager (on_sector r f w) = update_sector r f (mySightManager w)"
  "numberClients (on_sector r f w) = numberClients w"
  "orderClientIDs (on_sector r f w) = orderClientIDs w"
  "acceptNewbie (on_sector r f w) = acceptNewbie w"
  "acceptBeginPlace (on_sector r f w) = acceptBeginPlace w"
  "timerQueue (on_sector r f w) = timerQueue w"
  by (simp_all add: on_sector_def)

lemma emit_fields [world_simps]:
  "clientsPool (emit e w) = clientsPool w" "myClients (emit e w) = myClients w"
  "log (emit e w) = log w @ [e]" "mySightManager (emit e w) = mySightManager w"
  "numberClients (emit e w) = numberClients w" "orderClientIDs (emit e w) = orderClientIDs w"
  "acceptNewbie (emit e w) = acceptNewbie w" "acceptBeginPlace (emit e w) = acceptBeginPlace w"
  "timerQueue (emit e w) = timerQueue w"
  by (simp_all add: emit_def)

lemmas send_defs = SendSignOut_def SendAppearEntity_def SendDisppearEntity_def
  SendMoveEntity_def

lemmas client_accessors = AcquireClientByID_def GetClientByID_def AcquireClient_def GetClient_def

lemma GetClientByID_eq [world_simps]: "GetClientByID i w = myClients w i"
  by (simp add: client_accessors split: option.splits)

lemma AcquireClientByID_eq [world_simps]: "AcquireClientByID i w = myClients w i"
  by (simp add: client_accessors split: option.splits)

lemma ReleaseClient_home [world_simps]: "ReleaseClient p p w = w"
  by (simp add: ReleaseClient_def)

lemma RegisterPlayer_fields [world_simps]:
  "clientsPool (RegisterPlayer i p w) = clientsPool w" "log (RegisterPlayer i p w) = log w"
  "mySightManager (RegisterPlayer i p w) = mySightManager w"
  "orderClientIDs (RegisterPlayer i p w) = orderClientIDs w"
  "acceptNewbie (RegisterPlayer i p w) = acceptNewbie w"
  "acceptBeginPlace (RegisterPlayer i p w) = acceptBeginPlace w"
  "numberClients (RegisterPlayer i p w) = numberClients w + 1"
  "myClients w i = None \<Longrightarrow> myClients (RegisterPlayer i p w) = (myClients w)(i \<mapsto> p)"
  "myClients w i = Some q \<Longrightarrow> myClients (RegisterPlayer i p w) = myClients w"
  by (auto simp: RegisterPlayer_def ReleaseClientsNumber_def AcquireClientsNumber_def
      insert_client_def split: option.splits)

lemma DeregisterPlayer_fields [world_simps]:
  "clientsPool (DeregisterPlayer i w) = clientsPool w" "log (DeregisterPlayer i w) = log w"
  "mySightManager (DeregisterPlayer i w) = mySightManager w"
  "orderClientIDs (DeregisterPlayer i w) = orderClientIDs w"
  "acceptNewbie (DeregisterPlayer i w) = acceptNewbie w"
  "acceptBeginPlace (DeregisterPlayer i w) = acceptBeginPlace w"
  "numberClients (DeregisterPlayer i w) = numberClients w - 1"
  "myClients (DeregisterPlayer i w) = (myClients w)(i := None)"
  by (simp_all add: DeregisterPlayer_def ReleaseClientsNumber_def AcquireClientsNumber_def
      erase_client_def)

lemma RecvStream_fields [world_simps]:
  "clientsPool (snd (RecvStream os p b w)) =
     (clientsPool w)(p := RecvStream_buffer (word_of_nat BUFFSZ) b (clientsPool w p))"
  "myClients (snd (RecvStream os p b w)) = myClients w"
  "mySightManager (snd (RecvStream os p b w)) = mySightManager w"
  "numberClients (snd (RecvStream os p b w)) = numberClients w"
  "orderClientIDs (snd (RecvStream os p b w)) = orderClientIDs w"
  "acceptNewbie (snd (RecvStream os p b w)) = acceptNewbie w"
  "acceptBeginPlace (snd (RecvStream os p b w)) = acceptBeginPlace w"
  "fst (RecvStream os p b w) = wsa_recv os (length (log w))"
  by (simp_all add: RecvStream_def Let_def world_simps now_def)

lemma Cleanup_fields_of [world_simps]:
  "clientsPool (Cleanup p w) = (clientsPool w)(p := Cleanup_fields (clientsPool w p))"
  "myClients (Cleanup p w) = myClients w" "mySightManager (Cleanup p w) = mySightManager w"
  "numberClients (Cleanup p w) = numberClients w" "orderClientIDs (Cleanup p w) = orderClientIDs w"
  "acceptNewbie (Cleanup p w) = acceptNewbie w"
  "acceptBeginPlace (Cleanup p w) = acceptBeginPlace w"
  "log (Cleanup p w) = log w @ [EClose (Socket (clientsPool w p))]"
  by (simp_all add: Cleanup_def world_simps)

subsection \<open>Well-formed states\<close>

text \<open>
  A place holds the session with its number, whose infobox carries its identifier; the
  registry maps an identifier to the place of the session that has it; between two handlers
  no sector is owned.
\<close>

definition wf_session :: "nat \<Rightarrow> session \<Rightarrow> bool" where
  "wf_session p s \<longleftrightarrow> Index s = p \<and> ib_playerID (myInfobox s) = ID s \<and> finite (myViewList s)
     \<and> (\<forall>r. mySightSector s = Some r \<longrightarrow> valid_ref r) \<and> length (recvCBuffer s) = BUFFSZ"

definition wf_world :: "world \<Rightarrow> bool" where
  "wf_world w \<longleftrightarrow> wf_grid (mySightManager w)
     \<and> (\<forall>r. valid_ref r \<longrightarrow> \<not> isOwned (sector_of w r))
     \<and> (\<forall>p < ENTITIES_MAX_NUMBER. wf_session p (clientsPool w p))
     \<and> finite (dom (myClients w))
     \<and> (\<forall>i p. myClients w i = Some p \<longrightarrow> p < ENTITIES_MAX_NUMBER \<and> ID (clientsPool w p) = i)"

lemma wf_worldD:
  assumes "wf_world w"
  shows "wf_grid (mySightManager w)"
    and "valid_ref r \<Longrightarrow> \<not> isOwned (sector_of w r)"
    and "p < ENTITIES_MAX_NUMBER \<Longrightarrow> wf_session p (clientsPool w p)"
    and "finite (dom (myClients w))"
    and "myClients w i = Some p \<Longrightarrow> p < ENTITIES_MAX_NUMBER"
    and "myClients w i = Some p \<Longrightarrow> ID (clientsPool w p) = i"
  using assms unfolding wf_world_def by blast+

lemma registered_inj:
  "wf_world w \<Longrightarrow> myClients w i = Some p \<Longrightarrow> myClients w j = Some p \<Longrightarrow> i = j"
  by (metis wf_worldD(6))

lemma registered_session:
  assumes "wf_world w" and "myClients w i = Some p"
  shows "Index (clientsPool w p) = p" "ib_playerID (myInfobox (clientsPool w p)) = i"
    "ID (clientsPool w p) = i" "finite (myViewList (clientsPool w p))"
    "mySightSector (clientsPool w p) = Some r \<Longrightarrow> valid_ref r"
  using assms wf_worldD(3,5,6) [OF assms(1)] unfolding wf_session_def by metis+

end
