(* ===== verification/Sight.thy ===== *)
theory Sight
  imports World
begin

section \<open>Who sees whom\<close>

text \<open>
  \<open>RegisterSight\<close>, \<open>InitializeSight\<close>, \<open>UpdateSight\<close> and \<open>CleanupSight\<close> of
  \<open>WorldServer/Framework.cpp\<close>, with \<open>SightDistance\<close>: an entity enters the sector of its
  position, collects the sectors under the corners of its view, and tells those that come
  into sight, stay or go.
\<close>

subsection \<open>Distance\<close>

text \<open>
  The coordinates are truncated to \<open>int\<close>, their difference is an \<open>int\<close>, the squares and
  their sum are doubles, and the sum is converted back. A sum below \<open>2 ^ 31\<close> is exact; a
  larger one converts to \<open>INT_MIN\<close>, as \<open>cvttsd2si\<close> does.
\<close>

definition wrap_int32 :: "int \<Rightarrow> int" where
  "wrap_int32 i = (i + 2 ^ 31) mod 2 ^ 32 - 2 ^ 31"

definition SightDistance :: "rat \<times> rat \<Rightarrow> rat \<times> rat \<Rightarrow> int" where
  "SightDistance pos1 pos2 =
     (let x1 = to_int32 (fst pos1); y1 = to_int32 (snd pos1);
          x2 = to_int32 (fst pos2); y2 = to_int32 (snd pos2);
          d = (wrap_int32 (x1 - x2))\<^sup>2 + (wrap_int32 (y1 - y2))\<^sup>2
      in if d < 2 ^ 31 then d else - (2 ^ 31))"

definition sight_magnitude :: rat where
  "sight_magnitude = fmul SIGHT_RAD_W SIGHT_RAD_H"

definition check_out :: "rat \<times> rat \<Rightarrow> rat \<times> rat \<Rightarrow> bool" where
  "check_out my_pos ot_pos \<longleftrightarrow> sight_magnitude < f32 (of_int (SightDistance my_pos ot_pos))"

subsection \<open>Registering\<close>

definition place_in_sector :: "nat \<Rightarrow> pid \<Rightarrow> sector_ref \<Rightarrow> world \<Rightarrow> world" where
  "place_in_sector who my_id curr_sector w =
     (let w1 = on_sector curr_sector Acquire w;
          w2 = on_sector curr_sector (Add my_id) w1;
          w3 = on_session who (SetSightArea (Some curr_sector)) w2;
          w4 = on_sector curr_sector Release w3;
          w5 = (if IsPlayer my_id then
              let w' = on_session who (\<lambda>s. s\<lparr>myInfobox :=
                    (myInfobox s)\<lparr>ib_x := pos_x s, ib_y := pos_y s\<rparr>\<rparr>) w4
              in SendAppearEntity who my_id (myInfobox (clientsPool w' who)) w'
            else w4)
      in on_session who (ReleaseID my_id) w5)"

definition RegisterSight :: "nat \<Rightarrow> world \<Rightarrow> world res" where
  "RegisterSight who w =
     (let my_id = AcquireID (clientsPool w who);
          my_pos = GetPosition (clientsPool w who);
          curr_coords = PickCoords (mySightManager w) (fst my_pos) (snd my_pos)
      in rbind (At_pair (mySightManager w) curr_coords) (\<lambda>curr_sector.
         Inr (place_in_sector who my_id curr_sector w)))"

subsection \<open>Updating\<close>

text \<open>
  Steps 0 and 1: enter the sector of the position. \<open>prev_sector\<close> is a reference to the
  session's member, read again after each change.
\<close>

definition enter_sector :: "nat \<Rightarrow> pid \<Rightarrow> sector_ref \<Rightarrow> world \<Rightarrow> world" where
  "enter_sector who my_id curr_sector w =
     (let w1 = on_sector curr_sector Acquire w;
          prev_sector = GetSightArea (clientsPool w1 who);
          (entered, w2) = (case prev_sector of
              None \<Rightarrow> (True, w1)
            | Some r \<Rightarrow> (fst (TryAcquire (sector_of w1 r)), on_sector r (snd \<circ> TryAcquire) w1))
      in if entered \<and> Some curr_sector \<noteq> prev_sector then
           let w3 = on_sector curr_sector (Add my_id) w2;
               w4 = (case prev_sector of
                   None \<Rightarrow> w3
                 | Some r \<Rightarrow> on_sector r Release (on_sector r (Remove my_id) w3))
           in on_session who (SetSightArea (Some curr_sector)) w4
         else w2)"

text \<open>Step 3: the list of a sector under a corner, taken between \<open>Acquire\<close> and \<open>Release\<close>.\<close>

definition take_list :: "sector_ref \<Rightarrow> pid set \<times> world \<Rightarrow> pid set \<times> world" where
  "take_list r vw =
     (let w1 = on_sector r Acquire (snd vw); list = GetSightList (sector_of w1 r)
      in (fst vw \<union> list, on_sector r Release w1))"

definition look_at :: "bool \<Rightarrow> int \<times> int \<Rightarrow> pid set \<times> world \<Rightarrow> (pid set \<times> world) res" where
  "look_at guard coords vw =
     (if guard then
        rbind (At_pair (mySightManager (snd vw)) coords) (\<lambda>sector. Inr (take_list sector vw))
      else Inr vw)"

definition look_at_corners :: "rat \<times> rat \<Rightarrow> pid set \<times> world \<Rightarrow> (pid set \<times> world) res" where
  "look_at_corners my_pos vw =
     (let m = mySightManager (snd vw); sgh_w = SIGHT_RAD_W; sgh_h = SIGHT_RAD_H;
          x = fst my_pos; y = snd my_pos;
          lu_coords = PickCoords_pair m (fsub x sgh_w, fsub y sgh_h);
          ru_coords = PickCoords_pair m (fadd x sgh_w, fsub y sgh_h);
          ld_coords = PickCoords_pair m (fsub x sgh_w, fadd y sgh_h);
          rd_coords = PickCoords_pair m (fadd x sgh_w, fadd y sgh_h)
      in rbind (look_at (0 < fst lu_coords \<and> 0 < snd lu_coords) lu_coords vw) (\<lambda>vw.
         rbind (look_at (fst ru_coords < WORLD_CELLS_CNT_H \<and> 0 < snd ru_coords) ru_coords vw) (\<lambda>vw.
         rbind (look_at (0 < fst ld_coords \<and> snd ld_coords < WORLD_CELLS_CNT_V) ld_coords vw) (\<lambda>vw.
         look_at (fst rd_coords < WORLD_CELLS_CNT_H \<and> snd rd_coords < WORLD_CELLS_CNT_V)
           rd_coords vw))))"

text \<open>Step 5, one entity of the current view: it appears, moves or disappears.\<close>

definition see_other :: "nat \<Rightarrow> pid \<Rightarrow> pid \<Rightarrow> world \<times> pid set \<Rightarrow> world \<times> pid set" where
  "see_other who my_id other_id wp =
     (let w = fst wp; viewlist_prev = snd wp; my_pos = GetPosition (clientsPool w who)
      in case GetClientByID other_id w of
        None \<Rightarrow>
          (SendDisppearEntity who other_id (on_session who (RemoveViewOf other_id) w), viewlist_prev)
      | Some other \<Rightarrow>
          let out = check_out my_pos (GetPosition (clientsPool w other));
              ot_is_player = IsPlayer other_id
          in if other_id \<notin> viewlist_prev then
               (if other_id \<noteq> my_id then
                  if out then
                    on_session other (RemoveViewOf my_id) (on_session who (RemoveViewOf other_id) w)
                  else
                    let w1 = on_session who (AddSight other_id) w;
                        w2 = SendAppearEntity who other_id (myInfobox (clientsPool w1 other)) w1;
                        w3 = on_session other (AddSight my_id) w2
                    in if ot_is_player
                       then SendAppearEntity other my_id (myInfobox (clientsPool w3 who)) w3
                       else w3
                else w, viewlist_prev)
             else if out then
               let w1 = SendDisppearEntity who other_id (on_session who (RemoveViewOf other_id) w)
               in (if other_id \<noteq> my_id then
                     let w2 = on_session other (RemoveViewOf my_id) w1
                     in if ot_is_player then SendDisppearEntity other my_id w2 else w2
                   else w1, viewlist_prev - {other_id})
             else
               (if ot_is_player then
                  SendMoveEntity other my_id (fst my_pos) (snd my_pos)
                    (ib_dir (myInfobox (clientsPool w who))) w
                else w, viewlist_prev - {other_id}))"

text \<open>One entity of the previous view that the current one lacks.\<close>

definition lose_other :: "nat \<Rightarrow> pid \<Rightarrow> pid \<Rightarrow> world \<Rightarrow> world" where
  "lose_other who my_id other_id w =
     (if other_id \<noteq> my_id then
        let other = AcquireClientByID other_id w;
            w1 = SendDisppearEntity who other_id (on_session who (RemoveViewOf other_id) w)
        in case other of
            None \<Rightarrow> w1
          | Some other \<Rightarrow>
              let w2 = on_session other (RemoveViewOf my_id) w1;
                  w3 = (if IsPlayer other_id then SendDisppearEntity other my_id w2 else w2)
              in ReleaseClient (Index (clientsPool w3 other)) other w3
      else w)"

text \<open>Steps 4 and 5: the new view list is assigned and the differences are sent.\<close>

definition exchange_views ::
  "os \<Rightarrow> nat \<Rightarrow> pid \<Rightarrow> rat \<times> rat \<Rightarrow> pid set \<Rightarrow> pid set \<times> world \<Rightarrow> world" where
  "exchange_views os who my_id my_pos viewlist_prev vw =
     (let viewlist_curr = fst vw;
          w3 = on_session who (\<lambda>s. s\<lparr>myInfobox :=
            (myInfobox s)\<lparr>ib_x := fst my_pos, ib_y := snd my_pos\<rparr>\<rparr>) (snd vw);
          w4 = on_session who (AssignSight viewlist_curr) w3;
          (w5, viewlist_prev) =
            fold (see_other who my_id) (order os viewlist_curr) (w4, viewlist_prev);
          w6 = on_session who (ReleaseID my_id) w5
      in fold (lose_other who my_id) (order os viewlist_prev) w6)"

definition UpdateSight :: "os \<Rightarrow> nat \<Rightarrow> world \<Rightarrow> world res" where
  "UpdateSight os who w =
     (let my_id = AcquireID (clientsPool w who);
          viewlist_prev = GetLocalSight (clientsPool w who);
          my_pos = GetPosition (clientsPool w who)
      in rbind (At_pair (mySightManager w) (PickCoords_pair (mySightManager w) my_pos)) (\<lambda>curr_sector.
         let w1 = enter_sector who my_id curr_sector w;
             viewlist_curr = GetSightList (sector_of w1 curr_sector);
             w2 = on_sector curr_sector Release w1
         in rbind (look_at_corners my_pos (viewlist_curr, w2)) (\<lambda>vw.
            Inr (exchange_views os who my_id my_pos viewlist_prev vw))))"

definition InitializeSight :: "os \<Rightarrow> nat \<Rightarrow> world \<Rightarrow> world res" where
  "InitializeSight os who w = rbind (RegisterSight who w) (UpdateSight os who)"

subsection \<open>Leaving\<close>

definition forget_me :: "pid \<Rightarrow> pid \<Rightarrow> world \<Rightarrow> world" where
  "forget_me my_id other_id w =
     (if my_id = other_id then w
      else case AcquireClientByID other_id w of
        None \<Rightarrow> w
      | Some other \<Rightarrow>
          let w1 = (if IsAccepted (clientsPool w other) then
                let w' = on_session other (RemoveViewOf my_id) w
                in if IsPlayer other_id then SendDisppearEntity other my_id w' else w'
              else w)
          in ReleaseClient (Index (clientsPool w1 other)) other w1)"

definition CleanupSight :: "os \<Rightarrow> nat \<Rightarrow> world \<Rightarrow> world res" where
  "CleanupSight os who w =
     (let my_id = GetID (clientsPool w who)
      in case GetSightArea (clientsPool w who) of
        None \<Rightarrow> Inl NullDeref
      | Some curr_sector \<Rightarrow>
          let w1 = on_sector curr_sector Acquire w;
              w2 = on_sector curr_sector (Remove my_id) w1;
              w3 = on_sector curr_sector Release w2
          in Inr (fold (forget_me my_id) (order os (GetSight (clientsPool w3 who))) w3))"

end
