(* ===== verification/Views.thy ===== *)
theory Views
  imports Sight
begin

section \<open>What the sight handlers achieve\<close>

text \<open>
  The lemmas on \<open>Sight\<close>. The loops of \<open>UpdateSight\<close> touch the view lists and the log only,
  so a state is written \<open>with_views w V L\<close>: the state \<open>w\<close> with the view lists \<open>V\<close> and the log
  \<open>L\<close>. What a client has been told is computed from the log: the entities whose last packet
  to its socket was an appearance.
\<close>

subsection \<open>What a client was told\<close>

definition display :: "packet \<Rightarrow> pid set \<Rightarrow> pid set" where
  "display p shown = (if Type p = SC_APPEAR_OBJ then insert (playerID p) shown
     else if Type p = SC_DISAPPEAR_OBJ then shown - {playerID p} else shown)"

definition told_step :: "socket \<Rightarrow> effect \<Rightarrow> pid set \<Rightarrow> pid set" where
  "told_step s e shown =
     (case e of ESend s' b a \<Rightarrow> (if s' = s then (case w_buf b of MPacket p \<Rightarrow> display p shown
        | MRecv _ _ \<Rightarrow> shown) else shown) | _ \<Rightarrow> shown)"

definition told :: "socket \<Rightarrow> effect list \<Rightarrow> pid set" where
  "told s es = fold (told_step s) es {}"

lemma told_append: "told s (L @ es) = fold (told_step s) es (told s L)"
  by (simp add: told_def)

lemma told_Nil [simp]: "told s [] = {}"
  by (simp add: told_def)

lemma told_snoc [simp]: "told s (L @ [e]) = told_step s e (told s L)"
  by (simp add: told_def)

lemma told_step_ticket [simp]:
  "told_step s (ESend s' (fst (CreateTicket p)) a) shown = (if s' = s then display p shown else shown)"
  by (simp add: told_step_def CreateTicket_def Let_def)

lemma display_packets [simp]:
  "display (infobox_packet ib) shown = insert (ib_playerID ib) shown"
  "display (SCPacketDisppearCharacter i) shown = shown - {i}"
  "display (SCPacketMoveCharacter i x y d) shown = shown"
  "display (SCPacketSignUp i u m) shown = shown"
  "display (SCPacketSignInFailed i r u) shown = shown"
  by (simp_all add: display_def infobox_packet_def mk_packet_def SCPacketDisppearCharacter_def
      SCPacketMoveCharacter_def SCPacketSignUp_def SCPacketSignInFailed_def)

subsection \<open>Distance\<close>

lemma wrap_int32_id: "- (2 ^ 31) \<le> i \<Longrightarrow> i < 2 ^ 31 \<Longrightarrow> wrap_int32 i = i"
  by (simp add: wrap_int32_def)

lemma sight_magnitude_value: "sight_magnitude = 50176"
  by (simp add: sight_magnitude_def fmul_def const_simps)

lemma f32_int_less:
  assumes "\<bar>n\<bar> < 2 ^ 24 - 1"
  shows "of_int n < f32 (of_int k) \<longleftrightarrow> n < k"
proof
  have n: "is_f32 (of_int n)" "is_f32 (of_int (n + 1))" using assms by (intro is_f32_int; linarith)+
  show "of_int n < f32 (of_int k) \<Longrightarrow> n < k"
    using f32_le_bound [OF _ n(1), of "of_int k"] by (meson leD linorder_not_less of_int_le_iff)
  assume "n < k"
  then have "(of_int (n + 1) :: rat) \<le> of_int k" by (simp only: of_int_le_iff)
  then have "of_int (n + 1) \<le> f32 (of_int k)" by (rule f32_ge_bound [OF _ n(2)])
  then show "of_int n < f32 (of_int k)" by simp
qed

lemma check_out_iff: "check_out p q \<longleftrightarrow> 50176 < SightDistance p q"
  using f32_int_less [of 50176 "SightDistance p q"]
  by (simp add: check_out_def sight_magnitude_value)

lemma check_out_self [simp]: "\<not> check_out p p"
  by (simp add: check_out_iff SightDistance_def wrap_int32_def)

text \<open>For positions in the world the test is the square of the distance of the cut coordinates.\<close>

definition near :: "rat \<times> rat \<Rightarrow> rat \<times> rat \<Rightarrow> bool" where
  "near p q \<longleftrightarrow> (truncate_rat (fst p) - truncate_rat (fst q))\<^sup>2
     + (truncate_rat (snd p) - truncate_rat (snd q))\<^sup>2 \<le> 50176"

subsection \<open>Only views and the log change\<close>

definition with_views :: "world \<Rightarrow> (nat \<Rightarrow> pid set) \<Rightarrow> effect list \<Rightarrow> world" where
  "with_views w V L =
     w\<lparr>clientsPool := (\<lambda>p. (clientsPool w p)\<lparr>myViewList := V p\<rparr>), log := L\<rparr>"

named_theorems views_simps \<open>the operations of the loops on a state with given views\<close>

lemma with_views_fields [views_simps]:
  "clientsPool (with_views w V L) p = (clientsPool w p)\<lparr>myViewList := V p\<rparr>"
  "myClients (with_views w V L) = myClients w" "log (with_views w V L) = L"
  "mySightManager (with_views w V L) = mySightManager w"
  "numberClients (with_views w V L) = numberClients w"
  "orderClientIDs (with_views w V L) = orderClientIDs w"
  "acceptNewbie (with_views w V L) = acceptNewbie w"
  "acceptBeginPlace (with_views w V L) = acceptBeginPlace w"
  by (simp_all add: with_views_def)

lemma with_views_self: "with_views w (\<lambda>p. myViewList (clientsPool w p)) (log w) = w"
  by (simp add: with_views_def)

lemma on_session_views [views_simps]:
  "on_session q (AddSight i) (with_views w V L) = with_views w (V(q := insert i (V q))) L"
  "on_session q (RemoveViewOf i) (with_views w V L) = with_views w (V(q := V q - {i})) L"
  by (auto simp: on_session_def with_views_def AddSight_def RemoveViewOf_def fun_eq_iff)

lemma Send_views [views_simps]:
  "Send q t (with_views w V L) =
     with_views w V (L @ [ESend (Socket (clientsPool w q)) (fst t) (snd t)])"
  by (simp add: Send_def emit_def with_views_def)

lemma GetPosition_views [views_simps]: "GetPosition (s\<lparr>myViewList := v\<rparr>) = GetPosition s"
  by (simp add: GetPosition_def)

lemma GetClientByID_views [views_simps]:
  "GetClientByID i (with_views w V L) = myClients w i"
  "AcquireClientByID i (with_views w V L) = myClients w i"
  by (simp_all add: world_simps views_simps)

definition in_sight :: "world \<Rightarrow> nat \<Rightarrow> pid \<Rightarrow> bool" where
  "in_sight w p o' \<longleftrightarrow> (\<exists>q. myClients w o' = Some q
     \<and> \<not> check_out (GetPosition (clientsPool w p)) (GetPosition (clientsPool w q)))"

text \<open>The sockets of the registered players are theirs alone; the others have none.\<close>

definition sockets_ok :: "world \<Rightarrow> bool" where
  "sockets_ok w \<longleftrightarrow>
     (\<forall>i p. myClients w i = Some p \<longrightarrow> (Socket (clientsPool w p) = NULL_SOCKET \<longleftrightarrow> \<not> IsPlayer i))
     \<and> (\<forall>i j p q. myClients w i = Some p \<longrightarrow> myClients w j = Some q \<longrightarrow> IsPlayer i \<longrightarrow> i \<noteq> j
          \<longrightarrow> Socket (clientsPool w p) \<noteq> Socket (clientsPool w q))"

lemma sockets_okD:
  assumes "sockets_ok w" and "myClients w i = Some p" and "IsPlayer i"
  shows "Socket (clientsPool w p) \<noteq> NULL_SOCKET"
    and "myClients w j = Some q \<Longrightarrow> i \<noteq> j \<Longrightarrow>
      Socket (clientsPool w q) \<noteq> Socket (clientsPool w p)"
  using assms unfolding sockets_ok_def by metis+

subsection \<open>The loop over the current view\<close>

text \<open>
  The views after the entities in \<open>D\<close> were looked at, from views \<open>V\<close> and the previous view
  \<open>prev\<close>, and what the clients were told by then.
\<close>

definition seen_views ::
  "world \<Rightarrow> nat \<Rightarrow> pid \<Rightarrow> pid set \<Rightarrow> pid set \<Rightarrow> (nat \<Rightarrow> pid set) \<Rightarrow> nat \<Rightarrow> pid set" where
  "seen_views w p me prev D V r =
     (if r = p then (V p \<union> {i \<in> D. i \<noteq> me \<and> i \<notin> prev \<and> in_sight w p i}) - {i \<in> D. \<not> in_sight w p i}
      else let i = ID (clientsPool w r) in
        if myClients w i = Some r \<and> i \<in> D then
          (if in_sight w p i then if i \<in> prev then V r else insert me (V r) else V r - {me})
        else V r)"

definition seen_told ::
  "world \<Rightarrow> nat \<Rightarrow> pid \<Rightarrow> pid set \<Rightarrow> pid set \<Rightarrow> (nat \<Rightarrow> pid set) \<Rightarrow> nat \<Rightarrow> pid set" where
  "seen_told w p me prev D T r =
     (if r = p then (T p \<union> {i \<in> D. i \<noteq> me \<and> i \<notin> prev \<and> in_sight w p i})
        - {i \<in> D. \<not> in_sight w p i \<and> (i \<in> prev \<or> myClients w i = None)}
      else let i = ID (clientsPool w r) in
        if myClients w i = Some r \<and> i \<in> D then
          (if in_sight w p i then if i \<in> prev then T r else insert me (T r)
           else if i \<in> prev then T r - {me} else T r)
        else T r)"

abbreviation told_at :: "world \<Rightarrow> effect list \<Rightarrow> nat \<Rightarrow> pid set" where
  "told_at w L r \<equiv> told (Socket (clientsPool w r)) L"

definition player_at :: "world \<Rightarrow> nat \<Rightarrow> bool" where
  "player_at w r \<longleftrightarrow> myClients w (ID (clientsPool w r)) = Some r \<and> IsPlayer (ID (clientsPool w r))"

definition seen_state ::
  "world \<Rightarrow> nat \<Rightarrow> pid \<Rightarrow> pid set \<Rightarrow> (nat \<Rightarrow> pid set) \<Rightarrow> effect list \<Rightarrow> pid set \<Rightarrow> world \<times> pid set \<Rightarrow> bool"
where
  "seen_state w p me prev V L D s \<longleftrightarrow>
     (\<exists>V' L'. s = (with_views w V' L', prev - {i \<in> D. myClients w i \<noteq> None})
        \<and> V' = seen_views w p me prev D V
        \<and> (\<forall>r. player_at w r \<longrightarrow> told_at w L' r = seen_told w p me prev D (told_at w L) r))"

lemma in_sight_self: "myClients w me = Some p \<Longrightarrow> in_sight w p me"
  by (simp add: in_sight_def)

lemma in_sight_Some:
  "myClients w i = Some q \<Longrightarrow>
   in_sight w p i \<longleftrightarrow> \<not> check_out (GetPosition (clientsPool w p)) (GetPosition (clientsPool w q))"
  by (simp add: in_sight_def)

lemma in_sight_None: "myClients w i = None \<Longrightarrow> \<not> in_sight w p i"
  by (simp add: in_sight_def)

text \<open>Sockets of players compare like their places.\<close>

lemma player_socket:
  assumes "sockets_ok w" and "player_at w r" and "myClients w i = Some q"
  shows "Socket (clientsPool w q) = Socket (clientsPool w r) \<longleftrightarrow> q = r"
proof
  assume eq: "Socket (clientsPool w q) = Socket (clientsPool w r)"
  have "i = ID (clientsPool w r)"
    using sockets_okD(2) [OF assms(1), of "ID (clientsPool w r)" r i q] assms eq
    by (auto simp: player_at_def)
  then show "q = r" using assms(2,3) by (simp add: player_at_def)
qed simp

lemma seen_views_insert:
  assumes "wf_world w" and "myClients w me = Some p" and "x \<notin> D"
  shows "seen_views w p me prev (insert x D) V r =
    (let V' = seen_views w p me prev D V in
     if r = p then
       (if \<not> in_sight w p x then V' p - {x}
        else if x \<noteq> me \<and> x \<notin> prev then insert x (V' p) else V' p)
     else if myClients w x = Some r then
       (if in_sight w p x then if x \<in> prev then V' r else insert me (V' r) else V' r - {me})
     else V' r)"
proof (cases "r = p")
  case True
  then show ?thesis using assms(3) by (auto simp: seen_views_def Let_def)
next
  case False
  show ?thesis
  proof (cases "myClients w x = Some r")
    case True
    then have "ID (clientsPool w r) = x" using assms(1) wf_worldD(6) by blast
    with False True show ?thesis using assms(3) by (simp add: seen_views_def)
  next
    case False
    then have "myClients w (ID (clientsPool w r)) = Some r \<Longrightarrow> ID (clientsPool w r) \<noteq> x" by auto
    with \<open>r \<noteq> p\<close> False show ?thesis by (auto simp: seen_views_def Let_def)
  qed
qed

lemma seen_told_insert:
  assumes "wf_world w" and "myClients w me = Some p" and "x \<notin> D"
  shows "seen_told w p me prev (insert x D) T r =
    (let T' = seen_told w p me prev D T in
     if r = p then
       (if \<not> in_sight w p x then if x \<in> prev \<or> myClients w x = None then T' p - {x} else T' p
        else if x \<noteq> me \<and> x \<notin> prev then insert x (T' p) else T' p)
     else if myClients w x = Some r then
       (if in_sight w p x then if x \<in> prev then T' r else insert me (T' r)
        else if x \<in> prev then T' r - {me} else T' r)
     else T' r)"
proof (cases "r = p")
  case True
  then show ?thesis using assms(3) by (auto simp: seen_told_def Let_def)
next
  case False
  show ?thesis
  proof (cases "myClients w x = Some r")
    case True
    then have "ID (clientsPool w r) = x" using assms(1) wf_worldD(6) by blast
    with False True show ?thesis using assms(3) by (simp add: seen_told_def)
  next
    case False
    then have "myClients w (ID (clientsPool w r)) = Some r \<Longrightarrow> ID (clientsPool w r) \<noteq> x" by auto
    with \<open>r \<noteq> p\<close> False show ?thesis by (auto simp: seen_told_def Let_def)
  qed
qed

lemma seen_stateI:
  assumes "s = (with_views w V' L', P)" and "P = prev - {i \<in> D. myClients w i \<noteq> None}"
    and "\<And>r. V' r = seen_views w p me prev D V r"
    and "\<And>r. player_at w r \<Longrightarrow> told_at w L' r = seen_told w p me prev D (told_at w L) r"
  shows "seen_state w p me prev V L D s"
  using assms by (auto simp: seen_state_def fun_eq_iff)

lemma see_other_step:
  assumes wf: "wf_world w" and so: "sockets_ok w" and me: "myClients w me = Some p"
    and x: "x \<notin> D" and st: "seen_state w p me prev V L D s"
  shows "seen_state w p me prev V L (insert x D) (see_other p me x s)"
proof -
  define V1 where "V1 = seen_views w p me prev D V"
  define P where "P = prev - {i \<in> D. myClients w i \<noteq> None}"
  obtain L1 where s: "s = (with_views w V1 L1, P)"
    and T: "\<And>r. player_at w r \<Longrightarrow> told_at w L1 r = seen_told w p me prev D (told_at w L) r"
    using st by (auto simp: seen_state_def V1_def P_def)
  have xP: "x \<in> P \<longleftrightarrow> x \<in> prev" using x by (simp add: P_def)
  note sock = player_socket [OF so]
  note IDme = registered_session(2,3) [OF wf me]
  note Vi = seen_views_insert [OF wf me x, of prev V, folded V1_def, unfolded Let_def]
  note Ti = seen_told_insert [OF wf me x, of prev, unfolded Let_def]
  show ?thesis
  proof (cases "myClients w x")
    case None
    then have "x \<noteq> me" using me by auto
    show ?thesis
      by (rule seen_stateI [where V' = "V1(p := V1 p - {x})" and P = P])
        (use None \<open>x \<noteq> me\<close> me in \<open>auto simp: s see_other_def Let_def views_simps send_defs Vi Ti
          in_sight_None sock T P_def\<close>)
  next
    case (Some q)
    note IDq = registered_session(2,3) [OF wf Some]
    have pq: "q = p \<longleftrightarrow> x = me" "p = q \<longleftrightarrow> x = me"
      using Some me registered_inj [OF wf] by auto
    note sight = in_sight_Some [OF Some, of p]
    have pl: "player_at w q \<longleftrightarrow> IsPlayer x" using Some IDq by (simp add: player_at_def)
    note defs = s see_other_def Let_def views_simps send_defs Vi Ti sight sock T pq xP IDq IDme
    let ?msg = "\<lambda>r k. ESend (Socket (clientsPool w r)) (fst (CreateTicket k)) (snd (CreateTicket k))"
    consider (new_self) "x \<notin> prev" "x = me" | (new_out) "x \<notin> prev" "x \<noteq> me" "\<not> in_sight w p x"
      | (new_in) "x \<notin> prev" "x \<noteq> me" "in_sight w p x" | (old_out) "x \<in> prev" "\<not> in_sight w p x"
      | (old_in) "x \<in> prev" "in_sight w p x" by blast
    then show ?thesis
    proof cases
      case new_self
      have "seen_views w p me prev (insert x D) V r = V1 r"
        "seen_told w p me prev (insert x D) T' r = seen_told w p me prev D T' r" for r T'
        unfolding Vi Ti using new_self in_sight_self [OF me] pq Some by auto
      moreover have "see_other p me x s = (with_views w V1 L1, P)"
        using new_self xP Some by (simp add: s see_other_def Let_def views_simps)
      ultimately show ?thesis
        by (intro seen_stateI [where V' = V1 and P = P]) (use new_self in \<open>auto simp: P_def T\<close>)
    next
      case new_out
      show ?thesis
        by (rule seen_stateI [where V' = "V1(p := V1 p - {x}, q := V1 q - {me})" and P = P])
          (use Some new_out me in \<open>auto simp: defs P_def\<close>)
    next
      case new_in
      show ?thesis
      proof (cases "IsPlayer x")
        case True
        show ?thesis
          by (rule seen_stateI [where V' = "V1(p := insert x (V1 p), q := insert me (V1 q))" and P = "P"])
            (use True x Some new_in me in \<open>auto simp: defs P_def pl told_append split: if_splits\<close>)
      next
        case False
        show ?thesis
          by (rule seen_stateI [where V' = "V1(p := insert x (V1 p), q := insert me (V1 q))" and P = "P"])
            (use False x Some new_in me in \<open>auto simp: defs P_def pl told_append split: if_splits\<close>)
      qed
    next
      case old_out
      then have "x \<noteq> me" using in_sight_self [OF me] by auto
      show ?thesis
      proof (cases "IsPlayer x")
        case True
        show ?thesis
          by (rule seen_stateI [where V' = "V1(p := V1 p - {x}, q := V1 q - {me})" and P = "P - {x}"
                and L' = "L1 @ [?msg p (SCPacketDisppearCharacter x), ?msg q (SCPacketDisppearCharacter me)]"])
            (use True x Some old_out \<open>x \<noteq> me\<close> me in \<open>auto simp: defs P_def pl told_append split: if_splits\<close>)
      next
        case False
        show ?thesis
          by (rule seen_stateI [where V' = "V1(p := V1 p - {x}, q := V1 q - {me})" and P = "P - {x}"
                and L' = "L1 @ [?msg p (SCPacketDisppearCharacter x)]"])
            (use False x Some old_out \<open>x \<noteq> me\<close> me in \<open>auto simp: defs P_def pl told_append split: if_splits\<close>)
      qed
    next
      case old_in
      show ?thesis
      proof (cases "IsPlayer x")
        case True
        show ?thesis
          by (rule seen_stateI [where V' = "V1" and P = "P - {x}"])
            (use True x Some old_in me in \<open>auto simp: defs P_def pl told_append split: if_splits\<close>)
      next
        case False
        show ?thesis
          by (rule seen_stateI [where V' = "V1" and P = "P - {x}"])
            (use False x Some old_in me in \<open>auto simp: defs P_def pl told_append split: if_splits\<close>)
      qed
    qed
  qed
qed

lemma seen_state_start:
  "seen_state w p me prev V L {} (with_views w V L, prev)"
proof -
  have "seen_views w p me prev {} V r = V r" "seen_told w p me prev {} T r = T r" for r T
    by (simp_all add: seen_views_def seen_told_def Let_def)
  then show ?thesis by (intro seen_stateI [where V' = V and P = prev and L' = L]) auto
qed

lemma see_all:
  assumes "wf_world w" and "sockets_ok w" and "myClients w me = Some p" and "distinct xs"
  obtains V' L' where
    "fold (see_other p me) xs (with_views w V L, prev) =
       (with_views w V' L', prev - {i \<in> set xs. myClients w i \<noteq> None})"
    and "V' = seen_views w p me prev (set xs) V"
    and "\<And>r. player_at w r \<Longrightarrow> told_at w L' r = seen_told w p me prev (set xs) (told_at w L) r"
proof -
  have "seen_state w p me prev V L (set xs) (fold (see_other p me) xs (with_views w V L, prev))"
    by (rule fold_visited [OF assms(4), of "seen_state w p me prev V L"])
      (use seen_state_start see_other_step [OF assms(1-3)] in auto)
  then show thesis unfolding seen_state_def using that by blast
qed

subsection \<open>The loop over the previous view\<close>

definition lost_views :: "world \<Rightarrow> nat \<Rightarrow> pid \<Rightarrow> pid set \<Rightarrow> (nat \<Rightarrow> pid set) \<Rightarrow> nat \<Rightarrow> pid set" where
  "lost_views w p me D V r =
     (if r = p then V p - (D - {me})
      else if myClients w (ID (clientsPool w r)) = Some r \<and> ID (clientsPool w r) \<in> D
        then V r - {me} else V r)"

definition lost_state ::
  "world \<Rightarrow> nat \<Rightarrow> pid \<Rightarrow> (nat \<Rightarrow> pid set) \<Rightarrow> effect list \<Rightarrow> pid set \<Rightarrow> world \<Rightarrow> bool" where
  "lost_state w p me V L D s \<longleftrightarrow>
     (\<exists>V' L'. s = with_views w V' L' \<and> V' = lost_views w p me D V
        \<and> (\<forall>r. player_at w r \<longrightarrow> told_at w L' r = lost_views w p me D (told_at w L) r))"

lemma lost_stateI:
  assumes "s = with_views w V' L'" and "\<And>r. V' r = lost_views w p me D V r"
    and "\<And>r. player_at w r \<Longrightarrow> told_at w L' r = lost_views w p me D (told_at w L) r"
  shows "lost_state w p me V L D s"
  using assms by (auto simp: lost_state_def fun_eq_iff)

lemma lost_views_insert:
  assumes "wf_world w" and "myClients w me = Some p"
  shows "lost_views w p me (insert x D) V r =
    (if x = me then lost_views w p me D V r
     else if r = p then lost_views w p me D V p - {x}
     else if myClients w x = Some r then lost_views w p me D V r - {me}
     else lost_views w p me D V r)"
proof (cases "r = p")
  case True
  then show ?thesis by (auto simp: lost_views_def)
next
  case np: False
  show ?thesis
  proof (cases "myClients w x = Some r")
    case True
    then have "ID (clientsPool w r) = x" using wf_worldD(6) [OF assms(1)] by blast
    with True np assms(2) show ?thesis by (auto simp: lost_views_def)
  next
    case False
    then have "myClients w (ID (clientsPool w r)) = Some r \<Longrightarrow> ID (clientsPool w r) \<noteq> x" by auto
    with np False show ?thesis by (auto simp: lost_views_def)
  qed
qed

lemma lose_other_step:
  assumes wf: "wf_world w" and so: "sockets_ok w" and me: "myClients w me = Some p"
    and st: "lost_state w p me V L D s"
  shows "lost_state w p me V L (insert x D) (lose_other p me x s)"
proof -
  define V1 where "V1 = lost_views w p me D V"
  obtain L1 where s: "s = with_views w V1 L1"
    and T: "\<And>r. player_at w r \<Longrightarrow> told_at w L1 r = lost_views w p me D (told_at w L) r"
    using st by (auto simp: lost_state_def V1_def)
  note sock = player_socket [OF so]
  note IDme = registered_session(2,3) [OF wf me]
  note Li = lost_views_insert [OF wf me]
  note defs = s lose_other_def Let_def views_simps send_defs Li V1_def [symmetric] sock T IDme told_append
  show ?thesis
  proof (cases "x = me")
    case True
    show ?thesis unfolding True
      by (rule lost_stateI [where V' = V1 and L' = L1]) (simp_all add: defs)
  next
    case False
    note other = this
    let ?msg = "\<lambda>r k. ESend (Socket (clientsPool w r)) (fst (CreateTicket k)) (snd (CreateTicket k))"
    show ?thesis
    proof (cases "myClients w x")
      case None
      show ?thesis
        by (rule lost_stateI [where V' = "V1(p := V1 p - {x})"
              and L' = "L1 @ [?msg p (SCPacketDisppearCharacter x)]"])
          (use None False me in \<open>auto simp: defs\<close>)
    next
      case (Some q)
      note IDq = registered_session(1-3) [OF wf Some]
      have pq: "q \<noteq> p" using Some me registered_inj [OF wf] False by auto
      have pl: "player_at w q \<longleftrightarrow> IsPlayer x" using Some IDq by (simp add: player_at_def)
      show ?thesis
      proof (cases "IsPlayer x")
        case True
        show ?thesis
          by (rule lost_stateI [where V' = "V1(p := V1 p - {x}, q := V1 q - {me})"
                and L' = "L1 @ [?msg p (SCPacketDisppearCharacter x), ?msg q (SCPacketDisppearCharacter me)]"])
            (use True Some other me pq in \<open>auto simp: defs IDq pl world_simps split: if_splits\<close>)
      next
        case False
        show ?thesis
          by (rule lost_stateI [where V' = "V1(p := V1 p - {x}, q := V1 q - {me})"
                and L' = "L1 @ [?msg p (SCPacketDisppearCharacter x)]"])
            (use False Some other me pq in \<open>auto simp: defs IDq pl world_simps split: if_splits\<close>)
      qed
    qed
  qed
qed

lemma lose_all:
  assumes "wf_world w" and "sockets_ok w" and "myClients w me = Some p"
  obtains V' L' where "fold (lose_other p me) xs (with_views w V L) = with_views w V' L'"
    and "V' = lost_views w p me (set xs) V"
    and "\<And>r. player_at w r \<Longrightarrow> told_at w L' r = lost_views w p me (set xs) (told_at w L) r"
proof -
  have "lost_state w p me V L {} (with_views w V L)"
    by (rule lost_stateI [where V' = V and L' = L]) (auto simp: lost_views_def)
  then have "lost_state w p me V L (set xs) (fold (lose_other p me) xs (with_views w V L))"
  proof (induction xs rule: rev_induct)
    case Nil
    then show ?case by simp
  next
    case (snoc x xs)
    then show ?case using lose_other_step [OF assms] by simp
  qed
  then show thesis unfolding lost_state_def using that by blast
qed

end
