(* ===== verification/SightSearch.thy ===== *)
theory SightSearch
  imports Views
begin

section \<open>The sectors a search looks at\<close>

text \<open>
  The part of \<open>UpdateSight\<close> that works on the grid: entering the sector of the position and
  collecting the lists under the corners of the view. Both leave every sector released.
\<close>

text \<open>The grid \<open>m\<close> has the lists \<open>S\<close> and no sector is owned.\<close>

definition grid_has :: "sight_manager \<Rightarrow> (sector_ref \<Rightarrow> pid set) \<Rightarrow> bool" where
  "grid_has m S \<longleftrightarrow> wf_grid m
     \<and> (\<forall>r. valid_ref r \<longrightarrow> mySight (sector_at m r) = S r \<and> \<not> isOwned (sector_at m r))"

abbreviation sights_of :: "sight_manager \<Rightarrow> sector_ref \<Rightarrow> pid set" where
  "sights_of m r \<equiv> mySight (sector_at m r)"

lemma grid_hasD:
  assumes "grid_has m S"
  shows "wf_grid m" and "valid_ref r \<Longrightarrow> mySight (sector_at m r) = S r"
    and "valid_ref r \<Longrightarrow> \<not> isOwned (sector_at m r)"
  using assms unfolding grid_has_def by blast+

lemma wf_world_grid_has: "wf_world w \<Longrightarrow> grid_has (mySightManager w) (sights_of (mySightManager w))"
  unfolding grid_has_def using wf_worldD(1,2) by blast

lemma on_sector_manager:
  "on_sector r f w = w\<lparr>mySightManager := update_sector r f (mySightManager w)\<rparr>"
  by (simp add: on_sector_def)

lemma wf_update_simple:
  "wf_grid m \<Longrightarrow> valid_ref r \<Longrightarrow> wf_grid (update_sector r Acquire m)"
  "wf_grid m \<Longrightarrow> valid_ref r \<Longrightarrow> wf_grid (update_sector r Release m)"
  "wf_grid m \<Longrightarrow> valid_ref r \<Longrightarrow> wf_grid (update_sector r (snd \<circ> TryAcquire) m)"
  "wf_grid m \<Longrightarrow> valid_ref r \<Longrightarrow> wf_grid (update_sector r (Add i) m)"
  "wf_grid m \<Longrightarrow> valid_ref r \<Longrightarrow> wf_grid (update_sector r (Remove i) m)"
  using finite_sector [of m r] by (auto intro!: wf_update_sector simp: sector_simps)

subsection \<open>Entering a sector\<close>

definition entered_lists ::
  "sector_ref option \<Rightarrow> sector_ref \<Rightarrow> pid \<Rightarrow> (sector_ref \<Rightarrow> pid set) \<Rightarrow> sector_ref \<Rightarrow> pid set" where
  "entered_lists prev cur me S r =
     (if prev = Some cur then S r else if r = cur then insert me (S r)
      else if prev = Some r then S r - {me} else S r)"

lemma enter_sector_result:
  assumes g: "grid_has (mySightManager w) S" and v: "valid_ref cur"
    and pv: "\<And>r. mySightSector (clientsPool w p) = Some r \<Longrightarrow> valid_ref r"
  obtains m where
    "on_sector cur Release (enter_sector p me cur w) =
       on_session p (SetSightArea (Some cur)) (w\<lparr>mySightManager := m\<rparr>)"
    and "grid_has m (entered_lists (mySightSector (clientsPool w p)) cur me S)"
    and "GetSightList (sector_of (enter_sector p me cur w) cur)
       = entered_lists (mySightSector (clientsPool w p)) cur me S cur"
proof -
  let ?m = "mySightManager w"
  note wf = grid_hasD(1) [OF g]
  note simps = enter_sector_def Let_def GetSightArea_def on_sector_manager on_session_def
    SetSightArea_def sector_simps GetSightList_def wf_update_simple wf v entered_lists_def
  have own: "\<And>r. valid_ref r \<Longrightarrow> \<not> isOwned (sector_at ?m r)" using grid_hasD(3) [OF g] .
  have sight: "\<And>r. valid_ref r \<Longrightarrow> mySight (sector_at ?m r) = S r" using grid_hasD(2) [OF g] .
  show thesis
  proof (cases "mySightSector (clientsPool w p)")
    case None
    let ?m' = "update_sector cur Release (update_sector cur (Add me) (update_sector cur Acquire ?m))"
    show ?thesis
      by (rule that [of ?m'])
        (use None in \<open>auto simp: simps own sight grid_has_def\<close>)
  next
    case (Some r)
    note r = pv [OF Some]
    show ?thesis
    proof (cases "r = cur")
      case True
      let ?m' = "update_sector cur Release (update_sector cur (snd \<circ> TryAcquire) (update_sector cur Acquire ?m))"
      have "(clientsPool w)(p := (clientsPool w p)\<lparr>mySightSector := Some cur\<rparr>) = clientsPool w"
        using Some True by (simp add: fun_eq_iff)
      then show ?thesis
        by (intro that [of ?m'])
          (use Some True in \<open>auto simp: simps own sight grid_has_def\<close>)
    next
      case False
      let ?m' = "update_sector cur Release (update_sector r Release (update_sector r (Remove me)
        (update_sector cur (Add me) (update_sector r (snd \<circ> TryAcquire) (update_sector cur Acquire ?m)))))"
      show ?thesis
        by (rule that [of ?m'])
          (use Some False r in \<open>auto simp: simps own sight grid_has_def\<close>)
    qed
  qed
qed

subsection \<open>Looking under the corners\<close>

definition searched :: "rat \<times> rat \<Rightarrow> sector_ref list" where
  "searched pos =
     (let xl = cell (fsub (fst pos) 224); xr = cell (fadd (fst pos) 224);
          yu = cell (fsub (snd pos) 224); yd = cell (fadd (snd pos) 224)
      in (if 0 < yu \<and> 0 < xl then [(nat xl, nat yu)] else [])
         @ (if 0 < xr then [(nat xr, nat yu)] else [])
         @ (if 0 < yd then [(nat xl, nat yd)] else [])
         @ [(nat xr, nat yd)])"

lemma cell_le: "cell p \<le> 1999"
  by (simp add: cell_def std_clamp_def)

lemma take_list_result:
  assumes g: "grid_has (mySightManager (snd vw)) S" and v: "valid_ref r"
  obtains m where "take_list r vw = (fst vw \<union> S r, (snd vw)\<lparr>mySightManager := m\<rparr>)"
    and "grid_has m S"
proof (rule that [of "update_sector r Release (update_sector r Acquire (mySightManager (snd vw)))"])
  note wf = grid_hasD(1) [OF g]
  show "take_list r vw = (fst vw \<union> S r, (snd vw)\<lparr>mySightManager :=
      update_sector r Release (update_sector r Acquire (mySightManager (snd vw)))\<rparr>)"
    using wf v grid_hasD(2) [OF g]
    by (simp add: take_list_def Let_def on_sector_manager GetSightList_def sector_simps)
  show "grid_has (update_sector r Release (update_sector r Acquire (mySightManager (snd vw)))) S"
    using wf v grid_hasD(2,3) [OF g]
    by (auto simp: grid_has_def wf_update_simple sector_simps)
qed

lemma look_at_result:
  assumes g: "grid_has m0 S" and b: "a \<le> 64305" "b \<le> 64305"
  obtains m where
    "look_at guard (cell b, cell a) (v, w\<lparr>mySightManager := m0\<rparr>) =
       Inr (v \<union> (if guard then S (nat (cell a), nat (cell b)) else {}), w\<lparr>mySightManager := m\<rparr>)"
    and "grid_has m S"
proof (cases guard)
  case False
  then show thesis using that [of m0] g by (simp add: look_at_def)
next
  case True
  let ?r = "(nat (cell a), nat (cell b))"
  have n: "nat (cell a) < 134" "nat (cell b) < 134"
    using cell_in_grid [OF b(1)] cell_in_grid [OF b(2)] by linarith+
  have At: "At_pair m0 (cell b, cell a) = Inr ?r" and v: "valid_ref ?r"
    using n cell_in_grid [OF b(1)] cell_in_grid [OF b(2)] cell_nonneg [of a] cell_nonneg [of b]
    by (simp_all add: At_pair_def At_iff [OF grid_hasD(1) [OF g]] valid_ref_def)
  obtain m where "take_list ?r (v, w\<lparr>mySightManager := m0\<rparr>) = (v \<union> S ?r, w\<lparr>mySightManager := m\<rparr>)"
      "grid_has m S"
    using take_list_result [of "(v, w\<lparr>mySightManager := m0\<rparr>)" S ?r] g v by auto
  then show thesis using that True At by (simp add: look_at_def)
qed

lemma look_at_corners_result:
  assumes g: "grid_has (mySightManager w) S" and x: "fst pos \<le> 64000" and y: "snd pos \<le> 64000"
  obtains m where
    "look_at_corners pos (v, w) =
       Inr (v \<union> (\<Union>r \<in> set (searched pos). S r), w\<lparr>mySightManager := m\<rparr>)"
    and "grid_has m S"
proof -
  have f: "is_f32 64305" by simp
  have b: "fsub (fst pos) 224 \<le> 64305" "fadd (fst pos) 224 \<le> 64305"
    "fsub (snd pos) 224 \<le> 64305" "fadd (snd pos) 224 \<le> 64305"
    unfolding fsub_def fadd_def using x y by (intro f32_le_bound [OF _ f]; simp)+
  have rad: "SIGHT_RAD_W = 224" "SIGHT_RAD_H = 224" by (simp_all add: const_simps)
  note corner = PickCoords_pair_def PickCoords_cell [OF grid_hasD(1) [OF g]]
  define xl xr yu yd where "xl = fsub (fst pos) 224" and "xr = fadd (fst pos) 224"
    and "yu = fsub (snd pos) 224" and "yd = fadd (snd pos) 224"
  note b = b [folded xl_def xr_def yu_def yd_def]
  have lt: "cell z < WORLD_CELLS_CNT_H" "cell z < WORLD_CELLS_CNT_V" for z
    using cell_le [of z] by (simp_all add: const_simps)
  let ?S = "\<lambda>G a b. if G then S (nat (cell a), nat (cell b)) else {}"
  obtain m1 where 1: "look_at (0 < cell yu \<and> 0 < cell xl) (cell yu, cell xl) (v, w\<lparr>mySightManager := mySightManager w\<rparr>)
      = Inr (v \<union> ?S (0 < cell yu \<and> 0 < cell xl) xl yu, w\<lparr>mySightManager := m1\<rparr>)" "grid_has m1 S"
    using look_at_result [OF g b(1) b(3)] by blast
  let ?v1 = "v \<union> ?S (0 < cell yu \<and> 0 < cell xl) xl yu"
  obtain m2 where 2: "look_at (0 < cell xr) (cell yu, cell xr) (?v1, w\<lparr>mySightManager := m1\<rparr>)
      = Inr (?v1 \<union> ?S (0 < cell xr) xr yu, w\<lparr>mySightManager := m2\<rparr>)" "grid_has m2 S"
    using look_at_result [OF 1(2) b(2) b(3)] by blast
  let ?v2 = "?v1 \<union> ?S (0 < cell xr) xr yu"
  obtain m3 where 3: "look_at (0 < cell yd) (cell yd, cell xl) (?v2, w\<lparr>mySightManager := m2\<rparr>)
      = Inr (?v2 \<union> ?S (0 < cell yd) xl yd, w\<lparr>mySightManager := m3\<rparr>)" "grid_has m3 S"
    using look_at_result [OF 2(2) b(1) b(4)] by blast
  let ?v3 = "?v2 \<union> ?S (0 < cell yd) xl yd"
  obtain m4 where 4: "look_at True (cell yd, cell xr) (?v3, w\<lparr>mySightManager := m3\<rparr>)
      = Inr (?v3 \<union> ?S True xr yd, w\<lparr>mySightManager := m4\<rparr>)" "grid_has m4 S"
    using look_at_result [OF 3(2) b(2) b(4)] by blast
  have "look_at_corners pos (v, w) = Inr (?v3 \<union> ?S True xr yd, w\<lparr>mySightManager := m4\<rparr>)"
    using 1(1) 2(1) 3(1) 4(1)
    by (simp add: look_at_corners_def Let_def rad corner lt xl_def xr_def yu_def yd_def)
  moreover have "?v3 \<union> ?S True xr yd = v \<union> (\<Union>r \<in> set (searched pos). S r)"
    unfolding searched_def Let_def xl_def [symmetric] xr_def [symmetric] yu_def [symmetric]
      yd_def [symmetric] by (auto split: if_splits)
  ultimately show thesis using that 4(2) by simp
qed

end
