(* ===== verification/Visibility.thy ===== *)
theory Visibility
  imports SightSearch
begin

section \<open>Visibility\<close>

text \<open>
  What \<open>UpdateSight\<close> computes as a whole, the invariants of sight (sectors list who is in
  them, views are mutual, clients are told their views), and the properties of the sight
  handlers that rest on them.
\<close>

definition home_sector :: "rat \<times> rat \<Rightarrow> sector_ref" where
  "home_sector pos = (nat (cell (fst pos)), nat (cell (snd pos)))"

abbreviation pos_of :: "world \<Rightarrow> nat \<Rightarrow> rat \<times> rat" where
  "pos_of w p \<equiv> GetPosition (clientsPool w p)"

definition inside :: "rat \<times> rat \<Rightarrow> bool" where
  "inside pos \<longleftrightarrow> fst pos \<le> 64000 \<and> snd pos \<le> 64000"

definition moved_in :: "nat \<Rightarrow> sight_manager \<Rightarrow> world \<Rightarrow> world" where
  "moved_in p m w = on_session p (\<lambda>s. s\<lparr>mySightSector := Some (home_sector (GetPosition s)),
     myInfobox := (myInfobox s)\<lparr>ib_x := pos_x s, ib_y := pos_y s\<rparr>\<rparr>) (w\<lparr>mySightManager := m\<rparr>)"

definition new_lists :: "world \<Rightarrow> nat \<Rightarrow> pid \<Rightarrow> sector_ref \<Rightarrow> pid set" where
  "new_lists w p me = entered_lists (mySightSector (clientsPool w p)) (home_sector (pos_of w p)) me
     (sights_of (mySightManager w))"

definition candidates :: "world \<Rightarrow> nat \<Rightarrow> pid \<Rightarrow> pid set" where
  "candidates w p me = new_lists w p me (home_sector (pos_of w p))
     \<union> (\<Union>r \<in> set (searched (pos_of w p)). new_lists w p me r)"

lemma home_sector_valid:
  assumes "inside pos"
  shows "valid_ref (home_sector pos)"
  using assms cell_in_grid [of "fst pos"] cell_in_grid [of "snd pos"] cell_nonneg
  by (auto simp: inside_def valid_ref_def home_sector_def nat_less_iff intro: le_less_trans)

lemma At_home:
  assumes "wf_grid m" and "inside pos"
  shows "At_pair m (PickCoords_pair m pos) = Inr (home_sector pos)"
  using at_by_position_total [OF assms(1), of "fst pos" "snd pos"] assms(2)
  by (simp add: AtByPosition_def PickCoords_pair_def home_sector_def inside_def)

lemma moved_in_session:
  "clientsPool (moved_in p m w) r = (if r = p then (clientsPool w p)\<lparr>mySightSector :=
     Some (home_sector (pos_of w p)), myInfobox := (myInfobox (clientsPool w p))
       \<lparr>ib_x := pos_x (clientsPool w p), ib_y := pos_y (clientsPool w p)\<rparr>\<rparr> else clientsPool w r)"
  by (simp add: moved_in_def on_session_def)

lemma moved_in_same [world_simps]:
  "myClients (moved_in p m w) = myClients w" "log (moved_in p m w) = log w"
  "mySightManager (moved_in p m w) = m" "numberClients (moved_in p m w) = numberClients w"
  "ID (clientsPool (moved_in p m w) r) = ID (clientsPool w r)"
  "Socket (clientsPool (moved_in p m w) r) = Socket (clientsPool w r)"
  "Status (clientsPool (moved_in p m w) r) = Status (clientsPool w r)"
  "Index (clientsPool (moved_in p m w) r) = Index (clientsPool w r)"
  "pos_of (moved_in p m w) r = pos_of w r"
  "myViewList (clientsPool (moved_in p m w) r) = myViewList (clientsPool w r)"
  "ib_playerID (myInfobox (clientsPool (moved_in p m w) r)) = ib_playerID (myInfobox (clientsPool w r))"
  "recvCBuffer (clientsPool (moved_in p m w) r) = recvCBuffer (clientsPool w r)"
  by (simp_all add: moved_in_session GetPosition_def) (simp_all add: moved_in_def on_session_def)

lemma moved_in_in_sight [world_simps]: "in_sight (moved_in p m w) q i = in_sight w q i"
  by (simp add: in_sight_def world_simps)

lemma moved_in_sight [world_simps]:
  "sockets_ok (moved_in p m w) = sockets_ok w" "player_at (moved_in p m w) r = player_at w r"
  "seen_views (moved_in p m w) q me P D V = seen_views w q me P D V"
  "seen_told (moved_in p m w) q me P D T = seen_told w q me P D T"
  "lost_views (moved_in p m w) q me D V = lost_views w q me D V"
  by (simp_all add: fun_eq_iff sockets_ok_def player_at_def seen_views_def seen_told_def
      lost_views_def world_simps Let_def)

lemma wf_moved_in:
  assumes "wf_world w" and "grid_has m S" and "inside (pos_of w p)"
  shows "wf_world (moved_in p m w)"
proof -
  have "wf_session r (clientsPool (moved_in p m w) r)" if "r < ENTITIES_MAX_NUMBER" for r
    using wf_worldD(3) [OF assms(1) that] home_sector_valid [OF assms(3)]
    by (auto simp: wf_session_def moved_in_session)
  then show ?thesis
    using grid_hasD(1,3) [OF assms(2)] wf_worldD(4-6) [OF assms(1)]
    unfolding wf_world_def by (simp add: world_simps)
qed

subsection \<open>The result of an update\<close>

definition updated_views ::
  "world \<Rightarrow> nat \<Rightarrow> pid \<Rightarrow> pid set \<Rightarrow> pid set \<Rightarrow> (nat \<Rightarrow> pid set) \<Rightarrow> nat \<Rightarrow> pid set" where
  "updated_views w p me C prev V r =
     (if r = p then {i \<in> C. in_sight w p i}
      else let i = ID (clientsPool w r) in
        if myClients w i = Some r \<and> i \<in> C \<union> prev then
          (if i \<in> C \<and> in_sight w p i then if i \<in> prev then V r else insert me (V r) else V r - {me})
        else V r)"

definition updated_told ::
  "world \<Rightarrow> nat \<Rightarrow> pid \<Rightarrow> pid set \<Rightarrow> pid set \<Rightarrow> (nat \<Rightarrow> pid set) \<Rightarrow> nat \<Rightarrow> pid set" where
  "updated_told w p me C prev T r =
     lost_views w p me (prev - {i \<in> C. myClients w i \<noteq> None}) (seen_told w p me prev C T) r"

lemma updated_views_eq:
  assumes "wf_world w" and "myClients w me = Some p"
  shows "lost_views w p me (prev - {i \<in> C. myClients w i \<noteq> None})
      (seen_views w p me prev C (V(p := C))) r = updated_views w p me C prev V r"
proof -
  have "in_sight w p i \<Longrightarrow> myClients w i \<noteq> None" for i by (auto simp: in_sight_def)
  then show ?thesis using assms(2)
    by (auto simp: lost_views_def seen_views_def updated_views_def Let_def)
qed

lemma finite_lists:
  assumes "grid_has m S" and "valid_ref r"
  shows "finite (S r)"
  using finite_sector [OF grid_hasD(1) [OF assms(1)] assms(2)] grid_hasD(2) [OF assms] by simp

lemma lost_views_cong: "T r = T' r \<Longrightarrow> lost_views w p me D T r = lost_views w p me D T' r"
  by (auto simp: lost_views_def)

lemma searched_valid:
  assumes "inside pos" and "r \<in> set (searched pos)"
  shows "valid_ref r"
proof -
  have f: "is_f32 64305" by simp
  have "fsub (fst pos) 224 \<le> 64305" "fadd (fst pos) 224 \<le> 64305"
    "fsub (snd pos) 224 \<le> 64305" "fadd (snd pos) 224 \<le> 64305"
    unfolding fsub_def fadd_def using assms(1)
    by (intro f32_le_bound [OF _ f]; simp add: inside_def)+
  then show ?thesis
    using assms(2) cell_nonneg
    by (auto simp: searched_def valid_ref_def Let_def nat_less_iff split: if_splits
        intro!: le_less_trans [OF cell_in_grid])
qed

lemma finite_candidates:
  assumes "grid_has m (new_lists w p me)" and "inside (pos_of w p)"
  shows "finite (candidates w p me)"
  using finite_lists [OF assms(1)] home_sector_valid [OF assms(2)] searched_valid [OF assms(2)]
  by (auto simp: candidates_def)

text \<open>What is left once the entity is in its sector and has looked under the corners.\<close>

lemma UpdateSight_exchanges:
  assumes wf: "wf_world w" and me: "myClients w me = Some p" and pos: "inside (pos_of w p)"
  obtains m where "UpdateSight os p w = Inr (exchange_views os p me (pos_of w p) (myViewList (clientsPool w p))
      (candidates w p me, on_session p (SetSightArea (Some (home_sector (pos_of w p)))) (w\<lparr>mySightManager := m\<rparr>)))"
    and "grid_has m (new_lists w p me)"
proof -
  let ?cur = "home_sector (pos_of w p)" and ?C = "candidates w p me"
  note ses = registered_session [OF wf me]
  obtain m1 where 1: "on_sector ?cur Release (enter_sector p me ?cur w) =
        on_session p (SetSightArea (Some ?cur)) (w\<lparr>mySightManager := m1\<rparr>)"
      "grid_has m1 (new_lists w p me)"
      "GetSightList (sector_of (enter_sector p me ?cur w) ?cur) = new_lists w p me ?cur"
    using enter_sector_result [OF wf_world_grid_has [OF wf] home_sector_valid [OF pos] ses(5), where me = me]
    unfolding new_lists_def by metis
  let ?w2 = "on_session p (SetSightArea (Some ?cur)) (w\<lparr>mySightManager := m1\<rparr>)"
  have "grid_has (mySightManager ?w2) (new_lists w p me)" using 1(2) by (simp add: world_simps)
  then obtain m where 2: "look_at_corners (pos_of w p) (new_lists w p me ?cur, ?w2) =
      Inr (?C, ?w2\<lparr>mySightManager := m\<rparr>)" "grid_has m (new_lists w p me)"
    using look_at_corners_result [of ?w2 "new_lists w p me" "pos_of w p" "new_lists w p me ?cur"]
      pos unfolding inside_def candidates_def by blast
  have "?w2\<lparr>mySightManager := m\<rparr> = on_session p (SetSightArea (Some ?cur)) (w\<lparr>mySightManager := m\<rparr>)"
    by (simp add: on_session_def)
  then show thesis
    using that [OF _ 2(2)] At_home [OF wf_worldD(1) [OF wf] pos] 1(1,3) 2(1) ses(3)
    by (simp add: UpdateSight_def AcquireID_def GetLocalSight_def Let_def)
qed

lemma UpdateSight_result:
  assumes wf: "wf_world w" and so: "sockets_ok w" and me: "myClients w me = Some p"
    and pos: "inside (pos_of w p)" and ord: "is_order (order os)"
  obtains m V' L' where "UpdateSight os p w = Inr (with_views (moved_in p m w) V' L')"
    and "grid_has m (new_lists w p me)"
    and "V' = updated_views w p me (candidates w p me) (myViewList (clientsPool w p))
      (\<lambda>r. myViewList (clientsPool w r))"
    and "\<And>r. player_at w r \<Longrightarrow> told_at w L' r = updated_told w p me (candidates w p me)
      (myViewList (clientsPool w p)) (told_at w (log w)) r"
proof -
  let ?cur = "home_sector (pos_of w p)" and ?V = "\<lambda>r. myViewList (clientsPool w r)"
  let ?prev = "myViewList (clientsPool w p)" and ?C = "candidates w p me"
  note ses = registered_session [OF wf me]
  obtain m where U: "UpdateSight os p w = Inr (exchange_views os p me (pos_of w p) ?prev
      (?C, on_session p (SetSightArea (Some ?cur)) (w\<lparr>mySightManager := m\<rparr>)))"
    and m: "grid_has m (new_lists w p me)"
    by (rule UpdateSight_exchanges [OF wf me pos])
  let ?w3 = "moved_in p m w"
  have w3: "on_session p (AssignSight ?C) (on_session p (\<lambda>s. s\<lparr>myInfobox :=
      (myInfobox s)\<lparr>ib_x := fst (pos_of w p), ib_y := snd (pos_of w p)\<rparr>\<rparr>) (on_session p (SetSightArea (Some ?cur)) (w\<lparr>mySightManager := m\<rparr>)))
      = with_views ?w3 (?V(p := ?C)) (log w)"
    by (auto simp: on_session_def with_views_def AssignSight_def SetSightArea_def moved_in_def
        GetPosition_def fun_eq_iff)
  have wf3: "wf_world ?w3" using wf m pos by (rule wf_moved_in)
  have so3: "sockets_ok ?w3" and me3: "myClients ?w3 me = Some p" using so me by (simp_all add: world_simps)
  have fC: "finite ?C" using finite_candidates [OF m pos] .
  have fp: "finite ?prev" using ses(4) .
  obtain V1 L1 where 3: "fold (see_other p me) (order os ?C) (with_views ?w3 (?V(p := ?C)) (log w), ?prev)
        = (with_views ?w3 V1 L1, ?prev - {i \<in> ?C. myClients w i \<noteq> None})"
      "V1 = seen_views w p me ?prev ?C (?V(p := ?C))"
      "\<And>r. player_at w r \<Longrightarrow> told_at w L1 r = seen_told w p me ?prev ?C (told_at w (log w)) r"
    using see_all [OF wf3 so3 me3 is_order_distinct [OF ord fC], of "?V(p := ?C)" "log w" ?prev]
    unfolding world_simps is_order_set [OF ord fC] by blast
  have rel: "on_session p (ReleaseID me) (with_views ?w3 V1 L1) = with_views ?w3 V1 L1"
    using ses(2,3)
    by (auto simp: on_session_def with_views_def ReleaseID_def moved_in_def fun_eq_iff)
  have fp': "finite (?prev - {i \<in> ?C. myClients w i \<noteq> None})" using fp by simp
  obtain V2 L2 where 4: "fold (lose_other p me) (order os (?prev - {i \<in> ?C. myClients w i \<noteq> None}))
        (with_views ?w3 V1 L1) = with_views ?w3 V2 L2"
      "V2 = lost_views w p me (?prev - {i \<in> ?C. myClients w i \<noteq> None}) V1"
      "\<And>r. player_at w r \<Longrightarrow> told_at w L2 r
        = lost_views w p me (?prev - {i \<in> ?C. myClients w i \<noteq> None}) (told_at w L1) r"
    using lose_all [OF wf3 so3 me3, of "order os (?prev - {i \<in> ?C. myClients w i \<noteq> None})" V1 L1]
    unfolding world_simps is_order_set [OF ord fp'] by blast
  have "UpdateSight os p w = Inr (with_views ?w3 V2 L2)"
    unfolding U using 3(1) 4(1) rel by (simp add: exchange_views_def Let_def w3)
  moreover have "V2 = updated_views w p me ?C ?prev ?V"
    using updated_views_eq [OF wf me, of ?prev ?C ?V] by (auto simp: fun_eq_iff 4(2) 3(2))
  moreover have "told_at w L2 r = updated_told w p me ?C ?prev (told_at w (log w)) r"
    if "player_at w r" for r
    unfolding updated_told_def 4(3) [OF that] by (rule lost_views_cong) (rule 3(3) [OF that])
  ultimately show thesis using that m by blast
qed

subsection \<open>The invariant of sight\<close>

text \<open>
  Every sector lists exactly the registered entities that are in it; sight is mutual and
  among registered entities; a client has been told exactly what is in its view list; an
  entity without a sector has no view, and a player with one sees itself.
\<close>

definition sectors_ok :: "world \<Rightarrow> bool" where
  "sectors_ok w \<longleftrightarrow> (\<forall>r i. valid_ref r \<longrightarrow> (i \<in> sights_of (mySightManager w) r \<longleftrightarrow>
     (\<exists>q. myClients w i = Some q \<and> mySightSector (clientsPool w q) = Some r)))"

definition mutual :: "world \<Rightarrow> bool" where
  "mutual w \<longleftrightarrow> (\<forall>i j p q. myClients w i = Some p \<longrightarrow> myClients w j = Some q \<longrightarrow>
     (j \<in> myViewList (clientsPool w p) \<longleftrightarrow> i \<in> myViewList (clientsPool w q)))"

definition known :: "world \<Rightarrow> bool" where
  "known w \<longleftrightarrow> (\<forall>i p. myClients w i = Some p \<longrightarrow> myViewList (clientsPool w p) \<subseteq> dom (myClients w))"

definition informed :: "world \<Rightarrow> nat \<Rightarrow> bool" where
  "informed w p \<longleftrightarrow> told_at w (log w) p = myViewList (clientsPool w p)
     \<and> (mySightSector (clientsPool w p) = None \<longrightarrow> myViewList (clientsPool w p) = {})
     \<and> (mySightSector (clientsPool w p) \<noteq> None \<longrightarrow>
          ID (clientsPool w p) \<in> myViewList (clientsPool w p))"

definition sight_inv :: "world \<Rightarrow> bool" where
  "sight_inv w \<longleftrightarrow> wf_world w \<and> sockets_ok w \<and> sectors_ok w \<and> mutual w \<and> known w
     \<and> (\<forall>p. player_at w p \<longrightarrow> informed w p)"

text \<open>As \<open>sight_inv\<close>, but the client of \<open>p\<close> was told of \<open>p\<close> too.\<close>

definition about_to_look :: "world \<Rightarrow> nat \<Rightarrow> bool" where
  "about_to_look w p \<longleftrightarrow> wf_world w \<and> sockets_ok w \<and> sectors_ok w \<and> mutual w \<and> known w
     \<and> (\<forall>q. player_at w q \<longrightarrow> q \<noteq> p \<longrightarrow> informed w q)
     \<and> (player_at w p \<longrightarrow>
          told_at w (log w) p = insert (ID (clientsPool w p)) (myViewList (clientsPool w p)))"

lemma sectors_okD:
  assumes "sectors_ok w" and "valid_ref r"
  shows "i \<in> sights_of (mySightManager w) r \<longleftrightarrow>
     (\<exists>q. myClients w i = Some q \<and> mySightSector (clientsPool w q) = Some r)"
  using assms unfolding sectors_ok_def by blast

lemma me_is_candidate:
  assumes "sectors_ok w" and "myClients w me = Some p" and "inside (pos_of w p)"
  shows "me \<in> candidates w p me"
  using assms(2) sectors_okD [OF assms(1) home_sector_valid [OF assms(3)]]
  by (auto simp: candidates_def new_lists_def entered_lists_def)

text \<open>Who is in a sector once the entity has entered its own.\<close>

lemma new_lists_iff:
  assumes "wf_world w" and "sectors_ok w" and "myClients w me = Some p" and "valid_ref r"
  shows "i \<in> new_lists w p me r \<longleftrightarrow>
    (\<exists>q. myClients w i = Some q
       \<and> (if q = p then r = home_sector (pos_of w p) else mySightSector (clientsPool w q) = Some r))"
proof (cases "i = me")
  case True
  have "me \<in> sights_of (mySightManager w) r \<longleftrightarrow> mySightSector (clientsPool w p) = Some r"
    using sectors_okD [OF assms(2,4)] assms(3) by auto
  then show ?thesis using True assms(3) by (auto simp: new_lists_def entered_lists_def)
next
  case False
  then have "q \<noteq> p" if "myClients w i = Some q" for q
    using that assms(1,3) registered_inj by blast
  moreover have "i \<in> new_lists w p me r \<longleftrightarrow> i \<in> sights_of (mySightManager w) r"
    using False by (auto simp: new_lists_def entered_lists_def)
  ultimately show ?thesis using sectors_okD [OF assms(2,4)] by auto
qed

lemma candidates_iff:
  assumes "wf_world w" and "sectors_ok w" and "myClients w me = Some p" and "inside (pos_of w p)"
  shows "i \<in> candidates w p me \<longleftrightarrow> (\<exists>q. myClients w i = Some q \<and> (q = p \<or>
    (\<exists>r. mySightSector (clientsPool w q) = Some r
       \<and> (r = home_sector (pos_of w p) \<or> r \<in> set (searched (pos_of w p))))))"
proof -
  let ?H = "home_sector (pos_of w p)" and ?S = "set (searched (pos_of w p))"
  have "i \<in> candidates w p me \<longleftrightarrow> (\<exists>r. (r = ?H \<or> r \<in> ?S) \<and> i \<in> new_lists w p me r)"
    unfolding candidates_def by blast
  moreover have "valid_ref r" if "r = ?H \<or> r \<in> ?S" for r
    using that home_sector_valid [OF assms(4)] searched_valid [OF assms(4)] by blast
  ultimately show ?thesis using new_lists_iff [OF assms(1-3)] by metis
qed

lemma updated_mutual:
  assumes wf: "wf_world w" and mu: "mutual w" and me: "myClients w me = Some p"
    and i: "myClients w i = Some q" and j: "myClients w j = Some r"
    and V: "V = updated_views w p me C (myViewList (clientsPool w p)) (\<lambda>r. myViewList (clientsPool w r))"
  shows "j \<in> V q \<longleftrightarrow> i \<in> V r"
proof -
  note IDs = wf_worldD(6) [OF wf me] wf_worldD(6) [OF wf i] wf_worldD(6) [OF wf j]
  have q: "q = p \<longleftrightarrow> i = me" and r: "r = p \<longleftrightarrow> j = me"
    using registered_inj [OF wf] me i j by auto
  have m: "me \<in> myViewList (clientsPool w r) \<longleftrightarrow> j \<in> myViewList (clientsPool w p)"
    "me \<in> myViewList (clientsPool w q) \<longleftrightarrow> i \<in> myViewList (clientsPool w p)"
    "j \<in> myViewList (clientsPool w q) \<longleftrightarrow> i \<in> myViewList (clientsPool w r)"
    using mu me i j unfolding mutual_def by blast+
  show ?thesis
    using q r m i j me IDs unfolding V updated_views_def Let_def
    by (cases "q = p"; cases "r = p") auto
qed

lemma updated_views_me:
  assumes "wf_world w" and "mutual w" and "myClients w me = Some p" and "myClients w i = Some r"
    and "r \<noteq> p"
  shows "updated_views w p me C (myViewList (clientsPool w p)) (\<lambda>r. myViewList (clientsPool w r)) r
    = (if i \<in> C \<and> in_sight w p i then insert me (myViewList (clientsPool w r))
       else myViewList (clientsPool w r) - {me})"
proof -
  have "i \<in> myViewList (clientsPool w p) \<longleftrightarrow> me \<in> myViewList (clientsPool w r)"
    using assms(2-4) unfolding mutual_def by blast
  then show ?thesis
    using assms(4,5) wf_worldD(6) [OF assms(1,4)] by (auto simp: updated_views_def)
qed

lemma updated_told_me:
  assumes wf: "wf_world w" and mu: "mutual w" and me: "myClients w me = Some p"
    and i: "myClients w i = Some r" and rp: "r \<noteq> p" and T: "T r = myViewList (clientsPool w r)"
  shows "updated_told w p me C (myViewList (clientsPool w p)) T r
    = (if i \<in> C \<and> in_sight w p i then insert me (myViewList (clientsPool w r))
       else myViewList (clientsPool w r) - {me})"
proof -
  have m: "i \<in> myViewList (clientsPool w p) \<longleftrightarrow> me \<in> myViewList (clientsPool w r)"
    using mu me i unfolding mutual_def by blast
  have "i \<noteq> me" using i me rp by auto
  then show ?thesis
    unfolding updated_told_def lost_views_def seen_told_def Let_def
    using m i rp T wf_worldD(6) [OF wf i] by auto
qed

lemma updated_told_own:
  assumes me: "myClients w me = Some p" and kn: "known w" and C: "me \<in> C"
    and T: "T p = insert me (myViewList (clientsPool w p))"
  shows "updated_told w p me C (myViewList (clientsPool w p)) T p = {i \<in> C. in_sight w p i}"
proof -
  have s: "in_sight w p me" using me by (rule in_sight_self)
  have d: "in_sight w p i \<Longrightarrow> myClients w i \<noteq> None" for i by (auto simp: in_sight_def)
  have "myViewList (clientsPool w p) \<subseteq> dom (myClients w)"
    using kn me unfolding known_def by blast
  then show ?thesis
    unfolding updated_told_def lost_views_def seen_told_def using s d T C me by auto
qed

text \<open>The state an update leads to, under the conditions it starts from.\<close>

definition after_look ::
  "world \<Rightarrow> nat \<Rightarrow> pid \<Rightarrow> sight_manager \<Rightarrow> (nat \<Rightarrow> pid set) \<Rightarrow> effect list \<Rightarrow> bool" where
  "after_look w p me m V' L' \<longleftrightarrow> grid_has m (new_lists w p me)
     \<and> V' = updated_views w p me (candidates w p me) (myViewList (clientsPool w p))
         (\<lambda>r. myViewList (clientsPool w r))
     \<and> (\<forall>r. player_at w r \<longrightarrow> told_at w L' r = updated_told w p me (candidates w p me)
         (myViewList (clientsPool w p)) (told_at w (log w)) r)"

lemma after_look_wf:
  assumes "wf_world w" and "inside (pos_of w p)" and a: "after_look w p me m V' L'"
  shows "wf_world (with_views (moved_in p m w) V' L')"
proof -
  have m: "grid_has m (new_lists w p me)" using a by (simp add: after_look_def)
  have wfm: "wf_world (moved_in p m w)" using assms(1) m assms(2) by (rule wf_moved_in)
  have C: "finite (candidates w p me)" using finite_candidates [OF m assms(2)] .
  have fin: "finite (V' r)" if "r < ENTITIES_MAX_NUMBER" for r
  proof -
    have "finite (myViewList (clientsPool w r))"
      using wf_worldD(3) [OF assms(1) that] by (simp add: wf_session_def)
    then show ?thesis using a C by (simp add: after_look_def updated_views_def Let_def)
  qed
  have "wf_session r (clientsPool (with_views (moved_in p m w) V' L') r)"
    if "r < ENTITIES_MAX_NUMBER" for r
    using wf_worldD(3) [OF wfm that] fin [OF that] by (simp add: wf_session_def views_simps)
  then show ?thesis using wf_worldD(1,2,4-6) [OF wfm] unfolding wf_world_def
    by (simp add: views_simps)
qed

lemma after_look_sector:
  "mySightSector (clientsPool (with_views (moved_in p m w) V' L') q)
    = (if q = p then Some (home_sector (pos_of w p)) else mySightSector (clientsPool w q))"
  by (simp add: views_simps moved_in_session)

lemma after_look_sectors_ok:
  assumes "wf_world w" and "sectors_ok w" and "myClients w me = Some p"
    and a: "after_look w p me m V' L'"
  shows "sectors_ok (with_views (moved_in p m w) V' L')"
  unfolding sectors_ok_def
proof (intro allI impI)
  let ?w = "with_views (moved_in p m w) V' L'"
  fix r i assume r: "valid_ref r"
  have m: "grid_has m (new_lists w p me)" using a by (simp add: after_look_def)
  have S: "sights_of (mySightManager ?w) r = new_lists w p me r"
    using grid_hasD(2) [OF m r] by (simp add: views_simps world_simps)
  have M: "myClients ?w = myClients w" by (simp add: views_simps world_simps)
  show "i \<in> sights_of (mySightManager ?w) r \<longleftrightarrow> (\<exists>q. myClients ?w i = Some q
      \<and> mySightSector (clientsPool ?w q) = Some r)"
    unfolding S M after_look_sector new_lists_iff [OF assms(1-3) r] by auto
qed

lemma after_look_mutual:
  assumes "wf_world w" and "mutual w" and "myClients w me = Some p"
    and a: "after_look w p me m V' L'"
  shows "mutual (with_views (moved_in p m w) V' L')"
proof -
  have "V' = updated_views w p me (candidates w p me) (myViewList (clientsPool w p))
         (\<lambda>r. myViewList (clientsPool w r))" using a by (simp add: after_look_def)
  note u = updated_mutual [OF assms(1-3) _ _ this]
  have M: "myClients (with_views (moved_in p m w) V' L') = myClients w"
    and Q: "\<And>q. myViewList (clientsPool (with_views (moved_in p m w) V' L') q) = V' q"
    by (simp_all add: views_simps world_simps)
  show ?thesis unfolding mutual_def M Q using u by blast
qed

lemma after_look_known:
  assumes "known w" and "myClients w me = Some p" and a: "after_look w p me m V' L'"
  shows "known (with_views (moved_in p m w) V' L')"
proof -
  have M: "myClients (with_views (moved_in p m w) V' L') = myClients w"
    and Q: "\<And>q. myViewList (clientsPool (with_views (moved_in p m w) V' L') q) = V' q"
    by (simp_all add: views_simps world_simps)
  have V': "V' = updated_views w p me (candidates w p me) (myViewList (clientsPool w p))
         (\<lambda>r. myViewList (clientsPool w r))" using a by (simp add: after_look_def)
  have "V' q \<subseteq> dom (myClients w)" if "myClients w i = Some q" for i q
  proof -
    have "myViewList (clientsPool w q) \<subseteq> dom (myClients w)"
      using assms(1) that unfolding known_def by blast
    then show ?thesis using assms(2) unfolding V' updated_views_def Let_def in_sight_def by auto
  qed
  then show ?thesis unfolding known_def M Q by blast
qed

lemma after_look_informed:
  assumes lk: "about_to_look w p" and me: "myClients w me = Some p" and pos: "inside (pos_of w p)"
    and a: "after_look w p me m V' L'" and q: "player_at w q"
  shows "informed (with_views (moved_in p m w) V' L') q"
proof -
  let ?w = "with_views (moved_in p m w) V' L'" and ?C = "candidates w p me"
  let ?V = "\<lambda>r. myViewList (clientsPool w r)"
  have wf: "wf_world w" and se: "sectors_ok w" and mu: "mutual w" and kn: "known w"
    using lk unfolding about_to_look_def by blast+
  have V': "V' = updated_views w p me ?C (?V p) ?V"
    and T': "told_at w L' q = updated_told w p me ?C (?V p) (told_at w (log w)) q"
    using a q by (simp_all add: after_look_def)
  have W: "told_at ?w (log ?w) q = told_at w L' q" "myViewList (clientsPool ?w q) = V' q"
    "ID (clientsPool ?w q) = ID (clientsPool w q)"
    by (simp_all add: views_simps world_simps)
  show ?thesis
  proof (cases "q = p")
    case True
    have Vp: "V' p = {i \<in> ?C. in_sight w p i}" by (simp add: V' updated_views_def)
    have "told_at w (log w) p = insert me (?V p)"
      using lk q True wf_worldD(6) [OF wf me] unfolding about_to_look_def by blast
    then have "told_at w L' p = V' p"
      using T' True updated_told_own [OF me kn me_is_candidate [OF se me pos]] by (simp add: Vp)
    moreover have "me \<in> V' p"
      using me_is_candidate [OF se me pos] in_sight_self [OF me] by (simp add: Vp)
    ultimately show ?thesis
      using True wf_worldD(6) [OF wf me] unfolding informed_def W after_look_sector by simp
  next
    case False
    let ?i = "ID (clientsPool w q)"
    have i: "myClients w ?i = Some q" using q by (simp add: player_at_def)
    have im: "?i \<noteq> me" using i me False by auto
    have old: "informed w q" using lk q False unfolding about_to_look_def by blast
    have Vq: "V' q = (if ?i \<in> ?C \<and> in_sight w p ?i then insert me (?V q) else ?V q - {me})"
      unfolding V' by (rule updated_views_me [OF wf mu me i False])
    have "told_at w L' q = V' q"
      using T' updated_told_me [OF wf mu me i False] old by (simp add: Vq informed_def)
    moreover have "mySightSector (clientsPool w q) = None \<Longrightarrow> ?i \<notin> ?C"
      using candidates_iff [OF wf se me pos, of ?i] i False by auto
    ultimately show ?thesis
      using False old im unfolding informed_def W after_look_sector Vq by auto
  qed
qed

text \<open>What sight leaves alone when the entity at place \<open>p\<close> looks around.\<close>

definition same_but_sight :: "world \<Rightarrow> nat \<Rightarrow> world \<Rightarrow> bool" where
  "same_but_sight w p w' \<longleftrightarrow> myClients w' = myClients w \<and> numberClients w' = numberClients w
     \<and> orderClientIDs w' = orderClientIDs w \<and> acceptBeginPlace w' = acceptBeginPlace w
     \<and> (\<forall>q. Status (clientsPool w' q) = Status (clientsPool w q)
       \<and> pos_x (clientsPool w' q) = pos_x (clientsPool w q) \<and> pos_y (clientsPool w' q) = pos_y (clientsPool w q)
       \<and> (q \<noteq> p \<longrightarrow> mySightSector (clientsPool w' q) = mySightSector (clientsPool w q))
       \<and> ((\<forall>i. myClients w i \<noteq> Some q) \<longrightarrow> myViewList (clientsPool w' q) = myViewList (clientsPool w q)))"

lemma same_but_sight_trans:
  "same_but_sight w p w1 \<Longrightarrow> same_but_sight w1 p w2 \<Longrightarrow> same_but_sight w p w2"
  by (simp add: same_but_sight_def)

lemma after_look_same:
  assumes "myClients w me = Some p" and "after_look w p me m V' L'"
  shows "same_but_sight w p (with_views (moved_in p m w) V' L')"
proof -
  have "V' q = myViewList (clientsPool w q)" if "\<forall>i. myClients w i \<noteq> Some q" for q
    using that assms by (auto simp: after_look_def updated_views_def Let_def)
  then show ?thesis
    by (simp add: same_but_sight_def views_simps world_simps moved_in_session) (simp add: moved_in_def world_simps)
qed

lemma UpdateSight_keeps:
  assumes lk: "about_to_look w p" and me: "myClients w me = Some p" and pos: "inside (pos_of w p)"
    and ord: "is_order (order os)"
  obtains m V' L' where "UpdateSight os p w = Inr (with_views (moved_in p m w) V' L')"
    and "sight_inv (with_views (moved_in p m w) V' L')" and "after_look w p me m V' L'"
proof -
  have wf: "wf_world w" and so: "sockets_ok w" and se: "sectors_ok w" and mu: "mutual w"
    and kn: "known w" using lk unfolding about_to_look_def by blast+
  obtain m V' L' where U: "UpdateSight os p w = Inr (with_views (moved_in p m w) V' L')"
    and a: "after_look w p me m V' L'"
    using UpdateSight_result [OF wf so me pos ord] unfolding after_look_def by metis
  let ?w = "with_views (moved_in p m w) V' L'"
  have "sockets_ok ?w" using so unfolding sockets_ok_def by (simp add: views_simps world_simps)
  moreover have "player_at ?w q = player_at w q" for q
    by (simp add: player_at_def views_simps world_simps)
  ultimately have "sight_inv ?w"
    unfolding sight_inv_def
    using after_look_wf [OF wf pos a] after_look_sectors_ok [OF wf se me a]
      after_look_mutual [OF wf mu me a] after_look_known [OF kn me a]
      after_look_informed [OF lk me pos a] by simp
  then show thesis using that U a by blast
qed

lemma sight_inv_looks:
  assumes "sight_inv w" and "myClients w me = Some p" and "IsPlayer me \<Longrightarrow> mySightSector (clientsPool w p) \<noteq> None"
  shows "about_to_look w p"
proof -
  have "ID (clientsPool w p) = me" using assms(1,2) wf_worldD(6) unfolding sight_inv_def by blast
  then show ?thesis
    using assms unfolding sight_inv_def about_to_look_def informed_def player_at_def by auto
qed

text \<open>Registering: the session enters its sector, and a player is told of itself.\<close>

definition registered_session_of :: "pid \<Rightarrow> session \<Rightarrow> session" where
  "registered_session_of me s = (if IsPlayer me
     then s\<lparr>mySightSector := Some (home_sector (GetPosition s)),
            myInfobox := (myInfobox s)\<lparr>ib_x := pos_x s, ib_y := pos_y s\<rparr>\<rparr>
     else s\<lparr>mySightSector := Some (home_sector (GetPosition s))\<rparr>)"

lemma registered_session_fields:
  "ID (registered_session_of me s) = ID s" "Index (registered_session_of me s) = Index s"
  "GetPosition (registered_session_of me s) = GetPosition s"
  "myViewList (registered_session_of me s) = myViewList s"
  "Socket (registered_session_of me s) = Socket s" "Status (registered_session_of me s) = Status s"
  "recvCBuffer (registered_session_of me s) = recvCBuffer s"
  "mySightSector (registered_session_of me s) = Some (home_sector (GetPosition s))"
  "ib_playerID (myInfobox (registered_session_of me s)) = ib_playerID (myInfobox s)"
  by (simp_all add: registered_session_of_def GetPosition_def)

lemma RegisterSight_result:
  assumes wf: "wf_world w" and me: "myClients w me = Some p" and pos: "inside (pos_of w p)"
  obtains m es where "RegisterSight p w = Inr (w\<lparr>mySightManager := m,
      clientsPool := (clientsPool w)(p := registered_session_of me (clientsPool w p)),
      log := log w @ es\<rparr>)"
    and "grid_has m (\<lambda>r. if r = home_sector (pos_of w p)
      then insert me (sights_of (mySightManager w) r) else sights_of (mySightManager w) r)"
    and "es = (if IsPlayer me then [ESend (Socket (clientsPool w p))
        (fst (CreateTicket (infobox_packet (myInfobox (registered_session_of me (clientsPool w p))))))
        (snd (CreateTicket (infobox_packet (myInfobox (registered_session_of me (clientsPool w p))))))]
      else [])"
proof -
  let ?H = "home_sector (pos_of w p)" and ?m = "mySightManager w"
  let ?m' = "update_sector ?H Release (update_sector ?H (Add me) (update_sector ?H Acquire ?m))"
  have v: "valid_ref ?H" using home_sector_valid [OF pos] .
  have g: "wf_grid ?m" using wf_worldD(1) [OF wf] .
  note ses = registered_session [OF wf me]
  have At: "At_pair ?m (PickCoords ?m (fst (pos_of w p)) (snd (pos_of w p))) = Inr ?H"
    using At_home [OF g pos] by (simp add: PickCoords_pair_def)
  show thesis
  proof (rule that [OF _ _ refl])
    show "grid_has ?m' (\<lambda>r. if r = ?H then insert me (sights_of ?m r) else sights_of ?m r)"
      using v g wf_worldD(2) [OF wf] unfolding grid_has_def
      by (simp add: wf_update_simple sector_simps)
  qed (use At ses(2,3) in \<open>auto simp: RegisterSight_def place_in_sector_def AcquireID_def Let_def on_sector_manager
      on_session_def SetSightArea_def ReleaseID_def send_defs Send_def emit_def
      registered_session_of_def fun_eq_iff\<close>)
qed

lemma RegisterSight_looks:
  assumes iv: "sight_inv w" and me: "myClients w me = Some p" and pos: "inside (pos_of w p)"
    and new: "mySightSector (clientsPool w p) = None"
  obtains w' where "RegisterSight p w = Inr w'" and "about_to_look w' p"
    and "\<And>r. pos_of w' r = pos_of w r" and "myClients w' = myClients w"
    and "\<And>r. clientsPool w' r = (if r = p then registered_session_of me (clientsPool w p)
      else clientsPool w r)"
    and "same_but_sight w p w'"
proof -
  have wf: "wf_world w" and so: "sockets_ok w" and se: "sectors_ok w" and mu: "mutual w"
    and kn: "known w" and inf: "\<And>q. player_at w q \<Longrightarrow> informed w q"
    using iv unfolding sight_inv_def by blast+
  let ?H = "home_sector (pos_of w p)" and ?s = "registered_session_of me (clientsPool w p)"
  obtain m es where R: "RegisterSight p w = Inr (w\<lparr>mySightManager := m,
      clientsPool := (clientsPool w)(p := ?s), log := log w @ es\<rparr>)"
    and m: "grid_has m (\<lambda>r. if r = ?H then insert me (sights_of (mySightManager w) r)
      else sights_of (mySightManager w) r)"
    and es: "es = (if IsPlayer me then [ESend (Socket (clientsPool w p))
        (fst (CreateTicket (infobox_packet (myInfobox ?s))))
        (snd (CreateTicket (infobox_packet (myInfobox ?s))))] else [])"
    by (rule RegisterSight_result [OF wf me pos])
  let ?w = "w\<lparr>mySightManager := m, clientsPool := (clientsPool w)(p := ?s), log := log w @ es\<rparr>"
  note ses = registered_session [OF wf me]
  note F = registered_session_fields
  have C: "myClients ?w = myClients w"
    and V: "myViewList (clientsPool ?w q) = myViewList (clientsPool w q)"
    and I: "ID (clientsPool ?w q) = ID (clientsPool w q)"
    and K: "Socket (clientsPool ?w q) = Socket (clientsPool w q)"
    and X: "mySightSector (clientsPool ?w q)
      = (if q = p then Some ?H else mySightSector (clientsPool w q))"
    and O: "pos_of ?w q = pos_of w q" for q
    by (simp_all add: F)
  have G: "mySightManager ?w = m" by simp
  have "wf_session q (clientsPool ?w q)" if "q < ENTITIES_MAX_NUMBER" for q
    using wf_worldD(3) [OF wf that] home_sector_valid [OF pos] by (auto simp: wf_session_def F)
  then have wf': "wf_world ?w"
    using grid_hasD(1,3) [OF m] wf_worldD(4-6) [OF wf] unfolding wf_world_def C I G by blast
  have so': "sockets_ok ?w" using so unfolding sockets_ok_def C K .
  have se': "sectors_ok ?w"
    unfolding sectors_ok_def G C X
  proof (intro allI impI)
    fix r i assume r: "valid_ref r"
    show "i \<in> sights_of m r \<longleftrightarrow>
        (\<exists>q. myClients w i = Some q \<and> (if q = p then Some ?H else mySightSector (clientsPool w q)) = Some r)"
    proof (cases "i = me")
      case True
      then show ?thesis using sectors_okD [OF se r, of me] grid_hasD(2) [OF m r] me new by auto
    next
      case False
      then have "q \<noteq> p" if "myClients w i = Some q" for q
        using that me registered_inj [OF wf] by blast
      then show ?thesis using sectors_okD [OF se r, of i] grid_hasD(2) [OF m r] False by auto
    qed
  qed
  have mu': "mutual ?w" using mu unfolding mutual_def C V .
  have kn': "known ?w" using kn unfolding known_def C V .
  have P: "player_at ?w q = player_at w q" for q unfolding player_at_def C I ..
  have inf': "informed ?w q" if "player_at w q" "q \<noteq> p" for q
    using inf [OF that(1)] that player_socket [OF so that(1) me]
    unfolding informed_def V I X K by (auto simp: es told_append)
  have own: "told_at ?w (log ?w) p = insert me (myViewList (clientsPool w p))" if "player_at w p"
    using inf [OF that] that ses(2,3) unfolding K
    by (auto simp: es told_append informed_def player_at_def F)
  have "about_to_look ?w p"
    using wf' so' se' mu' kn' inf' own ses(3) unfolding about_to_look_def P V I by simp
  moreover have "same_but_sight w p ?w"
    by (simp add: same_but_sight_def F) (simp add: registered_session_of_def)
  ultimately show thesis by (intro that [OF R _ O C]) simp_all
qed

text \<open>The session that looks sees the candidates within range, and no one else.\<close>

lemma view_after_look:
  assumes "after_look w p me m V' L'"
  shows "myViewList (clientsPool (with_views (moved_in p m w) V' L') p)
    = {i \<in> candidates w p me. in_sight w p i}"
  using assms by (simp add: after_look_def views_simps updated_views_def)

end
