(* ===== verification/Demo.thy ===== *)
theory Demo
  imports Visibility
begin

section \<open>A small world\<close>

text \<open>
  Two players that have signed in, at given positions: a concrete state that satisfies the
  invariant of sight, at which the properties of the handlers are applied.
\<close>

definition demo_box :: rect where
  "demo_box = \<lparr>r_left = -16, r_top = -16, r_right = 16, r_bottom = 16\<rparr>"

definition demo_player :: "nat \<Rightarrow> socket \<Rightarrow> rat \<times> rat \<Rightarrow> session" where
  "demo_player p sock pos = (new_session p (int p) (fst pos) (snd pos) demo_box)
     \<lparr>Status := SS_ACCEPTED, Socket := sock, mySightSector := Some (home_sector pos),
      myViewList := {int p}\<rparr>"

definition demo_hello :: "nat \<Rightarrow> socket \<Rightarrow> rat \<times> rat \<Rightarrow> effect" where
  "demo_hello p sock pos = (let t = CreateTicket (infobox_packet (myInfobox (demo_player p sock pos)))
     in ESend sock (fst t) (snd t))"

definition demo :: "rat \<times> rat \<Rightarrow> rat \<times> rat \<Rightarrow> world" where
  "demo pos1 pos2 = IOCPFramework\<lparr>
     acceptNewbie := 13, acceptBeginPlace := 200000,
     clientsPool := (\<lambda>i. new_session i (- 1) 0 0 demo_box)
       (200000 := demo_player 200000 11 pos1, 200001 := demo_player 200001 12 pos2),
     myClients := [200000 \<mapsto> 200000, 200001 \<mapsto> 200001], numberClients := 2,
     orderClientIDs := 200002,
     mySightManager := update_sector (home_sector pos1) (Add 200000)
       (update_sector (home_sector pos2) (Add 200001) world_grid),
     log := [demo_hello 200000 11 pos1, demo_hello 200001 12 pos2]\<rparr>"

definition demo_os :: os where
  "demo_os = \<lparr>wsa_recv = (\<lambda>_. IoDone), wsa_send = (\<lambda>_. IoDone), create_port = (\<lambda>_. True),
     new_socket = (\<lambda>n. n + 100), accept_ex = (\<lambda>_. IoPending), order = sorted_list_of_set,
     rand_unit = (\<lambda>_. 1 / 2), rand_percent = (\<lambda>_. 0)\<rparr>"

definition demo_pending_os :: os where
  "demo_pending_os = demo_os\<lparr>wsa_recv := (\<lambda>_. IoPending)\<rparr>"

lemma demo_pending_os_fields [simp]:
  "wsa_recv demo_pending_os n = IoPending" "create_port demo_pending_os n"
  "is_order (order demo_pending_os)"
  by (simp_all add: demo_pending_os_def demo_os_def is_order_sorted)

lemma demo_order [simp]: "is_order (order demo_os)"
  by (simp add: demo_os_def is_order_sorted)

lemma demo_fields [simp]:
  "myClients (demo a b) = [200000 \<mapsto> 200000, 200001 \<mapsto> 200001]"
  "clientsPool (demo a b) 200000 = demo_player 200000 11 a"
  "clientsPool (demo a b) 200001 = demo_player 200001 12 b"
  "numberClients (demo a b) = 2" "orderClientIDs (demo a b) = 200002" "acceptNewbie (demo a b) = 13"
  "q \<noteq> 200000 \<Longrightarrow> q \<noteq> 200001 \<Longrightarrow> clientsPool (demo a b) q = new_session q (- 1) 0 0 demo_box"
  by (simp_all add: demo_def)

lemma demo_player_fields [simp]:
  "ID (demo_player p s pos) = int p" "Index (demo_player p s pos) = p"
  "GetPosition (demo_player p s pos) = pos" "myViewList (demo_player p s pos) = {int p}"
  "Socket (demo_player p s pos) = s" "Status (demo_player p s pos) = SS_ACCEPTED"
  "mySightSector (demo_player p s pos) = Some (home_sector pos)"
  "ib_playerID (myInfobox (demo_player p s pos)) = int p"
  "length (recvCBuffer (demo_player p s pos)) = BUFFSZ"
  by (simp_all add: demo_player_def new_session_def new_infobox_def GetPosition_def)

lemma new_session_fields [simp]:
  "ID (new_session p i x y b) = i" "Index (new_session p i x y b) = p"
  "myViewList (new_session p i x y b) = {}" "mySightSector (new_session p i x y b) = None"
  "ib_playerID (myInfobox (new_session p i x y b)) = i"
  "length (recvCBuffer (new_session p i x y b)) = BUFFSZ"
  "Status (new_session p i x y b) = SS_NONE"
  by (simp_all add: new_session_def new_infobox_def)

lemma demo_registered: "myClients (demo a b) i = Some q \<longleftrightarrow>
  i = 200000 \<and> q = 200000 \<or> i = 200001 \<and> q = 200001"
  by auto

lemma demo_wf_session: "inside a \<Longrightarrow> inside b \<Longrightarrow> wf_session q (clientsPool (demo a b) q)"
  by (cases "q = 200000"; cases "q = 200001") (auto simp: wf_session_def dest: home_sector_valid)

lemma demo_grid:
  assumes "inside a" and "inside b"
  shows "grid_has (mySightManager (demo a b)) (\<lambda>r. (if r = home_sector a then {200000} else {})
    \<union> (if r = home_sector b then {200001} else {}))"
  using home_sector_valid [OF assms(1)] home_sector_valid [OF assms(2)] wf_world_grid
    world_grid_empty world_grid_free
  by (auto simp: grid_has_def demo_def wf_update_simple sector_simps)

lemma demo_inv:
  assumes a: "inside a" and b: "inside b"
  shows "sight_inv (demo a b)"
proof -
  have g: "grid_has (mySightManager (demo a b)) (\<lambda>r. (if r = home_sector a then {200000} else {})
    \<union> (if r = home_sector b then {200001} else {}))" using demo_grid [OF a b] .
  have "wf_world (demo a b)"
    using grid_hasD(1,3) [OF g] demo_wf_session [OF a b]
    unfolding wf_world_def by (auto simp: const_simps)
  moreover have "sockets_ok (demo a b)"
    by (auto simp: sockets_ok_def demo_registered IsPlayer_def const_simps)
  moreover have "sectors_ok (demo a b)"
    unfolding sectors_ok_def
  proof (intro allI impI)
    fix r i assume "valid_ref r"
    then show "i \<in> sights_of (mySightManager (demo a b)) r \<longleftrightarrow> (\<exists>q. myClients (demo a b) i = Some q
        \<and> mySightSector (clientsPool (demo a b) q) = Some r)"
      using grid_hasD(2) [OF g] unfolding demo_registered by auto
  qed
  moreover have "mutual (demo a b)"
    unfolding mutual_def demo_registered by auto
  moreover have "known (demo a b)"
    unfolding known_def demo_registered by auto
  moreover have "informed (demo a b) p" if "player_at (demo a b) p" for p
  proof -
    have p: "p = 200000 \<or> p = 200001" using that by (auto simp: player_at_def split: if_splits)
    have L: "log (demo a b) = [demo_hello 200000 11 a, demo_hello 200001 12 b]"
      by (simp add: demo_def)
    show ?thesis using p unfolding informed_def L
      by (auto simp: told_def demo_hello_def Let_def)
  qed
  ultimately show ?thesis unfolding sight_inv_def by blast
qed

end
