(* ===== verification/SightProps.thy ===== *)
theory SightProps
  imports Demo
begin

section \<open>Properties of sight\<close>

text \<open>
  What \<open>UpdateSight\<close> promises: the invariant of sight is kept, the new view is exact, it is
  complete away from the low borders of the world, and it misses neighbours near them.
\<close>

definition visible :: "world \<Rightarrow> nat \<Rightarrow> pid \<Rightarrow> bool" where
  "visible w p i \<longleftrightarrow> (\<exists>q. myClients w i = Some q \<and> (q = p \<or>
      (\<exists>r. mySightSector (clientsPool w q) = Some r
         \<and> (r = home_sector (pos_of w p) \<or> r \<in> set (searched (pos_of w p)))))
      \<and> \<not> check_out (pos_of w p) (pos_of w q))"

lemma update_sight_view:
  assumes iv: "sight_inv w" and me: "myClients w me = Some p"
    and sec: "mySightSector (clientsPool w p) \<noteq> None" and pos: "inside (pos_of w p)"
    and ord: "is_order (order os)"
  obtains w' where "UpdateSight os p w = Inr w'" and "sight_inv w'"
    and "mySightSector (clientsPool w' p) = Some (home_sector (pos_of w p))"
    and "myClients w' = myClients w"
    and "\<And>i. i \<in> myViewList (clientsPool w' p) \<longleftrightarrow> visible w p i"
proof -
  have wf: "wf_world w" and se: "sectors_ok w" using iv unfolding sight_inv_def by blast+
  obtain m V' L' where U: "UpdateSight os p w = Inr (with_views (moved_in p m w) V' L')"
    and iv': "sight_inv (with_views (moved_in p m w) V' L')" and a: "after_look w p me m V' L'"
    using UpdateSight_keeps [OF sight_inv_looks [OF iv me sec] me pos ord] by metis
  show thesis
  proof (rule that [OF U iv'])
    show "mySightSector (clientsPool (with_views (moved_in p m w) V' L') p)
        = Some (home_sector (pos_of w p))" unfolding after_look_sector by simp
    show "myClients (with_views (moved_in p m w) V' L') = myClients w"
      by (simp add: views_simps world_simps)
    show "i \<in> myViewList (clientsPool (with_views (moved_in p m w) V' L') p) \<longleftrightarrow>
      visible w p i" for i
      unfolding view_after_look [OF a] mem_Collect_eq candidates_iff [OF wf se me pos] in_sight_def visible_def
      by (metis option.inject)
  qed
qed

text \<open>C3: Updating a signed-in entity's sight keeps the invariant of sight: every sector lists
  exactly the entities in it, whoever sees is seen, views hold registered entities only, and
  each client was told exactly its view list - the appearances and disappearances it was
  sent add up to it. The entity ends in the sector of its position, and nothing throws.\<close>

theorem update_sight_keeps_invariant:
  assumes "sight_inv w" and "myClients w me = Some p"
    and "mySightSector (clientsPool w p) \<noteq> None" and "inside (pos_of w p)"
    and "is_order (order os)"
  shows "\<exists>w'. UpdateSight os p w = Inr w' \<and> sight_inv w'
    \<and> mySightSector (clientsPool w' p) = Some (home_sector (pos_of w p))"
  using update_sight_view [OF assms] by metis

theorem update_sight_keeps_invariant_witness:
  "\<exists>w'. UpdateSight demo_os 200000 (demo (1000, 1000) (1100, 1100)) = Inr w' \<and> sight_inv w'
    \<and> mySightSector (clientsPool w' 200000) = Some (home_sector (1000, 1000))"
  using update_sight_keeps_invariant [OF demo_inv, of "(1000, 1000)" "(1100, 1100)" 200000 200000 demo_os]
  by (simp add: inside_def)



subsection \<open>Where the search is complete\<close>

lemma corner_bounds:
  assumes "0 \<le> x" and "x \<le> 64000"
  shows "of_int (\<lfloor>x\<rfloor> - 224) \<le> fsub x 224" and "fsub x 224 \<le> 64000"
    and "fadd x 224 \<le> of_int (\<lfloor>x\<rfloor> + 225)" and "0 \<le> fadd x 224"
proof -
  define n where "n = \<lfloor>x\<rfloor>"
  have fl: "of_int n \<le> x" "x < of_int n + 1" unfolding n_def by linarith+
  have f: "0 \<le> n" using assms(1) by (simp add: n_def)
  have f2: "n \<le> 64000" using assms(2) by (simp add: n_def floor_le_iff)
  have "is_f32 (of_int (n - 224))" "is_f32 (of_int (n + 225))"
    using f f2 is_f32_int [of "n - 224"] is_f32_int [of "n + 225"] by (auto simp: abs_less_iff)
  then show "of_int (\<lfloor>x\<rfloor> - 224) \<le> fsub x 224" "fadd x 224 \<le> of_int (\<lfloor>x\<rfloor> + 225)"
    unfolding fsub_def fadd_def n_def [symmetric] using fl
    by (auto intro!: f32_ge_bound f32_le_bound)
  show "fsub x 224 \<le> 64000" unfolding fsub_def using assms by (intro f32_le_bound) simp_all
  have "is_f32 0" using is_f32_int [of 0] by simp
  then show "0 \<le> fadd x 224" unfolding fadd_def using assms by (intro f32_ge_bound) simp_all
qed

text \<open>The two corners of a side lie in the same or in adjacent sectors.\<close>

lemma corner_cells:
  assumes "704 \<le> x" and "x \<le> 64000" and "is_f32 x'" and "x - 224 \<le> x'" and "x' \<le> x + 224"
  shows "cell x' = cell (fsub x 224) \<or> cell x' = cell (fadd x 224)" and "0 < cell (fsub x 224)"
    and "0 < cell (fadd x 224)"
proof -
  have x: "0 \<le> x" using assms(1) by simp
  note b = corner_bounds [OF x assms(2)]
  have x': "f32 x' = x'" using assms(3) by (simp add: is_f32_def)
  have lo: "fsub x 224 \<le> x'" and hi: "x' \<le> fadd x 224"
    unfolding fsub_def fadd_def using f32_mono [OF assms(4)] f32_mono [OF assms(5)] x' by simp_all
  have fl: "0 \<le> \<lfloor>x\<rfloor>" "\<lfloor>x\<rfloor> \<le> 64000" using x assms(2) by (simp_all add: floor_le_iff)
  have big: "fadd x 224 \<le> 64225"
  proof -
    have "of_int (\<lfloor>x\<rfloor> + 225) \<le> (of_int 64225 :: rat)" using fl by (simp only: of_int_le_iff)
    with b(3) have "fadd x 224 \<le> of_int 64225" by (rule order_trans)
    then show ?thesis by simp
  qed
  have s: "480 \<le> fsub x 224"
  proof -
    have "(704::int) \<le> \<lfloor>x\<rfloor>" using assms(1) by (simp add: le_floor_iff)
    then have "of_int 480 \<le> (of_int (\<lfloor>x\<rfloor> - 224) :: rat)" by (simp only: of_int_le_iff)
    then have "of_int 480 \<le> fsub x 224" using b(1) by (rule order_trans)
    then show ?thesis by simp
  qed
  show 1: "0 < cell (fsub x 224)" using cell_ge [of 1 "fsub x 224"] s b(2) by simp
  have m1: "cell (fsub x 224) \<le> cell x'" using lo hi s big by (intro cell_mono) simp_all
  have m2: "cell x' \<le> cell (fadd x 224)" using lo hi s big by (intro cell_mono) simp_all
  show "0 < cell (fadd x 224)" using 1 m1 m2 by simp
  let ?k = "cell (fsub x 224) + 1"
  have k: "?k \<le> 134" using cell_in_grid [of "fsub x 224"] b(2) by simp
  have "fsub x 224 < of_int (480 * ?k)"
    using cell_ge [of ?k "fsub x 224"] k 1 b(2) by force
  then have "(of_int (\<lfloor>x\<rfloor> - 224) :: rat) < of_int (480 * ?k)" using b(1) by linarith
  moreover have "a - 224 < 480 * c \<Longrightarrow> a + 225 \<le> 480 * (c + 1) - 15" for a c :: int by simp
  ultimately have "\<lfloor>x\<rfloor> + 225 \<le> 480 * (?k + 1) - 15" unfolding of_int_less_iff by blast
  then have "(of_int (\<lfloor>x\<rfloor> + 225) :: rat) \<le> of_int (480 * (?k + 1) - 15)" by (simp only: of_int_le_iff)
  then have "fadd x 224 \<le> of_int (480 * (?k + 1)) - 15" using b(3) by simp
  then have "cell (fadd x 224) < ?k + 1" using k 1 by (intro cell_less) simp_all
  then show "cell x' = cell (fsub x 224) \<or> cell x' = cell (fadd x 224)" using m1 m2 by linarith
qed

lemma home_is_searched:
  assumes "704 \<le> x" "x \<le> 64000" "704 \<le> y" "y \<le> 64000" and "is_f32 x'" "is_f32 y'"
    and "x - 224 \<le> x'" "x' \<le> x + 224" "y - 224 \<le> y'" "y' \<le> y + 224"
  shows "home_sector (x', y') \<in> set (searched (x, y))"
  using corner_cells [OF assms(1,2,5,7,8)] corner_cells [OF assms(3,4,6,9,10)]
  by (auto simp: home_sector_def searched_def Let_def)

text \<open>Away from the low borders of the world the search is complete: an entity that is in
  the sector of its position and within 224 units in both coordinates is in the new view
  exactly when its truncated distance is at most 224.\<close>

theorem update_sight_complete:
  assumes "sight_inv w" and "myClients w me = Some p"
    and "mySightSector (clientsPool w p) \<noteq> None" and "is_order (order os)"
    and "704 \<le> fst (pos_of w p)" "fst (pos_of w p) \<le> 64000"
    and "704 \<le> snd (pos_of w p)" "snd (pos_of w p) \<le> 64000"
    and "myClients w i = Some q" and "mySightSector (clientsPool w q) = Some (home_sector (pos_of w q))"
    and "is_f32 (fst (pos_of w q))" "is_f32 (snd (pos_of w q))"
    and "\<bar>fst (pos_of w p) - fst (pos_of w q)\<bar> \<le> 224" "\<bar>snd (pos_of w p) - snd (pos_of w q)\<bar> \<le> 224"
  shows "\<exists>w'. UpdateSight os p w = Inr w' \<and>
    (i \<in> myViewList (clientsPool w' p) \<longleftrightarrow> SightDistance (pos_of w p) (pos_of w q) \<le> 50176)"
proof -
  have pos: "inside (pos_of w p)" using assms(6,8) by (simp add: inside_def)
  obtain w' where U: "UpdateSight os p w = Inr w'"
    and V: "\<And>i. i \<in> myViewList (clientsPool w' p) \<longleftrightarrow> visible w p i"
    using update_sight_view [OF assms(1,2,3) pos assms(4)] by blast
  have "home_sector (pos_of w q) \<in> set (searched (pos_of w p))"
    using home_is_searched [OF assms(5-8,11,12)] assms(13,14)
    by (cases "pos_of w p"; cases "pos_of w q") (auto simp: abs_le_iff)
  then have "visible w p i \<longleftrightarrow> \<not> check_out (pos_of w p) (pos_of w q)"
    using assms(9,10) unfolding visible_def by (metis option.inject)
  then show ?thesis using U V [of i] by (simp add: check_out_iff not_less)
qed

theorem update_sight_complete_witness:
  "\<exists>w'. UpdateSight demo_os 200000 (demo (1000, 1000) (1100, 1100)) = Inr w'
    \<and> 200001 \<in> myViewList (clientsPool w' 200000)"
  using update_sight_complete [OF demo_inv, of "(1000, 1000)" "(1100, 1100)" 200000 200000 demo_os
      200001 200001]
  by (auto simp: inside_def SightDistance_def wrap_int32_def)

subsection \<open>Where it is not\<close>

text \<open>In the first column of sectors the search is blind upwards: with \<open>x \<le> 241\<close>, whoever
  is in the sector above that the view reaches into is left out of the new view, even next
  to the border. The guards \<open>0 < second\<close> skip column 0 as if it were outside the world.\<close>

theorem update_sight_blind_at_edge:
  assumes "sight_inv w" and "myClients w me = Some p"
    and "mySightSector (clientsPool w p) \<noteq> None" and "inside (pos_of w p)"
    and "is_order (order os)" and "fst (pos_of w p) \<le> 241"
    and "cell (fsub (snd (pos_of w p)) 224) < cell (snd (pos_of w p))"
    and "cell (snd (pos_of w p)) \<le> cell (fadd (snd (pos_of w p)) 224)"
    and "myClients w i = Some q" and "q \<noteq> p"
    and "mySightSector (clientsPool w q) = Some (0, nat (cell (fsub (snd (pos_of w p)) 224)))"
  shows "\<exists>w'. UpdateSight os p w = Inr w' \<and> i \<notin> myViewList (clientsPool w' p)"
proof -
  obtain w' where U: "UpdateSight os p w = Inr w'"
    and V: "\<And>i. i \<in> myViewList (clientsPool w' p) \<longleftrightarrow> visible w p i"
    using update_sight_view [OF assms(1-5)] by blast
  let ?x = "fst (pos_of w p)" and ?y = "snd (pos_of w p)"
  have b: "is_f32 465" by simp
  have "fadd ?x 224 \<le> 465" "fsub ?x 224 \<le> 465"
    unfolding fadd_def fsub_def using assms(6) by (intro f32_le_bound [OF _ b]; simp)+
  then have "cell (fadd ?x 224) < 1" "cell (fsub ?x 224) < 1" by (intro cell_less; simp)+
  then have c: "cell (fadd ?x 224) = 0" "cell (fsub ?x 224) = 0"
    using cell_nonneg [of "fadd ?x 224"] cell_nonneg [of "fsub ?x 224"] by linarith+
  have ne: "nat (cell (fsub ?y 224)) \<noteq> nat (cell ?y)" "nat (cell (fsub ?y 224)) \<noteq> nat (cell (fadd ?y 224))"
    using assms(7,8) cell_nonneg [of "fsub ?y 224"] by linarith+
  have "(0, nat (cell (fsub ?y 224))) \<noteq> home_sector (pos_of w p)"
    "(0, nat (cell (fsub ?y 224))) \<notin> set (searched (pos_of w p))"
    using ne c by (simp_all add: home_sector_def searched_def Let_def)
  then show ?thesis using U V [of i] assms(9-11) by (auto simp: visible_def)
qed

lemma edge_cells: "cell 266 = 0" "cell 490 = 1" "cell 714 = 1" "cell 100 = 0"
  using cell_eq [of 0 266] cell_eq [of 1 490] cell_eq [of 1 714] cell_eq [of 0 100]
  by simp_all

theorem update_sight_blind_at_edge_witness:
  "(\<exists>w'. UpdateSight demo_os 200000 (demo (100, 490) (100, 465)) = Inr w'
      \<and> 200001 \<notin> myViewList (clientsPool w' 200000))
   \<and> SightDistance (100, 490) (100, 465) = 625"
proof
  have "cell 465 = 0" using cell_eq [of 0 465] by simp
  then show "\<exists>w'. UpdateSight demo_os 200000 (demo (100, 490) (100, 465)) = Inr w'
      \<and> 200001 \<notin> myViewList (clientsPool w' 200000)"
    using update_sight_blind_at_edge [OF demo_inv, of "(100, 490)" "(100, 465)" 200000 200000 demo_os
        200001 200001] edge_cells
    by (simp add: inside_def home_sector_def fsub_def fadd_def)
  show "SightDistance (100, 490) (100, 465) = 625"
    by (simp add: SightDistance_def wrap_int32_def)
qed

end
