(* ===== verification/Login.thy ===== *)
theory Login
  imports SightProps
begin

section \<open>Signing up, in and out\<close>

text \<open>
  \<open>ProceedSignUp\<close>, \<open>ProceedLoginFailed\<close>, \<open>ProceedSignIn\<close>, \<open>Listen\<close> and \<open>Disconnect\<close> of
  \<open>WorldServer/Framework.cpp\<close>: a connection is accepted, gets a place, an identifier and
  its first receive; the sign-in packet makes it visible; leaving takes it out of the
  registry, the sectors and the views.
\<close>

subsection \<open>Operations\<close>

text \<open>When \<open>AcceptEx\<close> fails outright only the accept buffers are cleared.\<close>

definition Listen :: "world \<Rightarrow> world" where
  "Listen w = (let newbie = acceptNewbie w in emit (EAccept newbie) w)"

definition ProceedLoginFailed :: "socket \<Rightarrow> login_error \<Rightarrow> world \<Rightarrow> world" where
  "ProceedLoginFailed sock reason w =
     (let packet = SCPacketSignInFailed 0 reason (GetClientsNumber w);
          wbuffer = \<lparr>w_buf = MPacket packet, w_len = ucast (Size packet)\<rparr>;
          overlap = SetSendBuffer wbuffer ((Asynchron OP_SEND)\<lparr>a_Type := Type packet\<rparr>)
      in emit (ESend sock wbuffer overlap) w)"

text \<open>
  The places are never null, so the branch for a null session is not reached: with no free
  place \<open>FindPlaceForNewbie\<close> has dereferenced the end iterator before.
\<close>

definition ProceedSignUp :: "os \<Rightarrow> world \<Rightarrow> world res" where
  "ProceedSignUp os w =
     (let newbie = AcquireNewbieSocket w; number = GetClientsNumber w
      in rbind
        (if word_of_nat USERS_MAX \<le> number then Inr (ProceedLoginFailed newbie LE_USERS_LIMITED w)
         else rbind (FindPlaceForNewbie w) (\<lambda>session.
           let newbie_id = AcquireNewbieID w;
               newbie_place = Index (clientsPool w session);
               io = create_port os (now w);
               w1 = emit (EPort newbie newbie_id) w;
               (newbie_id, w2) =
                 (if \<not> io then (newbie_id, emit (EClose newbie) w1)
                  else
                    let w' = on_session session (SetStatus SS_CONNECTED)
                          (on_session session (SetSocket newbie)
                            (on_session session (SetID newbie_id) w1));
                        (result, w'') = RecvStream os session 0 w'
                    in case result of
                        IoError \<Rightarrow> (newbie_id,
                          Cleanup session (ProceedLoginFailed newbie LE_NETWORK_ERROR w''))
                      | IoPending \<Rightarrow> (newbie_id, w'')
                      | IoDone \<Rightarrow> (newbie_id + 1, RegisterPlayer newbie_id newbie_place w''))
           in Inr (ReleaseClient newbie_place session (ReleaseNewbieID newbie_id w2))))
        (\<lambda>w. let (s, w1) = CreateSocket os w in Inr (Listen (ReleaseNewbieSocket s w1))))"

definition ProceedSignIn :: "os \<Rightarrow> nat \<Rightarrow> bytes \<Rightarrow> world \<Rightarrow> world res" where
  "ProceedSignIn os handle nickname w =
     (let my_id = AcquireID (clientsPool w handle); status = AcquireStatus (clientsPool w handle)
      in rbind
        (if SS_CONNECTED = status then
           let w1 = on_session handle (\<lambda>s. s\<lparr>myNickname := nickname\<rparr>) w;
               w2 = on_session handle (\<lambda>s. s\<lparr>pos_x := 100, pos_y := 100\<rparr>) w1;
               w3 = on_session handle (SetID my_id) w2;
               ticket = CreateTicket (SCPacketSignUp my_id 0 (GetClientsNumber w3));
               w4 = Send handle ticket w3
           in rbind (InitializeSight os handle w4) (\<lambda>w5. Inr (SS_ACCEPTED, w5))
         else Inr (status, w))
        (\<lambda>sw. Inr (on_session handle (ReleaseID my_id)
           (on_session handle (ReleaseStatus (fst sw)) (snd sw)))))"

definition Disconnect :: "os \<Rightarrow> pid \<Rightarrow> world \<Rightarrow> world res" where
  "Disconnect os i w =
     (case AcquireClientByID i w of
        None \<Rightarrow> Inr w
      | Some session \<Rightarrow>
          let index = Index (clientsPool w session)
          in rbind
            (if IsAccepted (clientsPool w session) then
               rbind (CleanupSight os session w) (\<lambda>w1.
                 Inr (Cleanup session (DeregisterPlayer i w1)))
             else if IsConnected (clientsPool w session) then
               Inr (Cleanup session (DeregisterPlayer i w))
             else Inr w)
            (\<lambda>w. Inr (ReleaseClient index session w)))"

subsection \<open>Signing up\<close>

definition first_free :: "world \<Rightarrow> nat option" where
  "first_free w = find (\<lambda>p. IsDisconnected (clientsPool w p)) [acceptBeginPlace w..<ENTITIES_MAX_NUMBER]"

lemma FindPlace_first_free:
  "FindPlaceForNewbie w = (case first_free w of Some p \<Rightarrow> Inr p | None \<Rightarrow> Inl EndIterator)"
  by (simp add: FindPlaceForNewbie_def first_free_def AcquireClient_def split: option.splits)

lemma first_free_SomeD:
  assumes "first_free w = Some p"
  shows "p < ENTITIES_MAX_NUMBER" and "acceptBeginPlace w \<le> p" and "Status (clientsPool w p) = SS_NONE"
proof -
  have "p \<in> set [acceptBeginPlace w..<ENTITIES_MAX_NUMBER]" "IsDisconnected (clientsPool w p)"
    using assms by (auto simp: first_free_def find_Some_iff)
  then show "p < ENTITIES_MAX_NUMBER" "acceptBeginPlace w \<le> p" "Status (clientsPool w p) = SS_NONE"
    by (auto simp: IsDisconnected_def)
qed

lemma first_freeI:
  assumes "acceptBeginPlace w \<le> p" and "p < ENTITIES_MAX_NUMBER" and "Status (clientsPool w p) = SS_NONE"
    and "\<And>q. acceptBeginPlace w \<le> q \<Longrightarrow> q < p \<Longrightarrow> Status (clientsPool w q) \<noteq> SS_NONE"
  shows "first_free w = Some p"
proof -
  let ?b = "acceptBeginPlace w"
  have "[?b..<ENTITIES_MAX_NUMBER] ! (p - ?b) = p" and "p - ?b < length [?b..<ENTITIES_MAX_NUMBER]"
    using assms(1,2) by simp_all
  moreover have "\<not> IsDisconnected (clientsPool w ([?b..<ENTITIES_MAX_NUMBER] ! j))" if "j < p - ?b" for j
  proof -
    have "[?b..<ENTITIES_MAX_NUMBER] ! j = ?b + j" using that assms(2) by simp
    moreover have "?b + j < p" using that assms(1) by simp
    ultimately show ?thesis using assms(4) [of "?b + j"] by (auto simp: IsDisconnected_def)
  qed
  ultimately show ?thesis
    unfolding first_free_def find_Some_iff using assms(3)
    by (intro exI [of _ "p - ?b"]) (auto simp: IsDisconnected_def)
qed

text \<open>The newcomer's session right after it was given its socket and identifier.\<close>

definition newcomer :: "world \<Rightarrow> nat \<Rightarrow> session" where
  "newcomer w p = RecvStream_buffer (word_of_nat BUFFSZ) 0
     (SetStatus SS_CONNECTED (SetSocket (acceptNewbie w) (SetID (orderClientIDs w) (clientsPool w p))))"

lemma Listen_fields [world_simps]:
  "clientsPool (Listen w) = clientsPool w" "myClients (Listen w) = myClients w"
  "mySightManager (Listen w) = mySightManager w" "numberClients (Listen w) = numberClients w"
  "orderClientIDs (Listen w) = orderClientIDs w" "acceptNewbie (Listen w) = acceptNewbie w"
  "acceptBeginPlace (Listen w) = acceptBeginPlace w" "log (Listen w) = log w @ [EAccept (acceptNewbie w)]"
  by (simp_all add: Listen_def emit_def)

lemma ReleaseNewbieSocket_fields [world_simps]:
  "clientsPool (ReleaseNewbieSocket s w) = clientsPool w"
  "myClients (ReleaseNewbieSocket s w) = myClients w"
  "mySightManager (ReleaseNewbieSocket s w) = mySightManager w"
  "numberClients (ReleaseNewbieSocket s w) = numberClients w"
  "orderClientIDs (ReleaseNewbieSocket s w) = orderClientIDs w"
  "acceptNewbie (ReleaseNewbieSocket s w) = s" "log (ReleaseNewbieSocket s w) = log w"
  "acceptBeginPlace (ReleaseNewbieSocket s w) = acceptBeginPlace w"
  by (simp_all add: ReleaseNewbieSocket_def)

lemma ReleaseNewbieID_fields [world_simps]:
  "clientsPool (ReleaseNewbieID i w) = clientsPool w"
  "myClients (ReleaseNewbieID i w) = myClients w"
  "mySightManager (ReleaseNewbieID i w) = mySightManager w"
  "numberClients (ReleaseNewbieID i w) = numberClients w"
  "orderClientIDs (ReleaseNewbieID i w) = i"
  "acceptNewbie (ReleaseNewbieID i w) = acceptNewbie w" "log (ReleaseNewbieID i w) = log w"
  "acceptBeginPlace (ReleaseNewbieID i w) = acceptBeginPlace w"
  by (simp_all add: ReleaseNewbieID_def)

lemma RecvStream_log:
  "log (snd (RecvStream os p b w)) =
     log w @ [ERecv (Socket (clientsPool w p)) (unat b) (word_of_nat BUFFSZ - b)]"
  by (simp add: RecvStream_def Let_def world_simps RecvStream_buffer_def)

lemma ReleaseClient_fields [world_simps]:
  "myClients (ReleaseClient h p w) = myClients w"
  "mySightManager (ReleaseClient h p w) = mySightManager w"
  "numberClients (ReleaseClient h p w) = numberClients w"
  "orderClientIDs (ReleaseClient h p w) = orderClientIDs w"
  "acceptNewbie (ReleaseClient h p w) = acceptNewbie w" "log (ReleaseClient h p w) = log w"
  "acceptBeginPlace (ReleaseClient h p w) = acceptBeginPlace w"
  by (simp_all add: ReleaseClient_def)

lemma ReleaseClient_pool:
  "clientsPool (ReleaseClient h p w) = (clientsPool w)(h := clientsPool w p)"
  by (simp add: ReleaseClient_def)

lemma ProceedLoginFailed_fields [world_simps]:
  "clientsPool (ProceedLoginFailed s r w) = clientsPool w"
  "myClients (ProceedLoginFailed s r w) = myClients w"
  "mySightManager (ProceedLoginFailed s r w) = mySightManager w"
  "numberClients (ProceedLoginFailed s r w) = numberClients w"
  "orderClientIDs (ProceedLoginFailed s r w) = orderClientIDs w"
  "acceptNewbie (ProceedLoginFailed s r w) = acceptNewbie w"
  "acceptBeginPlace (ProceedLoginFailed s r w) = acceptBeginPlace w"
  by (simp_all add: ProceedLoginFailed_def Let_def world_simps)

lemma newcomer_fields:
  "Status (newcomer w p) = SS_CONNECTED" "ID (newcomer w p) = orderClientIDs w"
  "Socket (newcomer w p) = acceptNewbie w" "Index (newcomer w p) = Index (clientsPool w p)"
  "myViewList (newcomer w p) = myViewList (clientsPool w p)"
  "mySightSector (newcomer w p) = mySightSector (clientsPool w p)"
  "ib_playerID (myInfobox (newcomer w p)) = orderClientIDs w"
  "length (recvCBuffer (newcomer w p)) = length (recvCBuffer (clientsPool w p))"
  by (simp_all add: newcomer_def RecvStream_buffer_def SetStatus_def SetSocket_def SetID_def)

text \<open>The completions that were posted.\<close>

definition posted :: "effect list \<Rightarrow> (u32 \<times> pid \<times> asynchron) set" where
  "posted l = {(d, i, a). EPost d i a \<in> set l}"

lemma posted_append [simp]: "posted (l @ l') = posted l \<union> posted l'"
  by (auto simp: posted_def)

lemma posted_simps [simp]:
  "posted [] = {}" "posted (ESend so b a # l) = posted l" "posted (ERecv so n u # l) = posted l"
  "posted (EClose so # l) = posted l" "posted (EPort so i # l) = posted l"
  "posted (ESocket so # l) = posted l" "posted (EAccept so # l) = posted l"
  "posted (EPost d i a # l) = insert (d, i, a) (posted l)"
  by (auto simp: posted_def)

text \<open>What a sign-up leads to when a place is free and the socket joins the port.\<close>

lemma sign_up_step:
  assumes "\<not> word_of_nat USERS_MAX \<le> numberClients w" and "first_free w = Some p"
    and "Index (clientsPool w p) = p" and "create_port os (length (log w))"
  obtains w' where "ProceedSignUp os w = Inr w'"
    and "clientsPool w' = (clientsPool w)(p := (if wsa_recv os (Suc (length (log w))) = IoError
      then Cleanup_fields (newcomer w p) else newcomer w p))"
    and "mySightManager w' = mySightManager w" and "acceptBeginPlace w' = acceptBeginPlace w"
    and "wsa_recv os (Suc (length (log w))) \<noteq> IoDone \<Longrightarrow> myClients w' = myClients w
      \<and> orderClientIDs w' = orderClientIDs w \<and> numberClients w' = numberClients w"
    and "wsa_recv os (Suc (length (log w))) = IoDone \<Longrightarrow> myClients w (orderClientIDs w) = None \<Longrightarrow>
      myClients w' = (myClients w)(orderClientIDs w \<mapsto> p)"
    and "wsa_recv os (Suc (length (log w))) = IoDone \<Longrightarrow>
      orderClientIDs w' = orderClientIDs w + 1 \<and> numberClients w' = numberClients w + 1"
    and "\<And>s. told s (log w') = told s (log w)" and "posted (log w') = posted (log w)"
proof -
  let ?r = "wsa_recv os (Suc (length (log w)))"
  let ?w' = "projr (ProceedSignUp os w)"
  note defs = ProceedSignUp_def Let_def AcquireNewbieSocket_def GetClientsNumber_def
    AcquireNewbieID_def FindPlace_first_free now_def case_prod_beta world_simps RecvStream_log
    ReleaseClient_pool CreateSocket_def newcomer_def assms
  note told_defs = defs told_append told_step_def ProceedLoginFailed_def
  have ok: "ProceedSignUp os w = Inr ?w'" by (cases ?r) (simp_all add: defs)
  show thesis
  proof (rule that [OF ok])
    show "clientsPool ?w' = (clientsPool w)(p := (if ?r = IoError
      then Cleanup_fields (newcomer w p) else newcomer w p))"
      by (cases ?r) (simp_all add: defs)
    show "told s (log ?w') = told s (log w)" for s
      by (cases ?r) (simp_all add: told_defs)
    show "posted (log ?w') = posted (log w)"
      by (cases ?r) (simp_all add: told_defs)
  qed (cases ?r; simp add: defs)+
qed

text \<open>A server that can take the next connection: a free place, a fresh identifier and socket.\<close>

definition ready :: "os \<Rightarrow> world \<Rightarrow> nat \<Rightarrow> bool" where
  "ready os w p \<longleftrightarrow> \<not> word_of_nat USERS_MAX \<le> numberClients w \<and> first_free w = Some p
     \<and> create_port os (length (log w)) \<and> myClients w (orderClientIDs w) = None
     \<and> IsPlayer (orderClientIDs w) \<and> acceptNewbie w \<noteq> NULL_SOCKET
     \<and> told (acceptNewbie w) (log w) = {}
     \<and> (\<forall>i q. myClients w i = Some q \<longrightarrow> q \<noteq> p \<and> Socket (clientsPool w q) \<noteq> acceptNewbie w)
     \<and> mySightSector (clientsPool w p) = None \<and> myViewList (clientsPool w p) = {}"

lemma newcomer_wf: "wf_session p s \<Longrightarrow> s = clientsPool w p \<Longrightarrow> wf_session p (newcomer w p)"
  by (simp add: wf_session_def newcomer_fields)

lemma Cleanup_fields_simps:
  "ID (Cleanup_fields s) = - 1" "Status (Cleanup_fields s) = SS_NONE"
  "Socket (Cleanup_fields s) = NULL_SOCKET" "mySightSector (Cleanup_fields s) = None"
  "myViewList (Cleanup_fields s) = {}" "Index (Cleanup_fields s) = Index s"
  "ib_playerID (myInfobox (Cleanup_fields s)) = - 1"
  "recvCBuffer (Cleanup_fields s) = recvCBuffer s"
  by (simp_all add: Cleanup_fields_def SetSocket_def SetStatus_def SetID_def)

lemma Cleanup_wf: "wf_session p s \<Longrightarrow> wf_session p (Cleanup_fields s)"
  by (simp add: wf_session_def Cleanup_fields_simps)

text \<open>Replacing the session of an unregistered place by one without sector and view.\<close>

lemma sight_inv_new_place:
  assumes iv: "sight_inv w" and pool: "clientsPool w' = (clientsPool w)(p := s)"
    and s: "wf_session p s" "mySightSector s = None" "myViewList s = {}"
    and reg: "\<And>i q. myClients w i = Some q \<Longrightarrow> q \<noteq> p"
    and same: "mySightManager w' = mySightManager w" "\<And>so. told so (log w') = told so (log w)"
    and cl: "myClients w' = myClients w
      \<or> myClients w' = (myClients w)(ID s \<mapsto> p) \<and> myClients w (ID s) = None \<and> IsPlayer (ID s)
        \<and> p < ENTITIES_MAX_NUMBER \<and> Socket s \<noteq> NULL_SOCKET \<and> told (Socket s) (log w) = {}
        \<and> (\<forall>i q. myClients w i = Some q \<longrightarrow> Socket (clientsPool w q) \<noteq> Socket s)"
  shows "sight_inv w'"
proof -
  have wf: "wf_world w" and so: "sockets_ok w" and se: "sectors_ok w" and mu: "mutual w"
    and kn: "known w" and inf: "\<And>q. player_at w q \<Longrightarrow> informed w q"
    using iv unfolding sight_inv_def by blast+
  have nreg: "myClients w i \<noteq> Some p" for i using reg by blast
  have old: "myClients w' i = Some q \<longleftrightarrow> myClients w i = Some q" if "q \<noteq> p" for i q
    using that cl by (auto split: if_splits)
  have new: "myClients w' i = Some p \<Longrightarrow> i = ID s \<and> IsPlayer i \<and> p < ENTITIES_MAX_NUMBER
      \<and> myClients w i = None \<and> Socket s \<noteq> NULL_SOCKET \<and> told (Socket s) (log w) = {}
      \<and> (\<forall>j q. myClients w j = Some q \<longrightarrow> Socket (clientsPool w q) \<noteq> Socket s)" for i
    using cl nreg by (auto split: if_splits)
  have P: "clientsPool w' q = (if q = p then s else clientsPool w q)" for q by (simp add: pool)
  have "finite (dom (myClients w'))" using cl wf_worldD(4) [OF wf] by auto
  moreover have "wf_session q (clientsPool w' q)" if "q < ENTITIES_MAX_NUMBER" for q
    using wf_worldD(3) [OF wf that] s(1) by (simp add: P)
  moreover have "q < ENTITIES_MAX_NUMBER \<and> ID (clientsPool w' q) = i" if "myClients w' i = Some q" for i q
    using that old [of q i] new [of i] wf_worldD(5,6) [OF wf] by (cases "q = p") (auto simp: P)
  ultimately have "wf_world w'"
    using wf_worldD(1,2) [OF wf] unfolding wf_world_def same(1) by blast
  moreover have "sockets_ok w'"
  proof -
    have "(Socket (clientsPool w' q) = NULL_SOCKET \<longleftrightarrow> \<not> IsPlayer i)" if "myClients w' i = Some q" for i q
      using that so old [of q i] new [of i] unfolding P sockets_ok_def by (cases "q = p") auto
    moreover have "Socket (clientsPool w' q) \<noteq> Socket (clientsPool w' r)"
      if "myClients w' i = Some q" "myClients w' j = Some r" "IsPlayer i" "i \<noteq> j" for i j q r
    proof -
      consider "q = p" "r = p" | "q = p" "r \<noteq> p" | "q \<noteq> p" "r = p" | "q \<noteq> p" "r \<noteq> p" by blast
      then show ?thesis
      proof cases
        case 1
        then show ?thesis using that new by blast
      next
        case 2
        then have "Socket (clientsPool w r) \<noteq> Socket s" using that old new by blast
        then show ?thesis using 2 by (simp add: P)
      next
        case 3
        then have "Socket (clientsPool w q) \<noteq> Socket s" using that old new by blast
        then show ?thesis using 3 by (simp add: P)
      next
        case 4
        then have "myClients w i = Some q" "myClients w j = Some r" using that old by simp_all
        then have "Socket (clientsPool w r) \<noteq> Socket (clientsPool w q)"
          using sockets_okD(2) [OF so _ that(3)] that(4) by blast
        then show ?thesis using 4 by (simp add: P)
      qed
    qed
    ultimately show ?thesis unfolding sockets_ok_def by blast
  qed
  moreover have "sectors_ok w'"
    unfolding sectors_ok_def same(1)
  proof (intro allI impI)
    fix r i assume r: "valid_ref r"
    show "i \<in> sights_of (mySightManager w) r \<longleftrightarrow> (\<exists>q. myClients w' i = Some q
        \<and> mySightSector (clientsPool w' q) = Some r)"
    proof
      assume "i \<in> sights_of (mySightManager w) r"
      then obtain q where "myClients w i = Some q" "mySightSector (clientsPool w q) = Some r"
        unfolding sectors_okD [OF se r] by blast
      then show "\<exists>q. myClients w' i = Some q \<and> mySightSector (clientsPool w' q) = Some r"
        using reg old by (intro exI [of _ q]) (auto simp: P)
    next
      assume "\<exists>q. myClients w' i = Some q \<and> mySightSector (clientsPool w' q) = Some r"
      then obtain q where q: "myClients w' i = Some q" "mySightSector (clientsPool w' q) = Some r" by blast
      then have "q \<noteq> p" using s(2) by (auto simp: P)
      then show "i \<in> sights_of (mySightManager w) r"
        unfolding sectors_okD [OF se r] using q old by (auto simp: P)
    qed
  qed
  moreover have "mutual w'"
  proof -
    have new_unseen: "i \<notin> myViewList (clientsPool w' q)"
      if "myClients w' i = Some p" "myClients w' j = Some q" for i j q
    proof (cases "q = p")
      case True
      then show ?thesis by (simp add: P s)
    next
      case False
      then have "myClients w j = Some q" using that old by simp
      then show ?thesis using new [OF that(1)] kn False unfolding known_def by (auto simp: P)
    qed
    have "j \<in> myViewList (clientsPool w' q) \<longleftrightarrow> i \<in> myViewList (clientsPool w' r)"
      if q: "myClients w' i = Some q" and r: "myClients w' j = Some r" for i j q r
    proof (cases "q = p \<or> r = p")
      case True
      then show ?thesis using new_unseen [of i j r] new_unseen [of j i q] q r by (auto simp: P s)
    next
      case False
      then have "myClients w i = Some q" "myClients w j = Some r" using q r old by simp_all
      then have "j \<in> myViewList (clientsPool w q) \<longleftrightarrow> i \<in> myViewList (clientsPool w r)"
        using mu unfolding mutual_def by blast
      then show ?thesis using False by (simp add: P)
    qed
    then show ?thesis unfolding mutual_def by blast
  qed
  moreover have "known w'"
    unfolding known_def P
  proof (intro allI impI)
    fix i q assume q: "myClients w' i = Some q"
    show "myViewList (if q = p then s else clientsPool w q) \<subseteq> dom (myClients w')"
    proof (cases "q = p")
      case False
      then have "myViewList (clientsPool w q) \<subseteq> dom (myClients w)"
        using q old kn unfolding known_def by blast
      then show ?thesis using False cl by auto
    qed (simp add: s(3))
  qed
  moreover have "informed w' q" if "player_at w' q" for q
  proof (cases "q = p")
    case True
    then have "myClients w' (ID s) = Some p" using that by (simp add: player_at_def P)
    then have "told (Socket s) (log w) = {}" using new by blast
    then show ?thesis using True s by (simp add: informed_def P same)
  next
    case False
    then have "player_at w q" using that old by (simp add: player_at_def P)
    then show ?thesis using inf False by (simp add: informed_def P same)
  qed
  ultimately show ?thesis unfolding sight_inv_def by blast
qed

text \<open>A sign-up of a ready server: the state after it.\<close>

lemma sign_up_result:
  assumes "sight_inv w" and "ready os w p"
  obtains w' where "ProceedSignUp os w = Inr w'" and "sight_inv w'"
    and "clientsPool w' = (clientsPool w)(p := (if wsa_recv os (Suc (length (log w))) = IoError
      then Cleanup_fields (newcomer w p) else newcomer w p))"
    and "wsa_recv os (Suc (length (log w))) \<noteq> IoDone \<Longrightarrow> myClients w' = myClients w
      \<and> orderClientIDs w' = orderClientIDs w \<and> numberClients w' = numberClients w"
    and "wsa_recv os (Suc (length (log w))) = IoDone \<Longrightarrow>
      myClients w' = (myClients w)(orderClientIDs w \<mapsto> p) \<and> orderClientIDs w' = orderClientIDs w + 1
      \<and> numberClients w' = numberClients w + 1"
    and "posted (log w') = posted (log w)"
proof -
  let ?r = "wsa_recv os (Suc (length (log w)))"
  have rd: "\<not> word_of_nat USERS_MAX \<le> numberClients w" "first_free w = Some p"
    "create_port os (length (log w))"
    and fresh: "myClients w (orderClientIDs w) = None" "IsPlayer (orderClientIDs w)"
      "acceptNewbie w \<noteq> NULL_SOCKET" "told (acceptNewbie w) (log w) = {}"
    and reg: "\<And>i q. myClients w i = Some q \<Longrightarrow> q \<noteq> p"
      "\<And>i q. myClients w i = Some q \<Longrightarrow> Socket (clientsPool w q) \<noteq> acceptNewbie w"
    and clean: "mySightSector (clientsPool w p) = None" "myViewList (clientsPool w p) = {}"
    using assms(2) unfolding ready_def by blast+
  have p: "p < ENTITIES_MAX_NUMBER" using first_free_SomeD(1) [OF rd(2)] .
  have wf: "wf_session p (clientsPool w p)"
    using assms(1) p wf_worldD(3) unfolding sight_inv_def by blast
  have ix: "Index (clientsPool w p) = p" using wf by (simp add: wf_session_def)
  obtain w' where U: "ProceedSignUp os w = Inr w'"
    and pool: "clientsPool w' = (clientsPool w)(p := (if ?r = IoError
      then Cleanup_fields (newcomer w p) else newcomer w p))"
    and M: "mySightManager w' = mySightManager w" and "acceptBeginPlace w' = acceptBeginPlace w"
    and nd: "?r \<noteq> IoDone \<Longrightarrow> myClients w' = myClients w
      \<and> orderClientIDs w' = orderClientIDs w \<and> numberClients w' = numberClients w"
    and dn: "?r = IoDone \<Longrightarrow> myClients w (orderClientIDs w) = None \<Longrightarrow>
      myClients w' = (myClients w)(orderClientIDs w \<mapsto> p)"
    and dn2: "?r = IoDone \<Longrightarrow> orderClientIDs w' = orderClientIDs w + 1 \<and> numberClients w' = numberClients w + 1"
    and T: "\<And>s. told s (log w') = told s (log w)" and Q: "posted (log w') = posted (log w)"
    using sign_up_step [OF rd(1,2) ix rd(3)] by blast
  have "sight_inv w'"
  proof (rule sight_inv_new_place [OF assms(1) pool])
    let ?s = "if ?r = IoError then Cleanup_fields (newcomer w p) else newcomer w p"
    show "myClients w' = myClients w
      \<or> myClients w' = (myClients w)(ID ?s \<mapsto> p) \<and> myClients w (ID ?s) = None \<and> IsPlayer (ID ?s)
        \<and> p < ENTITIES_MAX_NUMBER \<and> Socket ?s \<noteq> NULL_SOCKET \<and> told (Socket ?s) (log w) = {}
        \<and> (\<forall>i q. myClients w i = Some q \<longrightarrow> Socket (clientsPool w q) \<noteq> Socket ?s)"
      using nd dn fresh reg p by (cases "?r = IoDone") (simp_all add: newcomer_fields)
    show "wf_session p ?s"
      using newcomer_wf [OF wf refl] Cleanup_wf [OF newcomer_wf [OF wf refl]] by simp
  qed (use clean reg(1) M T in \<open>simp_all add: newcomer_fields Cleanup_fields_simps\<close>)
  then show thesis by (rule that [OF U _ pool nd _ Q]) (use dn dn2 fresh(1) in simp_all)
qed


lemma demo_free: "first_free (demo a b) = Some 200002"
  by (rule first_freeI) (auto simp: demo_def new_session_def const_simps demo_player_def)

lemma demo_ready: "ready demo_os (demo a b) 200002"
  using demo_free [of a b]
  by (simp add: ready_def demo_registered) (auto simp: demo_def demo_os_def const_simps
      IsPlayer_def told_def told_step_def demo_hello_def Let_def)


text \<open>A sign-up gives the connection the first free place from the begin of the players on and
  the next identifier. Only when the first receive completes at once is the newcomer
  registered and the counter and the next identifier advanced. When the receive fails the
  place is free again. When it is left pending - the normal answer of an overlapped receive -
  the session is connected but not in the registry, so that no completion for it finds it,
  and the identifier is not used up.\<close>

theorem sign_up_outcomes:
  assumes "\<not> word_of_nat USERS_MAX \<le> numberClients w" and "first_free w = Some p"
    and "Index (clientsPool w p) = p" and "create_port os (length (log w))"
    and "myClients w (orderClientIDs w) = None"
  shows "\<exists>w'. ProceedSignUp os w = Inr w' \<and>
    (case wsa_recv os (Suc (length (log w))) of
       IoDone \<Rightarrow> Status (clientsPool w' p) = SS_CONNECTED \<and> ID (clientsPool w' p) = orderClientIDs w
         \<and> Socket (clientsPool w' p) = acceptNewbie w
         \<and> myClients w' = (myClients w)(orderClientIDs w \<mapsto> p)
         \<and> orderClientIDs w' = orderClientIDs w + 1 \<and> numberClients w' = numberClients w + 1
     | IoPending \<Rightarrow> Status (clientsPool w' p) = SS_CONNECTED \<and> ID (clientsPool w' p) = orderClientIDs w
         \<and> Socket (clientsPool w' p) = acceptNewbie w
         \<and> GetClientByID (orderClientIDs w) w' = None
         \<and> orderClientIDs w' = orderClientIDs w \<and> numberClients w' = numberClients w
     | IoError \<Rightarrow> Status (clientsPool w' p) = SS_NONE \<and> Socket (clientsPool w' p) = NULL_SOCKET
         \<and> myClients w' = myClients w
         \<and> orderClientIDs w' = orderClientIDs w \<and> numberClients w' = numberClients w)"
  by (rule sign_up_step [OF assms(1-4)])
     (auto simp: newcomer_fields Cleanup_fields_simps world_simps assms(5) split: io_result.splits)

theorem sign_up_outcomes_witness:
  "\<exists>w'. ProceedSignUp demo_pending_os (demo (100, 100) (500, 500)) = Inr w'
    \<and> Status (clientsPool w' 200002) = SS_CONNECTED \<and> GetClientByID 200002 w' = None"
proof -
  have "\<not> word_of_nat USERS_MAX \<le> numberClients (demo (100, 100) (500, 500))"
    by (simp add: const_simps)
  then show ?thesis
    using sign_up_outcomes [OF _ demo_free, of "(100, 100)" "(500, 500)" demo_pending_os] by auto
qed

text \<open>Two connections whose first receive is left pending get the same identifier: after two
  such sign-ups two places hold connected sessions with one identifier, and the registry
  knows neither.\<close>

theorem pending_sign_ups_share_an_identifier:
  assumes "\<not> word_of_nat USERS_MAX \<le> numberClients w" and "first_free w = Some p"
    and "first_free (w\<lparr>clientsPool := (clientsPool w)(p := newcomer w p)\<rparr>) = Some q"
    and "Index (clientsPool w p) = p" and "Index (clientsPool w q) = q"
    and "\<And>n. create_port os n" and "\<And>n. wsa_recv os n = IoPending"
  shows "\<exists>w1 w2. ProceedSignUp os w = Inr w1 \<and> ProceedSignUp os w1 = Inr w2 \<and> p \<noteq> q
    \<and> ID (clientsPool w2 p) = orderClientIDs w \<and> ID (clientsPool w2 q) = orderClientIDs w
    \<and> Status (clientsPool w2 p) = SS_CONNECTED \<and> Status (clientsPool w2 q) = SS_CONNECTED
    \<and> myClients w2 = myClients w"
proof -
  obtain w1 where 1: "ProceedSignUp os w = Inr w1" "clientsPool w1 = (clientsPool w)(p := newcomer w p)"
      "acceptBeginPlace w1 = acceptBeginPlace w"
      "myClients w1 = myClients w \<and> orderClientIDs w1 = orderClientIDs w \<and> numberClients w1 = numberClients w"
    by (rule sign_up_step [OF assms(1,2,4,6)]) (simp add: assms(7))
  have f: "first_free w1 = Some q" using assms(3) 1(2,3) by (simp add: first_free_def)
  have pq: "p \<noteq> q"
    using first_free_SomeD(3) [OF f] 1(2) by (auto simp: newcomer_fields)
  have n1: "\<not> word_of_nat USERS_MAX \<le> numberClients w1" and ix: "Index (clientsPool w1 q) = q"
    using assms(1,5) 1(2,4) pq by simp_all
  obtain w2 where 2: "ProceedSignUp os w1 = Inr w2" "clientsPool w2 = (clientsPool w1)(q := newcomer w1 q)"
      "myClients w2 = myClients w1"
    by (rule sign_up_step [OF n1 f ix assms(6)]) (simp add: assms(7))
  show ?thesis using 1 2 pq by (auto simp: newcomer_fields)
qed

lemma demo_second_free:
  "first_free ((demo a b)\<lparr>clientsPool := (clientsPool (demo a b))(200002 := newcomer (demo a b) 200002)\<rparr>)
    = Some 200003"
proof (rule first_freeI)
  fix q assume "acceptBeginPlace ((demo a b)\<lparr>clientsPool := (clientsPool (demo a b))
      (200002 := newcomer (demo a b) 200002)\<rparr>) \<le> q" and "q < 200003"
  then have "q = 200000 \<or> q = 200001 \<or> q = 200002" by (auto simp: demo_def)
  then show "Status (clientsPool ((demo a b)\<lparr>clientsPool := (clientsPool (demo a b))
      (200002 := newcomer (demo a b) 200002)\<rparr>) q) \<noteq> SS_NONE"
    by (auto simp: newcomer_fields)
qed (simp_all add: const_simps, simp add: demo_def)

theorem pending_sign_ups_share_an_identifier_witness:
  "\<exists>w1 w2. ProceedSignUp demo_pending_os (demo (100, 100) (500, 500)) = Inr w1
    \<and> ProceedSignUp demo_pending_os w1 = Inr w2
    \<and> ID (clientsPool w2 200002) = ID (clientsPool w2 200003)"
proof -
  have "\<not> word_of_nat USERS_MAX \<le> numberClients (demo (100, 100) (500, 500))"
    by (simp add: const_simps)
  then show ?thesis
    using pending_sign_ups_share_an_identifier [OF _ demo_free demo_second_free,
        of "(100, 100)" "(500, 500)" demo_pending_os]
    by auto
qed

text \<open>A full server refuses: with 10000 players counted, the connection is sent a sign-in
  failure with the reason and the count, nothing else of the state changes, and the next
  connection is awaited on a new socket. With no free place and the count not reached, the
  end iterator is dereferenced.\<close>

theorem sign_up_refused:
  "(word_of_nat USERS_MAX \<le> numberClients w \<longrightarrow>
     ProceedSignUp os w = Inr (Listen (ReleaseNewbieSocket (new_socket os (Suc (length (log w))))
       (emit (ESocket (new_socket os (Suc (length (log w)))))
         (emit (ESend (acceptNewbie w)
           (fst (CreateTicket (SCPacketSignInFailed 0 LE_USERS_LIMITED (numberClients w))))
           (snd (CreateTicket (SCPacketSignInFailed 0 LE_USERS_LIMITED (numberClients w))))) w)))))
   \<and> (\<not> word_of_nat USERS_MAX \<le> numberClients w \<and> first_free w = None \<longrightarrow>
     ProceedSignUp os w = Inl EndIterator)"
  by (auto simp: ProceedSignUp_def Let_def AcquireNewbieSocket_def GetClientsNumber_def
      ProceedLoginFailed_def CreateTicket_def CreateSocket_def now_def world_simps
      FindPlace_first_free case_prod_beta)

theorem sign_up_refused_witness:
  "ProceedSignUp demo_os ((demo (100, 100) (500, 500))\<lparr>acceptBeginPlace := 210000\<rparr>) = Inl EndIterator"
proof -
  have "first_free ((demo (100, 100) (500, 500))\<lparr>acceptBeginPlace := 210000\<rparr>) = None"
    by (simp add: first_free_def const_simps)
  moreover have "\<not> word_of_nat USERS_MAX \<le> numberClients ((demo (100, 100) (500, 500))\<lparr>acceptBeginPlace := 210000\<rparr>)"
    by (simp add: demo_def const_simps)
  ultimately show ?thesis
    using sign_up_refused [of "(demo (100, 100) (500, 500))\<lparr>acceptBeginPlace := 210000\<rparr>" demo_os] by blast
qed

end
