(* ===== verification/Signing.thy ===== *)
theory Signing
  imports Login
begin

section \<open>Properties of signing in and out\<close>

text \<open>
  The invariant of sight over \<open>ProceedSignIn\<close> and \<open>Disconnect\<close>, and what each of them
  leaves behind.
\<close>

text \<open>A state whose sessions differ in fields that sight does not use.\<close>

definition sight_alike :: "session \<Rightarrow> session \<Rightarrow> bool" where
  "sight_alike s t \<longleftrightarrow> Index s = Index t \<and> ID s = ID t
     \<and> ib_playerID (myInfobox s) = ib_playerID (myInfobox t) \<and> myViewList s = myViewList t
     \<and> mySightSector s = mySightSector t \<and> Socket s = Socket t
     \<and> length (recvCBuffer s) = length (recvCBuffer t)"

lemma sight_inv_alike:
  assumes "sight_inv w" and "myClients w' = myClients w" and "mySightManager w' = mySightManager w"
    and ses: "\<And>q. sight_alike (clientsPool w' q) (clientsPool w q)"
    and told: "\<And>s. told s (log w') = told s (log w)"
  shows "sight_inv w'"
proof -
  have F: "Index (clientsPool w' q) = Index (clientsPool w q)" "ID (clientsPool w' q) = ID (clientsPool w q)"
    "ib_playerID (myInfobox (clientsPool w' q)) = ib_playerID (myInfobox (clientsPool w q))"
    "myViewList (clientsPool w' q) = myViewList (clientsPool w q)"
    "mySightSector (clientsPool w' q) = mySightSector (clientsPool w q)"
    "Socket (clientsPool w' q) = Socket (clientsPool w q)"
    "length (recvCBuffer (clientsPool w' q)) = length (recvCBuffer (clientsPool w q))" for q
    using ses [of q] by (simp_all add: sight_alike_def)
  show ?thesis
    using assms(1) unfolding sight_inv_def wf_world_def wf_session_def sockets_ok_def sectors_ok_def
      mutual_def known_def informed_def player_at_def assms(2,3) F told .
qed

lemma InitializeSight_keeps:
  assumes iv: "sight_inv w" and me: "myClients w me = Some p" and pos: "inside (pos_of w p)"
    and new: "mySightSector (clientsPool w p) = None" and ord: "is_order (order os)"
  obtains w' where "InitializeSight os p w = Inr w'" and "sight_inv w'"
    and "myClients w' = myClients w" and "\<And>q. Status (clientsPool w' q) = Status (clientsPool w q)"
    and "\<And>q. pos_of w' q = pos_of w q" and "\<And>q. myNickname (clientsPool w' q) = myNickname (clientsPool w q)"
    and "mySightSector (clientsPool w' p) = Some (home_sector (pos_of w p))"
    and "\<And>q. ID (clientsPool w' q) = ID (clientsPool w q)" and "same_but_sight w p w'"
proof -
  obtain w1 where 1: "RegisterSight p w = Inr w1" "about_to_look w1 p"
      "\<And>r. pos_of w1 r = pos_of w r" "myClients w1 = myClients w"
      "\<And>r. clientsPool w1 r = (if r = p then registered_session_of me (clientsPool w p)
        else clientsPool w r)" "same_but_sight w p w1"
    by (rule RegisterSight_looks [OF iv me pos new]) (rule that)
  have me1: "myClients w1 me = Some p" using 1(4) me by simp
  have pos1: "inside (pos_of w1 p)" unfolding 1(3) by (rule pos)
  obtain m V' L' where 2: "UpdateSight os p w1 = Inr (with_views (moved_in p m w1) V' L')"
      "sight_inv (with_views (moved_in p m w1) V' L')" "after_look w1 p me m V' L'"
    by (rule UpdateSight_keeps [OF 1(2) me1 pos1 ord]) (rule that)
  have sb: "same_but_sight w p (with_views (moved_in p m w1) V' L')"
    using same_but_sight_trans [OF 1(6) after_look_same [OF me1 2(3)]] .
  show thesis
    by (rule that [of "with_views (moved_in p m w1) V' L'"])
      (simp_all add: sb, simp_all add: InitializeSight_def 1(1,3-5) 2 views_simps world_simps moved_in_session
        registered_session_of_def GetPosition_def)
qed

text \<open>The sign-in of a connected session: the state after it, and what it leaves alone.\<close>

definition placed_player :: "session \<Rightarrow> session" where
  "placed_player s = s\<lparr>Status := SS_ACCEPTED, pos_x := 100, pos_y := 100\<rparr>"

lemma sign_in_step:
  assumes iv: "sight_inv w" and me: "myClients w me = Some p" and ord: "is_order (order os)"
    and st: "Status (clientsPool w p) = SS_CONNECTED" and sec: "mySightSector (clientsPool w p) = None"
  obtains w' where "ProceedSignIn os p nickname w = Inr w'" and "sight_inv w'"
    and "mySightSector (clientsPool w' p) = Some (home_sector (100, 100))"
    and "myNickname (clientsPool w' p) = nickname" and "same_but_sight (on_session p placed_player w) p w'"
proof -
  have wf: "wf_world w" using iv by (simp add: sight_inv_def)
  note ses = registered_session [OF wf me]
  have alike: "sight_alike (clientsPool (on_session p (ReleaseID me) (on_session p (ReleaseStatus st) w2)) q)
      (clientsPool w2 q)" if "ID (clientsPool w2 p) = me" "wf_world w2" "myClients w2 me = Some p" for w2 st q
    using that registered_session(2) [OF that(2,3)]
    by (simp add: sight_alike_def on_session_def ReleaseID_def ReleaseStatus_def)
  let ?w3 = "on_session p (SetID me) (on_session p (\<lambda>s. s\<lparr>pos_x := 100, pos_y := 100\<rparr>)
    (on_session p (\<lambda>s. s\<lparr>myNickname := nickname\<rparr>) w))"
  let ?w4 = "Send p (CreateTicket (SCPacketSignUp me 0 (GetClientsNumber ?w3))) ?w3"
  have S: "clientsPool ?w4 q = (if q = p then (clientsPool w p)\<lparr>myNickname := nickname,
      pos_x := 100, pos_y := 100\<rparr> else clientsPool w q)" for q
    using ses(2,3) by (simp add: Send_def world_simps SetID_def)
  have iv4: "sight_inv ?w4"
    by (rule sight_inv_alike [OF iv])
      (use ses in \<open>simp_all add: sight_alike_def Send_def world_simps SetID_def\<close>)
  have C4: "myClients ?w4 me = Some p" using me by (simp add: Send_def world_simps)
  have P4: "pos_of ?w4 p = (100, 100)" unfolding S by (simp add: GetPosition_def)
  then have I4: "inside (pos_of ?w4 p)" by (simp add: inside_def)
  have N4: "mySightSector (clientsPool ?w4 p) = None" using sec unfolding S by simp
  obtain w5 where 5: "InitializeSight os p ?w4 = Inr w5" "sight_inv w5" "myClients w5 = myClients ?w4"
      "\<And>q. myNickname (clientsPool w5 q) = myNickname (clientsPool ?w4 q)"
      "mySightSector (clientsPool w5 p) = Some (home_sector (pos_of ?w4 p))"
      "\<And>q. ID (clientsPool w5 q) = ID (clientsPool ?w4 q)" "same_but_sight ?w4 p w5"
    by (rule InitializeSight_keeps [OF iv4 C4 I4 N4 ord]) (rule that)
  let ?w' = "on_session p (ReleaseID me) (on_session p (ReleaseStatus SS_ACCEPTED) w5)"
  have C5: "myClients w5 me = Some p" using 5(3) C4 by simp
  have I5: "ID (clientsPool w5 p) = me" using ses(3) unfolding 5(6) S by simp
  have "wf_world w5" using 5(2) by (simp add: sight_inv_def)
  then have iv': "sight_inv ?w'"
    by (intro sight_inv_alike [OF 5(2)] alike [OF I5 _ C5]) (simp_all add: world_simps)
  have ok: "ProceedSignIn os p nickname w = Inr ?w'"
    using st 5(1) ses(3) by (simp add: ProceedSignIn_def Let_def AcquireStatus_def AcquireID_def)
  have sb: "same_but_sight (on_session p placed_player w) p ?w'"
    using 5(7) unfolding same_but_sight_def S
    by (simp add: Send_def world_simps placed_player_def ReleaseID_def ReleaseStatus_def)
  show thesis
    by (rule that [OF ok iv' _ _ sb])
      (use 5(4,5) P4 in \<open>simp_all add: S world_simps ReleaseID_def ReleaseStatus_def\<close>)
qed


text \<open>The small world with a third player that is connected and registered.\<close>

definition demo_connected :: "rat \<times> rat \<Rightarrow> rat \<times> rat \<Rightarrow> world" where
  "demo_connected a b = (demo a b)\<lparr>
     clientsPool := (clientsPool (demo a b))(200002 := newcomer (demo a b) 200002),
     myClients := (myClients (demo a b))(200002 \<mapsto> 200002), orderClientIDs := 200003\<rparr>"

lemma demo_connected_inv:
  assumes "inside a" and "inside b"
  shows "sight_inv (demo_connected a b)"
proof (rule sight_inv_new_place [OF demo_inv [OF assms]])
  show "clientsPool (demo_connected a b) = (clientsPool (demo a b))(200002 := newcomer (demo a b) 200002)"
    by (simp add: demo_connected_def)
  show "wf_session 200002 (newcomer (demo a b) 200002)"
    by (rule newcomer_wf [OF _ refl]) (rule demo_wf_session [OF assms])
  show "myClients (demo_connected a b) = myClients (demo a b) \<or>
    myClients (demo_connected a b) = (myClients (demo a b))(ID (newcomer (demo a b) 200002) \<mapsto> 200002)
    \<and> myClients (demo a b) (ID (newcomer (demo a b) 200002)) = None
    \<and> IsPlayer (ID (newcomer (demo a b) 200002)) \<and> 200002 < ENTITIES_MAX_NUMBER
    \<and> Socket (newcomer (demo a b) 200002) \<noteq> NULL_SOCKET
    \<and> told (Socket (newcomer (demo a b) 200002)) (log (demo a b)) = {}
    \<and> (\<forall>i q. myClients (demo a b) i = Some q \<longrightarrow>
        Socket (clientsPool (demo a b) q) \<noteq> Socket (newcomer (demo a b) 200002))"
    by (rule disjI2)
      (auto simp: demo_connected_def newcomer_fields IsPlayer_def const_simps demo_registered told_def
        told_step_def demo_hello_def Let_def, auto simp: demo_def told_step_def demo_hello_def Let_def)
qed (auto simp: demo_connected_def newcomer_fields demo_registered split: if_splits)


subsection \<open>Leaving\<close>

definition forgot :: "world \<Rightarrow> pid \<Rightarrow> pid set \<Rightarrow> (nat \<Rightarrow> pid set) \<Rightarrow> nat \<Rightarrow> pid set" where
  "forgot w me D V r = (let i = ID (clientsPool w r) in
     if myClients w i = Some r \<and> i \<in> D \<and> i \<noteq> me then V r - {me} else V r)"

lemma forgot_insert:
  assumes "wf_world w" and "myClients w x = Some q" and "x \<noteq> me"
  shows "forgot w me (insert x D) V r = (if r = q then forgot w me D V r - {me} else forgot w me D V r)"
proof (cases "r = q")
  case True
  then show ?thesis using assms wf_worldD(6) [OF assms(1,2)] by (auto simp: forgot_def Let_def)
next
  case False
  then have "myClients w (ID (clientsPool w r)) = Some r \<Longrightarrow> ID (clientsPool w r) \<noteq> x"
    using assms(2) by auto
  then show ?thesis using False by (auto simp: forgot_def Let_def)
qed

lemma forgot_skip:
  assumes "myClients w x = None \<or> x = me"
  shows "forgot w me (insert x D) V r = forgot w me D V r"
  using assms by (auto simp: forgot_def Let_def)

definition forgot_state ::
  "world \<Rightarrow> pid \<Rightarrow> (nat \<Rightarrow> pid set) \<Rightarrow> effect list \<Rightarrow> pid set \<Rightarrow> world \<Rightarrow> bool" where
  "forgot_state w me V L D s \<longleftrightarrow> (\<exists>V' L'. s = with_views w V' L' \<and> V' = forgot w me D V
     \<and> (\<forall>r. player_at w r \<longrightarrow> told_at w L' r = forgot w me D (told_at w L) r))"

lemma forgot_stateI:
  assumes "s = with_views w V' L'" and "\<And>r. V' r = forgot w me D V r"
    and "\<And>r. player_at w r \<Longrightarrow> told_at w L' r = forgot w me D (told_at w L) r"
  shows "forgot_state w me V L D s"
  using assms by (auto simp: forgot_state_def fun_eq_iff)

lemma forget_me_step:
  assumes wf: "wf_world w" and so: "sockets_ok w"
    and acc: "\<And>q. myClients w x = Some q \<Longrightarrow> x \<noteq> me \<Longrightarrow> IsAccepted (clientsPool w q)"
    and st: "forgot_state w me V L D s"
  shows "forgot_state w me V L (insert x D) (forget_me me x s)"
proof -
  define V1 where "V1 = forgot w me D V"
  obtain L1 where s: "s = with_views w V1 L1"
    and T: "\<And>r. player_at w r \<Longrightarrow> told_at w L1 r = forgot w me D (told_at w L) r"
    using st by (auto simp: forgot_state_def V1_def)
  show ?thesis
  proof (cases "myClients w x = None \<or> x = me")
    case True
    then show ?thesis
      by (intro forgot_stateI [where V' = V1 and L' = L1])
        (auto simp: forgot_skip V1_def [symmetric] T s forget_me_def views_simps)
  next
    case False
    then obtain q where q: "myClients w x = Some q" and xm: "x \<noteq> me" by auto
    note IDq = registered_session(1-3) [OF wf q]
    note ins = forgot_insert [OF wf q xm]
    have ac: "IsAccepted (with_ses \<lparr>myViewList := v\<rparr>) = IsAccepted with_ses" for with_ses v
      by (simp add: IsAccepted_def)
    note defs = s forget_me_def Let_def views_simps send_defs ins V1_def [symmetric] ac
      player_socket [OF so _ q] T acc [OF q xm] q IDq world_simps
    have pl: "player_at w q \<longleftrightarrow> IsPlayer x" using q IDq by (simp add: player_at_def)
    show ?thesis
    proof (cases "IsPlayer x")
      case True
      show ?thesis
        by (rule forgot_stateI [where V' = "V1(q := V1 q - {me})" and L' = "L1 @ [ESend
          (Socket (clientsPool w q)) (fst (CreateTicket (SCPacketDisppearCharacter me)))
          (snd (CreateTicket (SCPacketDisppearCharacter me)))]"])
          (use True xm in \<open>auto simp: defs\<close>)
    next
      case False
      show ?thesis
        by (rule forgot_stateI [where V' = "V1(q := V1 q - {me})" and L' = L1])
          (use False xm pl in \<open>auto simp: defs\<close>)
    qed
  qed
qed

lemma forget_all:
  assumes "wf_world w" and "sockets_ok w"
    and "\<forall>x q. x \<in> set xs \<and> myClients w x = Some q \<and> x \<noteq> me \<longrightarrow> IsAccepted (clientsPool w q)"
  obtains V' L' where "fold (forget_me me) xs (with_views w V L) = with_views w V' L'"
    and "V' = forgot w me (set xs) V"
    and "\<And>r. player_at w r \<Longrightarrow> told_at w L' r = forgot w me (set xs) (told_at w L) r"
proof -
  have "forgot_state w me V L {} (with_views w V L)"
    by (rule forgot_stateI [where V' = V and L' = L]) (simp_all add: forgot_def Let_def)
  then have "forgot_state w me V L (set xs) (fold (forget_me me) xs (with_views w V L))"
    using assms(3)
  proof (induction xs rule: rev_induct)
    case Nil
    then show ?case by simp
  next
    case (snoc x xs)
    then have IH: "forgot_state w me V L (set xs) (fold (forget_me me) xs (with_views w V L))"
      by auto
    have "forgot_state w me V L (insert x (set xs))
        (forget_me me x (fold (forget_me me) xs (with_views w V L)))"
      using snoc.prems(2) by (intro forget_me_step [OF assms(1,2) _ IH]) auto
    then show ?case by simp
  qed
  then show thesis unfolding forgot_state_def using that by blast
qed

lemma CleanupSight_result:
  assumes wf: "wf_world w" and so: "sockets_ok w" and me: "myClients w me = Some p"
    and sec: "mySightSector (clientsPool w p) = Some cur" and ord: "is_order (order os)"
    and acc: "\<forall>x q. x \<in> myViewList (clientsPool w p) \<and> myClients w x = Some q \<and> x \<noteq> me
      \<longrightarrow> IsAccepted (clientsPool w q)"
  obtains m V' L' where "CleanupSight os p w = Inr (with_views (w\<lparr>mySightManager := m\<rparr>) V' L')"
    and "grid_has m (\<lambda>r. if r = cur then sights_of (mySightManager w) r - {me}
      else sights_of (mySightManager w) r)"
    and "V' = forgot w me (myViewList (clientsPool w p)) (\<lambda>r. myViewList (clientsPool w r))"
    and "\<And>r. player_at w r \<Longrightarrow> told_at w L' r
      = forgot w me (myViewList (clientsPool w p)) (told_at w (log w)) r"
proof -
  let ?m = "mySightManager w" and ?V = "\<lambda>r. myViewList (clientsPool w r)"
  let ?m' = "update_sector cur Release (update_sector cur (Remove me) (update_sector cur Acquire ?m))"
  let ?w = "w\<lparr>mySightManager := ?m'\<rparr>" and ?D = "myViewList (clientsPool w p)"
  note ses = registered_session [OF wf me]
  have v: "valid_ref cur" using ses(5) [OF sec] .
  have g: "wf_grid ?m" using wf_worldD(1) [OF wf] .
  have G: "grid_has ?m' (\<lambda>r. if r = cur then sights_of ?m r - {me} else sights_of ?m r)"
    using v g wf_worldD(2) [OF wf] unfolding grid_has_def
    by (simp add: wf_update_simple sector_simps)
  have wf': "wf_world ?w" using wf grid_hasD(1,3) [OF G] unfolding wf_world_def by simp
  have so': "sockets_ok ?w" using so unfolding sockets_ok_def by simp
  have s: "set (order os ?D) = ?D" using is_order_set [OF ord ses(4)] .
  have F: "forgot ?w = forgot w" "player_at ?w = player_at w"
    by (simp_all add: fun_eq_iff forgot_def player_at_def)
  have W: "with_views ?w ?V (log w) = ?w" by (simp add: with_views_def)
  have fa: "\<forall>x q. x \<in> set (order os ?D) \<and> myClients ?w x = Some q \<and> x \<noteq> me
      \<longrightarrow> IsAccepted (clientsPool ?w q)" using acc unfolding s by simp
  obtain V' L' where 1: "fold (forget_me me) (order os ?D) (with_views ?w ?V (log w)) = with_views ?w V' L'"
      "V' = forgot ?w me (set (order os ?D)) ?V"
      "\<And>r. player_at ?w r \<Longrightarrow> told_at ?w L' r = forgot ?w me (set (order os ?D)) (told_at ?w (log w)) r"
    using forget_all [OF wf' so' fa, of ?V "log w"] by blast
  have "CleanupSight os p w = Inr (with_views ?w V' L')"
    using 1(1) sec ses(3) unfolding W
    by (simp add: CleanupSight_def GetID_def GetSightArea_def Let_def on_sector_manager GetSight_def)
  then show thesis using that G 1(2,3) unfolding F s by simp
qed

text \<open>
  The state \<open>w'\<close> is \<open>w\<close> after the entity \<open>i\<close> at place \<open>p\<close> has left: it is gone from the
  registry, the sectors and the views, and whoever saw it was told.
\<close>

definition left_by :: "world \<Rightarrow> pid \<Rightarrow> nat \<Rightarrow> world \<Rightarrow> bool" where
  "left_by w i p w' \<longleftrightarrow> myClients w' = (myClients w)(i := None)
     \<and> grid_has (mySightManager w') (\<lambda>r. sights_of (mySightManager w) r - {i})
     \<and> (\<forall>q. q \<noteq> p \<longrightarrow> clientsPool w' q = (clientsPool w q)\<lparr>myViewList :=
          forgot w i (myViewList (clientsPool w p)) (\<lambda>r. myViewList (clientsPool w r)) q\<rparr>)
     \<and> clientsPool w' p = Cleanup_fields ((clientsPool w p)\<lparr>myViewList := myViewList (clientsPool w p)\<rparr>)
     \<and> (\<forall>q. player_at w q \<longrightarrow> told_at w (log w') q
          = forgot w i (myViewList (clientsPool w p)) (told_at w (log w)) q)"

lemma forgot_own: "myClients w i = Some p \<Longrightarrow> wf_world w \<Longrightarrow> forgot w i D V p = V p"
  using wf_worldD(6) by (auto simp: forgot_def Let_def)

lemma left_byD:
  assumes "left_by w i p w'" and "wf_world w" and "myClients w i = Some p"
  shows "myClients w' j = Some q \<Longrightarrow> myClients w j = Some q \<and> q \<noteq> p \<and> j \<noteq> i"
    and "q \<noteq> p \<Longrightarrow> ID (clientsPool w' q) = ID (clientsPool w q)"
    and "q \<noteq> p \<Longrightarrow> Socket (clientsPool w' q) = Socket (clientsPool w q)"
    and "q \<noteq> p \<Longrightarrow> mySightSector (clientsPool w' q) = mySightSector (clientsPool w q)"
  using assms registered_inj [OF assms(2)] unfolding left_by_def by (auto split: if_splits)

lemma left_by_view:
  assumes l: "left_by w i p w'" and wf: "wf_world w" and "mutual w" and i: "myClients w i = Some p"
    and q: "myClients w' j = Some q"
  shows "myViewList (clientsPool w' q) = myViewList (clientsPool w q) - {i}"
proof -
  note r = left_byD(1) [OF l wf i q]
  have "j \<in> myViewList (clientsPool w p) \<longleftrightarrow> i \<in> myViewList (clientsPool w q)"
    using assms(3) i r unfolding mutual_def by blast
  moreover have "ID (clientsPool w q) = j" using wf_worldD(6) [OF wf] r by blast
  ultimately show ?thesis using l r by (auto simp: left_by_def forgot_def Let_def)
qed

lemma left_by_wf:
  assumes l: "left_by w i p w'" and wf: "wf_world w" and i: "myClients w i = Some p"
  shows "wf_world w'"
proof -
  have "wf_session q (clientsPool w' q)" if "q < ENTITIES_MAX_NUMBER" for q
  proof (cases "q = p")
    case True
    then show ?thesis using l Cleanup_wf [OF wf_worldD(3) [OF wf that]] by (simp add: left_by_def)
  next
    case False
    then show ?thesis using l wf_worldD(3) [OF wf that]
      by (auto simp: left_by_def wf_session_def forgot_def Let_def)
  qed
  moreover have "finite (dom (myClients w'))" using l wf_worldD(4) [OF wf] by (simp add: left_by_def)
  moreover have "q < ENTITIES_MAX_NUMBER \<and> ID (clientsPool w' q) = j" if "myClients w' j = Some q" for j q
    using left_byD(1) [OF l wf i that] left_byD(2) [OF l wf i, of q] wf_worldD(5,6) [OF wf] by auto
  moreover have "grid_has (mySightManager w') (\<lambda>r. sights_of (mySightManager w) r - {i})"
    using l by (simp add: left_by_def)
  ultimately show ?thesis using grid_hasD(1,3) unfolding wf_world_def by blast
qed

lemma left_by_sockets:
  assumes l: "left_by w i p w'" and wf: "wf_world w" and i: "myClients w i = Some p" and so: "sockets_ok w"
  shows "sockets_ok w'"
proof -
  note reg = left_byD(1) [OF l wf i]
  have S: "Socket (clientsPool w' q) = Socket (clientsPool w q)" if "myClients w' j = Some q" for j q
    using left_byD(3) [OF l wf i] reg [OF that] by blast
  have "(Socket (clientsPool w' q) = NULL_SOCKET) = (\<not> IsPlayer j)" if "myClients w' j = Some q" for j q
    using so reg [OF that] unfolding S [OF that] sockets_ok_def by blast
  moreover have "Socket (clientsPool w' q) \<noteq> Socket (clientsPool w' r)"
    if "myClients w' j = Some q" "myClients w' k = Some r" "IsPlayer j" "j \<noteq> k" for j k q r
    using so reg [OF that(1)] reg [OF that(2)] that(3,4)
    unfolding S [OF that(1)] S [OF that(2)] sockets_ok_def by blast
  ultimately show ?thesis unfolding sockets_ok_def by blast
qed

lemma left_by_sectors:
  assumes l: "left_by w i p w'" and wf: "wf_world w" and i: "myClients w i = Some p" and se: "sectors_ok w"
  shows "sectors_ok w'"
  unfolding sectors_ok_def
proof (intro allI impI)
  fix r j assume r: "valid_ref r"
  have g: "grid_has (mySightManager w') (\<lambda>r. sights_of (mySightManager w) r - {i})"
    and C: "myClients w' = (myClients w)(i := None)" using l by (simp_all add: left_by_def)
  have X: "mySightSector (clientsPool w' q) = mySightSector (clientsPool w q)" if "myClients w' j' = Some q" for j' q
    using left_byD(1,4) [OF l wf i] that by blast
  have "j \<in> sights_of (mySightManager w') r \<longleftrightarrow> j \<noteq> i \<and> j \<in> sights_of (mySightManager w) r"
    using grid_hasD(2) [OF g r] by auto
  also have "\<dots> \<longleftrightarrow> (\<exists>q. myClients w' j = Some q \<and> mySightSector (clientsPool w' q) = Some r)"
  proof (cases "j = i")
    case False
    then have "myClients w' j = myClients w j" unfolding C by simp
    then show ?thesis using False X [of j] sectors_okD [OF se r, of j] by auto
  qed (simp add: C)
  finally show "j \<in> sights_of (mySightManager w') r \<longleftrightarrow>
    (\<exists>q. myClients w' j = Some q \<and> mySightSector (clientsPool w' q) = Some r)" .
qed

lemma left_by_views:
  assumes l: "left_by w i p w'" and wf: "wf_world w" and i: "myClients w i = Some p"
    and mu: "mutual w" and kn: "known w"
  shows "mutual w'" and "known w'"
proof -
  note reg = left_byD(1) [OF l wf i] and view = left_by_view [OF l wf mu i]
  show "mutual w'"
    unfolding mutual_def
  proof (intro allI impI)
    fix j k q r assume q: "myClients w' j = Some q" and r: "myClients w' k = Some r"
    have "k \<in> myViewList (clientsPool w q) \<longleftrightarrow> j \<in> myViewList (clientsPool w r)"
      using mu reg [OF q] reg [OF r] unfolding mutual_def by blast
    then show "k \<in> myViewList (clientsPool w' q) \<longleftrightarrow> j \<in> myViewList (clientsPool w' r)"
      using reg [OF q] reg [OF r] unfolding view [OF q] view [OF r] by blast
  qed
  show "known w'"
    unfolding known_def
  proof (intro allI impI)
    fix j q assume q: "myClients w' j = Some q"
    have "myViewList (clientsPool w q) \<subseteq> dom (myClients w)" using kn reg [OF q] unfolding known_def by blast
    moreover have "myClients w' = (myClients w)(i := None)" using l by (simp add: left_by_def)
    ultimately show "myViewList (clientsPool w' q) \<subseteq> dom (myClients w')"
      unfolding view [OF q] by auto
  qed
qed

lemma left_by_informed:
  assumes l: "left_by w i p w'" and wf: "wf_world w" and i: "myClients w i = Some p" and mu: "mutual w"
    and inf: "\<And>q. player_at w q \<Longrightarrow> informed w q" and pl: "player_at w' q"
  shows "informed w' q"
proof -
  have q: "myClients w' (ID (clientsPool w' q)) = Some q" using pl by (simp add: player_at_def)
  note rq = left_byD(1) [OF l wf i q]
  have F: "ID (clientsPool w' q) = ID (clientsPool w q)" "Socket (clientsPool w' q) = Socket (clientsPool w q)"
    "mySightSector (clientsPool w' q) = mySightSector (clientsPool w q)"
    using left_byD(2-4) [OF l wf i] rq by blast+
  then have pw: "player_at w q" using pl rq by (simp add: player_at_def)
  have "ID (clientsPool w q) \<in> myViewList (clientsPool w p) \<longleftrightarrow> i \<in> myViewList (clientsPool w q)"
    using mu i rq unfolding mutual_def F(1) by blast
  moreover have "told_at w (log w') q = forgot w i (myViewList (clientsPool w p)) (told_at w (log w)) q"
    using l pw by (simp add: left_by_def)
  ultimately have "told_at w (log w') q = myViewList (clientsPool w q) - {i}"
    using inf [OF pw] rq unfolding F(1) by (auto simp: forgot_def Let_def informed_def)
  then show ?thesis
    using inf [OF pw] rq unfolding informed_def F left_by_view [OF l wf mu i q] by auto
qed

lemma left_by_inv:
  assumes "sight_inv w" and "myClients w i = Some p" and "left_by w i p w'"
  shows "sight_inv w'"
proof -
  have wf: "wf_world w" and so: "sockets_ok w" and se: "sectors_ok w" and mu: "mutual w"
    and kn: "known w" and inf: "\<And>q. player_at w q \<Longrightarrow> informed w q"
    using assms(1) unfolding sight_inv_def by blast+
  note l = assms(3) wf assms(2)
  show ?thesis
    unfolding sight_inv_def
    using left_by_wf [OF l] left_by_sockets [OF l so] left_by_sectors [OF l se] left_by_views [OF l mu kn]
      left_by_informed [OF l mu inf] by blast
qed

lemma disconnect_left:
  assumes iv: "sight_inv w" and i: "myClients w i = Some p" and st: "Status (clientsPool w p) = SS_ACCEPTED"
    and sec: "mySightSector (clientsPool w p) \<noteq> None" and ord: "is_order (order os)"
    and acc: "\<And>x q. x \<in> myViewList (clientsPool w p) \<Longrightarrow> myClients w x = Some q
      \<Longrightarrow> Status (clientsPool w q) = SS_ACCEPTED"
  obtains w' where "Disconnect os i w = Inr w'" and "left_by w i p w'"
    and "numberClients w' = numberClients w - 1" and "EClose (Socket (clientsPool w p)) \<in> set (log w')"
    and "orderClientIDs w' = orderClientIDs w" and "acceptBeginPlace w' = acceptBeginPlace w"
proof -
  have wf: "wf_world w" and so: "sockets_ok w" and se: "sectors_ok w"
    using iv unfolding sight_inv_def by blast+
  let ?D = "myViewList (clientsPool w p)" and ?V = "\<lambda>r. myViewList (clientsPool w r)"
  obtain cur where cur: "mySightSector (clientsPool w p) = Some cur" using sec by blast
  have "\<forall>x q. x \<in> ?D \<and> myClients w x = Some q \<and> x \<noteq> i \<longrightarrow> IsAccepted (clientsPool w q)"
    using acc unfolding IsAccepted_def by metis
  then obtain m V' L' where 1: "CleanupSight os p w = Inr (with_views (w\<lparr>mySightManager := m\<rparr>) V' L')"
    and m: "grid_has m (\<lambda>r. if r = cur then sights_of (mySightManager w) r - {i}
      else sights_of (mySightManager w) r)"
    and V': "V' = forgot w i ?D ?V"
    and T': "\<And>r. player_at w r \<Longrightarrow> told_at w L' r = forgot w i ?D (told_at w (log w)) r"
    using CleanupSight_result [OF wf so i cur ord] by blast
  note ses = registered_session [OF wf i]
  let ?w1 = "with_views (w\<lparr>mySightManager := m\<rparr>) V' L'"
  let ?w' = "Cleanup p (DeregisterPlayer i ?w1)"
  have L: "log ?w' = L' @ [EClose (Socket (clientsPool w p))]" by (simp add: world_simps views_simps)
  have "i \<in> sights_of (mySightManager w) r \<longleftrightarrow> r = cur" if "valid_ref r" for r
    using sectors_okD [OF se that, of i] i cur by auto
  then have g: "grid_has m (\<lambda>r. sights_of (mySightManager w) r - {i})"
    using m unfolding grid_has_def by (auto simp: set_eq_iff)
  have lb: "left_by w i p ?w'"
    unfolding left_by_def using g T' forgot_own [OF i wf, of ?D ?V]
    by (simp add: world_simps views_simps V' L told_step_def)
  have D: "Disconnect os i w = Inr ?w'"
    using i st 1 ses(1)
    by (simp add: Disconnect_def world_simps Let_def IsAccepted_def views_simps Cleanup_fields_simps)
  show thesis
    by (rule that [OF D lb]) (simp_all add: L, simp_all add: world_simps views_simps)
qed

text \<open>C13: When an accepted session whose neighbours are accepted disconnects, it is gone: its
  socket is closed, its place is free, its identifier is unknown to the registry, one player
  less is counted, no registered entity sees it any more, the clients that saw it were told,
  and the invariant of sight holds for those who stay.\<close>

theorem disconnect_leaves_no_trace:
  assumes "sight_inv w" and "myClients w i = Some p" and "Status (clientsPool w p) = SS_ACCEPTED"
    and "mySightSector (clientsPool w p) \<noteq> None" and "is_order (order os)"
    and "\<And>x q. x \<in> myViewList (clientsPool w p) \<Longrightarrow> myClients w x = Some q
      \<Longrightarrow> Status (clientsPool w q) = SS_ACCEPTED"
  shows "\<exists>w'. Disconnect os i w = Inr w' \<and> sight_inv w' \<and> myClients w' = (myClients w)(i := None)
    \<and> Status (clientsPool w' p) = SS_NONE \<and> Socket (clientsPool w' p) = NULL_SOCKET
    \<and> EClose (Socket (clientsPool w p)) \<in> set (log w')
    \<and> numberClients w' = numberClients w - 1
    \<and> (\<forall>j q. myClients w' j = Some q \<longrightarrow> i \<notin> myViewList (clientsPool w' q))"
proof -
  have wf: "wf_world w" and mu: "mutual w" using assms(1) unfolding sight_inv_def by blast+
  obtain w' where 1: "Disconnect os i w = Inr w'" "left_by w i p w'" "numberClients w' = numberClients w - 1"
      "EClose (Socket (clientsPool w p)) \<in> set (log w')"
    by (rule disconnect_left [OF assms(1-5)]) (use assms(6) in auto)
  moreover have "sight_inv w'" by (rule left_by_inv [OF assms(1,2) 1(2)])
  moreover have "\<forall>j q. myClients w' j = Some q \<longrightarrow> i \<notin> myViewList (clientsPool w' q)"
    using left_by_view [OF 1(2) wf mu assms(2)] by blast
  ultimately show ?thesis by (auto simp: left_by_def Cleanup_fields_simps)
qed

theorem disconnect_leaves_no_trace_witness:
  "\<exists>w'. Disconnect demo_os 200000 (demo (100, 100) (500, 500)) = Inr w' \<and> sight_inv w'
    \<and> Status (clientsPool w' 200000) = SS_NONE"
  using disconnect_leaves_no_trace [OF demo_inv, of "(100, 100)" "(500, 500)" 200000 200000 demo_os]
  by (auto simp: inside_def)

end
