(* ===== verification/Frames.thy ===== *)
theory Frames
  imports Login
begin

section \<open>What the operations of sight leave alone\<close>

text \<open>
  Many facts of a state survive every operation on sight and every sign-in and sign-out, only
  because these change sessions in their own fields, enter and leave sectors, and send. The
  locale \<open>frame\<close> states these few conditions and carries a fact that meets them through the
  operations once.
\<close>

definition recv_view :: "session \<Rightarrow> nat \<times> bytes \<times> u32 \<times> nat \<times> u32" where
  "recv_view s = (Index s, recvCBuffer s, recvBytes s, recvBuffer_buf s, recvBuffer_len s)"

definition places_ok :: "world \<Rightarrow> bool" where
  "places_ok w \<longleftrightarrow> (\<forall>i q. myClients w i = Some q \<longrightarrow> Index (clientsPool w q) = q)"

lemma recv_view_accessors:
  "recv_view (AddSight i s) = recv_view s" "recv_view (RemoveViewOf i s) = recv_view s"
  "recv_view (AssignSight v s) = recv_view s" "recv_view (SetSightArea r s) = recv_view s"
  "recv_view (SetID i s) = recv_view s" "recv_view (ReleaseID i s) = recv_view s"
  "recv_view (ReleaseStatus st s) = recv_view s" "recv_view (SetStatus st s) = recv_view s"
  "recv_view (Cleanup_fields s) = recv_view s"
  "recv_view (s\<lparr>myInfobox := ib\<rparr>) = recv_view s" "recv_view (s\<lparr>myNickname := n\<rparr>) = recv_view s"
  "recv_view (s\<lparr>pos_x := x, pos_y := y\<rparr>) = recv_view s"
  by (simp_all add: recv_view_def AddSight_def RemoveViewOf_def AssignSight_def SetSightArea_def
      SetID_def ReleaseID_def ReleaseStatus_def SetStatus_def Cleanup_fields_def SetSocket_def)

text \<open>A fact of the state that the elementary changes keep.\<close>

locale frame =
  fixes P :: "world \<Rightarrow> bool"
  assumes on_session: "P w \<Longrightarrow> (\<And>s. recv_view (f s) = recv_view s) \<Longrightarrow> P (on_session p f w)"
    and on_sector: "P w \<Longrightarrow> P (on_sector r g w)"
    and send: "P w \<Longrightarrow> P (emit (ESend so b a) w)"
    and close: "P w \<Longrightarrow> P (emit (EClose so) w)"
    and erase: "P w \<Longrightarrow> P (DeregisterPlayer i w)"
    and index: "P w \<Longrightarrow> myClients w i = Some q \<Longrightarrow> Index (clientsPool w q) = q"
begin

lemma after_ReleaseClient:
  assumes "P w" and "myClients w i = Some q"
  shows "P (ReleaseClient (Index (clientsPool w q)) q w)"
  using assms(1) unfolding index [OF assms] by (simp add: world_simps)

lemma after_Send: "P w \<Longrightarrow> P (Send p t w)"
  by (simp add: Send_def send)

lemmas keep_intros = on_session on_sector send close after_Send recv_view_accessors

lemma after_see_other: "P (fst wp) \<Longrightarrow> P (fst (see_other p me i wp))"
proof (cases "GetClientByID i (fst wp)")
  case None
  then show "P (fst wp) \<Longrightarrow> ?thesis"
    by (simp add: see_other_def Let_def send_defs keep_intros)
next
  case (Some q)
  then show "P (fst wp) \<Longrightarrow> ?thesis"
    by (cases "i \<in> snd wp"; cases "i = me"; cases "IsPlayer i";
        cases "check_out (GetPosition (clientsPool (fst wp) p)) (GetPosition (clientsPool (fst wp) q))")
      (simp_all add: see_other_def Let_def send_defs keep_intros)
qed

lemma after_see_all: "P (fst wp) \<Longrightarrow> P (fst (fold (see_other p me) xs wp))"
  by (rule fold_invariant2 [where I = "\<lambda>wp. P (fst wp)"]) (auto intro: after_see_other)

lemma after_lose_other:
  assumes k: "P w"
  shows "P (lose_other p me i w)"
proof (cases "i = me \<or> myClients w i = None")
  case True
  then show ?thesis using k unfolding lose_other_def Let_def send_defs
    by (auto simp: world_simps intro!: keep_intros)
next
  case False
  then obtain q where q: "myClients w i = Some q" and "i \<noteq> me" by auto
  let ?w2 = "on_session q (RemoveViewOf me) (SendDisppearEntity p i (on_session p (RemoveViewOf i) w))"
  let ?w3 = "if IsPlayer i then SendDisppearEntity q me ?w2 else ?w2"
  have "P ?w3" using k by (auto simp: send_defs intro!: keep_intros)
  moreover have "myClients ?w3 i = Some q" using q by (simp add: send_defs Send_def world_simps)
  ultimately have "P (ReleaseClient (Index (clientsPool ?w3 q)) q ?w3)"
    by (rule after_ReleaseClient)
  moreover have "lose_other p me i w = ReleaseClient (Index (clientsPool ?w3 q)) q ?w3"
    using q \<open>i \<noteq> me\<close> by (simp add: lose_other_def Let_def AcquireClientByID_eq)
  ultimately show ?thesis by simp
qed

lemma after_forget_me:
  assumes k: "P w"
  shows "P (forget_me me i w)"
proof (cases "i = me \<or> myClients w i = None")
  case True
  then show ?thesis using k by (auto simp: forget_me_def world_simps)
next
  case False
  then obtain q where q: "myClients w i = Some q" and "i \<noteq> me" by auto
  let ?w' = "on_session q (RemoveViewOf me) w"
  let ?w1 = "if IsAccepted (clientsPool w q)
    then if IsPlayer i then SendDisppearEntity q me ?w' else ?w' else w"
  have "P ?w1" using k by (auto simp: send_defs intro!: keep_intros)
  moreover have "myClients ?w1 i = Some q" using q by (simp add: send_defs Send_def world_simps)
  ultimately have "P (ReleaseClient (Index (clientsPool ?w1 q)) q ?w1)"
    by (rule after_ReleaseClient)
  moreover have "forget_me me i w = ReleaseClient (Index (clientsPool ?w1 q)) q ?w1"
    using q \<open>i \<noteq> me\<close> by (simp add: forget_me_def Let_def AcquireClientByID_eq)
  ultimately show ?thesis by metis
qed

lemma after_take_list: "P (snd vw) \<Longrightarrow> P (snd (take_list r vw))"
  by (simp add: take_list_def Let_def on_sector)

lemma after_look_at: "look_at g c vw = Inr vw' \<Longrightarrow> P (snd vw) \<Longrightarrow> P (snd vw')"
  by (auto simp: look_at_def rbind_eq_Inr after_take_list split: if_splits)

lemma after_look_at_corners:
  "look_at_corners pos vw = Inr vw' \<Longrightarrow> P (snd vw) \<Longrightarrow> P (snd vw')"
  unfolding look_at_corners_def Let_def rbind_eq_Inr by (elim exE conjE) (meson after_look_at)

lemma after_enter_sector: "P w \<Longrightarrow> P (enter_sector p me r w)"
  by (simp add: enter_sector_def Let_def keep_intros split: option.split)

lemma after_exchange_views:
  assumes "P (snd vw)"
  shows "P (exchange_views os p me pos prev vw)"
proof -
  let ?w4 = "on_session p (AssignSight (fst vw)) (on_session p (\<lambda>s. s\<lparr>myInfobox :=
    (myInfobox s)\<lparr>ib_x := fst pos, ib_y := snd pos\<rparr>\<rparr>) (snd vw))"
  let ?r = "fold (see_other p me) (order os (fst vw)) (?w4, prev)"
  have "P (fst ?r)" by (rule after_see_all) (simp add: assms keep_intros)
  then have "P (fold (lose_other p me) (order os (snd ?r)) (on_session p (ReleaseID me) (fst ?r)))"
    by (intro fold_invariant2 [where I = P] after_lose_other on_session)
      (simp_all add: recv_view_accessors)
  then show ?thesis by (simp add: exchange_views_def Let_def case_prod_beta)
qed

lemma after_UpdateSight:
  assumes k: "P w" and U: "UpdateSight os p w = Inr w'"
  shows "P w'"
proof -
  let ?me = "AcquireID (clientsPool w p)" and ?pos = "GetPosition (clientsPool w p)"
  obtain cur where U2: "rbind (look_at_corners ?pos
      (GetSightList (sector_of (enter_sector p ?me cur w) cur), on_sector cur Release (enter_sector p ?me cur w)))
      (\<lambda>vw. Inr (exchange_views os p ?me ?pos (GetLocalSight (clientsPool w p)) vw)) = Inr w'"
    using U unfolding UpdateSight_def Let_def by (rule rbind_InrE)
  obtain vw where c: "look_at_corners ?pos
      (GetSightList (sector_of (enter_sector p ?me cur w) cur), on_sector cur Release (enter_sector p ?me cur w))
      = Inr vw" and w': "Inr (exchange_views os p ?me ?pos (GetLocalSight (clientsPool w p)) vw) = (Inr w' :: world res)"
    using U2 by (rule rbind_InrE)
  have "P (snd vw)"
    using after_look_at_corners [OF c] k by (simp add: on_sector after_enter_sector)
  note after_exchange_views [OF this, of os p ?me ?pos "GetLocalSight (clientsPool w p)"]
  then show ?thesis unfolding iffD1 [OF sum.inject(2) w'] .
qed

lemma after_RegisterSight:
  assumes "P w" and "RegisterSight p w = Inr w'"
  shows "P w'"
proof -
  obtain r where "Inr (place_in_sector p (AcquireID (clientsPool w p)) r w) = (Inr w' :: world res)"
    using assms(2) unfolding RegisterSight_def Let_def by (rule rbind_InrE)
  moreover have "P (place_in_sector p (AcquireID (clientsPool w p)) r w)"
    using assms(1) by (simp add: place_in_sector_def Let_def send_defs keep_intros)
  ultimately show ?thesis by simp
qed

lemma after_ProceedSignIn:
  assumes k: "P w" and S: "ProceedSignIn os p n w = Inr w'"
  shows "P w'"
proof -
  have R: "P (on_session p (ReleaseID i) (on_session p (ReleaseStatus st) w2))" if "P w2" for i st w2
    using that by (simp add: keep_intros)
  show ?thesis
  proof (cases "SS_CONNECTED = AcquireStatus (clientsPool w p)")
    case False
    then show ?thesis using S R [OF k] by (auto simp: ProceedSignIn_def Let_def)
  next
    case True
    let ?i = "AcquireID (clientsPool w p)"
    let ?w3 = "on_session p (SetID ?i) (on_session p (\<lambda>s. s\<lparr>pos_x := 100, pos_y := 100\<rparr>)
      (on_session p (\<lambda>s. s\<lparr>myNickname := n\<rparr>) w))"
    let ?w4 = "Send p (CreateTicket (SCPacketSignUp ?i 0 (GetClientsNumber ?w3))) ?w3"
    have k4: "P ?w4" using k by (simp add: keep_intros)
    obtain w5 where 5: "InitializeSight os p ?w4 = Inr w5"
        "w' = on_session p (ReleaseID ?i) (on_session p (ReleaseStatus SS_ACCEPTED) w5)"
      using S True by (auto simp: ProceedSignIn_def Let_def rbind_eq_Inr)
    then obtain wr where "RegisterSight p ?w4 = Inr wr" "UpdateSight os p wr = Inr w5"
      by (auto simp: InitializeSight_def rbind_eq_Inr)
    then have "P w5" using after_UpdateSight after_RegisterSight [OF k4] by blast
    then show ?thesis unfolding 5(2) by (rule R)
  qed
qed

lemma after_CleanupSight:
  assumes k: "P w" and "CleanupSight os p w = Inr w'"
  shows "P w'"
proof -
  obtain r where "w' = (let w3 = on_sector r Release (on_sector r (Remove (GetID (clientsPool w p)))
      (on_sector r Acquire w)) in fold (forget_me (GetID (clientsPool w p)))
        (order os (GetSight (clientsPool w3 p))) w3)"
    using assms(2) by (auto simp: CleanupSight_def Let_def split: option.splits)
  then show ?thesis unfolding Let_def
    using k by (auto intro!: fold_invariant2 [where I = P] after_forget_me on_sector)
qed

lemma after_Cleanup: "P w \<Longrightarrow> P (Cleanup p w)"
  by (simp add: Cleanup_def keep_intros)

lemma after_Disconnect:
  assumes k: "P w" and D: "Disconnect os i w = Inr w'"
  shows "P w'"
proof (cases "myClients w i")
  case None
  then show ?thesis using D k by (simp add: Disconnect_def world_simps)
next
  case (Some p)
  note ix = index [OF k Some]
  obtain w1 where w1: "(if IsAccepted (clientsPool w p) then rbind (CleanupSight os p w)
        (\<lambda>w1. Inr (Cleanup p (DeregisterPlayer i w1)))
      else if IsConnected (clientsPool w p) then Inr (Cleanup p (DeregisterPlayer i w)) else Inr w) = Inr w1"
    and "Inr (ReleaseClient (Index (clientsPool w p)) p w1) = (Inr w' :: world res)"
    using D unfolding Disconnect_def AcquireClientByID_eq Let_def Some option.case by (rule rbind_InrE)
  then have w': "w' = ReleaseClient p p w1" by (simp add: ix)
  have "P w1"
  proof (cases "IsAccepted (clientsPool w p)")
    case True
    then obtain w2 where "CleanupSight os p w = Inr w2" "w1 = Cleanup p (DeregisterPlayer i w2)"
      using w1 by (auto simp: rbind_eq_Inr)
    then show ?thesis using after_CleanupSight [OF k] by (simp add: after_Cleanup erase)
  next
    case False
    then show ?thesis using w1 k by (auto simp: after_Cleanup erase split: if_splits)
  qed
  then show ?thesis unfolding w' by (simp add: world_simps)
qed

end

end
