(* ===== verification/Receiving.thy ===== *)
theory Receiving
  imports Signing Frames
begin

section \<open>Receiving\<close>

text \<open>
  \<open>Session::ProceedReceived\<close>: the loop that cuts the received bytes into packets and
  dispatches them. A packet is looked at where \<open>recvBuffer.buf\<close> points, which is where the
  last receive was directed to. A loop that does not end is a fault: the loop takes fuel and
  running out of it is \<open>NoReturn\<close>.
\<close>

text \<open>The bytes from \<open>recvBuffer.buf\<close> to the end of the array.\<close>

definition cbuffer :: "session \<Rightarrow> bytes" where
  "cbuffer s = drop (recvBuffer_buf s) (recvCBuffer s)"

text \<open>\<open>handle->myNickname = packet->Nickname\<close> reads up to a terminating zero.\<close>

definition read_nickname :: "bytes \<Rightarrow> bytes res" where
  "read_nickname cb = (if 0 \<in> set (drop 18 cb) then Inr (takeWhile (\<lambda>c. c \<noteq> 0) (drop 18 cb))
     else Inl BufferOverrun)"

text \<open>
  One packet: whether the handler goes on, and the state. The direction is read from the
  byte behind the header.
\<close>

definition dispatch :: "os \<Rightarrow> nat \<Rightarrow> world \<Rightarrow> (bool \<times> world) res" where
  "dispatch os p w =
     (let s = clientsPool w p; cb = cbuffer s; sz_want = view_size cb; pid = view_pid cb
      in case view_type cb of
        CS_SIGNIN \<Rightarrow>
          (if IsAccepted s then rbind (Disconnect os (ID s) w) (\<lambda>w. Inr (True, w))
           else rbind (read_nickname cb) (\<lambda>nickname.
             rbind (ProceedSignIn os p nickname w) (\<lambda>w. Inr (True, w))))
      | CS_SIGNOUT \<Rightarrow>
          (if pid = ID s \<and> IsAccepted s then rbind (Disconnect os (ID s) w) (\<lambda>w. Inr (False, w))
           else Inr (True, w))
      | CS_MOVE \<Rightarrow>
          (if pid = ID s then
             if length cb < 19 then Inl BufferOverrun
             else Inr (True, TryMove p (move_of_code (view_byte cb 0)) w)
           else Inr (True, w))
      | CS_ATTACK_NONTARGET \<Rightarrow>
          (if length cb < 19 then Inl BufferOverrun
           else Inr (True, TryNormalAttack p (move_of_code (view_byte cb 0)) w))
      | CS_ATTACK_TARGET \<Rightarrow> Inr (True, w)
      | CS_CHAT \<Rightarrow>
          Inr (True, post 1 (ID s) (SetSendBuffer_raw (MRecv p (recvBuffer_buf s)) (ucast sz_want)
            (Asynchron OP_ACCEPT)) w)
      | _ \<Rightarrow> rbind (Disconnect os (ID s) (on_session p ClearRecvBuffer w)) (\<lambda>w. Inr (False, w)))"

text \<open>Taking \<open>n\<close> bytes off: \<open>recvBytes -= sz_want\<close> and, when bytes remain, \<open>MoveStream\<close>.\<close>

definition consume :: "nat \<Rightarrow> u8 \<Rightarrow> world \<Rightarrow> world res" where
  "consume p sz_want w =
     (let w1 = on_session p (\<lambda>s. s\<lparr>recvBytes := recvBytes s - ucast sz_want\<rparr>) w
      in if 0 < recvBytes (clientsPool w1 p) then
           rbind (MoveStream (unat sz_want) BUFFSZ (clientsPool w1 p)) (\<lambda>s.
             Inr (on_session p (\<lambda>_. s) w1))
         else Inr w1)"

fun receive_loop :: "nat \<Rightarrow> os \<Rightarrow> nat \<Rightarrow> world \<Rightarrow> (bool \<times> world) res" where
  "receive_loop 0 os p w = Inl NoReturn"
| "receive_loop (Suc fuel) os p w =
     (let s = clientsPool w p; cb = cbuffer s
      in if recvBytes s < word_of_nat sizeof_Packet then Inr (True, w)
         else if length cb < sizeof_Packet then Inl BufferOverrun
         else let sz_want = view_size cb
           in if recvBytes s < ucast sz_want then Inr (True, w)
              else rbind (dispatch os p w) (\<lambda>cw.
                if \<not> fst cw then Inr (False, snd cw)
                else rbind (consume p sz_want (snd cw)) (receive_loop fuel os p)))"

definition ProceedReceived :: "nat \<Rightarrow> os \<Rightarrow> nat \<Rightarrow> u32 \<Rightarrow> world \<Rightarrow> world res" where
  "ProceedReceived fuel os p bytes w =
     (if bytes = 0 then Inr w
      else rbind (receive_loop fuel os p
          (on_session p (\<lambda>s. s\<lparr>recvBytes := recvBytes s + bytes\<rparr>) w)) (\<lambda>cw.
        if \<not> fst cw then Inr (snd cw)
        else let (result, w1) = RecvStream os p (recvBytes (clientsPool (snd cw) p)) (snd cw)
          in case result of
              IoError \<Rightarrow> Disconnect os (ID (clientsPool w1 p)) w1
            | _ \<Rightarrow> Inr w1))"

subsection \<open>Handlers leave the receive buffers alone\<close>

definition kept :: "world \<Rightarrow> world \<Rightarrow> bool" where
  "kept w0 w \<longleftrightarrow> (\<forall>q. recv_view (clientsPool w q) = recv_view (clientsPool w0 q))
     \<and> (\<forall>i q. myClients w i = Some q \<longrightarrow> myClients w0 i = Some q)"

lemma kept_refl: "kept w w"
  by (simp add: kept_def)

lemma kept_places: "places_ok w0 \<Longrightarrow> kept w0 w \<Longrightarrow> places_ok w"
  unfolding kept_def places_ok_def recv_view_def by (simp, blast)

lemma kept_emit: "kept w0 w \<Longrightarrow> kept w0 (emit e w)"
  by (simp add: kept_def world_simps)

lemma kept_on_session: "kept w0 w \<Longrightarrow> (\<And>s. recv_view (f s) = recv_view s) \<Longrightarrow> kept w0 (on_session p f w)"
  by (simp add: kept_def world_simps)

interpretation buffers: frame "\<lambda>w. places_ok w0 \<and> kept w0 w" for w0
proof unfold_locales
  fix w i q assume "places_ok w0 \<and> kept w0 w" and "myClients w i = Some q"
  then show "Index (clientsPool w q) = q" using kept_places by (auto simp: places_ok_def)
qed (simp_all add: kept_def world_simps)

lemma kept_post: "kept w0 w \<Longrightarrow> kept w0 (post d k a w)"
  by (simp add: post_def kept_emit)

lemma kept_TryMove: "kept w0 w \<Longrightarrow> kept w0 (TryMove p d w)"
  by (simp add: TryMove_def Let_def kept_post kept_on_session recv_view_accessors)

lemma kept_TryNormalAttack: "kept w0 w \<Longrightarrow> kept w0 (TryNormalAttack p d w)"
  by (simp add: TryNormalAttack_def Let_def kept_post kept_on_session recv_view_accessors)

text \<open>A handler that goes on leaves the receive buffers as they were.\<close>

lemma kept_dispatch:
  assumes pl: "places_ok w" and D: "dispatch os p w = Inr (True, w')"
  shows "kept w w'"
proof -
  have start: "places_ok w \<and> kept w w" using pl by (simp add: kept_refl)
  note kD = buffers.after_Disconnect [OF start, THEN conjunct2]
    and kS = buffers.after_ProceedSignIn [OF start, THEN conjunct2]
  show ?thesis
    using D unfolding dispatch_def Let_def
    by (cases "view_type (cbuffer (clientsPool w p))")
      (auto simp: rbind_eq_Inr kept_refl kept_TryMove kept_TryNormalAttack kept_post
        split: if_splits dest: kD kS)
qed

subsection \<open>Packets that arrive whole\<close>

text \<open>
  What a packet means to the server: the handler of its type, on its fields. This is what
  \<open>dispatch\<close> should amount to when the bytes are those of the packet.
\<close>

fun handle :: "os \<Rightarrow> nat \<Rightarrow> packet \<Rightarrow> world \<Rightarrow> (bool \<times> world) res" where
  "handle os p k w = (let s = clientsPool w p in case body k of
     BSignIn n \<Rightarrow>
       (if IsAccepted s then rbind (Disconnect os (ID s) w) (\<lambda>w. Inr (True, w))
        else rbind (ProceedSignIn os p (takeWhile (\<lambda>c. c \<noteq> 0) n) w) (\<lambda>w. Inr (True, w)))
   | BMove d t \<Rightarrow> Inr (True, if playerID k = ID s then TryMove p d w else w)
   | BAttack d \<Rightarrow> Inr (True, TryNormalAttack p d w)
   | BAttackTarget i a \<Rightarrow> Inr (True, w)
   | BChat t i c \<Rightarrow> Inr (True, post 1 (ID s)
       (SetSendBuffer_raw (MRecv p 0) (ucast (Size k)) (Asynchron OP_ACCEPT)) w)
   | _ \<Rightarrow>
       (if Type k = CS_SIGNOUT then
          if playerID k = ID s \<and> IsAccepted s
          then rbind (Disconnect os (ID s) w) (\<lambda>w. Inr (False, w)) else Inr (True, w)
        else rbind (Disconnect os (ID s) (on_session p ClearRecvBuffer w)) (\<lambda>w. Inr (False, w))))"

fun handle_all :: "os \<Rightarrow> nat \<Rightarrow> packet list \<Rightarrow> world \<Rightarrow> (bool \<times> world) res" where
  "handle_all os p [] w = Inr (True, w)"
| "handle_all os p (k # ks) w = rbind (handle os p k w) (\<lambda>cw.
     if \<not> fst cw then Inr (False, snd cw)
     else rbind (consume p (Size k) (snd cw)) (handle_all os p ks))"

text \<open>A packet a client can send: well formed, of its own size, with a terminated nickname.\<close>

definition sendable :: "packet \<Rightarrow> bool" where
  "sendable k \<longleftrightarrow> wf_packet k \<and> size_is_exact k
     \<and> (case body k of BSignIn n \<Rightarrow> 0 \<in> set n | _ \<Rightarrow> True)"

lemma sendable_length:
  assumes "sendable k"
  shows "length (packet_bytes v k) = unat (Size k)" and "18 \<le> unat (Size k)"
  using assms by (auto simp: sendable_def wf_packet_def size_is_exact_def length_packet_bytes
      length_body_bytes sizeof_Packet_def)

lemma dispatch_handle:
  assumes k: "sendable k" and cb: "cbuffer (clientsPool w p) = packet_bytes v k @ rest"
    and b: "recvBuffer_buf (clientsPool w p) = 0"
  shows "dispatch os p w = handle os p k w"
proof -
  have wf: "wf_packet k" using k by (simp add: sendable_def)
  have V: "view_packet (packet_bytes v k @ rest) = k" using view_packet_bytes [OF wf] .
  then have V1: "view_size (packet_bytes v k @ rest) = Size k" "view_type (packet_bytes v k @ rest) = Type k"
    "view_pid (packet_bytes v k @ rest) = playerID k"
    "view_body (Type k) (packet_bytes v k @ rest) = body k"
    by (metis view_packet_def packet.select_convs)+
  have T: "body_of_type (Type k) (body k)" using wf by (simp add: wf_packet_def)
  have L: "length (packet_bytes v k) = 18 + sizeof_body (body k)"
    using wf by (simp add: wf_packet_def length_packet_bytes length_body_bytes sizeof_Packet_def)
  have B: "packet_bytes v k @ rest = header_bytes v k @ body_bytes (body k) @ rest"
    by (simp add: packet_bytes_header)
  have D: "drop 18 (packet_bytes v k @ rest) = body_bytes (body k) @ rest"
    unfolding B by (simp add: header_bytes_def)
  note dispatch = dispatch_def Let_def cb V1 b
  show ?thesis
  proof (cases "body k")
    case (BSignIn n)
    then have T1: "Type k = CS_SIGNIN" using T by (cases "Type k") auto
    have n0: "0 \<in> set n" using k BSignIn by (simp add: sendable_def)
    then have "read_nickname (packet_bytes v k @ rest) = Inr (takeWhile (\<lambda>c. c \<noteq> 0) n)"
      unfolding read_nickname_def D BSignIn by (auto simp: takeWhile_append)
    with BSignIn T1 show ?thesis by (simp add: dispatch)
  next
    case (BMove d t)
    then have T1: "Type k = CS_MOVE" using T by (cases "Type k") auto
    have "move_of_code (view_byte (packet_bytes v k @ rest) 0) = d" using V1(4) T1 BMove by simp
    with BMove T1 L show ?thesis by (simp add: dispatch)
  next
    case (BAttack d)
    then have T1: "Type k = CS_ATTACK_NONTARGET" using T by (cases "Type k") auto
    have "move_of_code (view_byte (packet_bytes v k @ rest) 0) = d" using V1(4) T1 BAttack by simp
    with BAttack T1 L show ?thesis by (simp add: dispatch)
  next
    case (BAttackTarget i a)
    then have "Type k = CS_ATTACK_TARGET" using T by (cases "Type k") auto
    with BAttackTarget show ?thesis by (simp add: dispatch)
  next
    case (BChat t i c)
    then have "Type k = CS_CHAT" using T by (cases "Type k") auto
    with BChat show ?thesis by (simp add: dispatch)
  next
    case BNone
    then show ?thesis using T by (cases "Type k") (auto simp: dispatch)
  qed (use T in \<open>cases "Type k"; simp add: dispatch\<close>)+
qed

text \<open>The session at \<open>p\<close> has received the bytes \<open>bs\<close>, from the start of its buffer.\<close>

definition buffered :: "world \<Rightarrow> nat \<Rightarrow> bytes \<Rightarrow> bool" where
  "buffered w p bs \<longleftrightarrow> (let s = clientsPool w p in recvBuffer_buf s = 0
     \<and> length (recvCBuffer s) = BUFFSZ \<and> length bs \<le> BUFFSZ
     \<and> take (length bs) (recvCBuffer s) = bs \<and> recvBytes s = word_of_nat (length bs))"

lemma buffered_cbuffer:
  assumes "buffered w p bs"
  shows "\<exists>junk. cbuffer (clientsPool w p) = bs @ junk"
  using assms append_take_drop_id [of "length bs" "recvCBuffer (clientsPool w p)"]
  unfolding buffered_def cbuffer_def Let_def by (metis drop0)

lemma buffered_recvBytes:
  assumes "buffered w p bs"
  shows "unat (recvBytes (clientsPool w p)) = length bs"
  using assms by (simp add: buffered_def Let_def const_simps unat_of_nat)

lemma kept_buffered: "kept w w' \<Longrightarrow> buffered w p bs \<Longrightarrow> buffered w' p bs"
  unfolding buffered_def kept_def recv_view_def Let_def by simp

lemma unat_ucast_u8: "unat (ucast (b :: u8) :: u32) = unat b"
proof -
  have "unat b < 2 ^ 8" using unsigned_less [of b, where 'a = nat] by simp
  then show ?thesis by (simp add: unsigned_ucast_eq take_bit_nat_eq_self_iff)
qed

lemma consume_buffered:
  assumes b: "buffered w p (xs @ ys)" and n: "length xs = unat sz_want" and pl: "places_ok w"
  shows "\<exists>w'. consume p sz_want w = Inr w' \<and> buffered w' p ys \<and> places_ok w'"
proof -
  let ?s = "clientsPool w p"
  let ?r = "recvBytes ?s - ucast sz_want"
  have b': "recvBuffer_buf ?s = 0" "length (recvCBuffer ?s) = BUFFSZ"
    "length xs + length ys \<le> BUFFSZ" "take (length xs + length ys) (recvCBuffer ?s) = xs @ ys"
    "recvBytes ?s = word_of_nat (length xs + length ys)"
    using b by (simp_all add: buffered_def Let_def)
  have r: "?r = word_of_nat (length ys)"
    unfolding b'(5) of_nat_add n by (simp add: unsigned_ucast_eq)
  have z: "0 < ?r \<longleftrightarrow> ys \<noteq> []"
    unfolding r using b'(3) by (auto simp: word_less_nat_alt unat_of_nat const_simps)
  let ?w1 = "on_session p (\<lambda>s. s\<lparr>recvBytes := recvBytes s - ucast sz_want\<rparr>) w"
  have pl1: "places_ok ?w1" using pl by (simp add: places_ok_def world_simps)
  show ?thesis
  proof (cases "ys = []")
    case True
    then have "consume p sz_want w = Inr ?w1" using z by (simp add: consume_def Let_def world_simps)
    moreover have "buffered ?w1 p ys" using b' r True by (simp add: buffered_def world_simps)
    ultimately show ?thesis using pl1 by blast
  next
    case False
    let ?m = "drop (length xs) (recvCBuffer ?s) @ replicate (length xs) 0"
    let ?w2 = "on_session p (\<lambda>_. (clientsPool ?w1 p)\<lparr>recvCBuffer := ?m\<rparr>) ?w1"
    have "MoveStream (unat sz_want) BUFFSZ (clientsPool ?w1 p)
        = Inr ((clientsPool ?w1 p)\<lparr>recvCBuffer := ?m\<rparr>)"
      using b'(1-3) n by (simp add: MoveStream_def Let_def world_simps)
    then have "consume p sz_want w = Inr ?w2"
      using z False by (simp add: consume_def Let_def world_simps)
    moreover have "take (length ys) ?m = ys"
    proof -
      have "take (length ys) (drop (length xs) (recvCBuffer ?s)) = ys"
        using arg_cong [OF b'(4), of "drop (length xs)"] by (simp add: drop_take)
      then show ?thesis using b'(2,3) by simp
    qed
    then have "buffered ?w2 p ys" using b' r by (simp add: buffered_def world_simps)
    moreover have "places_ok ?w2" using pl by (simp add: places_ok_def world_simps)
    ultimately show ?thesis by blast
  qed
qed

text \<open>What is left when no whole packet is: less than a header, or less than its \<open>Size\<close>.\<close>

definition unfinished :: "bytes \<Rightarrow> bool" where
  "unfinished bs \<longleftrightarrow> length bs < sizeof_Packet \<or> length bs < unat (view_size bs)"

lemma unfinished_stops:
  assumes "buffered w p bs" and "unfinished bs"
  shows "receive_loop (Suc fuel) os p w = Inr (True, w)"
proof -
  obtain junk where j: "cbuffer (clientsPool w p) = bs @ junk" using buffered_cbuffer [OF assms(1)] by blast
  note r = buffered_recvBytes [OF assms(1)]
  show ?thesis
  proof (cases "length bs < sizeof_Packet")
    case True
    then have "recvBytes (clientsPool w p) < word_of_nat sizeof_Packet"
      using r by (simp add: word_less_nat_alt sizeof_Packet_def)
    then show ?thesis by (simp add: Let_def)
  next
    case False
    then have "view_size (bs @ junk) = view_size bs"
      by (simp add: view_size_def byte_at_def sizeof_Packet_def nth_append)
    then have "recvBytes (clientsPool w p) < ucast (view_size (bs @ junk))"
      using False assms(2) r by (simp add: word_less_nat_alt unfinished_def unat_ucast_u8)
    then show ?thesis using False j by (simp add: Let_def)
  qed
qed

lemma receive_loop_frames:
  assumes "places_ok w" and "\<forall>k\<in>set ks. sendable k" and "unfinished tail"
    and "buffered w p (concat (map (packet_bytes v) ks) @ tail)"
  shows "receive_loop (Suc (length ks)) os p w = handle_all os p ks w"
  using assms
proof (induction ks arbitrary: w)
  case Nil
  then show ?case using unfinished_stops by simp
next
  case (Cons k ks)
  let ?more = "concat (map (packet_bytes v) ks) @ tail"
  have k: "sendable k" using Cons.prems by simp
  have b: "buffered w p (packet_bytes v k @ ?more)" using Cons.prems by simp
  then obtain junk where j: "cbuffer (clientsPool w p) = packet_bytes v k @ ?more @ junk"
    using buffered_cbuffer by (metis append.assoc)
  note r = buffered_recvBytes [OF b] and len = sendable_length(1) [OF k, of v] sendable_length(2) [OF k]
  have d: "dispatch os p w = handle os p k w"
    using b by (intro dispatch_handle [OF k j]) (simp add: buffered_def Let_def)
  have V: "view_size (cbuffer (clientsPool w p)) = Size k"
    unfolding j packet_bytes_header using k body_named_type by (auto simp: view_header sendable_def wf_packet_def)
  have n: "\<not> recvBytes (clientsPool w p) < word_of_nat sizeof_Packet"
    "\<not> length (cbuffer (clientsPool w p)) < sizeof_Packet"
    "\<not> recvBytes (clientsPool w p) < ucast (Size k)"
    using r len unfolding j by (auto simp: word_less_nat_alt sizeof_Packet_def unat_ucast_u8)
  have U: "receive_loop (Suc (length (k # ks))) os p w = rbind (handle os p k w) (\<lambda>cw.
      if \<not> fst cw then Inr (False, snd cw)
      else rbind (consume p (Size k) (snd cw)) (receive_loop (Suc (length ks)) os p))"
    using n unfolding length_Cons receive_loop.simps(2) [of "Suc (length ks)"] Let_def V d
    by (simp del: handle.simps receive_loop.simps)
  show ?case unfolding U handle_all.simps
  proof (rule rbind_cong [OF refl], goal_cases)
    case (1 cw)
    show ?case
    proof (cases "fst cw")
      case True
      then have K: "kept w (snd cw)"
        using kept_dispatch [OF Cons.prems(1), of os p "snd cw"] d 1 by (cases cw) simp
      obtain w1 where w1: "consume p (Size k) (snd cw) = Inr w1" "buffered w1 p ?more" "places_ok w1"
        using consume_buffered [OF kept_buffered [OF K b]] len(1) kept_places [OF Cons.prems(1) K] by blast
      then have "receive_loop (Suc (length ks)) os p w1 = handle_all os p ks w1"
        using Cons.IH Cons.prems by simp
      then show ?thesis using w1(1) True by simp
    qed simp
  qed
qed

end
