(* ===== verification/Framing.thy ===== *)
theory Framing
  imports Receiving
begin

section \<open>Framing\<close>

text \<open>
  What the receiving loop makes of the byte stream: packets that arrive whole are handled one
  after the other; a packet of size 0 is handled for ever; a packet that arrives in two pieces
  is not put together, because the loop looks at the bytes where the second piece was written.
\<close>

text \<open>A session that waits for a packet, its buffer empty.\<close>

definition idle :: "world \<Rightarrow> nat \<Rightarrow> bool" where
  "idle w p \<longleftrightarrow> (let s = clientsPool w p in recvBuffer_buf s = 0 \<and> recvBytes s = 0
     \<and> recvBuffer_len s = word_of_nat BUFFSZ \<and> length (recvCBuffer s) = BUFFSZ)"

text \<open>A receive completes: the system writes the bytes, then the session proceeds.\<close>

definition arrive :: "nat \<Rightarrow> os \<Rightarrow> nat \<Rightarrow> bytes \<Rightarrow> world \<Rightarrow> world res" where
  "arrive fuel os p data w =
     ProceedReceived fuel os p (word_of_nat (length data)) (on_session p (deliver data) w)"

lemma idle_deliver:
  assumes "idle w p" and "length data \<le> BUFFSZ"
  shows "buffered (on_session p (\<lambda>s. (deliver data s)\<lparr>recvBytes := word_of_nat (length data)\<rparr>) w) p data"
    and "recvBytes (deliver data (clientsPool w p)) = 0"
  using assms by (auto simp: idle_def buffered_def deliver_def Let_def world_simps const_simps)

text \<open>C7: Packets that arrive whole, any number of them in one buffer and followed by at most
  the beginning of another, are handled each once and in order: the loop over the bytes is the
  sequence of the handlers of the packets, and as many turns as packets and one are enough.\<close>

theorem whole_packets_handled_in_order:
  assumes "places_ok w" and "\<forall>k\<in>set ks. sendable k" and "unfinished tail"
    and "buffered w p (concat (map (packet_bytes v) ks) @ tail)"
  shows "receive_loop (Suc (length ks)) os p w = handle_all os p ks w"
  using assms by (rule receive_loop_frames)

definition demo_received :: "bytes \<Rightarrow> world" where
  "demo_received bs = on_session 200000 (\<lambda>s. s\<lparr>recvCBuffer := bs @ replicate (BUFFSZ - length bs) 0,
     recvBytes := word_of_nat (length bs)\<rparr>) (demo (100, 100) (100, 110))"

lemma demo_places: "places_ok (demo a b)"
  by (auto simp: places_ok_def demo_registered)

lemma demo_received_places: "places_ok (demo_received bs)"
  using demo_places [of "(100, 100)" "(100, 110)"]
  by (auto simp: places_ok_def demo_received_def world_simps)

lemma demo_buffered: "length bs \<le> BUFFSZ \<Longrightarrow> buffered (demo_received bs) 200000 bs"
  by (simp add: demo_received_def buffered_def world_simps demo_player_def new_session_def)

lemma demo_idle: "idle (demo a b) 200000"
  by (simp add: idle_def demo_player_def new_session_def)

lemma sendable_move:
  assumes "in_range 8 i" and "named_move d"
  shows "sendable (CSPacketMove i d)"
  using assms by (simp add: sendable_def wf_packet_def CSPacketMove_def mk_packet_def
      size_is_exact_def sizeof_Packet_def)

lemma sendable_attack:
  assumes "in_range 8 i" and "named_move d"
  shows "sendable (CSPacketAttack i d)"
  using assms by (simp add: sendable_def wf_packet_def CSPacketAttack_def mk_packet_def
      size_is_exact_def sizeof_Packet_def)

lemma length_move_bytes: "length (packet_bytes v (CSPacketMove i d)) = 23"
  and length_attack_bytes: "length (packet_bytes v (CSPacketAttack i d)) = 19"
  by (simp_all add: length_packet_bytes CSPacketMove_def CSPacketAttack_def mk_packet_def sizeof_Packet_def)

lemma whole_packets_handled_in_order_witness:
  "receive_loop 3 demo_os 200000 (demo_received
      (packet_bytes 7 (CSPacketMove 200000 MV_LEFT) @ packet_bytes 7 (CSPacketAttack 200000 MV_UP) @ [0, 0]))
    = handle_all demo_os 200000 [CSPacketMove 200000 MV_LEFT, CSPacketAttack 200000 MV_UP]
      (demo_received (packet_bytes 7 (CSPacketMove 200000 MV_LEFT)
        @ packet_bytes 7 (CSPacketAttack 200000 MV_UP) @ [0, 0]))"
proof -
  let ?ks = "[CSPacketMove 200000 MV_LEFT, CSPacketAttack 200000 MV_UP]"
  have "\<forall>k\<in>set ?ks. sendable k"
    by (simp add: sendable_move sendable_attack in_range_def named_move_def)
  moreover have "unfinished [0, 0]" by (simp add: unfinished_def sizeof_Packet_def)
  moreover have "buffered (demo_received (concat (map (packet_bytes 7) ?ks) @ [0, 0])) 200000
      (concat (map (packet_bytes 7) ?ks) @ [0, 0])"
    by (rule demo_buffered) (simp add: length_move_bytes length_attack_bytes const_simps)
  ultimately show ?thesis
    using whole_packets_handled_in_order [OF demo_received_places, of ?ks "[0, 0]" _ 200000 7 demo_os]
    by (simp add: numeral_3_eq_3)
qed

subsection \<open>A packet of size 0\<close>

text \<open>A packet whose size field is 0 is never taken off the buffer: after one such packet of
  a type whose handler does nothing, no number of turns ends the loop, so the thread that
  received it never returns.\<close>

theorem zero_size_packet_never_returns:
  assumes "buffered w p bs" and "sizeof_Packet \<le> length bs" and "view_size bs = 0"
    and "view_type bs = CS_ATTACK_TARGET"
  shows "receive_loop fuel os p w = Inl NoReturn"
proof -
  let ?s = "clientsPool w p"
  obtain junk where j: "cbuffer ?s = bs @ junk" using buffered_cbuffer [OF assms(1)] by blast
  have V: "view_size (cbuffer ?s) = 0" "view_type (cbuffer ?s) = CS_ATTACK_TARGET"
    using assms(2-4) unfolding j
    by (simp_all add: view_size_def view_type_def byte_at_def nth_append sizeof_Packet_def)
  have b: "recvBuffer_buf ?s = 0" "length (recvCBuffer ?s) = BUFFSZ"
    using assms(1) by (simp_all add: buffered_def Let_def)
  have n: "\<not> recvBytes ?s < word_of_nat sizeof_Packet" "\<not> length (cbuffer ?s) < sizeof_Packet"
    using assms(2) buffered_recvBytes [OF assms(1)] unfolding j
    by (simp_all add: word_less_nat_alt sizeof_Packet_def)
  have D: "dispatch os p w = Inr (True, w)" using V(2) by (simp add: dispatch_def Let_def)
  have "0 < recvBytes ?s" using n(1) by (simp add: sizeof_Packet_def word_less_nat_alt)
  moreover have "MoveStream 0 BUFFSZ ?s = Inr ?s" using b by (simp add: MoveStream_def Let_def)
  ultimately have C: "consume p 0 w = Inr w"
    by (simp add: consume_def Let_def on_session_def)
  show ?thesis using n V(1) D C by (induction fuel) (simp_all add: Let_def)
qed

lemma zero_size_packet_never_returns_witness:
  "\<forall>fuel. receive_loop fuel demo_os 200000
     (demo_received (packet_bytes 7 ((CSPacketAttackTarget 200000 200001 1)\<lparr>Size := 0\<rparr>))) = Inl NoReturn"
proof -
  let ?k = "(CSPacketAttackTarget 200000 200001 1)\<lparr>Size := 0\<rparr>"
  have k: "Type ?k = CS_ATTACK_TARGET" "body ?k = BAttackTarget 200001 1" "playerID ?k = 200000" "Size ?k = 0"
    by (simp_all add: CSPacketAttackTarget_def mk_packet_def)
  have len: "length (packet_bytes 7 ?k) = 27" by (simp add: packet_bytes_header k)
  have h: "view_size (packet_bytes 7 ?k) = 0" "view_type (packet_bytes 7 ?k) = CS_ATTACK_TARGET"
    unfolding packet_bytes_header using k
    by (simp_all add: view_header in_range_def named_packet_type_def packet_types_def)
  have "buffered (demo_received (packet_bytes 7 ?k)) 200000 (packet_bytes 7 ?k)"
    by (rule demo_buffered) (simp add: len const_simps)
  then show ?thesis
    using zero_size_packet_never_returns [of _ 200000 "packet_bytes 7 ?k"] h len
    by (simp add: sizeof_Packet_def)
qed

subsection \<open>A packet in two pieces\<close>

text \<open>After a first piece shorter than a header the session receives behind it.\<close>

lemma first_piece:
  assumes "idle w p" and "length a < sizeof_Packet" and "a \<noteq> []" and "wsa_recv os (now w) \<noteq> IoError"
  shows "\<exists>w1. arrive 1 os p a w = Inr w1 \<and> ID (clientsPool w1 p) = ID (clientsPool w p)
    \<and> recvBuffer_buf (clientsPool w1 p) = length a \<and> recvBytes (clientsPool w1 p) = word_of_nat (length a)
    \<and> recvBuffer_len (clientsPool w1 p) = word_of_nat BUFFSZ - word_of_nat (length a)
    \<and> length (recvCBuffer (clientsPool w1 p)) = BUFFSZ"
proof -
  let ?s = "clientsPool w p"
  have i: "recvBuffer_buf ?s = 0" "recvBytes ?s = 0" "recvBuffer_len ?s = word_of_nat BUFFSZ"
    "length (recvCBuffer ?s) = BUFFSZ" using assms(1) by (simp_all add: idle_def Let_def)
  have a: "length a < 18" using assms(2) by (simp add: sizeof_Packet_def)
  then have n: "(word_of_nat (length a) :: u32) \<noteq> 0" "word_of_nat (length a) < (18 :: u32)"
    "unat (word_of_nat (length a) :: u32) = length a"
    using assms(3) by (simp_all add: word_less_nat_alt unat_of_nat unat_eq_0 [symmetric])
  let ?d = "(deliver a ?s)\<lparr>recvBytes := word_of_nat (length a)\<rparr>"
  have d: "recvBytes (deliver a ?s) = 0" "ID (deliver a ?s) = ID ?s" "recvCBuffer (deliver a ?s) = a @ drop (length a) (recvCBuffer ?s)"
    using i a by (simp_all add: deliver_def Let_def const_simps)
  let ?w0 = "on_session p (\<lambda>s. s\<lparr>recvBytes := recvBytes s + word_of_nat (length a)\<rparr>) (on_session p (deliver a) w)"
  have s0: "clientsPool ?w0 p = ?d" using d by (simp add: world_simps)
  have l: "receive_loop 1 os p ?w0 = Inr (True, ?w0)"
    using n(2) by (simp add: Let_def s0 sizeof_Packet_def)
  let ?r = "RecvStream os p (word_of_nat (length a)) ?w0"
  have r: "fst ?r = wsa_recv os (now w)"
    by (simp add: RecvStream_def Let_def now_def world_simps)
  have "arrive 1 os p a w = Inr (snd ?r)"
    using n(1) l assms(4) r s0
    by (cases "wsa_recv os (now w)"; cases ?r) (simp_all add: arrive_def ProceedReceived_def del: receive_loop.simps)
  moreover have "clientsPool (snd ?r) p = RecvStream_buffer (word_of_nat BUFFSZ) (word_of_nat (length a)) ?d"
    by (simp add: RecvStream_def Let_def world_simps d(1))
  ultimately show ?thesis using n(3) i(4) a d by (simp add: RecvStream_buffer_def const_simps)
qed

text \<open>The second piece is looked at as if it were the beginning of a packet.\<close>

lemma second_piece:
  assumes s: "recvBuffer_buf (clientsPool w p) = n" "recvBytes (clientsPool w p) = word_of_nat n"
      "recvBuffer_len (clientsPool w p) = word_of_nat BUFFSZ - word_of_nat n"
      "length (recvCBuffer (clientsPool w p)) = BUFFSZ"
    and n: "n + length b \<le> BUFFSZ" "sizeof_Packet \<le> n + length b" "n < sizeof_Packet" "10 \<le> length b"
    and v: "view_type b = PT_NONE" "unat (view_size b) \<le> n + length b"
  shows "arrive 1 os p b w = Disconnect os (ID (clientsPool w p)) (on_session p ClearRecvBuffer w)"
proof -
  let ?s = "clientsPool w p"
  have len: "unat (recvBuffer_len ?s) = BUFFSZ - n"
    using n s(3) by (simp add: const_simps sizeof_Packet_def unat_sub word_le_nat_alt unat_of_nat)
  let ?m = "take n (recvCBuffer ?s) @ b @ drop (n + length b) (recvCBuffer ?s)"
  have d: "deliver b ?s = ?s\<lparr>recvCBuffer := ?m\<rparr>"
    using n(1) s(1) len by (simp add: deliver_def Let_def)
  let ?w0 = "on_session p (\<lambda>s. s\<lparr>recvBytes := recvBytes s + word_of_nat (length b)\<rparr>) (on_session p (deliver b) w)"
  have s0: "clientsPool ?w0 p = ?s\<lparr>recvCBuffer := ?m, recvBytes := word_of_nat (n + length b)\<rparr>"
    using d s(2) by (simp add: world_simps)
  have c: "cbuffer (clientsPool ?w0 p) = b @ drop (n + length b) (recvCBuffer ?s)"
    unfolding s0 using n(1) s(1,4) by (simp add: cbuffer_def)
  have V: "view_type (cbuffer (clientsPool ?w0 p)) = PT_NONE" "view_size (cbuffer (clientsPool ?w0 p)) = view_size b"
    using v n(4) unfolding c by (simp_all add: view_type_def view_size_def byte_at_append1)
  have u: "unat (recvBytes (clientsPool ?w0 p)) = n + length b"
  proof -
    have "unat (word_of_nat (n + length b) :: u32) = n + length b"
      using n(1) by (simp add: const_simps unat_of_nat del: of_nat_add)
    then show ?thesis unfolding s0 by (simp del: of_nat_add)
  qed
  have cl: "on_session p ClearRecvBuffer ?w0 = on_session p ClearRecvBuffer w"
    by (simp add: on_session_def ClearRecvBuffer_def deliver_def Let_def)
  have D: "dispatch os p ?w0 = rbind (Disconnect os (ID ?s) (on_session p ClearRecvBuffer w)) (\<lambda>w. Inr (False, w))"
    unfolding dispatch_def Let_def V(1) cl by (simp add: s0)
  have L: "\<not> recvBytes (clientsPool ?w0 p) < word_of_nat sizeof_Packet" "\<not> length (cbuffer (clientsPool ?w0 p)) < sizeof_Packet"
    "\<not> recvBytes (clientsPool ?w0 p) < ucast (view_size b)"
    using u v(2) n s(4) unfolding c by (simp_all add: word_less_nat_alt sizeof_Packet_def unat_ucast_u8 const_simps)
  have R: "receive_loop 1 os p ?w0 = rbind (Disconnect os (ID ?s) (on_session p ClearRecvBuffer w)) (\<lambda>w. Inr (False, w))"
    using L V(2) D by (cases "Disconnect os (ID ?s) (on_session p ClearRecvBuffer w)") (simp_all add: Let_def)
  have z: "(word_of_nat (length b) :: u32) \<noteq> 0"
    using n by (auto simp: unat_eq_0 [symmetric] unat_of_nat const_simps)
  show ?thesis unfolding arrive_def ProceedReceived_def using z R
    by (cases "Disconnect os (ID ?s) (on_session p ClearRecvBuffer w)") (simp_all del: receive_loop.simps)
qed

text \<open>C33: A move packet that TCP delivers in two pieces, the first of 10 to 13 bytes, is not put
  together: the second receive is directed behind the first piece and the loop reads its
  header there, finds packet type 0 and disconnects the player who sent a correct packet.\<close>

theorem fragmented_move_disconnects:
  assumes "idle w p" and "10 \<le> n" and "n \<le> 13" and "in_range 8 i" and "named_move d"
    and "wsa_recv os (now w) \<noteq> IoError"
  shows "\<exists>w1. arrive 1 os p (take n (packet_bytes v (CSPacketMove i d))) w = Inr w1
    \<and> arrive 1 os p (drop n (packet_bytes v (CSPacketMove i d))) w1
      = Disconnect os (ID (clientsPool w p)) (on_session p ClearRecvBuffer w1)"
proof -
  let ?m = "packet_bytes v (CSPacketMove i d)" let ?a = "take n ?m" and ?b = "drop n ?m"
  have la: "length ?a = n" "length ?b = 23 - n" using assms(2,3) by (simp_all add: length_move_bytes)
  have "(4::nat) = Suc (Suc (Suc (Suc 0)))" by simp
  then have "le_bytes 4 0 = [0, 0, 0, 0]" by (simp only:) simp
  then have B: "?m = header_bytes v (CSPacketMove i d) @ [move_code d, 0, 0, 0, 0]"
    by (simp add: packet_bytes_header CSPacketMove_def mk_packet_def)
  have z: "?m ! 18 = move_code d" "?m ! 19 = 0" "?m ! 20 = 0" "?m ! 21 = 0" "?m ! 22 = 0"
    unfolding B nth_append length_header_bytes by simp_all
  have mc: "unat (move_code d) \<le> 4" using assms(5) by (cases d) (simp_all add: named_move_def)
  have b: "byte_at ?b k = ?m ! (n + k)" if "k < 10" for k
  proof -
    have "k < 23 - n" using that assms(3) by linarith
    then show ?thesis using la(2) by (simp add: byte_at_def length_move_bytes)
  qed
  have n: "n = 10 \<or> n = 11 \<or> n = 12 \<or> n = 13" using assms(2,3) by auto
  have "byte_at ?b 9 = 0" using n z(2-5) b [of 9] by auto
  then have t: "view_type ?b = PT_NONE"
    by (simp add: view_type_def packet_of_code_def packet_types_def)
  have "unat (byte_at ?b 8) \<le> 4" using n z mc b [of 8] by auto
  then have sz: "unat (view_size ?b) \<le> n + length ?b" using la by (simp add: view_size_def)
  have "\<exists>w1. arrive 1 os p ?a w = Inr w1 \<and> ID (clientsPool w1 p) = ID (clientsPool w p)
    \<and> recvBuffer_buf (clientsPool w1 p) = n \<and> recvBytes (clientsPool w1 p) = word_of_nat n
    \<and> recvBuffer_len (clientsPool w1 p) = word_of_nat BUFFSZ - word_of_nat n
    \<and> length (recvCBuffer (clientsPool w1 p)) = BUFFSZ"
    using first_piece [OF assms(1) _ _ assms(6), of ?a] la assms(2,3) by (force simp: sizeof_Packet_def)
  then obtain w1 where w1: "arrive 1 os p ?a w = Inr w1" "ID (clientsPool w1 p) = ID (clientsPool w p)"
    "recvBuffer_buf (clientsPool w1 p) = n" "recvBytes (clientsPool w1 p) = word_of_nat n"
    "recvBuffer_len (clientsPool w1 p) = word_of_nat BUFFSZ - word_of_nat n"
    "length (recvCBuffer (clientsPool w1 p)) = BUFFSZ" by blast
  have "arrive 1 os p ?b w1 = Disconnect os (ID (clientsPool w p)) (on_session p ClearRecvBuffer w1)"
    unfolding w1(2) [symmetric] using la assms(2,3)
    by (intro second_piece [OF w1(3-6) _ _ _ _ t sz]) (simp_all add: sizeof_Packet_def const_simps)
  with w1(1) show ?thesis by blast
qed

lemma fragmented_move_disconnects_witness:
  "\<exists>w1. arrive 1 demo_os 200000 (take 10 (packet_bytes 7 (CSPacketMove 200000 MV_LEFT))) (demo (100, 100) (100, 110)) = Inr w1
    \<and> arrive 1 demo_os 200000 (drop 10 (packet_bytes 7 (CSPacketMove 200000 MV_LEFT))) w1
      = Disconnect demo_os 200000 (on_session 200000 ClearRecvBuffer w1)"
  using fragmented_move_disconnects [OF demo_idle, of 10 200000 MV_LEFT demo_os "(100, 100)" "(100, 110)" 7]
  by (simp add: in_range_def named_move_def demo_os_def)

end
