(* ===== verification/Handlers.thy ===== *)
theory Handlers
  imports Framing
begin

section \<open>Handling completions\<close>

text \<open>
  \<open>IOCPFramework::Update\<close>: what a worker thread does with one completion taken from the
  port. A completion carries the outcome, the number of bytes, the key given to the port and
  the overlapped record of the operation.
\<close>

record completion =
  gq_result :: bool
  gq_pending :: bool
  portBytes :: u32
  portKey :: pid
  exoverlap :: asynchron

text \<open>\<open>static_cast<MOVE_TYPES>(portBytes)\<close> keeps the low byte.\<close>

definition dir_of :: "u32 \<Rightarrow> move_type" where
  "dir_of b = move_of_code (ucast b)"

subsection \<open>Moving\<close>

definition try_move :: "move_type \<Rightarrow> session \<Rightarrow> bool \<times> session" where
  "try_move dir s = (case dir of
      MV_LEFT \<Rightarrow> TryMoveLT s CELL_W
    | MV_RIGHT \<Rightarrow> TryMoveRT s CELL_W
    | MV_UP \<Rightarrow> TryMoveUP s CELL_H
    | MV_DOWN \<Rightarrow> TryMoveDW s CELL_H
    | _ \<Rightarrow> (False, s))"

definition EntityMove :: "os \<Rightarrow> pid \<Rightarrow> move_type \<Rightarrow> world \<Rightarrow> world res" where
  "EntityMove os my_id dir w = (case GetClientByID my_id w of
      None \<Rightarrow> Inr w
    | Some session \<Rightarrow>
        let moved = fst (try_move dir (clientsPool w session));
            w1 = on_session session (snd \<circ> try_move dir) w
        in if moved then UpdateSight os session w1 else Inr w1)"

subsection \<open>Attacking\<close>

text \<open>
  The two attack handlers lock the sector of the attacker while they take its view list, and
  look at each other entity of the list. An identifier of the list that is no longer
  registered gives a null pointer, which is not tested. The non-player handler examines
  nothing; its \<open>sendBuffer->buf\<close> binds a reference that is never read.
\<close>

definition lock_and_look :: "nat \<Rightarrow> world \<Rightarrow> (pid set \<times> world) res" where
  "lock_and_look session w =
     (let place = GetPosition (clientsPool w session)
      in rbind (AtByPosition (mySightManager w) (fst place) (snd place)) (\<lambda>my_zone.
         let w1 = on_sector my_zone Acquire w; sight_list = GetSight (clientsPool w1 session)
         in Inr (sight_list, on_sector my_zone Release w1)))"

definition attack_step :: "nat \<Rightarrow> pid \<Rightarrow> pid \<Rightarrow> world \<Rightarrow> world res" where
  "attack_step session my_id i w =
     (if i = my_id then Inr w
      else case AcquireClientByID i w of
        None \<Rightarrow> Inl NullDeref
      | Some other \<Rightarrow>
          let other_id = AcquireID (clientsPool w other);
              w1 = (if CheckCollision (clientsPool w session) (clientsPool w other)
                then post 1 other_id (Asynchron OP_ENTITY_DEAD) w else w);
              w2 = on_session other (ReleaseID other_id) w1
          in Inr (ReleaseClient (Index (clientsPool w2 other)) other w2))"

definition PlayerAttack :: "os \<Rightarrow> pid \<Rightarrow> move_type \<Rightarrow> world \<Rightarrow> world res" where
  "PlayerAttack os my_id dir w = (case GetClientByID my_id w of
      None \<Rightarrow> Inr w
    | Some session \<Rightarrow> rbind (lock_and_look session w) (\<lambda>(sight_list, w1).
        if 1 < card sight_list then foldR (attack_step session my_id) (order os sight_list) w1
        else Inr w1))"

definition touch_step :: "pid \<Rightarrow> pid \<Rightarrow> world \<Rightarrow> world res" where
  "touch_step my_id i w =
     (if i = my_id then Inr w
      else case AcquireClientByID i w of
        None \<Rightarrow> Inl NullDeref
      | Some other \<Rightarrow>
          let other_id = AcquireID (clientsPool w other);
              w1 = on_session other (ReleaseID other_id) w
          in Inr (ReleaseClient (Index (clientsPool w1 other)) other w1))"

definition EntityAttack :: "os \<Rightarrow> pid \<Rightarrow> move_type \<Rightarrow> world \<Rightarrow> world res" where
  "EntityAttack os my_id dir w = (case GetClientByID my_id w of
      None \<Rightarrow> Inr w
    | Some session \<Rightarrow> rbind (lock_and_look session w) (\<lambda>(sight_list, w1).
        if 1 < card sight_list then foldR (touch_step my_id) (order os sight_list) w1
        else Inr w1))"

subsection \<open>Dying\<close>

definition EntityDead :: "os \<Rightarrow> pid \<Rightarrow> world \<Rightarrow> world res" where
  "EntityDead os my_id w = (case AcquireClientByID my_id w of
      None \<Rightarrow> Inr w
    | Some session \<Rightarrow>
        rbind (CleanupSight os session (on_session session (SetStatus SS_NONE) w)) (\<lambda>w1.
          Inr (ReleaseClient (Index (clientsPool w1 session)) session w1)))"

subsection \<open>The dispatcher\<close>

text \<open>\<open>fuel\<close> bounds the turns of the receiving loop; see \<open>ProceedReceived\<close>.\<close>

definition Update :: "nat \<Rightarrow> os \<Rightarrow> completion \<Rightarrow> world \<Rightarrow> world res" where
  "Update fuel os c w =
     (if gq_result c then
        let my_id = portKey c
        in case Operation (exoverlap c) of
          OP_NONE \<Rightarrow> Inr w
        | OP_LISTEN \<Rightarrow> ProceedSignUp os w
        | OP_ACCEPT \<Rightarrow> Inr w
        | OP_RECV \<Rightarrow> (case GetClientByID my_id w of
            Some session \<Rightarrow> ProceedReceived fuel os session (portBytes c) w | None \<Rightarrow> Inr w)
        | OP_SEND \<Rightarrow> (case GetClientByID my_id w of
            Some session \<Rightarrow> Inr (ProceedSent session (portBytes c) w) | None \<Rightarrow> Inr w)
        | OP_ENTITY_MOVE \<Rightarrow> EntityMove os my_id (dir_of (portBytes c)) w
        | OP_ENTITY_ATTACK \<Rightarrow> EntityAttack os my_id (dir_of (portBytes c)) w
        | OP_PLAYER_ATTACK \<Rightarrow> PlayerAttack os my_id (dir_of (portBytes c)) w
        | OP_ENTITY_DEAD \<Rightarrow> EntityDead os my_id w
        | _ \<Rightarrow> Inr w
      else if \<not> gq_pending c then
        if serverKey \<noteq> portKey c then Disconnect os (portKey c) w else Inr w
      else Inr w)"

end
