(* ===== verification/HandlerProps.thy ===== *)
theory HandlerProps
  imports Handlers
begin

section \<open>Properties of the handlers\<close>

subsection \<open>Moving\<close>

definition in_world :: "session \<Rightarrow> bool" where
  "in_world s \<longleftrightarrow> is_f32 (pos_x s) \<and> is_f32 (pos_y s) \<and> 0 \<le> pos_x s \<and> pos_x s \<le> 64000
     \<and> 0 \<le> pos_y s \<and> pos_y s \<le> 64000"

lemma in_world_inside: "in_world s \<Longrightarrow> inside (GetPosition s)"
  by (simp add: in_world_def inside_def GetPosition_def)

lemma try_move_in_world:
  assumes "in_world s"
  shows "in_world (snd (try_move dir s))"
proof -
  have c: "session.coords_within 0 64000 s"
    using assms by (simp add: in_world_def session.coords_within_def)
  have "session.coords_within 0 64000 (snd (try_move dir s))"
    using session.moves_within [OF c] c by (cases dir) (simp_all add: try_move_def const_simps)
  then show ?thesis by (simp add: in_world_def session.coords_within_def)
qed

lemma try_move_alike: "sight_alike (snd (try_move dir s)) s"
  by (cases dir) (simp_all add: try_move_def sight_alike_def TryMoveLT_def TryMoveRT_def
      TryMoveUP_def TryMoveDW_def)

lemma try_move_not_moved: "\<not> fst (try_move dir s) \<Longrightarrow> snd (try_move dir s) = s"
  by (cases dir) (auto simp: try_move_def TryMoveLT_def TryMoveRT_def TryMoveUP_def TryMoveDW_def)

lemma moved_inv:
  assumes "sight_inv w"
  shows "sight_inv (on_session p (snd \<circ> try_move dir) w)"
  using assms by (rule sight_inv_alike) (simp_all add: world_simps try_move_alike, simp add: sight_alike_def)


lemma demo_in_world: "in_world (demo_player p s (100, 110))"
  using is_f32_int [of 100] is_f32_int [of 110]
  by (simp add: in_world_def demo_player_def new_session_def)


subsection \<open>A player that has not signed in\<close>

text \<open>The handlers of moves do not ask whether the session is accepted. A player that is
  connected and registered but moves before it has signed in is entered into a sector; when it
  then disconnects it is treated as one that never was in the world, and its identifier stays
  in the sector for ever: a ghost that no session stands for.\<close>

theorem unsigned_move_leaves_ghost:
  assumes "sight_inv w" and "myClients w me = Some p" and "is_order (order os)"
    and "Status (clientsPool w p) = SS_CONNECTED" and "mySightSector (clientsPool w p) = None"
    and "in_world (clientsPool w p)" and "fst (try_move dir (clientsPool w p))"
  shows "\<exists>w1 w2 r. EntityMove os me dir w = Inr w1 \<and> Disconnect os me w1 = Inr w2
    \<and> myClients w2 me = None \<and> valid_ref r \<and> me \<in> sights_of (mySightManager w2) r"
proof -
  let ?w0 = "on_session p (snd \<circ> try_move dir) w"
  have wf: "wf_world ?w0" and so: "sockets_ok ?w0"
    using moved_inv [OF assms(1)] unfolding sight_inv_def by blast+
  have me: "myClients ?w0 me = Some p" using assms(2) by (simp add: world_simps)
  have pos: "inside (pos_of ?w0 p)"
    using in_world_inside [OF try_move_in_world [OF assms(6)]] by (simp add: world_simps)
  have sec: "mySightSector (clientsPool ?w0 p) = None"
    using assms(5) try_move_alike by (simp add: world_simps sight_alike_def)
  let ?r = "home_sector (pos_of ?w0 p)"
  obtain m V' L' where 1: "UpdateSight os p ?w0 = Inr (with_views (moved_in p m ?w0) V' L')"
      "grid_has m (new_lists ?w0 p me)"
    using UpdateSight_result [OF wf so me pos assms(3)] by metis
  let ?w1 = "with_views (moved_in p m ?w0) V' L'"
  have E: "EntityMove os me dir w = Inr ?w1"
    using assms(2,7) 1(1) by (simp add: EntityMove_def world_simps Let_def)
  have St: "Status (snd (try_move dir s)) = Status s" for s
    by (cases dir) (simp_all add: try_move_def TryMoveLT_def TryMoveRT_def TryMoveUP_def TryMoveDW_def)
  have c: "myClients ?w1 me = Some p" "Status (clientsPool ?w1 p) = SS_CONNECTED"
      "Index (clientsPool ?w1 p) = p" "mySightManager ?w1 = m"
    using me assms(4) registered_session(1) [OF wf me] St
    by (simp_all add: views_simps moved_in_session world_simps)
  let ?w2 = "Cleanup p (DeregisterPlayer me ?w1)"
  have "Disconnect os me ?w1 = Inr ?w2"
    using c by (simp add: Disconnect_def world_simps Let_def IsAccepted_def IsConnected_def)
  moreover have "valid_ref ?r" using home_sector_valid [OF pos] .
  moreover have "me \<in> sights_of m ?r"
    using grid_hasD(2) [OF 1(2) home_sector_valid [OF pos]] sec by (simp add: new_lists_def entered_lists_def)
  moreover have "myClients ?w2 me = None" "mySightManager ?w2 = m"
    using c(4) by (simp_all add: world_simps)
  ultimately show ?thesis using E by (intro exI [of _ ?w1] exI [of _ ?w2] exI [of _ ?r]) simp
qed

theorem unsigned_move_leaves_ghost_witness:
  "\<exists>w1 w2 r. EntityMove demo_os 200002 MV_RIGHT (demo_connected (100, 100) (500, 500)) = Inr w1
    \<and> Disconnect demo_os 200002 w1 = Inr w2 \<and> myClients w2 200002 = None
    \<and> valid_ref r \<and> 200002 \<in> sights_of (mySightManager w2) r"
proof (rule unsigned_move_leaves_ghost [OF demo_connected_inv])
  let ?s = "clientsPool (demo_connected (100, 100) (500, 500)) 200002"
  have s: "?s = newcomer (demo (100, 100) (500, 500)) 200002" by (simp add: demo_connected_def)
  have p: "pos_x ?s = 0" "pos_y ?s = 0"
    unfolding s by (simp_all add: newcomer_def RecvStream_buffer_def session_defs new_session_def)
  show "Status ?s = SS_CONNECTED" "mySightSector ?s = None" unfolding s by (simp_all add: newcomer_fields)
  show "in_world ?s" using p is_f32_int [of 0] by (simp add: in_world_def)
  show "fst (try_move MV_RIGHT ?s)" using p by (simp add: try_move_def session.rt_moved)
qed (simp_all add: inside_def, simp add: demo_connected_def)

subsection \<open>Attacking\<close>

definition hit :: "world \<Rightarrow> nat \<Rightarrow> pid \<Rightarrow> bool" where
  "hit w p i = (case myClients w i of None \<Rightarrow> False
     | Some q \<Rightarrow> CheckCollision (clientsPool w p) (clientsPool w q))"

abbreviation death :: "pid \<Rightarrow> effect" where
  "death i \<equiv> EPost 1 i (Asynchron OP_ENTITY_DEAD)"

lemma attack_step_result:
  assumes "wf_world w" and "i = me \<or> myClients w i \<noteq> None"
  shows "attack_step p me i (w\<lparr>mySightManager := m, log := l\<rparr>) =
    Inr (w\<lparr>mySightManager := m, log := l @ (if i \<noteq> me \<and> hit w p i then [death i] else [])\<rparr>)"
proof (cases "i = me")
  case True
  then show ?thesis by (simp add: attack_step_def)
next
  case False
  then obtain q where q: "myClients w i = Some q" using assms(2) by auto
  note ses = registered_session [OF assms(1) q]
  have R: "ReleaseID i (clientsPool w q) = clientsPool w q"
    using ses(2,3) by (intro session.equality infobox.equality) (simp_all add: ReleaseID_def)
  then have "on_session q (ReleaseID i) v = v" if "clientsPool v = clientsPool w" for v
    unfolding that [symmetric] by (simp add: on_session_def)
  then show ?thesis
    using False q ses R by (simp add: attack_step_def world_simps hit_def Let_def AcquireID_def post_def emit_def)
qed

lemma attack_all:
  assumes "wf_world w" and "\<forall>i \<in> set xs. i = me \<or> myClients w i \<noteq> None"
  shows "foldR (attack_step p me) xs (w\<lparr>mySightManager := m, log := l\<rparr>) =
    Inr (w\<lparr>mySightManager := m, log := l @ map death (filter (\<lambda>i. i \<noteq> me \<and> hit w p i) xs)\<rparr>)"
  using assms(2)
proof (induction xs arbitrary: l)
  case Nil
  then show ?case by simp
next
  case (Cons x xs)
  have "attack_step p me x (w\<lparr>mySightManager := m, log := l\<rparr>) =
    Inr (w\<lparr>mySightManager := m, log := l @ (if x \<noteq> me \<and> hit w p x then [death x] else [])\<rparr>)"
    by (rule attack_step_result [OF assms(1)]) (use Cons.prems in simp)
  then show ?case using Cons.IH Cons.prems by simp
qed

lemma lock_and_look_result:
  assumes "wf_world w" and "inside (pos_of w p)"
  obtains m where "lock_and_look p w = Inr (myViewList (clientsPool w p), w\<lparr>mySightManager := m\<rparr>)"
    and "grid_has m (sights_of (mySightManager w))"
proof -
  have g: "wf_grid (mySightManager w)" using wf_worldD(1) [OF assms(1)] .
  let ?r = "home_sector (pos_of w p)"
  have v: "valid_ref ?r" using home_sector_valid [OF assms(2)] .
  have A: "AtByPosition (mySightManager w) (fst (pos_of w p)) (snd (pos_of w p)) = Inr ?r"
    using assms(2) g cell_in_grid [of "fst (pos_of w p)"] cell_in_grid [of "snd (pos_of w p)"]
      cell_nonneg [of "fst (pos_of w p)"] cell_nonneg [of "snd (pos_of w p)"]
    by (auto simp: AtByPosition_cell At_iff home_sector_def inside_def)
  let ?m = "update_sector ?r Release (update_sector ?r Acquire (mySightManager w))"
  have "grid_has ?m (sights_of (mySightManager w))"
    using v g wf_worldD(2) [OF assms(1)] unfolding grid_has_def
    by (simp add: wf_update_simple sector_simps)
  moreover have "lock_and_look p w = Inr (myViewList (clientsPool w p), w\<lparr>mySightManager := ?m\<rparr>)"
    using A by (simp add: lock_and_look_def Let_def world_simps GetSight_def on_sector_def)
  ultimately show thesis using that by blast
qed

text \<open>The state after the attack of a player in the world.\<close>

lemma player_attack_result:
  assumes "sight_inv w" and "myClients w me = Some p" and "IsPlayer me"
    and "mySightSector (clientsPool w p) \<noteq> None" and "inside (pos_of w p)" and "is_order (order os)"
  obtains m where "grid_has m (sights_of (mySightManager w))"
    and "PlayerAttack os me dir w = Inr (w\<lparr>mySightManager := m, log := log w @ map death
      (filter (\<lambda>i. i \<noteq> me \<and> hit w p i) (order os (myViewList (clientsPool w p))))\<rparr>)"
proof -
  have wf: "wf_world w" and kn: "known w" and inf: "\<And>q. player_at w q \<Longrightarrow> informed w q"
    using assms(1) unfolding sight_inv_def by blast+
  note ses = registered_session [OF wf assms(2)]
  let ?V = "myViewList (clientsPool w p)"
  have meV: "me \<in> ?V"
    using inf [of p] assms(2-4) ses(3) by (simp add: informed_def player_at_def)
  have "?V \<subseteq> dom (myClients w)" using kn assms(2) unfolding known_def by blast
  then have reg: "\<forall>i \<in> set (order os ?V). i = me \<or> myClients w i \<noteq> None"
    using is_order_set [OF assms(6) ses(4)] by auto
  obtain m where m: "lock_and_look p w = Inr (?V, w\<lparr>mySightManager := m\<rparr>)"
    "grid_has m (sights_of (mySightManager w))" using lock_and_look_result [OF wf assms(5)] by blast
  let ?w' = "w\<lparr>mySightManager := m, log := log w @ map death (filter (\<lambda>i. i \<noteq> me \<and> hit w p i) (order os ?V))\<rparr>"
  have "PlayerAttack os me dir w = Inr ?w'"
  proof (cases "1 < card ?V")
    case True
    then show ?thesis using attack_all [OF wf reg, where m = m and l = "log w"] m(1) assms(2)
      by (simp add: PlayerAttack_def world_simps)
  next
    case False
    then have "?V = {me}" using meV ses(4) card_le_Suc0_iff_eq [of ?V] by auto
    then have "filter (\<lambda>i. i \<noteq> me \<and> hit w p i) (order os ?V) = []"
      using is_order_set [OF assms(6), of "{me}"] by (auto simp: filter_empty_conv)
    then show ?thesis using False m(1) assms(2) by (simp add: PlayerAttack_def world_simps)
  qed
  then show thesis by (rule that [OF m(2)])
qed

text \<open>C34: A player's attack posts one death for each entity of its view, itself apart, whose
  bounding box its own box hits, in the order of the iteration, and nothing else: sessions,
  registry and sector lists are as before, and no pointer of the view is null.\<close>

theorem player_attack_posts_deaths:
  assumes "sight_inv w" and "myClients w me = Some p" and "IsPlayer me"
    and "mySightSector (clientsPool w p) \<noteq> None" and "inside (pos_of w p)" and "is_order (order os)"
  shows "\<exists>w'. PlayerAttack os me dir w = Inr w' \<and> clientsPool w' = clientsPool w
    \<and> myClients w' = myClients w
    \<and> (\<forall>r. valid_ref r \<longrightarrow> sights_of (mySightManager w') r = sights_of (mySightManager w) r)
    \<and> log w' = log w @ map death
        (filter (\<lambda>i. i \<noteq> me \<and> hit w p i) (order os (myViewList (clientsPool w p))))"
  by (rule player_attack_result [OF assms, of dir]) (use grid_hasD(2) in simp)

lemma demo_hit: "hit (demo a b) 200000 200001 \<longleftrightarrow>
  CheckCollision (demo_player 200000 11 a) (demo_player 200001 12 b)"
  by (simp add: hit_def)

theorem player_attack_posts_deaths_witness:
  "\<exists>w'. PlayerAttack demo_os 200000 MV_UP (demo (100, 100) (100, 110)) = Inr w'
    \<and> myClients w' = [200000 \<mapsto> 200000, 200001 \<mapsto> 200001]"
  using player_attack_posts_deaths [OF demo_inv [of "(100, 100)" "(100, 110)"], of 200000 200000 demo_os MV_UP]
  by (auto simp: inside_def IsPlayer_def const_simps)

subsection \<open>Dying\<close>

lemma entity_dead_result:
  assumes "sight_inv w" and "myClients w me = Some p" and "mySightSector (clientsPool w p) \<noteq> None"
    and "is_order (order os)"
    and "\<And>x q. x \<in> myViewList (clientsPool w p) \<Longrightarrow> myClients w x = Some q \<Longrightarrow> x \<noteq> me
      \<Longrightarrow> Status (clientsPool w q) = SS_ACCEPTED"
  obtains w1 where "EntityDead os me w = Inr w1"
    and "numberClients w1 = numberClients w" and "orderClientIDs w1 = orderClientIDs w"
    and "myClients w1 = myClients w" and "acceptBeginPlace w1 = acceptBeginPlace w"
    and "\<forall>q. Status (clientsPool w1 q) = (if q = p then SS_NONE else Status (clientsPool w q))"
    and "Index (clientsPool w1 p) = p" and "p < ENTITIES_MAX_NUMBER"
    and "\<forall>j q. j \<noteq> me \<longrightarrow> myClients w j = Some q \<longrightarrow> me \<notin> myViewList (clientsPool w1 q)"
proof -
  let ?w0 = "on_session p (SetStatus SS_NONE) w"
  have iv0: "sight_inv ?w0"
    using assms(1) by (rule sight_inv_alike) (simp_all add: world_simps sight_alike_def SetStatus_def)
  then have wf: "wf_world ?w0" and so: "sockets_ok ?w0" and mu: "mutual ?w0"
    unfolding sight_inv_def by blast+
  have me: "myClients ?w0 me = Some p" using assms(2) by (simp add: world_simps)
  note ses = registered_session [OF wf me]
  obtain cur where cur: "mySightSector (clientsPool ?w0 p) = Some cur"
    using assms(3) by (auto simp: world_simps SetStatus_def)
  have acc: "\<forall>x q. x \<in> myViewList (clientsPool ?w0 p) \<and> myClients ?w0 x = Some q \<and> x \<noteq> me
      \<longrightarrow> IsAccepted (clientsPool ?w0 q)"
  proof (intro allI impI, elim conjE)
    fix x q assume x: "x \<in> myViewList (clientsPool ?w0 p)" "myClients ?w0 x = Some q" "x \<noteq> me"
    then have "q \<noteq> p" using registered_inj [OF wf me, of x] by metis
    moreover have "x \<in> myViewList (clientsPool w p)" "myClients w x = Some q"
      using x(1,2) by (simp_all add: world_simps SetStatus_def)
    ultimately show "IsAccepted (clientsPool ?w0 q)"
      using assms(5) x(3) by (simp add: world_simps IsAccepted_def)
  qed
  obtain m V' L' where 1: "CleanupSight os p ?w0 = Inr (with_views (?w0\<lparr>mySightManager := m\<rparr>) V' L')"
      "V' = forgot ?w0 me (myViewList (clientsPool ?w0 p)) (\<lambda>r. myViewList (clientsPool ?w0 r))"
    by (rule CleanupSight_result [OF wf so me cur assms(4) acc]) (rule that)
  let ?w1 = "with_views (?w0\<lparr>mySightManager := m\<rparr>) V' L'"
  have E: "EntityDead os me w = Inr ?w1"
    using assms(2) 1(1) ses(1)
    by (simp add: EntityDead_def world_simps views_simps SetStatus_def)
  have f: "numberClients ?w1 = numberClients w" "orderClientIDs ?w1 = orderClientIDs w"
    "myClients ?w1 = myClients w" "acceptBeginPlace ?w1 = acceptBeginPlace w"
    "\<And>q. Status (clientsPool ?w1 q) = (if q = p then SS_NONE else Status (clientsPool w q))"
    "Index (clientsPool ?w1 p) = p"
    using ses(1) by (simp_all add: views_simps world_simps SetStatus_def)
  have "me \<notin> V' q" if "j \<noteq> me" "myClients w j = Some q" for j q
  proof -
    have q: "myClients ?w0 j = Some q" using that(2) by (simp add: world_simps)
    have "j \<in> myViewList (clientsPool ?w0 p) \<longleftrightarrow> me \<in> myViewList (clientsPool ?w0 q)"
      using mu me q unfolding mutual_def by blast
    then show ?thesis using registered_session(3) [OF wf q] q that(1)
      unfolding 1(2) forgot_def Let_def by auto
  qed
  then have "\<forall>j q. j \<noteq> me \<longrightarrow> myClients w j = Some q \<longrightarrow> me \<notin> myViewList (clientsPool ?w1 q)"
    by (simp add: views_simps)
  then show thesis using that [OF E f(1-4) _ f(6) wf_worldD(5) [OF wf me]] f(5) by blast
qed

text \<open>C32: The death of an accepted entity makes its place free and makes every other entity forget
  it, but leaves it in the registry. The next sign-up takes the first free place: when that is
  the place of the dead player, two identifiers lead to one session, and what arrives for the
  dead player is done to the new one.\<close>

theorem dead_player_shares_its_place:
  assumes "sight_inv w" and "myClients w me = Some p" and "mySightSector (clientsPool w p) \<noteq> None"
    and "is_order (order os)"
    and "\<And>x q. x \<in> myViewList (clientsPool w p) \<Longrightarrow> myClients w x = Some q \<Longrightarrow> x \<noteq> me
      \<Longrightarrow> Status (clientsPool w q) = SS_ACCEPTED"
    and "acceptBeginPlace w \<le> p"
    and "\<And>q. acceptBeginPlace w \<le> q \<Longrightarrow> q < p \<Longrightarrow> Status (clientsPool w q) \<noteq> SS_NONE"
    and "\<not> word_of_nat USERS_MAX \<le> numberClients w" and "myClients w (orderClientIDs w) = None"
    and "\<And>n. create_port os n" and "\<And>n. wsa_recv os n = IoDone"
  shows "\<exists>w1 w2. EntityDead os me w = Inr w1 \<and> ProceedSignUp os w1 = Inr w2
    \<and> (\<forall>j q. j \<noteq> me \<longrightarrow> myClients w j = Some q \<longrightarrow> me \<notin> myViewList (clientsPool w1 q))
    \<and> myClients w2 me = Some p \<and> myClients w2 (orderClientIDs w) = Some p
    \<and> ID (clientsPool w2 p) = orderClientIDs w \<and> orderClientIDs w \<noteq> me"
proof -
  obtain w1 where E: "EntityDead os me w = Inr w1"
    and f: "numberClients w1 = numberClients w" "orderClientIDs w1 = orderClientIDs w"
      "myClients w1 = myClients w" "acceptBeginPlace w1 = acceptBeginPlace w"
      "\<forall>q. Status (clientsPool w1 q) = (if q = p then SS_NONE else Status (clientsPool w q))"
      "Index (clientsPool w1 p) = p" "p < ENTITIES_MAX_NUMBER"
    and v: "\<forall>j q. j \<noteq> me \<longrightarrow> myClients w j = Some q \<longrightarrow> me \<notin> myViewList (clientsPool w1 q)"
    by (rule entity_dead_result [OF assms(1-4)]) (erule (2) assms(5), rule that)
  have ff: "first_free w1 = Some p"
    by (rule first_freeI) (use f assms(6,7) in auto)
  obtain w2 where 2: "ProceedSignUp os w1 = Inr w2" "clientsPool w2 = (clientsPool w1)(p := newcomer w1 p)"
      "myClients w2 = (myClients w1)(orderClientIDs w1 \<mapsto> p)"
  proof (rule sign_up_step [OF _ ff f(6) assms(10)], goal_cases)
    case 1
    then show ?case using assms(8) unfolding f(1) by blast
  next
    case (2 w')
    have "myClients w1 (orderClientIDs w1) = None" using assms(9) unfolding f(2,3) .
    from 2(1) [OF 2(2)] 2(3,7) this show ?case using assms(11) by simp
  qed
  have "orderClientIDs w \<noteq> me" using assms(2,9) by auto
  then show ?thesis using E 2 f(2,3) v assms(2) by (auto simp: newcomer_fields)
qed

theorem dead_player_shares_its_place_witness:
  "\<exists>w1 w2. EntityDead demo_os 200000 (demo (100, 100) (500, 500)) = Inr w1
    \<and> ProceedSignUp demo_os w1 = Inr w2
    \<and> myClients w2 200000 = Some 200000 \<and> myClients w2 200002 = Some 200000"
proof -
  let ?d = "demo (100, 100) (500, 500)"
  have d: "acceptBeginPlace ?d = 200000" "\<not> word_of_nat USERS_MAX \<le> numberClients ?d"
    by (simp_all add: demo_def const_simps)
  have o: "create_port demo_os n" "wsa_recv demo_os n = IoDone" for n by (simp_all add: demo_os_def)
  show ?thesis
    using dead_player_shares_its_place [OF demo_inv [of "(100, 100)" "(500, 500)"], of 200000 200000 demo_os]
      d o by (auto simp: inside_def)
qed

subsection \<open>Completions for nobody\<close>

text \<open>A connection whose first receive is left pending is never served: its session is connected,
  but when the receive completes the identifier is not in the registry, and the worker leaves
  the state as it is - the bytes are not looked at and no further receive is started.\<close>

theorem pending_newcomer_is_never_served:
  assumes "\<not> word_of_nat USERS_MAX \<le> numberClients w" and "first_free w = Some p"
    and "Index (clientsPool w p) = p" and "create_port os (length (log w))"
    and "wsa_recv os (Suc (length (log w))) = IoPending" and "myClients w (orderClientIDs w) = None"
    and "portKey c = orderClientIDs w" and "Operation (exoverlap c) = OP_RECV" and "gq_result c"
  shows "\<exists>w1. ProceedSignUp os w = Inr w1 \<and> IsConnected (clientsPool w1 p)
    \<and> ID (clientsPool w1 p) = portKey c \<and> Update fuel os c w1 = Inr w1"
proof -
  obtain w1 where 1: "ProceedSignUp os w = Inr w1" "clientsPool w1 = (clientsPool w)(p := newcomer w p)"
      "myClients w1 = myClients w"
  proof (rule sign_up_step [OF assms(1-4)], goal_cases)
    case (1 w')
    from 1(1) [OF 1(2)] 1(3,6) show ?case using assms(5) by simp
  qed
  have "Update fuel os c w1 = Inr w1"
    using assms(6-9) 1(3) by (simp add: Update_def Let_def world_simps)
  then show ?thesis using 1 assms(7) by (simp add: newcomer_fields IsConnected_def)
qed

definition recv_completion :: "pid \<Rightarrow> completion" where
  "recv_completion i = \<lparr>gq_result = True, gq_pending = False, portBytes = 48, portKey = i,
     exoverlap = Asynchron OP_RECV\<rparr>"

theorem pending_newcomer_is_never_served_witness:
  "\<exists>w1. ProceedSignUp demo_pending_os (demo (100, 100) (500, 500)) = Inr w1
    \<and> IsConnected (clientsPool w1 200002)
    \<and> Update 20 demo_pending_os (recv_completion 200002) w1 = Inr w1"
proof -
  have "\<not> word_of_nat USERS_MAX \<le> numberClients (demo (100, 100) (500, 500))"
    by (simp add: const_simps)
  then show ?thesis
    using pending_newcomer_is_never_served [OF _ demo_free, of "(100, 100)" "(500, 500)"
        demo_pending_os "recv_completion 200002" 20]
    by (auto simp: recv_completion_def Asynchron_def)
qed

text \<open>A failed completion disconnects the identifier of its key, unless the error is only that the
  operation is pending or the key is the server's own. The server's key is the identifier of
  the 10002nd player that signs up, whose failures are thus ignored.\<close>

theorem failed_completion_disconnects:
  "\<not> gq_result c \<Longrightarrow> Update fuel os c w =
      (if gq_pending c \<or> portKey c = serverKey then Inr w else Disconnect os (portKey c) w)
    \<and> IsPlayer serverKey \<and> orderClientIDs (((\<lambda>v. v\<lparr>orderClientIDs := orderClientIDs v + 1\<rparr>) ^^ 10001)
        IOCPFramework) = serverKey"
proof -
  have "orderClientIDs (((\<lambda>v. v\<lparr>orderClientIDs := orderClientIDs v + 1\<rparr>) ^^ n) v) = orderClientIDs v + int n"
    for n and v :: world by (induction n) simp_all
  then show "\<not> gq_result c \<Longrightarrow> ?thesis"
    by (auto simp: Update_def serverKey_def IsPlayer_def IOCPFramework_def const_simps)
qed

theorem failed_completion_disconnects_witness:
  "Update 0 demo_os \<lparr>gq_result = False, gq_pending = False, portBytes = 0, portKey = 210001,
     exoverlap = Asynchron OP_RECV\<rparr> (demo (100, 100) (500, 500)) = Inr (demo (100, 100) (500, 500))"
  using failed_completion_disconnects [of "\<lparr>gq_result = False, gq_pending = False, portBytes = 0,
      portKey = 210001, exoverlap = Asynchron OP_RECV\<rparr>" 0 demo_os "demo (100, 100) (500, 500)"]
  by (simp add: serverKey_def const_simps)

end
