(* ===== verification/Startup.thy ===== *)
theory Startup
  imports HandlerProps
begin

section \<open>Starting the server\<close>

text \<open>
  \<open>Awake\<close>, \<open>Start\<close>, \<open>BuildSessions\<close>, \<open>BuildNPCs\<close>, \<open>CreateNPC\<close> and \<open>BuildThreads\<close> of
  \<open>IOCPFramework\<close> and the \<open>main\<close> that calls them. The answers of the calls that are made
  only once are in the record \<open>boot\<close>. \<open>BuildThreads\<close> ends in \<open>while (true) {}\<close>: the state the
  workers begin with is the result \<open>Serving\<close>, and \<open>Start\<close> gets to its end only when it gave
  up before.
\<close>

record boot =
  wsa_startup :: bool
  listener_socket :: "socket option"
  bind_ok :: bool
  port_made :: "nat option"
  port_joined :: bool
  reuse_ok :: bool
  listen_ok :: bool

text \<open>Each early return of \<open>Awake\<close> leaves what was set before it; no caller is told.\<close>

definition Awake :: "boot \<Rightarrow> world \<Rightarrow> world" where
  "Awake b w =
     (if \<not> wsa_startup b then w
      else case listener_socket b of
        None \<Rightarrow> w
      | Some s \<Rightarrow>
          let w1 = w\<lparr>myListener := s\<rparr>
          in if \<not> bind_ok b then w1
             else case port_made b of
               None \<Rightarrow> w1
             | Some port \<Rightarrow> emit (EPort s serverKey) (w1\<lparr>completionPort := port\<rparr>))"

subsection \<open>Sessions\<close>

text \<open>
  \<open>mem\<close> is what the memory of the positions held before: the constructor does not
  initialise them.
\<close>

definition build_session :: "(nat \<Rightarrow> rat \<times> rat) \<Rightarrow> nat \<Rightarrow> pid \<times> world \<Rightarrow> pid \<times> world" where
  "build_session mem i nw =
     (let box = \<lparr>r_left = 0, r_top = 0, r_right = 0, r_bottom = 0\<rparr> in
      if NPC_ID_BEGIN \<le> i \<and> i < NPC_ID_END then
        let session = SetBoundingBox (- 16) (- 16) 16 16
              (new_session i (fst nw) (fst (mem i)) (snd (mem i)) box)
        in (fst nw + 1, on_session i (\<lambda>_. session) (snd nw))
      else
        let session = SetBoundingBox (- 16) (- 16) 16 16
              (new_session i (- 1) (fst (mem i)) (snd (mem i)) box);
            session = session\<lparr>myInfobox := (myInfobox session)\<lparr>ib_category := CAT_PLAYER\<rparr>\<rparr>
        in (fst nw, on_session i (\<lambda>_. session) (snd nw)))"

definition BuildSessions :: "(nat \<Rightarrow> rat \<times> rat) \<Rightarrow> world \<Rightarrow> world" where
  "BuildSessions mem w =
     (snd (fold (build_session mem) [0..<ENTITIES_MAX_NUMBER] (0, w)))
       \<lparr>acceptBeginPlace := nat CLIENTS_ORDER_BEGIN\<rparr>"

subsection \<open>Non-player characters\<close>

definition CreateNPC :: "nat \<Rightarrow> entity_category \<Rightarrow> world \<Rightarrow> nat \<times> world" where
  "CreateNPC index category w =
     (let npc_id = int index;
          npc = AcquireClient index w;
          w1 = on_session npc (SetID npc_id) w;
          w2 = on_session npc (\<lambda>s. s\<lparr>myInfobox := (myInfobox s)\<lparr>ib_category := category\<rparr>\<rparr>) w1;
          w3 = insert_client npc_id index w2;
          w4 = on_session npc (ReleaseStatus SS_ACCEPTED) w3
      in (npc, ReleaseClient index npc w4))"

definition npc_type :: "rat \<Rightarrow> entity_type" where
  "npc_type percent = (if percent < f32 (1 / 2) then MOB_DEMON
     else if percent < f32 (9 / 10) then MOB_SKELETON else MOB_SKELETON_KING)"

text \<open>
  \<open>rand_unit\<close> gives the quotients \<open>float(rand()) / float(RAND_MAX)\<close>, two for each character,
  and \<open>rand_percent\<close> the numbers of the distribution.
\<close>

definition build_npc :: "os \<Rightarrow> nat \<Rightarrow> world \<Rightarrow> world res" where
  "build_npc os i w =
     (let (npc, w1) = CreateNPC i CAT_MOB w;
          cx = fmul (rand_unit os (2 * i)) WORLD_W;
          cy = fmul (rand_unit os (2 * i + 1)) WORLD_H;
          w2 = on_session npc (SetPosition cx cy) w1
      in rbind (RegisterSight npc w2) (\<lambda>w3.
         let w4 = on_session npc (\<lambda>s. s\<lparr>myInfobox := (myInfobox s)\<lparr>ib_category := CAT_MOB\<rparr>\<rparr>) w3;
             w5 = on_session npc (\<lambda>s. s\<lparr>myInfobox := (myInfobox s)
               \<lparr>ib_type := npc_type (rand_percent os i)\<rparr>\<rparr>) w4
         in Inr (on_session npc (\<lambda>s. s\<lparr>myNickname := [77, 45] @ decimal i\<rparr>) w5)))"

definition BuildNPCs :: "os \<Rightarrow> world \<Rightarrow> world res" where
  "BuildNPCs os w = foldR (build_npc os) [NPC_ID_BEGIN..<NPC_ID_END] w"

subsection \<open>Threads\<close>

datatype worker = IOCPWorker | AIWorker | TimerWorker

text \<open>The vector begins with \<open>THREADS_COUNT\<close> threads that run nothing.\<close>

definition THREADS_COUNT :: nat where "THREADS_COUNT = 6"

definition threadWorkers0 :: "worker option list" where
  "threadWorkers0 = replicate THREADS_COUNT None"

definition BuildThreads :: "worker option list \<Rightarrow> worker option list" where
  "BuildThreads threadWorkers = threadWorkers @ map Some
     [IOCPWorker, IOCPWorker, IOCPWorker, IOCPWorker, IOCPWorker, IOCPWorker, AIWorker, TimerWorker]"

datatype started = Returned world | Serving world "worker option list"

definition Start :: "boot \<Rightarrow> os \<Rightarrow> (nat \<Rightarrow> rat \<times> rat) \<Rightarrow> world \<Rightarrow> started res" where
  "Start b os mem w =
     (if \<not> reuse_ok b then Inr (Returned w)
      else if \<not> listen_ok b then Inr (Returned w)
      else
        let (s, w1) = CreateSocket os w;
            w2 = BuildSessions mem (w1\<lparr>acceptNewbie := s\<rparr>)
        in rbind (BuildNPCs os w2) (\<lambda>w3. Inr (Serving (Listen w3) (BuildThreads threadWorkers0))))"

text \<open>\<open>main\<close>: whether the server says that it ends, and the state it is in.\<close>

definition server_main :: "boot \<Rightarrow> os \<Rightarrow> (nat \<Rightarrow> rat \<times> rat) \<Rightarrow> started res" where
  "server_main b os mem = Start b os mem (Awake b IOCPFramework)"

end
