(* ===== verification/StartupProps.thy ===== *)
theory StartupProps
  imports Startup "HOL-Library.Multiset"
begin

section \<open>Properties of the start\<close>

text \<open>
  The state the workers begin with: every non-player character is registered, accepted and in
  the sector of its position, the invariant of sight holds and the first player can sign up.
\<close>

subsection \<open>The sessions\<close>

definition built :: "(nat \<Rightarrow> rat \<times> rat) \<Rightarrow> nat \<Rightarrow> session" where
  "built mem i =
     (let box = \<lparr>r_left = 0, r_top = 0, r_right = 0, r_bottom = 0\<rparr>;
          session = SetBoundingBox (- 16) (- 16) 16 16 (new_session i
            (if i < NPC_ID_END then int i else - 1) (fst (mem i)) (snd (mem i)) box)
      in if i < NPC_ID_END then session
         else session\<lparr>myInfobox := (myInfobox session)\<lparr>ib_category := CAT_PLAYER\<rparr>\<rparr>)"

lemma built_fields:
  "ID (built mem i) = (if i < NPC_ID_END then int i else - 1)" "Index (built mem i) = i"
  "Socket (built mem i) = NULL_SOCKET" "Status (built mem i) = SS_NONE"
  "myViewList (built mem i) = {}" "mySightSector (built mem i) = None" "wf_session i (built mem i)"
  by (simp_all add: built_def Let_def SetBoundingBox_def new_session_def new_infobox_def
      wf_session_def)

lemma fold_build_sessions:
  "fold (build_session mem) [0..<n] (0, w) =
    (int (min n NPC_ID_END), w\<lparr>clientsPool := (\<lambda>i. if i < n then built mem i else clientsPool w i)\<rparr>)"
proof (induction n)
  case 0
  then show ?case by simp
next
  case (Suc n)
  then show ?case
    by (auto simp: build_session_def built_def Let_def on_session_def NPC_ID_BEGIN_def fun_eq_iff)
qed

lemma BuildSessions_result:
  "BuildSessions mem w = w\<lparr>clientsPool := (\<lambda>i. if i < ENTITIES_MAX_NUMBER then built mem i
     else clientsPool w i), acceptBeginPlace := nat CLIENTS_ORDER_BEGIN\<rparr>"
  by (simp add: BuildSessions_def fold_build_sessions)

subsection \<open>The characters\<close>

definition startup_frame :: "world \<Rightarrow> effect list \<times> socket \<times> nat \<times> u32 \<times> pid" where
  "startup_frame w = (log w, acceptNewbie w, acceptBeginPlace w, numberClients w, orderClientIDs w)"

definition npcs_at :: "nat \<Rightarrow> world \<Rightarrow> bool" where
  "npcs_at k w \<longleftrightarrow> wf_world w \<and> sectors_ok w
     \<and> myClients w = (\<lambda>i. if 0 \<le> i \<and> i < int k then Some (nat i) else None)
     \<and> (\<forall>p < ENTITIES_MAX_NUMBER. myViewList (clientsPool w p) = {} \<and> Socket (clientsPool w p) = NULL_SOCKET)
     \<and> (\<forall>p < NPC_ID_END. ID (clientsPool w p) = int p)
     \<and> (\<forall>p < ENTITIES_MAX_NUMBER. k \<le> p \<longrightarrow> mySightSector (clientsPool w p) = None
         \<and> Status (clientsPool w p) = SS_NONE)
     \<and> (\<forall>p < k. Status (clientsPool w p) = SS_ACCEPTED \<and> in_world (clientsPool w p)
         \<and> mySightSector (clientsPool w p) \<noteq> None)"

definition new_npc :: "os \<Rightarrow> nat \<Rightarrow> session \<Rightarrow> session" where
  "new_npc os i s = SetPosition (fmul (rand_unit os (2 * i)) WORLD_W) (fmul (rand_unit os (2 * i + 1)) WORLD_H)
     (ReleaseStatus SS_ACCEPTED ((SetID (int i) s)\<lparr>myInfobox := (myInfobox (SetID (int i) s))
       \<lparr>ib_category := CAT_MOB\<rparr>\<rparr>))"

lemma new_npc_fields:
  "ID (new_npc os i s) = int i" "Index (new_npc os i s) = Index s" "Status (new_npc os i s) = SS_ACCEPTED"
  "Socket (new_npc os i s) = Socket s" "myViewList (new_npc os i s) = myViewList s"
  "mySightSector (new_npc os i s) = mySightSector s" "recvCBuffer (new_npc os i s) = recvCBuffer s"
  "ib_playerID (myInfobox (new_npc os i s)) = int i"
  "pos_x (new_npc os i s) = fmul (rand_unit os (2 * i)) WORLD_W"
  "pos_y (new_npc os i s) = fmul (rand_unit os (2 * i + 1)) WORLD_H"
  by (simp_all add: new_npc_def SetPosition_def ReleaseStatus_def SetID_def)

definition unit_rands :: "os \<Rightarrow> bool" where
  "unit_rands os \<longleftrightarrow> (\<forall>n. 0 \<le> rand_unit os n \<and> rand_unit os n \<le> 1)"

lemma unit_position:
  assumes "unit_rands os"
  shows "0 \<le> fmul (rand_unit os n) 64000" "fmul (rand_unit os n) 64000 \<le> 64000"
    "is_f32 (fmul (rand_unit os n) 64000)"
  using assms is_f32_int [of 0] unfolding fmul_def unit_rands_def
  by (auto intro!: f32_ge_bound f32_le_bound)

lemma new_npc_in_world: "unit_rands os \<Longrightarrow> in_world (new_npc os i s)"
  using unit_position [of os] by (simp add: in_world_def new_npc_fields const_simps)

definition before_sight :: "os \<Rightarrow> nat \<Rightarrow> world \<Rightarrow> world" where
  "before_sight os k w = w\<lparr>myClients := (myClients w)(int k \<mapsto> k),
     clientsPool := (clientsPool w)(k := new_npc os k (clientsPool w k))\<rparr>"

lemma build_npc_before_sight:
  assumes "myClients w (int k) = None"
  shows "build_npc os k w = rbind (RegisterSight k (before_sight os k w)) (\<lambda>w3.
    Inr (on_session k (\<lambda>s. s\<lparr>myInfobox := (myInfobox s)
      \<lparr>ib_category := CAT_MOB, ib_type := npc_type (rand_percent os k)\<rparr>,
      myNickname := [77, 45] @ decimal k\<rparr>) w3))"
  using assms
  by (simp add: build_npc_def CreateNPC_def Let_def AcquireClient_def insert_client_def on_session_def
      ReleaseClient_def new_npc_def before_sight_def)

lemma before_sight_wf:
  assumes "npcs_at k w" and "k < NPC_ID_END"
  shows "wf_world (before_sight os k w)"
proof -
  have wf: "wf_world w" and C: "myClients w = (\<lambda>i. if 0 \<le> i \<and> i < int k then Some (nat i) else None)"
    and I: "\<And>p. p < NPC_ID_END \<Longrightarrow> ID (clientsPool w p) = int p"
    using assms(1) unfolding npcs_at_def by blast+
  have k: "k < ENTITIES_MAX_NUMBER" using assms(2) by (simp add: const_simps)
  have "wf_session k (clientsPool w k)" using wf_worldD(3) [OF wf k] .
  then have "wf_session k (new_npc os k (clientsPool w k))"
    by (simp add: wf_session_def new_npc_fields)
  then have 1: "wf_session p (clientsPool (before_sight os k w) p)" if "p < ENTITIES_MAX_NUMBER" for p
    using wf_worldD(3) [OF wf that] by (simp add: before_sight_def)
  have 2: "p < ENTITIES_MAX_NUMBER \<and> ID (clientsPool (before_sight os k w) p) = i"
    if "myClients (before_sight os k w) i = Some p" for i p
    using that wf_worldD(5,6) [OF wf, of i p] k C
    by (auto simp: before_sight_def new_npc_fields split: if_splits)
  have 3: "finite (dom (myClients (before_sight os k w)))"
    using wf_worldD(4) [OF wf] by (simp add: before_sight_def)
  show ?thesis
    using 1 2 3 wf_worldD(1,2) [OF wf] unfolding wf_world_def by (simp add: before_sight_def)
qed

lemma npcs_step:
  assumes a: "npcs_at k w" and k: "k < NPC_ID_END" and u: "unit_rands os"
  shows "\<exists>w'. build_npc os k w = Inr w' \<and> npcs_at (Suc k) w' \<and> startup_frame w' = startup_frame w"
proof -
  have se: "sectors_ok w" and C: "myClients w = (\<lambda>i. if 0 \<le> i \<and> i < int k then Some (nat i) else None)"
    and V: "\<And>p. p < ENTITIES_MAX_NUMBER \<Longrightarrow> myViewList (clientsPool w p) = {} \<and> Socket (clientsPool w p) = NULL_SOCKET"
    and I: "\<And>p. p < NPC_ID_END \<Longrightarrow> ID (clientsPool w p) = int p"
    and N: "\<And>p. p < ENTITIES_MAX_NUMBER \<Longrightarrow> k \<le> p \<Longrightarrow> mySightSector (clientsPool w p) = None
         \<and> Status (clientsPool w p) = SS_NONE"
    and O: "\<And>p. p < k \<Longrightarrow> Status (clientsPool w p) = SS_ACCEPTED \<and> in_world (clientsPool w p)
         \<and> mySightSector (clientsPool w p) \<noteq> None"
    using a unfolding npcs_at_def by blast+
  let ?w2 = "before_sight os k w" and ?s = "new_npc os k (clientsPool w k)"
  have kE: "k < ENTITIES_MAX_NUMBER" using k by (simp add: const_simps)
  have wf2: "wf_world ?w2" by (rule before_sight_wf [OF a k])
  have me: "myClients ?w2 (int k) = Some k" and S: "clientsPool ?w2 k = ?s"
    by (simp_all add: before_sight_def)
  have iw: "in_world ?s" by (rule new_npc_in_world [OF u])
  have pos: "inside (pos_of ?w2 k)" unfolding S by (rule in_world_inside [OF iw])
  have np: "\<not> IsPlayer (int k)" using k by (simp add: IsPlayer_def const_simps)
  let ?H = "home_sector (pos_of ?w2 k)"
  obtain m where R: "RegisterSight k ?w2 = Inr (?w2\<lparr>mySightManager := m,
      clientsPool := (clientsPool ?w2)(k := ?s\<lparr>mySightSector := Some ?H\<rparr>), log := log ?w2\<rparr>)"
    and m: "grid_has m (\<lambda>r. if r = ?H then insert (int k) (sights_of (mySightManager ?w2) r)
      else sights_of (mySightManager ?w2) r)"
  proof (rule RegisterSight_result [OF wf2 me pos], goal_cases)
    case (1 m es)
    then show ?case using np by (intro that [of m]) (simp_all add: registered_session_of_def S)
  qed
  let ?f = "\<lambda>s. s\<lparr>myInfobox := (myInfobox s)
      \<lparr>ib_category := CAT_MOB, ib_type := npc_type (rand_percent os k)\<rparr>,
      myNickname := [77, 45] @ decimal k\<rparr>"
  let ?t = "?f (?s\<lparr>mySightSector := Some ?H\<rparr>)"
  let ?w' = "w\<lparr>mySightManager := m, clientsPool := (clientsPool w)(k := ?t),
    myClients := (myClients w)(int k \<mapsto> k)\<rparr>"
  have "on_session k ?f (?w2\<lparr>mySightManager := m,
      clientsPool := (clientsPool ?w2)(k := ?s\<lparr>mySightSector := Some ?H\<rparr>), log := log ?w2\<rparr>) = ?w'"
    by (rule world.equality) (simp_all add: on_session_def before_sight_def)
  then have B: "build_npc os k w = Inr ?w'"
    using R C by (simp add: build_npc_before_sight)
  have t: "ID ?t = int k" "myViewList ?t = {}" "Socket ?t = NULL_SOCKET" "Status ?t = SS_ACCEPTED"
    "in_world ?t"
    using V [OF kE] iw by (simp_all add: new_npc_fields in_world_def)
  have "wf_session k ?s" using wf_worldD(3) [OF wf2 kE] unfolding S .
  then have wt: "wf_session k ?t"
    using home_sector_valid [OF pos] by (simp add: wf_session_def)
  have nk: "p \<noteq> k" if "myClients w i = Some p" for i p using that C by (auto split: if_splits)
  have "wf_session p (clientsPool ?w' p)" if "p < ENTITIES_MAX_NUMBER" for p
    using wf_worldD(3) [OF wf2 that] wt by (cases "p = k") (simp_all add: before_sight_def)
  moreover have "p < ENTITIES_MAX_NUMBER \<and> ID (clientsPool ?w' p) = i" if "myClients ?w' i = Some p" for i p
    using that wf_worldD(5,6) [OF wf2, of i p] nk [of i p] t(1)
    by (auto simp: before_sight_def split: if_splits)
  moreover have "finite (dom (myClients ?w'))" using wf_worldD(4) [OF wf2] by (simp add: before_sight_def)
  ultimately have wf': "wf_world ?w'"
    using grid_hasD(1,3) [OF m] unfolding wf_world_def by simp
  have se': "sectors_ok ?w'"
    unfolding sectors_ok_def
  proof (intro allI impI)
    fix r i assume r: "valid_ref r"
    have m': "sights_of m r = (if r = ?H then insert (int k) (sights_of (mySightManager w) r)
        else sights_of (mySightManager w) r)"
      using grid_hasD(2) [OF m r] by (simp add: before_sight_def)
    show "i \<in> sights_of (mySightManager ?w') r \<longleftrightarrow>
        (\<exists>q. myClients ?w' i = Some q \<and> mySightSector (clientsPool ?w' q) = Some r)"
    proof (cases "i = int k")
      case True
      then show ?thesis using sectors_okD [OF se r, of i] C by (auto simp: m')
    next
      case False
      then have "q \<noteq> k" if "myClients w i = Some q" for q using that C by (auto split: if_splits)
      then show ?thesis using sectors_okD [OF se r, of i] False by (auto simp: m')
    qed
  qed
  have C': "myClients ?w' = (\<lambda>i. if 0 \<le> i \<and> i < int (Suc k) then Some (nat i) else None)"
    using C by (auto simp: fun_eq_iff)
  have "npcs_at (Suc k) ?w'"
    unfolding npcs_at_def C'
    using wf' se' V I N O t by (auto simp: less_Suc_eq new_npc_fields)
  moreover have "startup_frame ?w' = startup_frame w" by (simp add: startup_frame_def)
  ultimately show ?thesis using B by blast
qed

lemma npcs_all:
  assumes "npcs_at 0 w" and "n \<le> NPC_ID_END" and "unit_rands os"
  shows "\<exists>w'. foldR (build_npc os) [0..<n] w = Inr w' \<and> npcs_at n w' \<and> startup_frame w' = startup_frame w"
  using assms(2)
proof (induction n)
  case 0
  then show ?case using assms(1) by simp
next
  case (Suc n)
  then obtain w1 where 1: "foldR (build_npc os) [0..<n] w = Inr w1" "npcs_at n w1"
      "startup_frame w1 = startup_frame w" by auto
  obtain w' where "build_npc os n w1 = Inr w'" "npcs_at (Suc n) w'" "startup_frame w' = startup_frame w1"
    using npcs_step [OF 1(2) _ assms(3)] Suc.prems by auto
  then show ?case using 1 by (simp add: foldR_append)
qed

lemma npcs_sight_inv:
  assumes "npcs_at k w" and "k \<le> NPC_ID_END"
  shows "sight_inv w"
proof -
  have wf: "wf_world w" and se: "sectors_ok w"
    and C: "myClients w = (\<lambda>i. if 0 \<le> i \<and> i < int k then Some (nat i) else None)"
    and V: "\<And>p. p < ENTITIES_MAX_NUMBER \<Longrightarrow> myViewList (clientsPool w p) = {} \<and> Socket (clientsPool w p) = NULL_SOCKET"
    using assms(1) unfolding npcs_at_def by blast+
  have np: "\<not> IsPlayer i" if "myClients w i = Some p" for i p
    using that C assms(2) by (auto simp: IsPlayer_def const_simps split: if_splits)
  have V': "myViewList (clientsPool w p) = {}" "Socket (clientsPool w p) = NULL_SOCKET"
    if "myClients w i = Some p" for i p using V wf_worldD(5) [OF wf that] by blast+
  have "sockets_ok w" using np V'(2) unfolding sockets_ok_def by blast
  moreover have "mutual w" using V'(1) unfolding mutual_def by blast
  moreover have "known w" using V'(1) unfolding known_def by blast
  moreover have "\<not> player_at w p" for p using np unfolding player_at_def by blast
  ultimately show ?thesis using wf se unfolding sight_inv_def by blast
qed

subsection \<open>The whole start\<close>

lemma Awake_fields:
  "clientsPool (Awake b w) = clientsPool w" "myClients (Awake b w) = myClients w"
  "mySightManager (Awake b w) = mySightManager w" "numberClients (Awake b w) = numberClients w"
  "orderClientIDs (Awake b w) = orderClientIDs w" "told s (log (Awake b w)) = told s (log w)"
  "posted (log (Awake b w)) = posted (log w)"
  by (auto simp: Awake_def Let_def world_simps told_step_def split: option.split)

lemma npcs_at_begin:
  assumes "myClients w = Map.empty" and "mySightManager w = world_grid"
    and "\<And>p. p < ENTITIES_MAX_NUMBER \<Longrightarrow> clientsPool w p = built mem p"
  shows "npcs_at 0 w"
proof -
  have "wf_world w"
    unfolding wf_world_def assms(1,2) using wf_world_grid world_grid_free assms(3) built_fields(7) by simp
  moreover have "sectors_ok w" unfolding sectors_ok_def assms(1,2) using world_grid_empty by auto
  moreover have "p < ENTITIES_MAX_NUMBER" if "p < NPC_ID_END" for p
    using that by (simp add: const_simps)
  ultimately show ?thesis
    unfolding npcs_at_def using assms(1,3) by (auto simp: built_fields fun_eq_iff)
qed

text \<open>The state the workers begin with.\<close>

lemma start_result:
  assumes "reuse_ok b" and "listen_ok b" and "unit_rands os" and "\<And>n. new_socket os n \<noteq> NULL_SOCKET"
  obtains w where "server_main b os mem = Inr (Serving w (BuildThreads threadWorkers0))"
    and "npcs_at NPC_ID_END w" and "acceptNewbie w \<noteq> NULL_SOCKET" and "acceptBeginPlace w = 200000"
    and "numberClients w = 0" and "orderClientIDs w = 200000" and "\<And>s. told s (log w) = {}"
    and "posted (log w) = {}"
proof -
  let ?w0 = "Awake b IOCPFramework"
  let ?s = "new_socket os (now ?w0)"
  let ?w1 = "(emit (ESocket ?s) ?w0)\<lparr>acceptNewbie := ?s\<rparr>"
  let ?w2 = "BuildSessions mem ?w1"
  have e: "clientsPool ?w2 p = built mem p" if "p < ENTITIES_MAX_NUMBER" for p
    using that by (simp add: BuildSessions_result)
  have "npcs_at 0 ?w2"
    by (rule npcs_at_begin [where mem = mem])
      (use e in \<open>simp_all add: BuildSessions_result world_simps Awake_fields IOCPFramework_def\<close>)
  then obtain w3 where 3: "BuildNPCs os ?w2 = Inr w3" "npcs_at NPC_ID_END w3"
      "startup_frame w3 = startup_frame ?w2"
    using npcs_all [OF _ order_refl assms(3)] by (auto simp: BuildNPCs_def NPC_ID_BEGIN_def)
  let ?w = "Listen w3"
  have sk: "told s (log ?w2) = {}" "posted (log ?w2) = {}" for s
    using Awake_fields(6) [of s b IOCPFramework] Awake_fields(7) [of b IOCPFramework]
    by (simp_all add: BuildSessions_result world_simps told_step_def) (simp_all add: IOCPFramework_def)
  have fr: "log w3 = log ?w2" "acceptNewbie w3 = acceptNewbie ?w2"
    "acceptBeginPlace w3 = acceptBeginPlace ?w2" "numberClients w3 = numberClients ?w2"
    "orderClientIDs w3 = orderClientIDs ?w2"
    using 3(3) by (simp_all add: startup_frame_def)
  show thesis
  proof (rule that [of ?w])
    show "server_main b os mem = Inr (Serving ?w (BuildThreads threadWorkers0))"
      using assms(1,2) 3(1) by (simp add: server_main_def Start_def CreateSocket_def Let_def)
    show "npcs_at NPC_ID_END ?w"
      using 3(2) unfolding npcs_at_def wf_world_def sectors_ok_def Listen_fields .
    show "acceptNewbie ?w \<noteq> NULL_SOCKET" "acceptBeginPlace ?w = 200000" "numberClients ?w = 0"
      "orderClientIDs ?w = 200000"
      using fr(2-5) assms(4) by (simp_all add: world_simps BuildSessions_result Awake_fields const_simps)
        (simp_all add: IOCPFramework_def const_simps)
    show "told s (log ?w) = {}" "posted (log ?w) = {}" for s
      using sk fr(1) by (simp_all add: world_simps told_step_def)
  qed
qed

lemma threads_built:
  "mset (map the (filter (\<lambda>t. t \<noteq> None) (BuildThreads threadWorkers0)))
    = replicate_mset 6 IOCPWorker + {#AIWorker, TimerWorker#}"
  by (simp add: BuildThreads_def threadWorkers0_def THREADS_COUNT_def eval_nat_numeral)

text \<open>What \<open>npcs_at\<close> says of all the characters together.\<close>

lemma npcs_at_end:
  assumes "npcs_at NPC_ID_END w"
  shows "myClients w = (\<lambda>i. if 0 \<le> i \<and> i < 200000 then Some (nat i) else None)"
    and "p < 200000 \<Longrightarrow> Status (clientsPool w p) = SS_ACCEPTED \<and> in_world (clientsPool w p)
      \<and> mySightSector (clientsPool w p) \<noteq> None"
    and "200000 \<le> p \<Longrightarrow> p < 210000 \<Longrightarrow> mySightSector (clientsPool w p) = None
      \<and> Status (clientsPool w p) = SS_NONE"
    and "p < 210000 \<Longrightarrow> Socket (clientsPool w p) = NULL_SOCKET \<and> myViewList (clientsPool w p) = {}"
proof -
  have c: "NPC_ID_END = 200000" "ENTITIES_MAX_NUMBER = 210000" by (simp_all add: const_simps)
  show "myClients w = (\<lambda>i. if 0 \<le> i \<and> i < 200000 then Some (nat i) else None)"
    and "p < 200000 \<Longrightarrow> Status (clientsPool w p) = SS_ACCEPTED \<and> in_world (clientsPool w p)
      \<and> mySightSector (clientsPool w p) \<noteq> None"
    and "200000 \<le> p \<Longrightarrow> p < 210000 \<Longrightarrow> mySightSector (clientsPool w p) = None
      \<and> Status (clientsPool w p) = SS_NONE"
    and "p < 210000 \<Longrightarrow> Socket (clientsPool w p) = NULL_SOCKET \<and> myViewList (clientsPool w p) = {}"
    using assms unfolding npcs_at_def c by auto
qed

lemma first_place_ready:
  assumes n: "npcs_at NPC_ID_END w" and s: "acceptNewbie w \<noteq> NULL_SOCKET" "acceptBeginPlace w = 200000"
      "numberClients w = 0" "orderClientIDs w = 200000" "\<And>s. told s (log w) = {}"
    and os: "\<And>n. create_port os n"
  shows "ready os w 200000"
proof -
  note n = npcs_at_end [OF n]
  have "first_free w = Some 200000"
    by (rule first_freeI) (use s(2) n(3) [of 200000] in \<open>auto simp: const_simps\<close>)
  moreover have "Socket (clientsPool w q) \<noteq> acceptNewbie w \<and> q \<noteq> 200000" if "myClients w i = Some q" for i q
    using that n(4) [of q] s(1) unfolding n(1) by (auto split: if_splits)
  ultimately show ?thesis
    using n(3,4) [of 200000] os s(1,3-5) unfolding ready_def
    by (auto simp: IsPlayer_def const_simps n(1) split: if_splits)
qed

text \<open>C5: Unless the listener's option or \<open>listen\<close> is refused, starting the server never faults
  and never returns: it ends up serving with six workers for the port, one for the non-player
  characters and one for the timers. In that state the invariant of sight holds, exactly the
  identifiers 0 to 199999 are registered, each at the place of its number, accepted and at a
  position of the world, and the next sign-up has a free place, a fresh identifier and an
  unused socket. This rests on \<open>rand() / RAND_MAX\<close> being between 0 and 1.\<close>

theorem start_serves:
  assumes "reuse_ok b" and "listen_ok b" and "unit_rands os" and "\<And>n. new_socket os n \<noteq> NULL_SOCKET"
    and "\<And>n. create_port os n"
  shows "\<exists>w ts. server_main b os mem = Inr (Serving w ts)
    \<and> mset (map the (filter (\<lambda>t. t \<noteq> None) ts)) = replicate_mset 6 IOCPWorker + {#AIWorker, TimerWorker#}
    \<and> sight_inv w \<and> myClients w = (\<lambda>i. if 0 \<le> i \<and> i < 200000 then Some (nat i) else None)
    \<and> (\<forall>p < 200000. Status (clientsPool w p) = SS_ACCEPTED \<and> in_world (clientsPool w p))
    \<and> ready os w 200000"
proof -
  obtain w where 1: "server_main b os mem = Inr (Serving w (BuildThreads threadWorkers0))"
    "npcs_at NPC_ID_END w" "acceptNewbie w \<noteq> NULL_SOCKET" "acceptBeginPlace w = 200000"
    "numberClients w = 0" "orderClientIDs w = 200000" "\<And>s. told s (log w) = {}"
    by (rule start_result [OF assms(1-4)]) (rule that)
  note n = npcs_at_end [OF 1(2)]
  have iv: "sight_inv w" by (rule npcs_sight_inv [OF 1(2)]) simp
  have "ready os w 200000" by (rule first_place_ready [OF 1(2-7) assms(5)])
  then show ?thesis using 1(1) iv n(1,2) threads_built by blast
qed

theorem start_serves_witness:
  "\<exists>w ts. server_main \<lparr>wsa_startup = True, listener_socket = Some 3, bind_ok = True,
      port_made = Some 4, port_joined = True, reuse_ok = True, listen_ok = True\<rparr>
      (demo_os\<lparr>new_socket := (\<lambda>n. n + 100)\<rparr>) (\<lambda>_. (0, 0)) = Inr (Serving w ts) \<and> sight_inv w"
proof -
  have "unit_rands (demo_os\<lparr>new_socket := (\<lambda>n. n + 100)\<rparr>)" by (simp add: unit_rands_def demo_os_def)
  then show ?thesis
    using start_serves [of "\<lparr>wsa_startup = True, listener_socket = Some 3, bind_ok = True,
      port_made = Some 4, port_joined = True, reuse_ok = True, listen_ok = True\<rparr>"
      "demo_os\<lparr>new_socket := (\<lambda>n. n + 100)\<rparr>" "\<lambda>_. (0, 0)"]
    by (auto simp: demo_os_def)
qed

end
