(* ===== verification/Interleaving.thy ===== *)
theory Interleaving
  imports Handlers
begin

section \<open>What two threads do to each other\<close>

text \<open>
  Six workers run \<open>Update\<close> at once. Two places where the code relies on atomics are looked at
  as step relations between the atomic accesses of the threads: the flag of a sight sector,
  and the counter of clients in \<open>RegisterPlayer\<close>. A thread is a number.
\<close>

subsection \<open>The flag of a sector\<close>

text \<open>The sector and the threads between their \<open>Acquire\<close> and their \<open>Release\<close>.\<close>

record guarded =
  gs_sector :: sector
  gs_inside :: "nat set"

definition free_sector :: "sector \<Rightarrow> guarded" where
  "free_sector s = \<lparr>gs_sector = s\<lparr>isOwned := False\<rparr>, gs_inside = {}\<rparr>"

inductive acquire_step :: "guarded \<Rightarrow> guarded \<Rightarrow> bool" where
  enter: "i \<notin> gs_inside g \<Longrightarrow>
    acquire_step g \<lparr>gs_sector = Acquire (gs_sector g), gs_inside = insert i (gs_inside g)\<rparr>"
| leave: "i \<in> gs_inside g \<Longrightarrow>
    acquire_step g \<lparr>gs_sector = Release (gs_sector g), gs_inside = gs_inside g - {i}\<rparr>"

text \<open>The same with \<open>TryAcquire\<close>: a thread enters only when the flag was clear.\<close>

inductive try_step :: "guarded \<Rightarrow> guarded \<Rightarrow> bool" where
  try_enter: "i \<notin> gs_inside g \<Longrightarrow> TryAcquire (gs_sector g) = (True, s) \<Longrightarrow>
    try_step g \<lparr>gs_sector = s, gs_inside = insert i (gs_inside g)\<rparr>"
| try_fail: "i \<notin> gs_inside g \<Longrightarrow> TryAcquire (gs_sector g) = (False, s) \<Longrightarrow>
    try_step g (g\<lparr>gs_sector := s\<rparr>)"
| try_leave: "i \<in> gs_inside g \<Longrightarrow>
    try_step g \<lparr>gs_sector = Release (gs_sector g), gs_inside = gs_inside g - {i}\<rparr>"

inductive_cases try_stepE: "try_step g g'"



text \<open>Had every thread entered by \<open>TryAcquire\<close>, the flag would exclude: in every state that
  such threads reach at most one is inside a sector, and the flag is set exactly when one is.\<close>

theorem try_acquire_excludes:
  assumes "reaches try_step (free_sector s) g"
  shows "card (gs_inside g) \<le> 1 \<and> (isOwned (gs_sector g) \<longleftrightarrow> gs_inside g \<noteq> {})"
proof -
  let ?I = "\<lambda>g. (gs_inside g = {} \<and> \<not> isOwned (gs_sector g))
    \<or> (\<exists>i. gs_inside g = {i} \<and> isOwned (gs_sector g))"
  have "?I g"
  proof (rule reaches_invariant [OF assms])
    show "?I (free_sector s)" by (simp add: free_sector_def)
  next
    fix t u assume "?I t" and "try_step t u"
    then show "?I u" by (elim try_stepE) (auto simp: TryAcquire_def sector_simps)
  qed
  then show ?thesis by auto
qed

theorem try_acquire_excludes_witness:
  "card (gs_inside \<lparr>gs_sector = Acquire (SightSector 0 0 0 0), gs_inside = {7::nat}\<rparr>) \<le> 1"
proof -
  have "try_step (free_sector (SightSector 0 0 0 0)) \<lparr>gs_sector = Acquire (SightSector 0 0 0 0), gs_inside = {7}\<rparr>"
    using try_step.try_enter [of 7 "free_sector (SightSector 0 0 0 0)" "Acquire (SightSector 0 0 0 0)"]
    by (simp add: free_sector_def TryAcquire_def Acquire_def SightSector_def)
  then show ?thesis
    using try_acquire_excludes [of "SightSector 0 0 0 0" "\<lparr>gs_sector = Acquire (SightSector 0 0 0 0), gs_inside = {7}\<rparr>"]
      reaches.intros [of try_step] by blast
qed

subsection \<open>The counter of clients\<close>

text \<open>
  The three accesses of \<open>RegisterPlayer\<close>: the counter is read, the player inserted, the
  counter written. A thread holds the player it registers and the value it has read.
\<close>

datatype reg_pc = RegBegin pid nat | RegRead pid nat u32 | RegInserted u32 | RegDone

record registering =
  rg_world :: world
  rg_pc :: "nat \<Rightarrow> reg_pc"

inductive reg_step :: "registering \<Rightarrow> registering \<Rightarrow> bool" where
  reg_read: "rg_pc g t = RegBegin i p \<Longrightarrow>
    reg_step g (g\<lparr>rg_pc := (rg_pc g)(t := RegRead i p (AcquireClientsNumber (rg_world g)))\<rparr>)"
| reg_insert: "rg_pc g t = RegRead i p v \<Longrightarrow>
    reg_step g (g\<lparr>rg_world := insert_client i p (rg_world g), rg_pc := (rg_pc g)(t := RegInserted v)\<rparr>)"
| reg_write: "rg_pc g t = RegInserted v \<Longrightarrow>
    reg_step g (g\<lparr>rg_world := ReleaseClientsNumber (v + 1) (rg_world g), rg_pc := (rg_pc g)(t := RegDone)\<rparr>)"

text \<open>Undisturbed, the accesses of a thread amount to \<open>RegisterPlayer\<close>; but two threads that
  register two players can both read the counter before either writes it: then both players
  are in the registry and the counter has grown by one.\<close>

theorem register_loses_an_update:
  assumes "i \<noteq> j" and "myClients w i = None" and "myClients w j = None"
  shows "(\<exists>g. reaches reg_step \<lparr>rg_world = w, rg_pc = (\<lambda>_. RegDone)(0 := RegBegin i p)\<rparr> g
        \<and> rg_pc g = (\<lambda>_. RegDone) \<and> rg_world g = RegisterPlayer i p w)
    \<and> (\<exists>g. reaches reg_step \<lparr>rg_world = w, rg_pc = (\<lambda>_. RegDone)(0 := RegBegin i p, 1 := RegBegin j q)\<rparr> g
        \<and> rg_pc g = (\<lambda>_. RegDone)
        \<and> myClients (rg_world g) = (myClients w)(i \<mapsto> p, j \<mapsto> q)
        \<and> numberClients (rg_world g) = numberClients w + 1)"
proof -
  let ?n = "numberClients w"
  let ?g0 = "\<lparr>rg_world = w, rg_pc = (\<lambda>_. RegDone)(0 := RegBegin i p)\<rparr>"
  let ?g1 = "\<lparr>rg_world = w, rg_pc = (\<lambda>_. RegDone)(0 := RegRead i p ?n)\<rparr>"
  let ?g2 = "\<lparr>rg_world = insert_client i p w, rg_pc = (\<lambda>_. RegDone)(0 := RegInserted ?n)\<rparr>"
  let ?g3 = "\<lparr>rg_world = RegisterPlayer i p w, rg_pc = (\<lambda>_. RegDone)\<rparr>"
  have s: "reg_step ?g0 ?g1" "reg_step ?g1 ?g2" "reg_step ?g2 ?g3"
    using reg_step.reg_read [of ?g0 0 i p] reg_step.reg_insert [of ?g1 0 i p ?n]
      reg_step.reg_write [of ?g2 0 ?n]
    by (simp_all add: AcquireClientsNumber_def RegisterPlayer_def fun_upd_idem)
  let ?h0 = "\<lparr>rg_world = w, rg_pc = (\<lambda>_. RegDone)(0 := RegBegin i p, 1 := RegBegin j q)\<rparr>"
  let ?h1 = "\<lparr>rg_world = w, rg_pc = (\<lambda>_. RegDone)(0 := RegRead i p ?n, 1 := RegBegin j q)\<rparr>"
  let ?h2 = "\<lparr>rg_world = w, rg_pc = (\<lambda>_. RegDone)(0 := RegRead i p ?n, 1 := RegRead j q ?n)\<rparr>"
  let ?v3 = "insert_client i p w" let ?v4 = "insert_client j q ?v3"
  let ?h3 = "\<lparr>rg_world = ?v3, rg_pc = (\<lambda>_. RegDone)(0 := RegInserted ?n, 1 := RegRead j q ?n)\<rparr>"
  let ?h4 = "\<lparr>rg_world = ?v4, rg_pc = (\<lambda>_. RegDone)(0 := RegInserted ?n, 1 := RegInserted ?n)\<rparr>"
  let ?v5 = "ReleaseClientsNumber (?n + 1) ?v4"
  let ?h5 = "\<lparr>rg_world = ?v5, rg_pc = (\<lambda>_. RegDone)(1 := RegInserted ?n)\<rparr>"
  let ?h6 = "\<lparr>rg_world = ReleaseClientsNumber (?n + 1) ?v5, rg_pc = (\<lambda>_. RegDone)\<rparr>"
  have t: "reg_step ?h0 ?h1" "reg_step ?h1 ?h2" "reg_step ?h2 ?h3" "reg_step ?h3 ?h4"
    "reg_step ?h4 ?h5" "reg_step ?h5 ?h6"
    using reg_step.reg_read [of ?h0 0 i p] reg_step.reg_read [of ?h1 1 j q]
      reg_step.reg_insert [of ?h2 0 i p ?n] reg_step.reg_insert [of ?h3 1 j q ?n]
      reg_step.reg_write [of ?h4 0 ?n] reg_step.reg_write [of ?h5 1 ?n]
    by (simp_all add: AcquireClientsNumber_def fun_upd_twist fun_upd_idem)
  have "reaches reg_step ?g0 ?g3" using s by (meson reaches.intros)
  moreover have "reaches reg_step ?h0 ?h6" using t by (meson reaches.intros)
  moreover have "myClients (rg_world ?h6) = (myClients w)(i \<mapsto> p, j \<mapsto> q)"
    "numberClients (rg_world ?h6) = ?n + 1"
    using assms by (simp_all add: ReleaseClientsNumber_def insert_client_def)
  ultimately show ?thesis by fastforce
qed

theorem register_loses_an_update_witness:
  "\<exists>g. reaches reg_step \<lparr>rg_world = IOCPFramework,
      rg_pc = (\<lambda>_. RegDone)(0 := RegBegin 200000 200000, 1 := RegBegin 200001 200001)\<rparr> g
    \<and> numberClients (rg_world g) = 1 \<and> dom (myClients (rg_world g)) = {200000, 200001}"
proof -
  let ?g0 = "\<lparr>rg_world = IOCPFramework,
      rg_pc = (\<lambda>_. RegDone)(0 := RegBegin 200000 200000, 1 := RegBegin 200001 200001)\<rparr>"
  have f: "myClients IOCPFramework = Map.empty" "numberClients IOCPFramework = 0"
    by (simp_all add: IOCPFramework_def)
  have "\<exists>g. reaches reg_step ?g0 g \<and> rg_pc g = (\<lambda>_. RegDone)
      \<and> myClients (rg_world g) = (myClients IOCPFramework)(200000 \<mapsto> 200000, 200001 \<mapsto> 200001)
      \<and> numberClients (rg_world g) = numberClients IOCPFramework + 1"
    by (rule conjunct2 [OF register_loses_an_update]) (simp_all add: f)
  then obtain g where "reaches reg_step ?g0 g" "numberClients (rg_world g) = 1"
      "dom (myClients (rg_world g)) = {200000, 200001}" using f by (auto simp: insert_commute)
  then show ?thesis by blast
qed

end
