(* ===== verification/Runs.thy ===== *)
theory Runs
  imports StartupProps Interleaving
begin

section \<open>Whole runs of the server\<close>

text \<open>
  What a started server goes through: connections, packets of signed-in clients, the
  completions it posted to itself, and connections that break. Each event is handled as
  \<open>Update\<close> and the receiving loop handle it, one at a time. The invariant of sight and the books
  on players, places and posted completions hold in every state that such a run reaches, and
  no event of it makes the server fault.
\<close>

subsection \<open>Events\<close>

datatype event =
  Knock
| Said pid packet
| Posted u32 pid asynchron
| Broken pid

text \<open>
  A packet is handled as the loop over a buffer that holds it handles it. The others are
  results of \<open>GetQueuedCompletionStatus\<close>.
\<close>

definition react :: "os \<Rightarrow> event \<Rightarrow> world \<Rightarrow> world res" where
  "react os e w = (case e of
      Knock \<Rightarrow> Update 0 os \<lparr>gq_result = True, gq_pending = False, portBytes = 0,
        portKey = serverKey, exoverlap = Asynchron OP_LISTEN\<rparr> w
    | Said i k \<Rightarrow> (case myClients w i of
          None \<Rightarrow> Inr w
        | Some p \<Rightarrow> rbind (handle os p k w) (\<lambda>cw. Inr (snd cw)))
    | Posted d i a \<Rightarrow> Update 0 os \<lparr>gq_result = True, gq_pending = False, portBytes = d,
        portKey = i, exoverlap = a\<rparr> w
    | Broken i \<Rightarrow> Update 0 os \<lparr>gq_result = False, gq_pending = False, portBytes = 0,
        portKey = i, exoverlap = Asynchron OP_RECV\<rparr> w)"

text \<open>
  What may happen next. A connection comes on a socket no client had before, and a place is
  free unless the server is full. A client signs in before it moves or attacks. What was
  posted completes, deaths apart, after which a place is shared.
\<close>

definition new_connection :: "os \<Rightarrow> world \<Rightarrow> bool" where
  "new_connection os w \<longleftrightarrow> create_port os (length (log w)) \<and> acceptNewbie w \<noteq> NULL_SOCKET
     \<and> told (acceptNewbie w) (log w) = {}
     \<and> (\<forall>i q. myClients w i = Some q \<longrightarrow> Socket (clientsPool w q) \<noteq> acceptNewbie w)
     \<and> (word_of_nat USERS_MAX \<le> numberClients w \<or> first_free w \<noteq> None)"

definition plays :: "packet \<Rightarrow> bool" where
  "plays k \<longleftrightarrow> (case body k of BMove d t \<Rightarrow> True | BAttack d \<Rightarrow> True | _ \<Rightarrow> False)"

definition admitted :: "os \<Rightarrow> world \<Rightarrow> event \<Rightarrow> bool" where
  "admitted os w e \<longleftrightarrow> (case e of
      Knock \<Rightarrow> new_connection os w
    | Said i k \<Rightarrow> IsPlayer i \<and> (\<forall>p. myClients w i = Some p \<and> plays k
        \<longrightarrow> Status (clientsPool w p) = SS_ACCEPTED)
    | Posted d i a \<Rightarrow> (d, i, a) \<in> posted (log w) \<and> Operation a \<noteq> OP_ENTITY_DEAD
    | Broken i \<Rightarrow> IsPlayer i)"

inductive serves :: "os \<Rightarrow> world \<Rightarrow> world \<Rightarrow> bool" for os where
  serves: "admitted os w e \<Longrightarrow> react os e w = Inr w' \<Longrightarrow> serves os w w'"

subsection \<open>The books of the server\<close>

text \<open>A registered session is connected and nowhere, or accepted and in the world.\<close>

definition settled :: "pid \<Rightarrow> session \<Rightarrow> bool" where
  "settled i s \<longleftrightarrow> IsPlayer i \<and> Status s = SS_CONNECTED \<and> mySightSector s = None
     \<or> Status s = SS_ACCEPTED \<and> mySightSector s \<noteq> None \<and> in_world s"

definition registered_players :: "world \<Rightarrow> pid set" where
  "registered_players w = {i. IsPlayer i \<and> myClients w i \<noteq> None}"

text \<open>What was posted is for a player that was accepted, or does nothing here.\<close>

definition due :: "world \<Rightarrow> pid \<Rightarrow> asynchron \<Rightarrow> bool" where
  "due w i a \<longleftrightarrow> Operation a \<in> {OP_ACCEPT, OP_ENTITY_DEAD}
     \<or> Operation a \<in> {OP_ENTITY_MOVE, OP_PLAYER_ATTACK} \<and> IsPlayer i \<and> i < orderClientIDs w
       \<and> (\<forall>p. myClients w i = Some p \<longrightarrow> Status (clientsPool w p) = SS_ACCEPTED)"

definition orderly :: "world \<Rightarrow> bool" where
  "orderly w \<longleftrightarrow> sight_inv w
     \<and> (\<forall>i p. myClients w i = Some p \<longrightarrow> settled i (clientsPool w p))
     \<and> (\<forall>p < ENTITIES_MAX_NUMBER. (\<forall>i. myClients w i \<noteq> Some p) \<longrightarrow>
          mySightSector (clientsPool w p) = None \<and> myViewList (clientsPool w p) = {})
     \<and> IsPlayer (orderClientIDs w) \<and> (\<forall>i. orderClientIDs w \<le> i \<longrightarrow> myClients w i = None)
     \<and> numberClients w = word_of_nat (card (registered_players w))
     \<and> card (registered_players w) \<le> USERS_MAX
     \<and> (\<forall>d i a. (d, i, a) \<in> posted (log w) \<longrightarrow> due w i a)"

lemma orderlyD:
  assumes "orderly w"
  shows "sight_inv w" and "myClients w i = Some p \<Longrightarrow> settled i (clientsPool w p)"
    and "p < ENTITIES_MAX_NUMBER \<Longrightarrow> (\<And>i. myClients w i \<noteq> Some p) \<Longrightarrow>
      mySightSector (clientsPool w p) = None \<and> myViewList (clientsPool w p) = {}"
    and "IsPlayer (orderClientIDs w)" and "orderClientIDs w \<le> i \<Longrightarrow> myClients w i = None"
    and "numberClients w = word_of_nat (card (registered_players w))"
    and "card (registered_players w) \<le> USERS_MAX" and "(d, i, a) \<in> posted (log w) \<Longrightarrow> due w i a"
  using assms unfolding orderly_def by blast+

lemma orderly_wf: "orderly w \<Longrightarrow> wf_world w"
  using orderlyD(1) unfolding sight_inv_def by blast

lemma finite_players: "wf_world w \<Longrightarrow> finite (registered_players w)"
  by (rule finite_subset [OF _ wf_worldD(4)]) (auto simp: registered_players_def)

text \<open>The count is exact: it never comes near the width of the counter.\<close>

lemma orderly_count:
  assumes "orderly w"
  shows "unat (numberClients w) = card (registered_players w)"
  using orderlyD(6,7) [OF assms] by (simp add: const_simps unat_of_nat)

text \<open>Events that leave the registry alone.\<close>

lemma orderly_same:
  assumes o: "orderly w" and iv: "sight_inv w'" and C: "myClients w' = myClients w"
    and n: "numberClients w' = numberClients w" "orderClientIDs w' = orderClientIDs w"
    and reg: "\<And>i p. myClients w i = Some p \<Longrightarrow> settled i (clientsPool w' p)
      \<and> (Status (clientsPool w p) = SS_ACCEPTED \<longrightarrow> Status (clientsPool w' p) = SS_ACCEPTED)"
    and free: "\<And>p. (\<And>i. myClients w i \<noteq> Some p) \<Longrightarrow> mySightSector (clientsPool w' p) = mySightSector (clientsPool w p)
      \<and> myViewList (clientsPool w' p) = myViewList (clientsPool w p)"
    and post: "\<And>d i a. (d, i, a) \<in> posted (log w') \<Longrightarrow> (d, i, a) \<in> posted (log w) \<or> due w i a"
  shows "orderly w'"
proof -
  have "due w' i a" if "due w i a" for i a
    using that reg unfolding due_def C n by blast
  then have "\<forall>d i a. (d, i, a) \<in> posted (log w') \<longrightarrow> due w' i a" using post orderlyD(8) [OF o] by blast
  moreover have "\<forall>p < ENTITIES_MAX_NUMBER. (\<forall>i. myClients w' i \<noteq> Some p) \<longrightarrow>
          mySightSector (clientsPool w' p) = None \<and> myViewList (clientsPool w' p) = {}"
    using orderlyD(3) [OF o] free unfolding C by metis
  ultimately show ?thesis
    using iv reg orderlyD(4-7) [OF o] unfolding orderly_def C n registered_players_def by blast
qed

lemma orderly_alike:
  assumes o: "orderly w" and iv: "sight_inv w'" and "myClients w' = myClients w"
    and "numberClients w' = numberClients w" "orderClientIDs w' = orderClientIDs w"
    and S: "\<And>q. Status (clientsPool w' q) = Status (clientsPool w q)
      \<and> pos_x (clientsPool w' q) = pos_x (clientsPool w q) \<and> pos_y (clientsPool w' q) = pos_y (clientsPool w q)
      \<and> mySightSector (clientsPool w' q) = mySightSector (clientsPool w q)
      \<and> myViewList (clientsPool w' q) = myViewList (clientsPool w q)"
    and "\<And>d i a. (d, i, a) \<in> posted (log w') \<Longrightarrow> (d, i, a) \<in> posted (log w) \<or> due w i a"
  shows "orderly w'"
  using orderlyD(2) [OF o]
  by (intro orderly_same [OF o iv assms(3-5) _ _ assms(7)]) (simp_all add: S settled_def in_world_def)

text \<open>Events that change where one registered entity is, and what is seen.\<close>

lemma orderly_moved:
  assumes o: "orderly w" and iv: "sight_inv w'" and p: "myClients w i = Some p"
    and sb: "same_but_sight (on_session p f w) p w'" and P: "posted (log w') = posted (log w)"
    and s: "settled i (clientsPool w' p)" and st: "Status (clientsPool w' p) = SS_ACCEPTED"
  shows "orderly w'"
proof (rule orderly_same [OF o iv])
  show "myClients w' = myClients w" "numberClients w' = numberClients w" "orderClientIDs w' = orderClientIDs w"
    using sb by (simp_all add: same_but_sight_def world_simps)
next
  fix j q assume q: "myClients w j = Some q"
  show "settled j (clientsPool w' q)
      \<and> (Status (clientsPool w q) = SS_ACCEPTED \<longrightarrow> Status (clientsPool w' q) = SS_ACCEPTED)"
  proof (cases "q = p")
    case True
    then have "j = i" using registered_inj [OF orderly_wf [OF o]] p q by blast
    then show ?thesis using s st True by simp
  next
    case False
    then show ?thesis using sb orderlyD(2) [OF o q]
      by (auto simp: same_but_sight_def world_simps settled_def in_world_def)
  qed
next
  fix q assume "\<And>i. myClients w i \<noteq> Some q"
  then show "mySightSector (clientsPool w' q) = mySightSector (clientsPool w q)
      \<and> myViewList (clientsPool w' q) = myViewList (clientsPool w q)"
    using sb p by (auto simp: same_but_sight_def world_simps)
qed (simp add: P)

subsection \<open>Each event\<close>

text \<open>No operation on sight posts anything.\<close>

interpretation quiet: frame "\<lambda>w. places_ok w \<and> posted (log w) = ps" for ps
proof unfold_locales
  fix w i q assume "places_ok w \<and> posted (log w) = ps" and "myClients w i = Some q"
  then show "Index (clientsPool w q) = q" by (auto simp: places_ok_def)
qed (auto simp: places_ok_def recv_view_def world_simps)

lemma wf_places: "wf_world w \<Longrightarrow> places_ok w"
  using registered_session(1) by (auto simp: places_ok_def)

lemma moves_in_order:
  assumes o: "orderly w" and me: "myClients w i = Some p" and st: "Status (clientsPool w p) = SS_ACCEPTED"
    and ord: "is_order (order os)"
  shows "\<exists>w'. EntityMove os i dir w = Inr w' \<and> orderly w'"
proof -
  note wf = orderly_wf [OF o]
  have s: "in_world (clientsPool w p)" "mySightSector (clientsPool w p) \<noteq> None"
    using orderlyD(2) [OF o me] st by (simp_all add: settled_def)
  let ?w1 = "on_session p (snd \<circ> try_move dir) w"
  show ?thesis
  proof (cases "fst (try_move dir (clientsPool w p))")
    case False
    then have "?w1 = w" using try_move_not_moved by (simp add: on_session_def)
    then show ?thesis using me False o by (simp add: EntityMove_def world_simps Let_def)
  next
    case True
    have iw: "in_world (clientsPool ?w1 p)" using s(1) by (simp add: world_simps try_move_in_world)
    have me1: "myClients ?w1 i = Some p" using me by (simp add: world_simps)
    have sec1: "mySightSector (clientsPool ?w1 p) \<noteq> None"
      using s(2) try_move_alike by (simp add: world_simps sight_alike_def)
    have St: "Status (snd (try_move dir t)) = Status t" for t
      by (cases dir) (simp_all add: try_move_def TryMoveLT_def TryMoveRT_def TryMoveUP_def TryMoveDW_def)
    obtain m V' L' where U: "UpdateSight os p ?w1 = Inr (with_views (moved_in p m ?w1) V' L')"
      "sight_inv (with_views (moved_in p m ?w1) V' L')" "after_look ?w1 p i m V' L'"
      by (rule UpdateSight_keeps [OF sight_inv_looks [OF moved_inv [OF orderlyD(1) [OF o]] me1 sec1] me1
            in_world_inside [OF iw] ord]) (rule that)
    let ?w' = "with_views (moved_in p m ?w1) V' L'"
    have sb: "same_but_sight ?w1 p ?w'" by (rule after_look_same [OF me1 U(3)])
    have "places_ok ?w1" using wf_places [OF wf]
      using try_move_alike by (simp add: places_ok_def world_simps sight_alike_def)
    then have P: "posted (log ?w') = posted (log w)"
      using quiet.after_UpdateSight [OF _ U(1), of "posted (log w)"] by (simp add: world_simps)
    have "mySightSector (clientsPool ?w' p) \<noteq> None" by (simp add: views_simps moved_in_session)
    then have "settled i (clientsPool ?w' p)" "Status (clientsPool ?w' p) = SS_ACCEPTED"
      using sb iw st by (simp_all add: same_but_sight_def settled_def in_world_def world_simps St)
    note orderly_moved [OF o U(2) me sb P this]
    then show ?thesis using me True U(1) by (simp add: EntityMove_def world_simps Let_def)
  qed
qed

lemma signs_in_order:
  assumes o: "orderly w" and me: "myClients w i = Some p" and ord: "is_order (order os)"
  shows "\<exists>w'. ProceedSignIn os p n w = Inr w' \<and> orderly w'"
proof (cases "Status (clientsPool w p) = SS_CONNECTED")
  case True
  note wf = orderly_wf [OF o]
  have sec: "mySightSector (clientsPool w p) = None" using orderlyD(2) [OF o me] True by (simp add: settled_def)
  obtain w' where 1: "ProceedSignIn os p n w = Inr w'" "sight_inv w'"
    "mySightSector (clientsPool w' p) = Some (home_sector (100, 100))"
    "myNickname (clientsPool w' p) = n" "same_but_sight (on_session p placed_player w) p w'"
    by (rule sign_in_step [OF orderlyD(1) [OF o] me ord True sec]) (rule that)
  have "posted (log w') = posted (log w)"
    using quiet.after_ProceedSignIn [OF _ 1(1), of "posted (log w)"] wf_places [OF wf] by simp
  moreover have "settled i (clientsPool w' p)" "Status (clientsPool w' p) = SS_ACCEPTED"
    using 1(3,5) is_f32_int [of 100]
    by (simp_all add: same_but_sight_def settled_def in_world_def placed_player_def world_simps)
  ultimately have "orderly w'" by (intro orderly_moved [OF o 1(2) me 1(5)])
  then show ?thesis using 1(1) by blast
next
  case False
  have "wf_world w" using orderly_wf [OF o] .
  note ses = registered_session [OF this me]
  have "on_session p (ReleaseID i) (on_session p (ReleaseStatus (Status (clientsPool w p))) w) = w"
    using ses(2,3) by (simp add: on_session_def ReleaseID_def ReleaseStatus_def fun_eq_iff)
  then show ?thesis
    using False o ses(3) by (simp add: ProceedSignIn_def Let_def AcquireStatus_def AcquireID_def)
qed

lemma players_of:
  "myClients w' = (myClients w)(i := None) \<Longrightarrow> registered_players w' = registered_players w - {i}"
  "myClients w' = (myClients w)(i \<mapsto> p) \<Longrightarrow> IsPlayer i \<Longrightarrow> registered_players w' = insert i (registered_players w)"
  by (auto simp: registered_players_def)

lemma orderly_left:
  assumes o: "orderly w" and i: "myClients w i = Some p" and "IsPlayer i" and l: "left_by w i p w'"
    and n: "numberClients w' = numberClients w - 1" and id: "orderClientIDs w' = orderClientIDs w"
    and P: "posted (log w') = posted (log w)"
  shows "orderly w'"
proof -
  note wf = orderly_wf [OF o]
  note reg = left_byD(1) [OF l wf i]
  note L = l [unfolded left_by_def]
  note C = conjunct1 [OF L] and pool = conjunct1 [OF conjunct2 [OF conjunct2 [OF L]], rule_format]
    and at = conjunct1 [OF conjunct2 [OF conjunct2 [OF conjunct2 [OF L]]]]
  have me: "clientsPool w' p = Cleanup_fields (clientsPool w p)" unfolding at by simp
  have "i \<in> registered_players w" using i assms(3) by (simp add: registered_players_def)
  then have card: "card (registered_players w) = Suc (card (registered_players w'))"
    unfolding players_of(1) [OF C] by (rule card.remove [OF finite_players [OF wf]])
  have same: "settled j (clientsPool w' q) = settled j (clientsPool w q)"
      "Status (clientsPool w' q) = Status (clientsPool w q)" if "q \<noteq> p" for j q
    unfolding pool [OF that] by (simp_all add: settled_def in_world_def)
  have "settled j (clientsPool w' q)" if "myClients w' j = Some q" for j q
    using same(1) reg [OF that] orderlyD(2) [OF o] by blast
  moreover have "mySightSector (clientsPool w' q) = None \<and> myViewList (clientsPool w' q) = {}"
    if q: "q < ENTITIES_MAX_NUMBER" "\<And>j. myClients w' j \<noteq> Some q" for q
  proof (cases "q = p")
    case True
    then show ?thesis by (simp add: me Cleanup_fields_simps)
  next
    case False
    then have u: "myClients w j \<noteq> Some q" for j using q(2) [of j] i unfolding C by (auto split: if_splits)
    then show ?thesis using orderlyD(3) [OF o q(1)] pool [OF False] by (simp add: forgot_def Let_def)
  qed
  moreover have "due w' j a" if "(d, j, a) \<in> posted (log w')" for d j a
    using orderlyD(8) [OF o that [unfolded P]] reg same(2) unfolding due_def id by metis
  ultimately show ?thesis
    using left_by_inv [OF orderlyD(1) [OF o] i l] orderlyD(4-7) [OF o] card
    unfolding orderly_def id n by (simp add: C)
qed

text \<open>A connected player that leaves was nowhere and seen by no one.\<close>

lemma connected_sees_nothing:
  assumes o: "orderly w" and q: "myClients w i = Some q" and st: "Status (clientsPool w q) = SS_CONNECTED"
  shows "myViewList (clientsPool w q) = {}" and "mySightSector (clientsPool w q) = None"
proof -
  note wf = orderly_wf [OF o]
  have s: "IsPlayer i" "mySightSector (clientsPool w q) = None" using orderlyD(2) [OF o q] st by (auto simp: settled_def)
  then have "player_at w q" using q registered_session(3) [OF wf q] by (simp add: player_at_def)
  then have "informed w q" using orderlyD(1) [OF o] unfolding sight_inv_def by blast
  then show "myViewList (clientsPool w q) = {}" and "mySightSector (clientsPool w q) = None"
    using s(2) by (simp_all add: informed_def)
qed

lemma disconnects_in_order:
  assumes o: "orderly w" and pl: "IsPlayer i" and ord: "is_order (order os)"
  shows "\<exists>w'. Disconnect os i w = Inr w' \<and> orderly w'"
proof (cases "myClients w i")
  case None
  then show ?thesis using o by (simp add: Disconnect_def world_simps)
next
  case (Some p)
  note wf = orderly_wf [OF o] and iv = orderlyD(1) [OF o]
  note ses = registered_session [OF wf Some] and at = orderlyD(2) [OF o Some]
  have quietly: "posted (log w') = posted (log w)" if "Disconnect os i w = Inr w'" for w'
    using quiet.after_Disconnect [OF _ that, of "posted (log w)"] wf_places [OF wf] by simp
  show ?thesis
  proof (cases "Status (clientsPool w p) = SS_ACCEPTED")
    case True
    have acc: "Status (clientsPool w q) = SS_ACCEPTED" if "x \<in> myViewList (clientsPool w p)" "myClients w x = Some q" for x q
    proof -
      have "i \<in> myViewList (clientsPool w q)" using iv Some that unfolding sight_inv_def mutual_def by blast
      then show ?thesis
        using connected_sees_nothing(1) [OF o that(2)] orderlyD(2) [OF o that(2)] by (auto simp: settled_def)
    qed
    have sec: "mySightSector (clientsPool w p) \<noteq> None" using at True by (simp add: settled_def)
    obtain w' where 1: "Disconnect os i w = Inr w'" "left_by w i p w'" "numberClients w' = numberClients w - 1"
        "orderClientIDs w' = orderClientIDs w"
      by (rule disconnect_left [OF iv Some True sec ord acc])
    then show ?thesis using orderly_left [OF o Some pl 1(2-4) quietly [OF 1(1)]] by blast
  next
    case False
    then have st: "Status (clientsPool w p) = SS_CONNECTED" using at by (simp add: settled_def)
    note no = connected_sees_nothing [OF o Some st]
    let ?w' = "Cleanup p (DeregisterPlayer i w)"
    have D: "Disconnect os i w = Inr ?w'"
      using Some st ses(1) by (simp add: Disconnect_def world_simps Let_def IsAccepted_def IsConnected_def)
    have "i \<notin> sights_of (mySightManager w) r" if "valid_ref r" for r
      using iv Some no(2) sectors_okD [OF _ that, of w i] unfolding sight_inv_def by auto
    then have "grid_has (mySightManager w) (\<lambda>r. sights_of (mySightManager w) r - {i})"
      using wf_worldD(1,2) [OF wf] by (simp add: grid_has_def)
    moreover have same: "(clientsPool w p)\<lparr>myViewList := {}\<rparr> = clientsPool w p"
      by (rule session.equality) (simp_all add: no(1))
    ultimately have "left_by w i p ?w'"
      by (simp add: left_by_def world_simps told_step_def forgot_def Let_def no(1) same)
    then have "orderly ?w'"
      by (rule orderly_left [OF o Some pl]) (simp_all add: quietly [OF D], simp_all add: world_simps)
    then show ?thesis using D by blast
  qed
qed

text \<open>A connection to a full server changes nothing that is counted here.\<close>

lemma refuses_in_order:
  assumes o: "orderly w" and full: "word_of_nat USERS_MAX \<le> numberClients w"
  shows "\<exists>w'. ProceedSignUp os w = Inr w' \<and> orderly w'"
proof -
  let ?w' = "projr (ProceedSignUp os w)"
  note defs = ProceedSignUp_def Let_def full AcquireNewbieSocket_def GetClientsNumber_def
    CreateSocket_def case_prod_beta world_simps ProceedLoginFailed_def told_append told_step_def
  have U: "ProceedSignUp os w = Inr ?w'" by (simp add: defs)
  have F: "clientsPool ?w' = clientsPool w" "myClients ?w' = myClients w" "mySightManager ?w' = mySightManager w"
      "numberClients ?w' = numberClients w" "orderClientIDs ?w' = orderClientIDs w"
    by (simp_all add: defs)
  have T: "told so (log ?w') = told so (log w)" "posted (log ?w') = posted (log w)" for so
    by (simp_all add: defs)
  have "sight_inv ?w'" by (rule sight_inv_alike [OF orderlyD(1) [OF o]]) (simp_all add: F T sight_alike_def)
  then have "orderly ?w'" by (rule orderly_alike [OF o]) (simp_all add: F T)
  then show ?thesis using U by blast
qed

lemma orderly_ready:
  assumes o: "orderly w" and c: "new_connection os w" and n: "\<not> word_of_nat USERS_MAX \<le> numberClients w"
  obtains p where "ready os w p"
proof -
  obtain p where p: "first_free w = Some p" using c n by (auto simp: new_connection_def)
  note f = first_free_SomeD [OF p]
  have u: "myClients w i \<noteq> Some p" for i
    using orderlyD(2) [OF o, of i p] f(3) by (auto simp: settled_def)
  then show thesis
    using that [of p] p c n orderlyD(3) [OF o f(1) u] orderlyD(4,5) [OF o]
    unfolding ready_def new_connection_def by auto
qed

lemma connects_in_order:
  assumes o: "orderly w" and c: "new_connection os w"
  shows "\<exists>w'. ProceedSignUp os w = Inr w' \<and> orderly w'"
proof (cases "word_of_nat USERS_MAX \<le> numberClients w")
  case True
  then show ?thesis by (rule refuses_in_order [OF o])
next
  case False
  let ?r = "wsa_recv os (Suc (length (log w)))"
  obtain p where rd: "ready os w p" by (rule orderly_ready [OF o c False])
  then have f: "first_free w = Some p" and sec: "mySightSector (clientsPool w p) = None"
    and view: "myViewList (clientsPool w p) = {}" and u: "\<And>i. myClients w i \<noteq> Some p"
    and new: "myClients w (orderClientIDs w) = None" by (auto simp: ready_def)
  obtain w' where 1: "ProceedSignUp os w = Inr w'" "sight_inv w'"
    and pool: "clientsPool w' = (clientsPool w)(p := (if ?r = IoError then Cleanup_fields (newcomer w p)
      else newcomer w p))"
    and nd: "?r \<noteq> IoDone \<Longrightarrow> myClients w' = myClients w
      \<and> orderClientIDs w' = orderClientIDs w \<and> numberClients w' = numberClients w"
    and dn: "?r = IoDone \<Longrightarrow> myClients w' = (myClients w)(orderClientIDs w \<mapsto> p)
      \<and> orderClientIDs w' = orderClientIDs w + 1 \<and> numberClients w' = numberClients w + 1"
    and P: "posted (log w') = posted (log w)"
    by (rule sign_up_result [OF orderlyD(1) [OF o] rd]) (rule that)
  have at: "mySightSector (clientsPool w' p) = None" "myViewList (clientsPool w' p) = {}"
    using sec view by (simp_all add: pool newcomer_fields Cleanup_fields_simps)
  have old: "clientsPool w' q = clientsPool w q" if "q \<noteq> p" for q using that by (simp add: pool)
  have "orderly w'"
  proof (cases "?r = IoDone")
    case False
    note nd = nd [OF False]
    show ?thesis
    proof (rule orderly_same [OF o 1(2)])
      fix i q assume "myClients w i = Some q"
      moreover from this have "q \<noteq> p" using u by blast
      ultimately show "settled i (clientsPool w' q)
        \<and> (Status (clientsPool w q) = SS_ACCEPTED \<longrightarrow> Status (clientsPool w' q) = SS_ACCEPTED)"
        using orderlyD(2) [OF o] by (simp add: old)
    next
      fix q show "mySightSector (clientsPool w' q) = mySightSector (clientsPool w q)
        \<and> myViewList (clientsPool w' q) = myViewList (clientsPool w q)"
        using at sec view old by (cases "q = p") simp_all
    qed (use nd P in simp_all)
  next
    case True
    note dn = dn [OF True]
    let ?i = "orderClientIDs w"
    note wf = orderly_wf [OF o] and id = orderlyD(4,5) [OF o]
    have pl: "registered_players w' = insert ?i (registered_players w)"
      using players_of(2) dn id(1) by blast
    have "?i \<notin> registered_players w" using new by (simp add: registered_players_def)
    then have card: "card (registered_players w') = Suc (card (registered_players w))"
      unfolding pl using finite_players [OF wf] by simp
    have "card (registered_players w) < USERS_MAX"
      using False orderly_count [OF o] by (simp add: word_le_nat_alt const_simps)
    moreover have "settled i (clientsPool w' q)" if "myClients w' i = Some q" for i q
    proof (cases "i = ?i")
      case True
      then show ?thesis using that dn id(1) at \<open>?r = IoDone\<close> by (auto simp: settled_def pool newcomer_fields)
    next
      case False
      then show ?thesis using that dn u old orderlyD(2) [OF o, of i q] by (metis fun_upd_other)
    qed
    moreover have "mySightSector (clientsPool w' q) = None \<and> myViewList (clientsPool w' q) = {}"
      if q: "q < ENTITIES_MAX_NUMBER" "\<And>j. myClients w' j \<noteq> Some q" for q
    proof -
      have "q \<noteq> p" using q(2) [of ?i] dn by auto
      moreover have "myClients w j \<noteq> Some q" for j using q(2) [of j] dn new by (cases "j = ?i") auto
      ultimately show ?thesis using orderlyD(3) [OF o q(1)] old by metis
    qed
    moreover have "due w' i a" if "(d, i, a) \<in> posted (log w')" for d i a
      using orderlyD(8) [OF o that [unfolded P]] dn u old new unfolding due_def by auto metis+
    ultimately show ?thesis
      using 1(2) orderlyD(4-6) [OF o] dn card unfolding orderly_def
      by (auto simp: IsPlayer_def)
  qed
  then show ?thesis using 1(1) by blast
qed

text \<open>Only the lock of a sector and what was posted change.\<close>

lemma sight_inv_grid:
  assumes iv: "sight_inv w" and m: "grid_has m (sights_of (mySightManager w))"
    and told: "\<And>so. told so l = told so (log w)"
  shows "sight_inv (w\<lparr>mySightManager := m, log := l\<rparr>)"
proof -
  let ?w = "w\<lparr>mySightManager := m, log := l\<rparr>"
  have wf: "wf_world w" and so: "sockets_ok w" and se: "sectors_ok w" and mu: "mutual w"
    and kn: "known w" and inf: "\<And>q. player_at w q \<Longrightarrow> informed w q"
    using iv unfolding sight_inv_def by blast+
  have "wf_world ?w" using wf grid_hasD(1,3) [OF m] unfolding wf_world_def by simp
  moreover have "sectors_ok ?w" using se grid_hasD(2) [OF m] unfolding sectors_ok_def by simp
  moreover have "sockets_ok ?w = sockets_ok w" "mutual ?w = mutual w" "known ?w = known w"
    by (simp_all add: sockets_ok_def mutual_def known_def)
  moreover have "informed ?w q" if "player_at ?w q" for q
    using inf [of q] that by (simp add: player_at_def informed_def told)
  ultimately show ?thesis using so mu kn unfolding sight_inv_def by simp
qed

lemma attacks_in_order:
  assumes o: "orderly w" and me: "myClients w i = Some p" and st: "Status (clientsPool w p) = SS_ACCEPTED"
    and pl: "IsPlayer i" and ord: "is_order (order os)"
  shows "\<exists>w'. PlayerAttack os i dir w = Inr w' \<and> orderly w'"
proof -
  have s: "in_world (clientsPool w p)" "mySightSector (clientsPool w p) \<noteq> None"
    using orderlyD(2) [OF o me] st by (simp_all add: settled_def)
  let ?es = "map death (filter (\<lambda>j. j \<noteq> i \<and> hit w p j) (order os (myViewList (clientsPool w p))))"
  obtain m where m: "grid_has m (sights_of (mySightManager w))"
    "PlayerAttack os i dir w = Inr (w\<lparr>mySightManager := m, log := log w @ ?es\<rparr>)"
    by (rule player_attack_result [OF orderlyD(1) [OF o] me pl s(2) in_world_inside [OF s(1)] ord])
      (rule that)
  let ?w' = "w\<lparr>mySightManager := m, log := log w @ ?es\<rparr>"
  have "told so (log w @ map death xs) = told so (log w)" for so xs
    by (induction xs rule: rev_induct) (simp_all add: told_append told_step_def flip: append_assoc)
  then have iv: "sight_inv ?w'" by (rule sight_inv_grid [OF orderlyD(1) [OF o] m(1)])
  have "due w j (Asynchron OP_ENTITY_DEAD)" for j by (simp add: due_def Asynchron_def)
  then have "orderly ?w'" by (intro orderly_alike [OF o iv]) (auto simp: posted_def)
  then show ?thesis using m(2) by blast
qed

text \<open>A packet that asks for a move, an attack or a chat only posts.\<close>

lemma posts_in_order:
  assumes o: "orderly w" and due: "due w i a"
  shows "orderly (post d i a w)"
proof (rule orderly_alike [OF o])
  show "sight_inv (post d i a w)"
    by (rule sight_inv_alike [OF orderlyD(1) [OF o]])
      (simp_all add: post_def world_simps sight_alike_def told_append told_step_def)
qed (auto simp: post_def world_simps due)

lemma released: "ID s = i \<Longrightarrow> ib_playerID (myInfobox s) = i \<Longrightarrow> ReleaseID i s = s"
  by (intro session.equality infobox.equality) (simp_all add: ReleaseID_def)

lemma requests_in_order:
  assumes o: "orderly w" and me: "myClients w i = Some p" and pl: "IsPlayer i"
    and st: "Status (clientsPool w p) = SS_ACCEPTED"
  shows "orderly (TryMove p d w)" and "orderly (TryNormalAttack p d w)"
proof -
  note wf = orderly_wf [OF o]
  note ses = registered_session [OF wf me]
  have id: "on_session p (ReleaseID i) (post b i a w) = post b i a w" for b a
    using released [OF ses(3,2)] by (simp add: on_session_def post_def emit_def)
  have "i < orderClientIDs w" using orderlyD(5) [OF o, of i] me by (cases "orderClientIDs w \<le> i") auto
  then have due: "due w i (Asynchron OP_ENTITY_MOVE)" "due w i (Asynchron OP_PLAYER_ATTACK)"
    using me pl st by (simp_all add: due_def Asynchron_def)
  show "orderly (TryMove p d w)" and "orderly (TryNormalAttack p d w)"
    using posts_in_order [OF o due(1)] posts_in_order [OF o due(2)] pl ses(3)
    by (simp_all add: TryMove_def TryNormalAttack_def Let_def AcquireID_def id)
qed

lemma clears_in_order:
  assumes o: "orderly w" and me: "myClients w i = Some p"
  shows "orderly (on_session p ClearRecvBuffer w)"
proof (rule orderly_alike [OF o])
  have wf: "wf_world w" using orderly_wf [OF o] .
  have "length (recvCBuffer (clientsPool w p)) = BUFFSZ"
    using wf_worldD(3,5) [OF wf] me unfolding wf_session_def by blast
  then show "sight_inv (on_session p ClearRecvBuffer w)"
    by (intro sight_inv_alike [OF orderlyD(1) [OF o]])
      (simp_all add: world_simps sight_alike_def ClearRecvBuffer_def)
qed (simp_all add: world_simps ClearRecvBuffer_def)

lemma packets_in_order:
  assumes o: "orderly w" and me: "myClients w i = Some p" and pl: "IsPlayer i" and ord: "is_order (order os)"
    and play: "plays k \<Longrightarrow> Status (clientsPool w p) = SS_ACCEPTED"
  shows "\<exists>b w'. handle os p k w = Inr (b, w') \<and> orderly w'"
proof -
  have wf: "wf_world w" using orderly_wf [OF o] .
  note ses = registered_session [OF wf me]
  note D = disconnects_in_order [OF o pl ord]
  note C = disconnects_in_order [OF clears_in_order [OF o me] pl ord]
  note R = requests_in_order [OF o me pl play]
  have chat: "orderly (post 1 i (SetSendBuffer_raw m n (Asynchron OP_ACCEPT)) w)" for m n
    by (rule posts_in_order [OF o]) (simp add: due_def SetSendBuffer_raw_def Asynchron_def)
  show ?thesis
  proof (cases "body k")
    case (BSignIn n)
    obtain w' where "ProceedSignIn os p (takeWhile (\<lambda>c. c \<noteq> 0) n) w = Inr w'" "orderly w'"
      using signs_in_order [OF o me ord] by blast
    then show ?thesis using BSignIn D ses(3) by (auto simp: Let_def)
  next
    case (BMove d t)
    then show ?thesis using R(1) o ses(3) by (auto simp: plays_def Let_def)
  next
    case (BAttack d)
    then show ?thesis using R(2) by (auto simp: plays_def Let_def)
  next
    case (BChat t j c)
    then show ?thesis using chat ses(3) by (auto simp: Let_def)
  next
    case (BAttackTarget j a)
    then show ?thesis using o by (auto simp: Let_def)
  qed (use D C o ses(3) in \<open>auto simp: Let_def\<close>)
qed

lemma reacts_in_order:
  assumes o: "orderly w" and a: "admitted os w e" and ord: "is_order (order os)"
  shows "\<exists>w'. react os e w = Inr w' \<and> orderly w'"
proof (cases e)
  case Knock
  then show ?thesis using connects_in_order [OF o, of os] a by (simp add: react_def Update_def Asynchron_def admitted_def)
next
  case (Said i k)
  then have pl: "IsPlayer i" and play: "\<And>p. myClients w i = Some p \<Longrightarrow> plays k \<Longrightarrow> Status (clientsPool w p) = SS_ACCEPTED"
    using a by (auto simp: admitted_def)
  show ?thesis
  proof (cases "myClients w i")
    case None
    then show ?thesis using o Said by (simp add: react_def)
  next
    case (Some p)
    obtain b w' where "handle os p k w = Inr (b, w')" "orderly w'"
      using packets_in_order [OF o Some pl ord play [OF Some]] by blast
    then show ?thesis using Some Said by (simp add: react_def del: handle.simps)
  qed
next
  case (Posted d i c)
  then have due: "due w i c" and nd: "Operation c \<noteq> OP_ENTITY_DEAD"
    using a orderlyD(8) [OF o] by (auto simp: admitted_def)
  show ?thesis
  proof (cases "Operation c = OP_ACCEPT \<or> myClients w i = None")
    case True
    then show ?thesis
      using due nd o by (auto simp: react_def Update_def Posted due_def EntityMove_def PlayerAttack_def world_simps)
  next
    case False
    then obtain p where p: "myClients w i = Some p" by auto
    have "Operation c = OP_ENTITY_MOVE \<or> Operation c = OP_PLAYER_ATTACK" and pl: "IsPlayer i"
      and st: "Status (clientsPool w p) = SS_ACCEPTED" using due nd False p by (auto simp: due_def)
    then show ?thesis
      using moves_in_order [OF o p st ord] attacks_in_order [OF o p st pl ord]
      by (auto simp: react_def Update_def Posted)
  qed
next
  case (Broken i)
  then have "IsPlayer i" using a by (simp add: admitted_def)
  then show ?thesis using disconnects_in_order [OF o _ ord] o Broken by (simp add: react_def Update_def)
qed

subsection \<open>From the start on\<close>

lemma starts_in_order:
  assumes "npcs_at NPC_ID_END w" and "numberClients w = 0" and "orderClientIDs w = 200000"
    and "posted (log w) = {}"
  shows "orderly w"
proof -
  note n = npcs_at_end [OF assms(1)]
  have iv: "sight_inv w" by (rule npcs_sight_inv [OF assms(1)]) simp
  have "registered_players w = {}"
    unfolding registered_players_def n(1) by (auto simp: IsPlayer_def const_simps split: if_splits)
  moreover have "settled i (clientsPool w p)" if "myClients w i = Some p" for i p
    using that n(2) [of p] unfolding n(1) by (auto simp: settled_def split: if_splits)
  moreover have "mySightSector (clientsPool w p) = None \<and> myViewList (clientsPool w p) = {}"
    if "p < ENTITIES_MAX_NUMBER" "\<And>i. myClients w i \<noteq> Some p" for p
  proof -
    have "200000 \<le> p" using that(2) [of "int p"] unfolding n(1) by (auto split: if_splits)
    then show ?thesis using that(1) n(3,4) [of p] by (simp add: const_simps)
  qed
  ultimately show ?thesis
    using iv assms(2-4) unfolding orderly_def
    by (auto simp: IsPlayer_def const_simps n(1))
qed



end
