(* ===== verification/ClientNet.thy ===== *)
theory ClientNet
  imports Receiving
begin

section \<open>The client's network\<close>

text \<open>
  \<open>WorldClient/Network\<close>, \<open>Asynchron\<close> and the error functions of \<open>pch.cpp\<close>: what the client
  sends, how it cuts the bytes it receives into packets and which packets it passes on.
  \<open>ErrorAbort\<close> ends the process. The array is \<open>BUFSIZ\<close> bytes long, of which \<open>BUFFSZ\<close> are used.
\<close>

definition BUFSIZ :: nat where "BUFSIZ = 512"

datatype async_operation = ASYNC_NONE | ASYNC_RECV | ASYNC_SEND

record client_asynchron =
  myOperation :: async_operation
  myPacketType :: packet_type
  ca_sendBuffer :: "wsabuf option"
  ca_sendSize :: u32
  ca_sendSzWant :: u32

definition ClientAsynchron :: "async_operation \<Rightarrow> packet_type \<Rightarrow> client_asynchron" where
  "ClientAsynchron operation t = \<lparr>myOperation = operation, myPacketType = t, ca_sendBuffer = None,
     ca_sendSize = 0, ca_sendSzWant = 0\<rparr>"

definition ClientSetSendBuffer :: "wsabuf \<Rightarrow> client_asynchron \<Rightarrow> client_asynchron" where
  "ClientSetSendBuffer buffer a = a\<lparr>ca_sendBuffer := Some buffer, ca_sendSzWant := w_len buffer\<rparr>"

text \<open>What the client asks of the system, and what the system answers, by the calls so far.\<close>

datatype client_effect =
  CConnect bytes
| CSend wsabuf client_asynchron
| CRecv nat u32
| CDisplay bytes
| CRedraw

record client_os =
  c_startup :: bool
  c_socket :: "socket option"
  c_connect :: "nat \<Rightarrow> io_result"
  c_send :: "nat \<Rightarrow> io_result"
  c_recv :: "nat \<Rightarrow> io_result"

record client_net =
  profileNickname :: bytes
  myID :: pid
  myFailedReason :: login_error
  mySocket :: socket
  serverIP :: bytes
  myLocalClients :: "pid set"
  c_buf :: "nat option"
  c_len :: u32
  c_recvCBuffer :: bytes
  c_recvBytes :: u32
  c_log :: "client_effect list"

text \<open>The constructor. \<open>recvBuffer.buf\<close> is null until the first \<open>Receive\<close>.\<close>

definition Network :: client_net where
  "Network = \<lparr>profileNickname = [78, 105, 99, 107, 110, 97, 109, 101], myID = - 1,
     myFailedReason = LE_NONE, mySocket = NULL_SOCKET, serverIP = [], myLocalClients = {},
     c_buf = None, c_len = 0, c_recvCBuffer = replicate BUFSIZ 0, c_recvBytes = 0, c_log = []\<rparr>"

definition c_emit :: "client_effect \<Rightarrow> client_net \<Rightarrow> client_net" where
  "c_emit e n = n\<lparr>c_log := c_log n @ [e]\<rparr>"

definition NetworkAwake :: "client_os \<Rightarrow> client_net \<Rightarrow> client_net res" where
  "NetworkAwake co n =
     (if \<not> c_startup co then Inl Exited
      else case c_socket co of None \<Rightarrow> Inl Exited | Some s \<Rightarrow> Inr (n\<lparr>mySocket := s\<rparr>))"

subsection \<open>Sending\<close>

text \<open>The answer of \<open>WSASend\<close> is returned.\<close>

definition SendPacket :: "client_os \<Rightarrow> packet \<Rightarrow> client_net \<Rightarrow> io_result \<times> client_net" where
  "SendPacket co packet n =
     (let sendBuffer = \<lparr>w_buf = MPacket packet, w_len = ucast (Size packet)\<rparr>;
          asynchron = ClientSetSendBuffer sendBuffer (ClientAsynchron ASYNC_SEND (Type packet))
      in (c_send co (length (c_log n)), c_emit (CSend sendBuffer asynchron) n))"

definition SendSignInMsg :: "client_os \<Rightarrow> client_net \<Rightarrow> (io_result \<times> client_net) option" where
  "SendSignInMsg co n = map_option (\<lambda>p. SendPacket co p n) (CSPacketSignIn (profileNickname n))"

definition SendSignOutMsg :: "client_os \<Rightarrow> client_net \<Rightarrow> io_result \<times> client_net" where
  "SendSignOutMsg co n = SendPacket co (CSPacketSignOut (myID n)) n"

definition SendMoveDir :: "client_os \<Rightarrow> move_type \<Rightarrow> client_net \<Rightarrow> io_result \<times> client_net" where
  "SendMoveDir co dir n = SendPacket co (CSPacketMove (myID n) dir) n"

definition SendAttack :: "client_os \<Rightarrow> move_type \<Rightarrow> client_net \<Rightarrow> io_result \<times> client_net" where
  "SendAttack co dir n = SendPacket co (CSPacketAttack (myID n) dir) n"

subsection \<open>Receiving\<close>

definition Receive :: "client_os \<Rightarrow> u32 \<Rightarrow> client_net \<Rightarrow> io_result \<times> client_net" where
  "Receive co begin_bytes n =
     (let len = word_of_nat BUFFSZ - begin_bytes;
          n1 = n\<lparr>c_buf := Some (unat begin_bytes), c_len := len\<rparr>
      in (c_recv co (length (c_log n)), c_emit (CRecv (unat begin_bytes) len) n1))"

text \<open>\<open>Start\<close> connects and sends the sign-in packet; a nickname that does not fit ends the process.\<close>

definition NetworkStart :: "client_os \<Rightarrow> bytes \<Rightarrow> client_net \<Rightarrow> client_net res" where
  "NetworkStart co ip n =
     (let n1 = c_emit (CConnect ip) (n\<lparr>serverIP := ip\<rparr>)
      in if c_connect co (length (c_log n)) = IoError then Inl Exited
         else case SendSignInMsg co n1 of
             None \<Rightarrow> Inl Exited
           | Some (result, n2) \<Rightarrow> if result = IoError then Inl Exited else Inr n2)"

definition NetworkUpdate :: "client_os \<Rightarrow> client_net \<Rightarrow> client_net res" where
  "NetworkUpdate co n =
     (let (result, n1) = Receive co 0 n in if result = IoError then Inl Exited else Inr n1)"

definition NetRegisterPlayer :: "pid \<Rightarrow> client_net \<Rightarrow> client_net" where
  "NetRegisterPlayer i n = n\<lparr>myLocalClients := insert i (myLocalClients n)\<rparr>"

definition NetRemovePlayer :: "pid \<Rightarrow> client_net \<Rightarrow> client_net" where
  "NetRemovePlayer i n =
     (if i \<in> myLocalClients n then n\<lparr>myLocalClients := myLocalClients n - {i}\<rparr> else n)"

text \<open>
  One packet. The packets the client knows are copied, with the fields of their struct, and
  handed on; the others are passed over.
\<close>

definition passed_on :: "packet_type \<Rightarrow> bool" where
  "passed_on t \<longleftrightarrow> t \<in> {SC_SIGNUP, SC_SIGNOUT, SC_SIGNIN_FAILED, SC_CREATE_PLAYER, SC_APPEAR_OBJ,
     SC_DISAPPEAR_OBJ, SC_MOVE_OBJ}"

definition net_effect :: "packet \<Rightarrow> client_net \<Rightarrow> client_net res" where
  "net_effect k n = (case Type k of
      SC_SIGNUP \<Rightarrow>
        let n1 = (if myID n = - 1 then n\<lparr>myID := playerID k\<rparr> else n)
        in Inr (NetRegisterPlayer (playerID k) n1)
    | SC_SIGNOUT \<Rightarrow>
        if - 1 \<noteq> playerID k \<and> playerID k = myID n then Inl Exited
        else Inr (NetRemovePlayer (playerID k) n)
    | SC_SIGNIN_FAILED \<Rightarrow>
        Inr (case body k of BSignInFailed reason _ \<Rightarrow> n\<lparr>myFailedReason := reason\<rparr> | _ \<Rightarrow> n)
    | SC_CREATE_PLAYER \<Rightarrow> Inr (NetRegisterPlayer (playerID k) n)
    | _ \<Rightarrow> Inr n)"

definition client_bytes :: "client_net \<Rightarrow> bytes" where
  "client_bytes n = (case c_buf n of None \<Rightarrow> [] | Some b \<Rightarrow> drop b (c_recvCBuffer n))"

text \<open>The copy reads the whole struct of the packet's type.\<close>

definition client_packet :: "client_net \<Rightarrow> (packet list \<times> client_net) res" where
  "client_packet n =
     (let cb = client_bytes n; k = view_packet cb
      in if \<not> passed_on (Type k) then Inr ([], n)
         else if length cb < sizeof_Packet + sizeof_body (body k) then Inl BufferOverrun
         else rbind (net_effect k n) (\<lambda>n1. Inr ([k], n1)))"

text \<open>\<open>MoveStream\<close> of the client leaves what lies behind the bytes it moved.\<close>

definition ClientMoveStream :: "nat \<Rightarrow> nat \<Rightarrow> client_net \<Rightarrow> client_net res" where
  "ClientMoveStream position max_size n = (case c_buf n of
      None \<Rightarrow> Inl NullDeref
    | Some b \<Rightarrow>
        let mem = c_recvCBuffer n in
        if max_size < position \<or> length mem < b + max_size then Inl BufferOverrun
        else Inr (n\<lparr>c_recvCBuffer := take b mem @ take (max_size - position) (drop (b + position) mem)
          @ drop (b + (max_size - position)) mem\<rparr>))"

definition client_consume :: "u8 \<Rightarrow> client_net \<Rightarrow> client_net res" where
  "client_consume sz_want n =
     (let n1 = n\<lparr>c_recvBytes := c_recvBytes n - ucast sz_want\<rparr>
      in if 0 < c_recvBytes n1 then ClientMoveStream (unat sz_want) BUFFSZ n1 else Inr n1)"

fun client_loop :: "nat \<Rightarrow> packet list \<Rightarrow> client_net \<Rightarrow> (packet list \<times> client_net) res" where
  "client_loop 0 ps n = Inl NoReturn"
| "client_loop (Suc fuel) ps n =
     (let cb = client_bytes n in
      if c_recvBytes n < word_of_nat sizeof_Packet then Inr (ps, n)
      else if c_buf n = None then Inl NullDeref
      else if length cb < sizeof_Packet then Inl BufferOverrun
      else let sz_want = view_size cb
        in if c_recvBytes n < ucast sz_want then Inr (ps, n)
           else rbind (client_packet n) (\<lambda>(qs, n1).
             rbind (client_consume sz_want n1) (client_loop fuel (ps @ qs))))"

definition OnReceive :: "nat \<Rightarrow> client_os \<Rightarrow> u32 \<Rightarrow> client_net \<Rightarrow> (packet list \<times> client_net) res" where
  "OnReceive fuel co bytes n =
     rbind (client_loop fuel [] (n\<lparr>c_recvBytes := c_recvBytes n + bytes\<rparr>)) (\<lambda>(ps, n1).
       let (result, n2) = Receive co (c_recvBytes n1) n1
       in Inr (ps, if result = IoError then c_emit (CDisplay []) n2 else n2))"

text \<open>A send completion hands the packet back once all its bytes are sent.\<close>

definition OnSend :: "client_asynchron \<Rightarrow> u32 \<Rightarrow> packet list res" where
  "OnSend a bytes =
     (if 0 < bytes then
        case ca_sendBuffer a of
          None \<Rightarrow> Inl NullDeref
        | Some b \<Rightarrow> (case w_buf b of
            MPacket packet \<Rightarrow>
              Inr (if ca_sendSzWant a \<le> ca_sendSize a + bytes then [packet] else [])
          | MRecv _ _ \<Rightarrow> Inr [])
      else Inr [])"

text \<open>What the system does when a receive completes with \<open>data\<close>.\<close>

definition client_deliver :: "bytes \<Rightarrow> client_net \<Rightarrow> client_net" where
  "client_deliver data n = (case c_buf n of None \<Rightarrow> n
     | Some b \<Rightarrow> let d = take (unat (c_len n)) data
         in n\<lparr>c_recvCBuffer := take b (c_recvCBuffer n) @ d @ drop (b + length d) (c_recvCBuffer n)\<rparr>)"

end
