(* ===== verification/ClientScenes.thy ===== *)
theory ClientScenes
  imports ClientNet
begin

section \<open>The client's scenes\<close>

text \<open>
  \<open>WorldClient/Scene\<close>, \<open>SceneMain\<close>, \<open>SceneLoading\<close>, \<open>GameScenes\<close>, \<open>GameObject\<close>,
  \<open>GameEntity\<close> and \<open>PlayerCharacter\<close>: what a scene makes of the packets handed to it. An
  instance is the number of its place in \<open>myInstances\<close>, from which nothing is removed. What a
  scene draws is a list of the images and numbers it asks for.
\<close>

subsection \<open>Entities\<close>

datatype sprite = SpritePlayer | SpriteSkeleton | SpriteSkeletonKing | SpriteDemon

text \<open>\<open>e_is_player\<close>: whether the object is a \<open>PlayerCharacter\<close> or a plain \<open>GameEntity\<close>.\<close>

record entity =
  e_is_player :: bool
  e_id :: pid
  e_category :: entity_category
  e_type :: entity_type
  e_maxhp :: int
  e_hp :: int
  e_maxmp :: int
  e_mp :: int
  e_armour :: int
  e_x :: rat
  e_y :: rat
  e_sprite :: "sprite option"
  e_visible :: bool

definition Show :: "entity \<Rightarrow> entity" where "Show e = e\<lparr>e_visible := True\<rparr>"
definition Hide :: "entity \<Rightarrow> entity" where "Hide e = e\<lparr>e_visible := False\<rparr>"

definition EntityStart :: "entity \<Rightarrow> entity" where
  "EntityStart e =
     (if e_is_player e then e\<lparr>e_sprite := Some SpritePlayer\<rparr>
      else if e_category e = CAT_MOB then
        (case e_type e of
          MOB_DEMON \<Rightarrow> e\<lparr>e_sprite := Some SpriteDemon\<rparr>
        | MOB_SKELETON \<Rightarrow> e\<lparr>e_sprite := Some SpriteSkeleton\<rparr>
        | MOB_SKELETON_KING \<Rightarrow> e\<lparr>e_sprite := Some SpriteSkeletonKing\<rparr>
        | _ \<Rightarrow> e)
      else e)"

text \<open>The fields an appearance sets; \<open>None\<close> for a packet that is none.\<close>

definition set_fields :: "packet \<Rightarrow> entity \<Rightarrow> entity" where
  "set_fields k e = (case body k of
      BAppear category t dir level hp maxhp mp maxmp amour x y \<Rightarrow>
        e\<lparr>e_id := playerID k, e_category := category, e_type := t, e_maxhp := maxhp, e_hp := hp,
          e_maxmp := maxmp, e_mp := mp, e_armour := amour, e_x := x, e_y := y\<rparr>
    | _ \<Rightarrow> e)"

text \<open>A new object, whose fields the appearance is about to set.\<close>

definition GameEntity :: "bool \<Rightarrow> entity" where
  "GameEntity is_player = \<lparr>e_is_player = is_player, e_id = 0, e_category = CAT_NONE, e_type = ENT_NONE,
     e_maxhp = 0, e_hp = 0, e_maxmp = 0, e_mp = 0, e_armour = 0, e_x = 0, e_y = 0, e_sprite = None,
     e_visible = True\<rparr>"

subsection \<open>The base class\<close>

record scene =
  myCamera :: "rat \<times> rat"
  myInstances :: "entity list"
  isConsistent :: bool
  isCompleted :: bool
  isPaused :: bool

definition Scene :: scene where
  "Scene = \<lparr>myCamera = (0, 0), myInstances = [], isConsistent = False, isCompleted = False,
     isPaused = False\<rparr>"

definition IsCompleted :: "'a scene_scheme \<Rightarrow> bool" where "IsCompleted s = isCompleted s"
definition IsPaused :: "'a scene_scheme \<Rightarrow> bool" where "IsPaused s = isPaused s"
definition Complete :: "'a scene_scheme \<Rightarrow> 'a scene_scheme" where
  "Complete s = s\<lparr>isCompleted := True\<rparr>"
definition SceneReset :: "'a scene_scheme \<Rightarrow> 'a scene_scheme" where
  "SceneReset s = s\<lparr>isCompleted := False\<rparr>"
definition Pause :: "'a scene_scheme \<Rightarrow> 'a scene_scheme" where "Pause s = s\<lparr>isPaused := True\<rparr>"
definition Resume :: "'a scene_scheme \<Rightarrow> 'a scene_scheme" where "Resume s = s\<lparr>isPaused := False\<rparr>"

definition TryPause :: "'a scene_scheme \<Rightarrow> bool \<times> 'a scene_scheme" where
  "TryPause s = (if \<not> IsPaused s then (True, Pause s) else (False, s))"

definition UpdateCamera :: "entity \<Rightarrow> 'a scene_scheme \<Rightarrow> 'a scene_scheme" where
  "UpdateCamera follower s = s\<lparr>myCamera :=
     (max (min (fsub (e_x follower) (FRAME_W / 2)) (fsub WORLD_W FRAME_W)) 0,
      max (min (fsub (e_y follower) (FRAME_H / 2)) (fsub WORLD_H FRAME_H)) 0)\<rparr>"

definition AddInstance :: "entity \<Rightarrow> 'a scene_scheme \<Rightarrow> 'a scene_scheme" where
  "AddInstance e s = s\<lparr>myInstances := myInstances s @ [e]\<rparr>"

definition on_instance :: "nat \<Rightarrow> (entity \<Rightarrow> entity) \<Rightarrow> 'a scene_scheme \<Rightarrow> 'a scene_scheme" where
  "on_instance i f s = s\<lparr>myInstances := (myInstances s)[i := f (myInstances s ! i)]\<rparr>"

subsection \<open>The first scene: the address of the server\<close>

record main_scene = scene +
  streamIP :: bytes

definition SceneMain :: main_scene where
  "SceneMain = scene.extend Scene \<lparr>streamIP = [49, 50, 55, 46, 48, 46, 48, 46, 49]\<rparr>"

definition MainReset :: "main_scene \<Rightarrow> main_scene" where "MainReset s = s\<lparr>streamIP := []\<rparr>"

definition MainOnNetwork :: "packet \<Rightarrow> main_scene \<Rightarrow> bool \<times> main_scene" where
  "MainOnNetwork k s =
     (if CS_SIGNIN = Type k then (True, Complete s)
      else if CS_MOVE = Type k then (True, s)
      else (False, s))"

text \<open>The virtual key codes of the keyboard.\<close>

definition VK_BACK :: nat where "VK_BACK = 8"
definition VK_RETURN :: nat where "VK_RETURN = 13"
definition VK_ESCAPE :: nat where "VK_ESCAPE = 27"
definition VK_LEFT :: nat where "VK_LEFT = 37"
definition VK_UP :: nat where "VK_UP = 38"
definition VK_RIGHT :: nat where "VK_RIGHT = 39"
definition VK_DOWN :: nat where "VK_DOWN = 40"
definition VK_OEM_PERIOD :: nat where "VK_OEM_PERIOD = 190"

lemmas key_defs = VK_BACK_def VK_RETURN_def VK_ESCAPE_def VK_LEFT_def VK_UP_def VK_RIGHT_def
  VK_DOWN_def VK_OEM_PERIOD_def

text \<open>A key pressed while the address is typed: whether to connect, and the scene.\<close>

definition MainOnKeyDown :: "nat \<Rightarrow> main_scene \<Rightarrow> bool \<times> main_scene" where
  "MainOnKeyDown key s =
     (if key = VK_RETURN then (7 < length (streamIP s), s)
      else if key = VK_ESCAPE then (False, s\<lparr>streamIP := []\<rparr>)
      else if key = VK_BACK then
        (False, if 0 < length (streamIP s) then s\<lparr>streamIP := butlast (streamIP s)\<rparr> else s)
      else if key = VK_OEM_PERIOD then
        (False, if length (streamIP s) < 15 then s\<lparr>streamIP := streamIP s @ [46]\<rparr> else s)
      else if 48 \<le> key \<and> key \<le> 57 then
        (False, if length (streamIP s) < 16 then s\<lparr>streamIP := streamIP s @ [word_of_nat key]\<rparr> else s)
      else (False, s))"

subsection \<open>The second scene: waiting for the server\<close>

record loading_scene = scene +
  myLife :: rat

definition SceneLoading :: loading_scene where
  "SceneLoading = scene.extend Scene \<lparr>myLife = 0\<rparr>"

definition LoadingStart :: "loading_scene \<Rightarrow> loading_scene" where
  "LoadingStart s = s\<lparr>myLife := 20\<rparr>"

text \<open>Whether the waiting is over, which makes the framework go back.\<close>

definition LoadingUpdate :: "rat \<Rightarrow> loading_scene \<Rightarrow> bool \<times> loading_scene" where
  "LoadingUpdate time_elapsed s =
     (let s1 = s\<lparr>myLife := fsub (myLife s) time_elapsed\<rparr> in (myLife s1 \<le> 0, s1))"

definition LoadingOnNetwork :: "packet \<Rightarrow> loading_scene \<Rightarrow> bool \<times> loading_scene" where
  "LoadingOnNetwork k s =
     (if SC_SIGNUP = Type k then (False, Complete s)
      else if SC_SIGNIN_FAILED = Type k then (True, s)
      else if CS_MOVE = Type k then (True, s)
      else (False, s))"

subsection \<open>The third scene: the game\<close>

record game_scene = scene +
  myPlayerCharacter :: "nat option"
  myLocalInstances :: "pid \<rightharpoonup> nat"

definition SceneGame :: game_scene where
  "SceneGame = scene.extend Scene \<lparr>myPlayerCharacter = None, myLocalInstances = Map.empty\<rparr>"

definition GameReset :: "game_scene \<Rightarrow> game_scene" where
  "GameReset s = s\<lparr>myCamera := (0, 0)\<rparr>"

definition GameComplete :: "game_scene \<Rightarrow> game_scene" where
  "GameComplete s = Complete (s\<lparr>myCamera := (0, 0), myLocalInstances := Map.empty\<rparr>)"

definition GameAppear :: "pid \<Rightarrow> packet \<Rightarrow> game_scene \<Rightarrow> game_scene" where
  "GameAppear my_id k s = (case myLocalInstances s (playerID k) of
      Some i \<Rightarrow> on_instance i (\<lambda>e. Show (EntityStart (set_fields k e))) s
    | None \<Rightarrow>
        let place = length (myInstances s);
            s1 = AddInstance (EntityStart (set_fields k (GameEntity (IsPlayer (playerID k))))) s;
            s2 = (if IsPlayer (playerID k) \<and> myPlayerCharacter s = None \<and> playerID k = my_id
              then s1\<lparr>myPlayerCharacter := Some place\<rparr> else s1)
        in s2\<lparr>myLocalInstances := (myLocalInstances s)(playerID k \<mapsto> place)\<rparr>)"

definition GameDisappear :: "packet \<Rightarrow> game_scene \<Rightarrow> game_scene" where
  "GameDisappear k s = (case myLocalInstances s (playerID k) of
      Some i \<Rightarrow> (on_instance i Hide s)
        \<lparr>myLocalInstances := (myLocalInstances s)(playerID k := None)\<rparr>
    | None \<Rightarrow> s)"

definition GameMove :: "packet \<Rightarrow> game_scene \<Rightarrow> game_scene" where
  "GameMove k s = (case (myLocalInstances s (playerID k), body k) of
      (Some i, BMoveChar x y d t) \<Rightarrow> on_instance i (\<lambda>e. e\<lparr>e_x := x, e_y := y\<rparr>) s
    | _ \<Rightarrow> s)"

definition GameOnNetwork :: "pid \<Rightarrow> packet \<Rightarrow> game_scene \<Rightarrow> bool \<times> game_scene" where
  "GameOnNetwork my_id k s =
     (if Type k = SC_SIGNUP then (True, s)
      else if Type k = CS_MOVE then (True, s)
      else if Type k = SC_CREATE_PLAYER then (True, s)
      else if Type k = SC_APPEAR_OBJ then (True, GameAppear my_id k s)
      else if Type k = SC_DISAPPEAR_OBJ then (True, GameDisappear k s)
      else if Type k = SC_MOVE_OBJ then (True, GameMove k s)
      else if Type k \<in> {SC_STAT_OBJ, CS_ATTACK_NONTARGET, CS_ATTACK_TARGET, CS_ATTACK_PLACE,
        CS_SKILL_0, CS_SKILL_1, CS_CHAT} then (True, s)
      else (False, s))"

subsection \<open>Drawing\<close>

text \<open>What a scene asks to be drawn: the ground, an image, the number of an object.\<close>

datatype drawing =
  DrawRect int int int int
| DrawSprite sprite rat rat
| DrawID u32 int int

text \<open>An object shows its image, if it has one, and its number; \<open>ax\<close> and \<open>ay\<close> move it.\<close>

definition RenderEntity :: "rat \<Rightarrow> rat \<Rightarrow> entity \<Rightarrow> drawing list" where
  "RenderEntity ax ay e =
     (if \<not> e_visible e then []
      else
        let dx = fadd (of_int (to_int32 (fadd ax (e_x e)))) (CELL_W / 2);
            dy = fadd (of_int (to_int32 (fadd ay (e_y e)))) (CELL_H / 2)
        in (case e_sprite e of None \<Rightarrow> [] | Some picture \<Rightarrow> [DrawSprite picture dx dy])
          @ [DrawID (word_of_int (e_id e)) (to_int32 dx) (to_int32 dy + 16)])"

definition SceneRender :: "'a scene_scheme \<Rightarrow> drawing list" where
  "SceneRender s =
     concat (map (RenderEntity (- fst (myCamera s)) (- snd (myCamera s))) (myInstances s))"

definition GameRender :: "game_scene \<Rightarrow> drawing list \<times> game_scene" where
  "GameRender s =
     (let s1 = (case myPlayerCharacter s of None \<Rightarrow> s | Some i \<Rightarrow> UpdateCamera (myInstances s ! i) s);
          cam_pos = myCamera s1
      in (DrawRect (to_int32 (fsub 40 (fst cam_pos))) (to_int32 (fsub 80 (snd cam_pos))) 300 300
          # SceneRender s1, s1))"

text \<open>The direction an arrow key, or a letter key, asks for.\<close>

definition GameKeyDown :: "nat \<Rightarrow> move_type option" where
  "GameKeyDown key =
     (if key = VK_LEFT then Some MV_LEFT else if key = VK_RIGHT then Some MV_RIGHT
      else if key = VK_UP then Some MV_UP else if key = VK_DOWN then Some MV_DOWN else None)"

definition GameKeyUp :: "nat \<Rightarrow> move_type option" where
  "GameKeyUp key =
     (if key = 65 then Some MV_LEFT else if key = 68 then Some MV_RIGHT
      else if key = 87 then Some MV_UP else if key = 83 then Some MV_DOWN else None)"

end
