(* ===== verification/ClientApp.thy ===== *)
theory ClientApp
  imports ClientScenes
begin

section \<open>The client's framework\<close>

text \<open>
  \<open>WorldClient/Framework\<close> and \<open>Main\<close>: the stages and the iterator through them, the queue of
  packets that wait for a scene, the reaction to each window message and to the completions of
  the socket. A scene is named by its class. \<open>std::vector::back\<close> is the end of the list.
\<close>

datatype scene_id = MAIN | LOADING | GAME

definition scene_name :: "scene_id \<Rightarrow> string" where
  "scene_name s = (case s of MAIN \<Rightarrow> ''SceneMain'' | LOADING \<Rightarrow> ''SceneLoading'' | GAME \<Rightarrow> ''SceneGame'')"

text \<open>
  \<open>myStageIterator\<close> runs backwards over \<open>myStages\<close>: at \<open>Some r\<close> it stands at the \<open>r\<close>th stage
  from the end. It has no value before \<open>Start\<close>.
\<close>

record client_app =
  myNetwork :: client_net
  myTasks :: "packet list"
  myScenes :: "string \<rightharpoonup> scene_id"
  myStages :: "scene_id list"
  myStageIterator :: "nat option"
  myState :: "scene_id option"
  app_isPaused :: bool
  main_s :: main_scene
  loading_s :: loading_scene
  game_s :: game_scene

definition Framework :: "client_net \<Rightarrow> client_app" where
  "Framework network = \<lparr>myNetwork = network, myTasks = [], myScenes = Map.empty, myStages = [],
     myStageIterator = None, myState = None, app_isPaused = False, main_s = SceneMain,
     loading_s = SceneLoading, game_s = SceneGame\<rparr>"

subsection \<open>Stages\<close>

definition Register :: "scene_id \<Rightarrow> client_app \<Rightarrow> client_app" where
  "Register s a = (case myScenes a (scene_name s) of
      None \<Rightarrow> a\<lparr>myScenes := (myScenes a)(scene_name s \<mapsto> s)\<rparr> | Some _ \<Rightarrow> a)"

definition Push :: "scene_id \<Rightarrow> client_app \<Rightarrow> client_app" where
  "Push s a = (let a1 = Register s a in a1\<lparr>myStages := myStages a1 @ [s]\<rparr>)"

definition AddRoom :: "scene_id \<Rightarrow> client_app \<Rightarrow> client_app" where
  "AddRoom s a = Register s (Push s a)"

definition GetScene :: "string \<Rightarrow> client_app \<Rightarrow> scene_id res" where
  "GetScene n a = (case myScenes a n of None \<Rightarrow> Inl OutOfRange | Some s \<Rightarrow> Inr s)"

definition at_stage :: "nat \<Rightarrow> client_app \<Rightarrow> scene_id res" where
  "at_stage r a = (if r < length (myStages a) then Inr (rev (myStages a) ! r) else Inl EndIterator)"

definition Pop :: "client_app \<Rightarrow> (scene_id \<times> client_app) res" where
  "Pop a = (case myStageIterator a of
      None \<Rightarrow> Inl EndIterator
    | Some r \<Rightarrow> rbind (at_stage r a) (\<lambda>s. Inr (s, a\<lparr>myStageIterator := Some (Suc r)\<rparr>)))"

text \<open>\<open>myState->Start()\<close>; only the scene that waits does anything there.\<close>

definition scene_start :: "scene_id \<Rightarrow> client_app \<Rightarrow> client_app" where
  "scene_start s a = (if s = LOADING then a\<lparr>loading_s := LoadingStart (loading_s a)\<rparr> else a)"

definition JumpToNextScene :: "client_app \<Rightarrow> (bool \<times> client_app) res" where
  "JumpToNextScene a =
     (if 0 < length (myStages a) \<and> myStageIterator a \<noteq> Some (length (myStages a)) then
        rbind (Pop a) (\<lambda>(s, a1). Inr (True, scene_start s (a1\<lparr>myState := Some s\<rparr>)))
      else Inr (False, a))"

definition JumpToPrevScene :: "client_app \<Rightarrow> (bool \<times> client_app) res" where
  "JumpToPrevScene a =
     (if 0 < length (myStages a) \<and> myStageIterator a \<noteq> Some 0 then
        case myStageIterator a of
          None \<Rightarrow> Inl EndIterator
        | Some r \<Rightarrow> rbind (at_stage (r - 1) a) (\<lambda>s.
            Inr (True, scene_start s (a\<lparr>myStageIterator := Some (r - 1), myState := Some s\<rparr>)))
      else Inr (False, a))"

text \<open>The first stage of the given name, in the order of the iterator; its end if there is none.\<close>

definition find_stage :: "string \<Rightarrow> client_app \<Rightarrow> nat" where
  "find_stage n a = length (takeWhile (\<lambda>s. scene_name s \<noteq> n) (rev (myStages a)))"

definition JumpTo :: "string \<Rightarrow> client_app \<Rightarrow> (bool \<times> client_app) res" where
  "JumpTo n a = rbind (GetScene n a) (\<lambda>_.
     let it = find_stage n a
     in if Some it = myStageIterator a then Inr (True, a)
        else rbind (at_stage it a) (\<lambda>s.
          Inr (True, scene_start s (a\<lparr>myStageIterator := Some it, myState := Some s\<rparr>))))"

definition FrameworkStart :: "client_app \<Rightarrow> client_app res" where
  "FrameworkStart a =
     (if 0 < length (myStages a) then
        let a1 = a\<lparr>myStages := rev (myStages a), myStageIterator := Some 0\<rparr>
        in rbind (Pop a1) (\<lambda>(s, a2). Inr (scene_start s (a2\<lparr>myState := Some s\<rparr>)))
      else Inr a)"

subsection \<open>Tasks\<close>

definition AddTask :: "packet \<Rightarrow> client_app \<Rightarrow> client_app" where
  "AddTask k a = a\<lparr>myTasks := k # myTasks a\<rparr>"

definition GetLastTask :: "client_app \<Rightarrow> packet option" where
  "GetLastTask a = (if 0 < length (myTasks a) then Some (last (myTasks a)) else None)"

definition PopTask :: "client_app \<Rightarrow> client_app" where
  "PopTask a = a\<lparr>myTasks := butlast (myTasks a)\<rparr>"

definition FrameworkOnNetwork :: "packet list \<Rightarrow> client_app \<Rightarrow> client_app" where
  "FrameworkOnNetwork packets a = fold AddTask packets a"

definition GetMyID :: "client_app \<Rightarrow> pid" where "GetMyID a = myID (myNetwork a)"

definition FrameworkConnect :: "client_os \<Rightarrow> bytes \<Rightarrow> client_app \<Rightarrow> client_app res" where
  "FrameworkConnect co ip a = rbind (NetworkStart co ip (myNetwork a)) (\<lambda>n.
     rbind (NetworkUpdate co n) (\<lambda>n1. Inr (a\<lparr>myNetwork := n1\<rparr>)))"

definition FrameworkPause :: "client_app \<Rightarrow> client_app" where
  "FrameworkPause a = a\<lparr>app_isPaused := True\<rparr>"
definition FrameworkResume :: "client_app \<Rightarrow> client_app" where
  "FrameworkResume a = a\<lparr>app_isPaused := False\<rparr>"
definition FrameworkTryPause :: "client_app \<Rightarrow> bool \<times> client_app" where
  "FrameworkTryPause a = (if \<not> app_isPaused a then (True, FrameworkPause a) else (False, a))"

subsection \<open>The current scene\<close>

text \<open>\<open>myState->Update\<close>: only the scene that waits does anything, and goes back when it is over.\<close>

definition scene_update :: "rat \<Rightarrow> scene_id \<Rightarrow> client_app \<Rightarrow> client_app res" where
  "scene_update elapsed_time s a =
     (if s = LOADING then
        let (over, l) = LoadingUpdate elapsed_time (loading_s a); a1 = a\<lparr>loading_s := l\<rparr>
        in if over then rbind (JumpToPrevScene a1) (\<lambda>(_, a2). Inr a2) else Inr a1
      else Inr a)"

definition scene_completed :: "scene_id \<Rightarrow> client_app \<Rightarrow> bool" where
  "scene_completed s a = (case s of MAIN \<Rightarrow> IsCompleted (main_s a)
     | LOADING \<Rightarrow> IsCompleted (loading_s a) | GAME \<Rightarrow> IsCompleted (game_s a))"

definition scene_on_network :: "scene_id \<Rightarrow> packet \<Rightarrow> client_app \<Rightarrow> bool \<times> client_app" where
  "scene_on_network s k a = (case s of
      MAIN \<Rightarrow> (let (done, m) = MainOnNetwork k (main_s a) in (done, a\<lparr>main_s := m\<rparr>))
    | LOADING \<Rightarrow> (let (done, l) = LoadingOnNetwork k (loading_s a) in (done, a\<lparr>loading_s := l\<rparr>))
    | GAME \<Rightarrow> (let (done, g) = GameOnNetwork (GetMyID a) k (game_s a) in (done, a\<lparr>game_s := g\<rparr>)))"

text \<open>The last task goes to the scene and is dropped when the scene is done with it.\<close>

definition offer_task :: "client_app \<Rightarrow> client_app" where
  "offer_task a = (case (myState a, GetLastTask a) of
      (Some s, Some packet) \<Rightarrow>
        let (done, a1) = scene_on_network s packet a in if done then PopTask a1 else a1
    | _ \<Rightarrow> a)"

definition advance_scene :: "client_app \<Rightarrow> client_app res" where
  "advance_scene a = (case myState a of
      None \<Rightarrow> Inl NullDeref
    | Some s \<Rightarrow> if scene_completed s a then rbind (JumpToNextScene a) (\<lambda>(_, a1). Inr a1) else Inr a)"

definition FrameworkUpdate :: "rat \<Rightarrow> client_app \<Rightarrow> client_app res" where
  "FrameworkUpdate elapsed_time a = (case myState a of
      None \<Rightarrow> Inr a
    | Some s \<Rightarrow> rbind (scene_update elapsed_time s a) (\<lambda>a1.
        rbind (advance_scene a1) (\<lambda>a2. Inr (offer_task a2))))"

text \<open>\<open>OnKeyDown\<close> and \<open>OnKeyUp\<close> of the current scene; the answers of the sends are dropped.\<close>

definition FrameworkOnKeyDown :: "client_os \<Rightarrow> nat \<Rightarrow> client_app \<Rightarrow> client_app res" where
  "FrameworkOnKeyDown co key a = (case myState a of
      Some MAIN \<Rightarrow>
        let (go, m) = MainOnKeyDown key (main_s a); a1 = a\<lparr>main_s := m\<rparr>
        in if go then FrameworkConnect co (streamIP m) a1 else Inr a1
    | Some GAME \<Rightarrow> (case GameKeyDown key of
        None \<Rightarrow> Inr a
      | Some dir \<Rightarrow> Inr (a\<lparr>myNetwork := snd (SendMoveDir co dir (myNetwork a))\<rparr>))
    | _ \<Rightarrow> Inr a)"

definition FrameworkOnKeyUp :: "client_os \<Rightarrow> nat \<Rightarrow> client_app \<Rightarrow> client_app res" where
  "FrameworkOnKeyUp co key a = (case myState a of
      Some GAME \<Rightarrow> (case GameKeyUp key of
        None \<Rightarrow> Inr a
      | Some dir \<Rightarrow> Inr (a\<lparr>myNetwork := snd (SendAttack co dir (myNetwork a))\<rparr>))
    | _ \<Rightarrow> Inr a)"

definition FrameworkRender :: "client_app \<Rightarrow> drawing list \<times> client_app" where
  "FrameworkRender a = (case myState a of
      Some GAME \<Rightarrow> (let (drawn, g) = GameRender (game_s a) in (drawn, a\<lparr>game_s := g\<rparr>))
    | _ \<Rightarrow> ([], a))"

subsection \<open>The process\<close>

text \<open>
  A window message, or the completion of a send or a receive. A completion says whether an error
  is reported, and whether \<open>WSAGetLastError\<close> answers \<open>WSA_IO_PENDING\<close>. Messages the client does
  nothing with are left out.
\<close>

datatype client_event =
  WM_CREATE
| WM_TIMER
| WM_KEYDOWN nat
| WM_KEYUP nat
| WM_PAINT
| RecvDone bool bool bytes
| SendDone bool bool client_asynchron u32

definition CallbackRecv ::
  "nat \<Rightarrow> client_os \<Rightarrow> bool \<Rightarrow> bool \<Rightarrow> bytes \<Rightarrow> client_app \<Rightarrow> client_app res" where
  "CallbackRecv fuel co error pending data a =
     (let bytes = word_of_nat (length data); n = client_deliver data (myNetwork a);
          n1 = (if (error \<or> bytes = 0) \<and> \<not> pending then c_emit (CDisplay []) n else n)
      in rbind (OnReceive fuel co bytes n1) (\<lambda>(packets, n2).
           Inr (FrameworkOnNetwork packets (a\<lparr>myNetwork := n2\<rparr>))))"

text \<open>A failed send throws, and nothing catches it.\<close>

definition CallbackSend ::
  "bool \<Rightarrow> bool \<Rightarrow> client_asynchron \<Rightarrow> u32 \<Rightarrow> client_app \<Rightarrow> client_app res" where
  "CallbackSend error pending overlap bytes a =
     (if (error \<or> bytes = 0) \<and> \<not> pending then Inl Exited
      else rbind (OnSend overlap bytes) (\<lambda>packets. Inr (FrameworkOnNetwork packets a)))"

text \<open>\<open>SetTimer\<close> at the end of the creation makes the system send the timer's messages.\<close>

definition myProcedure :: "nat \<Rightarrow> client_os \<Rightarrow> client_event \<Rightarrow> client_app \<Rightarrow> client_app res" where
  "myProcedure fuel co e a = (case e of
      WM_CREATE \<Rightarrow> rbind (NetworkAwake co (myNetwork a)) (\<lambda>n. FrameworkStart (a\<lparr>myNetwork := n\<rparr>))
    | WM_TIMER \<Rightarrow> FrameworkUpdate (f32 (1 / 100)) a
    | WM_KEYDOWN key \<Rightarrow> FrameworkOnKeyDown co key a
    | WM_KEYUP key \<Rightarrow> FrameworkOnKeyUp co key a
    | WM_PAINT \<Rightarrow> Inr (snd (FrameworkRender a))
    | RecvDone error pending data \<Rightarrow> CallbackRecv fuel co error pending data a
    | SendDone error pending overlap bytes \<Rightarrow> CallbackSend error pending overlap bytes a)"

text \<open>The rooms \<open>wWinMain\<close> adds before it creates the window, and then its message loop.\<close>

definition client_rooms :: client_app where
  "client_rooms = AddRoom GAME (AddRoom LOADING (AddRoom MAIN (Framework Network)))"

definition client_run :: "nat \<Rightarrow> client_os \<Rightarrow> client_event list \<Rightarrow> client_app \<Rightarrow> client_app res" where
  "client_run fuel co es a = foldR (myProcedure fuel co) es a"

end
