(* ===== verification/ClientFraming.thy ===== *)
theory ClientFraming
  imports ClientApp
begin

section \<open>What the client makes of the bytes it receives\<close>

text \<open>
  Bytes that arrive in whole packets are cut into these packets, and the packets the client
  knows are handed on in their order, as the server's loop does with the bytes of a client.
\<close>

text \<open>The buffer of a client that looks at its beginning holds \<open>bs\<close>.\<close>

definition c_buffered :: "client_net \<Rightarrow> bytes \<Rightarrow> bool" where
  "c_buffered n bs \<longleftrightarrow> c_buf n = Some 0 \<and> length (c_recvCBuffer n) = BUFSIZ \<and> length bs \<le> BUFFSZ
     \<and> take (length bs) (c_recvCBuffer n) = bs \<and> c_recvBytes n = word_of_nat (length bs)"

definition whole :: "packet \<Rightarrow> bool" where
  "whole k \<longleftrightarrow> wf_packet k \<and> size_is_exact k"

definition set_received :: "bytes \<Rightarrow> u32 \<Rightarrow> client_net \<Rightarrow> client_net" where
  "set_received mem r n = n\<lparr>c_recvCBuffer := mem, c_recvBytes := r\<rparr>"

lemma set_received_fields [simp]:
  "c_recvCBuffer (set_received mem r n) = mem" "c_recvBytes (set_received mem r n) = r"
  "c_buf (set_received mem r n) = c_buf n" "myID (set_received mem r n) = myID n"
  "set_received mem r (set_received mem' r' n) = set_received mem r n"
  by (simp_all add: set_received_def)

lemma set_received_self: "set_received (c_recvCBuffer n) (c_recvBytes n) n = n"
  by (simp add: set_received_def)

lemma net_effect_set_received:
  "net_effect k (set_received mem r n) = rbind (net_effect k n) (\<lambda>m. Inr (set_received mem r m))"
  by (cases "Type k"; cases "body k")
     (simp_all add: net_effect_def set_received_def NetRegisterPlayer_def NetRemovePlayer_def Let_def)

lemma foldR_net_effect_set_received:
  "foldR net_effect ks (set_received mem r n)
    = rbind (foldR net_effect ks n) (\<lambda>m. Inr (set_received mem r m))"
proof (induction ks arbitrary: n)
  case Nil
  then show ?case by simp
next
  case (Cons k ks)
  then show ?case by (cases "net_effect k n") (simp_all add: net_effect_set_received)
qed

lemma net_effect_buf: "net_effect k n = Inr m \<Longrightarrow> c_buf m = c_buf n \<and> c_recvCBuffer m = c_recvCBuffer n
    \<and> c_recvBytes m = c_recvBytes n"
  by (cases "Type k"; cases "body k")
     (auto simp: net_effect_def NetRegisterPlayer_def NetRemovePlayer_def Let_def split: if_splits)

lemma whole_length:
  assumes "whole k"
  shows "length (packet_bytes v k) = unat (Size k)" and "18 \<le> unat (Size k)"
  using assms by (auto simp: whole_def wf_packet_def size_is_exact_def length_packet_bytes
      length_body_bytes sizeof_Packet_def)

lemma c_buffered_bytes:
  assumes "c_buffered n bs"
  shows "\<exists>junk. client_bytes n = bs @ junk" and "length (client_bytes n) = BUFSIZ"
    and "unat (c_recvBytes n) = length bs"
  using assms append_take_drop_id [of "length bs" "c_recvCBuffer n"]
  by (auto simp: c_buffered_def client_bytes_def const_simps unat_of_nat, metis)

lemma client_consume_buffered:
  assumes b: "c_buffered n (xs @ ys)" and l: "length xs = unat sz_want"
  shows "\<exists>mem r. client_consume sz_want n = Inr (set_received mem r n)
    \<and> c_buffered (set_received mem r n) ys"
proof -
  let ?r = "c_recvBytes n - ucast sz_want" let ?mem = "c_recvCBuffer n"
  have b': "c_buf n = Some 0" "length ?mem = BUFSIZ" "length xs + length ys \<le> BUFFSZ"
    "take (length xs + length ys) ?mem = xs @ ys" "c_recvBytes n = word_of_nat (length xs + length ys)"
    using b by (simp_all add: c_buffered_def)
  have r: "?r = word_of_nat (length ys)"
    unfolding b'(5) of_nat_add l by (simp add: unsigned_ucast_eq)
  have z: "0 < ?r \<longleftrightarrow> ys \<noteq> []"
    unfolding r using b'(3) by (auto simp: word_less_nat_alt unat_of_nat const_simps)
  show ?thesis
  proof (cases "ys = []")
    case True
    then have "client_consume sz_want n = Inr (set_received ?mem ?r n)"
      using z by (simp add: client_consume_def Let_def set_received_def)
    moreover have "c_buffered (set_received ?mem ?r n) ys"
      using b' r True by (simp add: c_buffered_def)
    ultimately show ?thesis by blast
  next
    case False
    let ?m = "take (BUFFSZ - length xs) (drop (length xs) ?mem) @ drop (BUFFSZ - length xs) ?mem"
    have "client_consume sz_want n = Inr (set_received ?m ?r n)"
      using z False b'(1-3) l
      by (simp add: client_consume_def ClientMoveStream_def Let_def set_received_def BUFSIZ_def const_simps)
    moreover have "take (length ys) ?m = ys"
    proof -
      have "take (length ys) (drop (length xs) ?mem) = ys"
        using b'(4) by (simp add: take_drop add.commute)
      then show ?thesis using b'(2,3) by (simp add: BUFSIZ_def const_simps min_absorb1)
    qed
    then have "c_buffered (set_received ?m ?r n) ys"
      using b' r by (simp add: c_buffered_def BUFSIZ_def const_simps)
    ultimately show ?thesis by blast
  qed
qed

declare client_loop.simps(2) [simp del]

lemma client_loop_stops:
  assumes "c_buffered n bs" and "unfinished bs"
  shows "client_loop (Suc fuel) ps n = Inr (ps, n)"
proof -
  obtain junk where j: "client_bytes n = bs @ junk" using c_buffered_bytes(1) [OF assms(1)] by blast
  note r = c_buffered_bytes(2,3) [OF assms(1)]
  have c: "c_buf n = Some 0" using assms(1) by (simp add: c_buffered_def)
  show ?thesis
  proof (cases "length bs < sizeof_Packet")
    case True
    then show ?thesis
      using r by (simp add: client_loop.simps Let_def word_less_nat_alt sizeof_Packet_def)
  next
    case False
    then have v: "view_size (bs @ junk) = view_size bs"
      by (simp add: view_size_def byte_at_def sizeof_Packet_def nth_append)
    then have "c_recvBytes n < ucast (view_size (client_bytes n))"
      using False assms(2) r j by (simp add: word_less_nat_alt unfinished_def unat_ucast_u8)
    then show ?thesis using r c
      by (simp add: client_loop.simps Let_def BUFSIZ_def sizeof_Packet_def)
  qed
qed

lemma client_packet_whole:
  assumes k: "whole k" and b: "c_buffered n (packet_bytes v k @ bs)" and e: "net_effect k n = Inr m"
  shows "client_packet n = Inr (if passed_on (Type k) then [k] else [], m)"
proof -
  obtain junk where j: "client_bytes n = packet_bytes v k @ (bs @ junk)"
    using c_buffered_bytes(1) [OF b] by auto
  have v: "view_packet (client_bytes n) = k"
    unfolding j using k by (intro view_packet_bytes) (simp add: whole_def)
  have "sizeof_Packet + sizeof_body (body k) \<le> length (client_bytes n)"
    using sizeof_body_bound [of "body k"] c_buffered_bytes(2) [OF b] by (simp add: BUFSIZ_def)
  moreover have "net_effect k n = Inr n" if "\<not> passed_on (Type k)"
    using that by (cases "Type k") (simp_all add: net_effect_def passed_on_def)
  ultimately show ?thesis using v e by (simp add: client_packet_def Let_def)
qed

lemma client_loop_frames:
  assumes "\<forall>k\<in>set ks. whole k" and "unfinished tail" and "foldR net_effect ks n = Inr m"
    and "c_buffered n (concat (map (packet_bytes v) ks) @ tail)"
    and "length ks < fuel"
  shows "\<exists>mem r. client_loop fuel ps n
      = Inr (ps @ filter (\<lambda>k. passed_on (Type k)) ks, set_received mem r m)
    \<and> c_buffered (set_received mem r m) tail"
  using assms
proof (induction ks arbitrary: n m ps fuel)
  case Nil
  then have "client_loop fuel ps n = Inr (ps, n)"
    using client_loop_stops [of n tail "fuel - 1" ps] by simp
  then show ?case using Nil
    by (intro exI [of _ "c_recvCBuffer n"] exI [of _ "c_recvBytes n"]) (simp add: set_received_self)
next
  case (Cons k ks)
  let ?more = "concat (map (packet_bytes v) ks) @ tail"
  have k: "whole k" and b: "c_buffered n (packet_bytes v k @ ?more)" using Cons.prems by simp_all
  obtain n1 where n1: "net_effect k n = Inr n1" "foldR net_effect ks n1 = Inr m"
    using Cons.prems(3) by (auto elim: rbind_InrE)
  obtain junk where j: "client_bytes n = packet_bytes v k @ (?more @ junk)"
    using c_buffered_bytes(1) [OF b] by auto
  note len = whole_length(1) [OF k, of v] whole_length(2) [OF k] and r = c_buffered_bytes(2,3) [OF b]
  have V: "view_size (client_bytes n) = Size k"
    unfolding j packet_bytes_header using k body_named_type by (auto simp: view_header whole_def wf_packet_def)
  note P = client_packet_whole [OF k b n1(1)]
  have b1: "c_buffered n1 (packet_bytes v k @ ?more)"
    using b net_effect_buf [OF n1(1)] by (simp add: c_buffered_def)
  obtain mem r1 where C: "client_consume (Size k) n1 = Inr (set_received mem r1 n1)"
      "c_buffered (set_received mem r1 n1) ?more"
    using client_consume_buffered [OF b1 len(1)] by blast
  have F: "foldR net_effect ks (set_received mem r1 n1) = Inr (set_received mem r1 m)"
    using n1(2) by (simp add: foldR_net_effect_set_received)
  have g: "\<not> c_recvBytes n < word_of_nat sizeof_Packet" "\<not> c_recvBytes n < ucast (Size k)"
    using r len by (simp_all add: word_less_nat_alt sizeof_Packet_def unat_ucast_u8)
  have c: "c_buf n = Some 0" using b by (simp add: c_buffered_def)
  let ?qs = "if passed_on (Type k) then [k] else []"
  obtain f where f: "fuel = Suc f" "length ks < f" using Cons.prems(5) by (cases fuel) auto
  have U: "client_loop fuel ps n = client_loop f (ps @ ?qs) (set_received mem r1 n1)"
    using g c r P C(1) V
    by (simp add: f(1) client_loop.simps(2) [of f ps n] Let_def BUFSIZ_def sizeof_Packet_def)
  obtain mem2 r2 where "client_loop f (ps @ ?qs) (set_received mem r1 n1)
        = Inr ((ps @ ?qs) @ filter (\<lambda>k. passed_on (Type k)) ks, set_received mem2 r2 m)"
      and "c_buffered (set_received mem2 r2 m) tail"
    using Cons.IH [OF _ Cons.prems(2) F C(2) f(2), of "ps @ ?qs"] Cons.prems(1) by auto
  then show ?case unfolding U by (intro exI [of _ mem2] exI [of _ r2]) simp
qed


subsection \<open>One completed receive\<close>

text \<open>A client that waits for packets, nothing of one received.\<close>

definition c_idle :: "client_net \<Rightarrow> bool" where
  "c_idle n \<longleftrightarrow> c_buf n = Some 0 \<and> c_len n = word_of_nat BUFFSZ \<and> c_recvBytes n = 0
     \<and> length (c_recvCBuffer n) = BUFSIZ"

text \<open>What the client knows of the world beside the bytes.\<close>

definition client_knows :: "client_net \<Rightarrow> bytes \<times> pid \<times> login_error \<times> pid set" where
  "client_knows n = (profileNickname n, myID n, myFailedReason n, myLocalClients n)"

lemma client_knows_simps [simp]:
  "client_knows (set_received mem r n) = client_knows n"
  "client_knows (snd (Receive co b n)) = client_knows n"
  "client_knows (c_emit e n) = client_knows n"
  "client_knows (client_deliver data n) = client_knows n"
  by (auto simp: client_knows_def set_received_def Receive_def c_emit_def client_deliver_def Let_def
      split: option.split)

lemma net_effect_knows:
  assumes "client_knows n = client_knows n'"
  shows "(case net_effect k n of Inl e \<Rightarrow> Inl e | Inr m \<Rightarrow> Inr (client_knows m))
    = (case net_effect k n' of Inl e \<Rightarrow> Inl e | Inr m \<Rightarrow> Inr (client_knows m))"
  using assms by (cases "Type k"; cases "body k")
     (auto simp: net_effect_def client_knows_def NetRegisterPlayer_def NetRemovePlayer_def Let_def)

lemma foldR_net_effect_knows:
  assumes "client_knows n = client_knows n'" and "foldR net_effect ks n = Inr m"
  shows "\<exists>m'. foldR net_effect ks n' = Inr m' \<and> client_knows m' = client_knows m"
  using assms
proof (induction ks arbitrary: n n')
  case Nil
  then show ?case by simp
next
  case (Cons k ks)
  then obtain n1 where n1: "net_effect k n = Inr n1" "foldR net_effect ks n1 = Inr m"
    by (auto elim: rbind_InrE)
  then obtain n2 where "net_effect k n' = Inr n2" "client_knows n1 = client_knows n2"
    using net_effect_knows [OF Cons.prems(1), of k] by (auto split: sum.splits)
  then show ?case using Cons.IH n1(2) by simp
qed

lemma c_idle_deliver:
  assumes "c_idle n" and "length data \<le> BUFFSZ"
  shows "c_buffered ((client_deliver data n)\<lparr>c_recvBytes := word_of_nat (length data)\<rparr>) data"
    and "c_recvBytes (client_deliver data n) = 0"
  using assms by (auto simp: c_idle_def c_buffered_def client_deliver_def Let_def BUFSIZ_def const_simps)

lemma on_receive_whole:
  assumes i: "c_idle n" and w: "\<forall>k\<in>set ks. whole k" and d: "data = concat (map (packet_bytes v) ks)"
    and l: "length data \<le> BUFFSZ" and m: "foldR net_effect ks n = Inr m" and f: "length ks < fuel"
  shows "\<exists>n'. OnReceive fuel co (word_of_nat (length data)) (client_deliver data n)
      = Inr (filter (\<lambda>k. passed_on (Type k)) ks, n')
    \<and> c_idle n' \<and> client_knows n' = client_knows m"
proof -
  let ?n = "(client_deliver data n)\<lparr>c_recvBytes := word_of_nat (length data)\<rparr>"
  have b: "c_buffered ?n (concat (map (packet_bytes v) ks) @ [])"
    using c_idle_deliver(1) [OF i l] d by simp
  have "client_knows n = client_knows ?n" by (simp add: client_knows_def client_deliver_def split: option.split)
  then obtain m' where m': "foldR net_effect ks ?n = Inr m'" "client_knows m' = client_knows m"
    using foldR_net_effect_knows m by blast
  have u: "unfinished []" by (simp add: unfinished_def sizeof_Packet_def)
  obtain mem r where L: "client_loop fuel [] ?n
        = Inr ([] @ filter (\<lambda>k. passed_on (Type k)) ks, set_received mem r m')"
      and B: "c_buffered (set_received mem r m') []"
    using client_loop_frames [OF w u m'(1) b f, of "[]"] by blast
  let ?x = "Receive co r (set_received mem r m')"
  have r0: "r = 0" and M: "length mem = BUFSIZ" using B by (auto simp: c_buffered_def)
  have "c_idle (snd ?x)" using r0 M
    by (simp add: c_idle_def Receive_def c_emit_def Let_def set_received_def)
  then have "c_idle (c_emit e (snd ?x))" for e by (simp add: c_idle_def c_emit_def)
  moreover have "OnReceive fuel co (word_of_nat (length data)) (client_deliver data n)
      = Inr (filter (\<lambda>k. passed_on (Type k)) ks,
          if fst ?x = IoError then c_emit (CDisplay []) (snd ?x) else snd ?x)"
    using L c_idle_deliver(2) [OF i l] by (simp add: OnReceive_def split_def)
  ultimately show ?thesis using m'(2) \<open>c_idle (snd ?x)\<close> by auto
qed

text \<open>C19: Packets that arrive whole in one receive come out of the client's network as they were
  sent: those of a type the client knows, in order, and the client's own identifier, its list of
  players and the reason of a failed sign-in are what the packets one by one make of them; the
  client then waits for the next packet, nothing left over.\<close>

theorem client_receives_whole_packets:
  assumes "c_idle n" and "\<forall>k\<in>set ks. whole k" and "data = concat (map (packet_bytes v) ks)"
    and "length data \<le> BUFFSZ" and "foldR net_effect ks n = Inr m" and "length ks < fuel"
  shows "\<exists>n'. OnReceive fuel co (word_of_nat (length data)) (client_deliver data n)
      = Inr (filter (\<lambda>k. passed_on (Type k)) ks, n')
    \<and> c_idle n' \<and> client_knows n' = client_knows m"
  using assms by (rule on_receive_whole)

definition demo_co :: client_os where
  "demo_co = \<lparr>c_startup = True, c_socket = Some 5, c_connect = (\<lambda>_. IoDone), c_send = (\<lambda>_. IoDone),
     c_recv = (\<lambda>_. IoPending)\<rparr>"

lemma client_receives_whole_packets_witness:
  "\<exists>n'. OnReceive 3 demo_co 44 (client_deliver (packet_bytes 9 (SCPacketSignUp 200000 1 2)
        @ packet_bytes 9 (SCPacketDisppearCharacter 7)) (snd (Receive demo_co 0 Network)))
      = Inr ([SCPacketSignUp 200000 1 2, SCPacketDisppearCharacter 7], n')
    \<and> c_idle n' \<and> myID n' = 200000"
proof -
  let ?k1 = "SCPacketSignUp 200000 1 2" let ?k2 = "SCPacketDisppearCharacter 7"
  let ?n = "snd (Receive demo_co 0 Network)"
  have wh: "\<forall>k\<in>set [?k1, ?k2]. whole k"
    by (simp add: whole_def wf_packet_def SCPacketDisppearCharacter_def SCPacketSignUp_def exact_sizes)
       (simp add: mk_packet_def in_range_def)
  have ty: "Type ?k1 = SC_SIGNUP" "Type ?k2 = SC_DISAPPEAR_OBJ" "playerID ?k1 = 200000"
    by (simp_all add: SCPacketDisppearCharacter_def SCPacketSignUp_def mk_packet_def)
  have l: "length (packet_bytes 9 ?k1) = 26" "length (packet_bytes 9 ?k2) = 18"
    by (simp_all add: length_packet_bytes SCPacketDisppearCharacter_def SCPacketSignUp_def mk_packet_def sizeof_Packet_def)
  have n: "c_idle ?n" "myID ?n = - 1"
    by (simp_all add: c_idle_def Receive_def c_emit_def Network_def Let_def)
  obtain m where m: "foldR net_effect [?k1, ?k2] ?n = Inr m" "myID m = 200000"
    using n(2) ty by (simp add: net_effect_def NetRegisterPlayer_def Let_def)
  have "myID n' = 200000" if "client_knows n' = client_knows m" for n'
    using that m(2) by (simp add: client_knows_def)
  then show ?thesis
    using client_receives_whole_packets [OF n(1) wh refl _ m(1), of 9 3 demo_co] l ty
    by (auto simp: passed_on_def const_simps)
qed

end
