(* ===== verification/ClientScreen.thy ===== *)
theory ClientScreen
  imports ClientFraming SightProps
begin

section \<open>What the client shows\<close>

text \<open>
  The game scene against a short specification: a finite map from the identifiers on the screen
  to their positions. The scene's objects, their visibility and the index of identifiers
  implement it, and what is drawn is what the map holds. With the invariant of the server's sight
  it follows that a client shows the view list the server keeps for it.
\<close>

text \<open>The specification: what a packet does to the screen.\<close>

definition display_at :: "packet \<Rightarrow> (pid \<rightharpoonup> rat \<times> rat) \<Rightarrow> (pid \<rightharpoonup> rat \<times> rat)" where
  "display_at k v = (case body k of
      BAppear c e d lv hp mhp mp mmp am x y \<Rightarrow> v(playerID k \<mapsto> (x, y))
    | BMoveChar x y d t \<Rightarrow> if v (playerID k) = None then v else v(playerID k \<mapsto> (x, y))
    | _ \<Rightarrow> if Type k = SC_DISAPPEAR_OBJ then v(playerID k := None) else v)"

definition place_of :: "entity \<Rightarrow> rat \<times> rat" where
  "place_of e = (e_x e, e_y e)"

definition screen :: "game_scene \<Rightarrow> (pid \<rightharpoonup> rat \<times> rat)" where
  "screen g i = map_option (\<lambda>j. place_of (myInstances g ! j)) (myLocalInstances g i)"

text \<open>The index names the visible objects, each by its identifier.\<close>

definition scene_ok :: "game_scene \<Rightarrow> bool" where
  "scene_ok g \<longleftrightarrow>
     (\<forall>i j. myLocalInstances g i = Some j \<longrightarrow> j < length (myInstances g)
        \<and> e_id (myInstances g ! j) = i \<and> e_visible (myInstances g ! j))
     \<and> (\<forall>j < length (myInstances g). e_visible (myInstances g ! j) \<longrightarrow>
          myLocalInstances g (e_id (myInstances g ! j)) = Some j)"

definition drawn :: "game_scene \<Rightarrow> pid set" where
  "drawn g = {e_id e | e. e \<in> set (myInstances g) \<and> (\<forall>ax ay. RenderEntity ax ay e \<noteq> [])}"

lemma drawn_screen:
  assumes "scene_ok g"
  shows "drawn g = dom (screen g)"
proof -
  have r: "RenderEntity ax ay e \<noteq> [] \<longleftrightarrow> e_visible e" for ax ay e
    by (simp add: RenderEntity_def Let_def)
  show ?thesis
  proof (rule set_eqI)
    fix i
    show "i \<in> drawn g \<longleftrightarrow> i \<in> dom (screen g)"
    proof
      assume "i \<in> drawn g"
      then obtain j where "j < length (myInstances g)" "e_visible (myInstances g ! j)"
          "i = e_id (myInstances g ! j)" by (auto simp: drawn_def r in_set_conv_nth)
      then show "i \<in> dom (screen g)" using assms by (auto simp: scene_ok_def screen_def dom_def)
    next
      assume "i \<in> dom (screen g)"
      then obtain j where "myLocalInstances g i = Some j" by (auto simp: screen_def)
      then have "j < length (myInstances g)" "e_visible (myInstances g ! j)" "e_id (myInstances g ! j) = i"
        using assms by (auto simp: scene_ok_def)
      then show "i \<in> drawn g" unfolding drawn_def r using nth_mem by blast
    qed
  qed
qed

lemma scene_ok_index:
  assumes "scene_ok g" and "myLocalInstances g i = Some j"
  shows "j < length (myInstances g)" and "e_id (myInstances g ! j) = i" and "e_visible (myInstances g ! j)"
    and "myLocalInstances g i' = Some j \<Longrightarrow> i' = i"
  using assms unfolding scene_ok_def by blast+

lemma scene_ok_visible:
  assumes "scene_ok g" and "j < length (myInstances g)" and "e_visible (myInstances g ! j)"
  shows "myLocalInstances g (e_id (myInstances g ! j)) = Some j"
  using assms unfolding scene_ok_def by blast

lemma scene_okI:
  assumes "\<And>i j. myLocalInstances g i = Some j \<Longrightarrow> j < length (myInstances g)
        \<and> e_id (myInstances g ! j) = i \<and> e_visible (myInstances g ! j)"
    and "\<And>j. j < length (myInstances g) \<Longrightarrow> e_visible (myInstances g ! j) \<Longrightarrow>
          myLocalInstances g (e_id (myInstances g ! j)) = Some j"
  shows "scene_ok g"
  using assms unfolding scene_ok_def by blast

lemma on_instance_fields [simp]:
  "myInstances (on_instance j f g) = (myInstances g)[j := f (myInstances g ! j)]"
  "myLocalInstances (on_instance j f g) = myLocalInstances g"
  by (simp_all add: on_instance_def)

text \<open>An object that keeps its identifier changes in place.\<close>

lemma on_instance_screen:
  assumes ok: "scene_ok g" and j: "myLocalInstances g i = Some j"
    and f: "e_id (f (myInstances g ! j)) = i" "e_visible (f (myInstances g ! j))"
  shows "scene_ok (on_instance j f g)"
    and "screen (on_instance j f g) = (screen g)(i \<mapsto> place_of (f (myInstances g ! j)))"
proof -
  note x = scene_ok_index [OF ok j]
  let ?l = "(myInstances g)[j := f (myInstances g ! j)]"
  show "scene_ok (on_instance j f g)"
  proof (rule scene_okI)
    fix i' j' assume "myLocalInstances (on_instance j f g) i' = Some j'"
    then have l: "myLocalInstances g i' = Some j'" by simp
    show "j' < length (myInstances (on_instance j f g)) \<and> e_id (myInstances (on_instance j f g) ! j') = i'
        \<and> e_visible (myInstances (on_instance j f g) ! j')"
      using l x(1) x(4) [of i'] f scene_ok_index(1,2,3) [OF ok l] by (cases "j' = j") simp_all
  next
    fix j' assume "j' < length (myInstances (on_instance j f g))" "e_visible (myInstances (on_instance j f g) ! j')"
    then show "myLocalInstances (on_instance j f g) (e_id (myInstances (on_instance j f g) ! j')) = Some j'"
      using f j scene_ok_visible [OF ok, of j'] by (cases "j' = j") simp_all
  qed
  have "screen (on_instance j f g) i' = ((screen g)(i \<mapsto> place_of (f (myInstances g ! j)))) i'" for i'
  proof (cases "i' = i")
    case True
    then show ?thesis using x(1) j by (simp add: screen_def)
  next
    case False
    then have "myLocalInstances g i' \<noteq> Some j" using x(4) by blast
    then show ?thesis using False by (cases "myLocalInstances g i'") (simp_all add: screen_def)
  qed
  then show "screen (on_instance j f g) = (screen g)(i \<mapsto> place_of (f (myInstances g ! j)))" by blast
qed

lemma set_fields_appear:
  assumes "body k = BAppear c e d lv hp mhp mp mmp am x y"
  shows "e_id (EntityStart (set_fields k o')) = playerID k"
    and "place_of (EntityStart (set_fields k o')) = (x, y)"
    and "e_visible (EntityStart (set_fields k o')) = e_visible o'"
  using assms by (auto simp: EntityStart_def set_fields_def place_of_def split: entity_type.split)

lemma game_appear:
  assumes ok: "scene_ok g" and b: "body k = BAppear c e d lv hp mhp mp mmp am x y"
  shows "scene_ok (GameAppear my_id k g) \<and> screen (GameAppear my_id k g) = (screen g)(playerID k \<mapsto> (x, y))"
proof (cases "myLocalInstances g (playerID k)")
  case (Some j)
  let ?f = "\<lambda>e. Show (EntityStart (set_fields k e))"
  have "e_id (?f o') = playerID k" "e_visible (?f o')" "place_of (?f o') = (x, y)" for o'
    using set_fields_appear [OF b, of o'] by (simp_all add: Show_def place_of_def)
  then show ?thesis using on_instance_screen [OF ok Some, of ?f] Some by (simp add: GameAppear_def)
next
  case None
  let ?e = "EntityStart (set_fields k (GameEntity (IsPlayer (playerID k))))" let ?g = "GameAppear my_id k g"
  have e: "e_id ?e = playerID k" "place_of ?e = (x, y)" "e_visible ?e"
    using set_fields_appear [OF b] by (simp_all add: GameEntity_def)
  have I: "myInstances ?g = myInstances g @ [?e]"
    and X: "myLocalInstances ?g = (myLocalInstances g)(playerID k \<mapsto> length (myInstances g))"
    using None by (simp_all add: GameAppear_def Let_def AddInstance_def)
  have v: "e_id (myInstances g ! j) \<noteq> playerID k" if "j < length (myInstances g)" "e_visible (myInstances g ! j)" for j
    using scene_ok_visible [OF ok that] None by force
  have "scene_ok ?g"
  proof (rule scene_okI)
    fix i j assume l: "myLocalInstances ?g i = Some j"
    show "j < length (myInstances ?g) \<and> e_id (myInstances ?g ! j) = i \<and> e_visible (myInstances ?g ! j)"
    proof (cases "i = playerID k")
      case False
      then have "myLocalInstances g i = Some j" using l by (simp add: X)
      then show ?thesis using scene_ok_index(1,2,3) [OF ok, of i j] by (simp add: I nth_append)
    qed (use l e in \<open>auto simp: X I nth_append\<close>)
  next
    fix j assume l: "j < length (myInstances ?g)" "e_visible (myInstances ?g ! j)"
    show "myLocalInstances ?g (e_id (myInstances ?g ! j)) = Some j"
    proof (cases "j = length (myInstances g)")
      case False
      then show ?thesis using l v [of j] scene_ok_visible [OF ok, of j] by (simp add: I X nth_append)
    qed (use e in \<open>simp add: I X\<close>)
  qed
  moreover have "screen ?g i = ((screen g)(playerID k \<mapsto> (x, y))) i" for i
    using e scene_ok_index(1) [OF ok, of i]
    by (cases "i = playerID k"; cases "myLocalInstances g i") (simp_all add: screen_def I X nth_append)
  ultimately show ?thesis by blast
qed

lemma game_disappear:
  assumes ok: "scene_ok g"
  shows "scene_ok (GameDisappear k g) \<and> screen (GameDisappear k g) = (screen g)(playerID k := None)"
proof (cases "myLocalInstances g (playerID k)")
  case None
  then show ?thesis using ok by (simp add: GameDisappear_def screen_def fun_eq_iff)
next
  case (Some j)
  let ?g = "GameDisappear k g"
  have I: "myInstances ?g = (myInstances g)[j := Hide (myInstances g ! j)]"
    and X: "myLocalInstances ?g = (myLocalInstances g)(playerID k := None)"
    using Some by (simp_all add: GameDisappear_def)
  note x = scene_ok_index [OF ok Some]
  have "scene_ok ?g"
  proof (rule scene_okI)
    fix i j' assume "myLocalInstances ?g i = Some j'"
    then have l: "i \<noteq> playerID k" "myLocalInstances g i = Some j'" by (simp_all add: X split: if_splits)
    then have "j' \<noteq> j" using x(4) by blast
    then show "j' < length (myInstances ?g) \<and> e_id (myInstances ?g ! j') = i \<and> e_visible (myInstances ?g ! j')"
      using scene_ok_index(1,2,3) [OF ok l(2)] by (simp add: I)
  next
    fix j' assume l: "j' < length (myInstances ?g)" "e_visible (myInstances ?g ! j')"
    then have j': "j' \<noteq> j" using x(1) by (auto simp: I Hide_def)
    then have l': "myLocalInstances g (e_id (myInstances g ! j')) = Some j'"
      using l by (intro scene_ok_visible [OF ok]) (simp_all add: I)
    then have "e_id (myInstances g ! j') \<noteq> playerID k" using j' Some by auto
    then show "myLocalInstances ?g (e_id (myInstances ?g ! j')) = Some j'" using j' l' by (simp add: I X)
  qed
  moreover have "screen ?g i = ((screen g)(playerID k := None)) i" for i
  proof (cases "i = playerID k")
    case False
    then have "myLocalInstances g i \<noteq> Some j" using x(4) by blast
    then show ?thesis using False by (cases "myLocalInstances g i") (simp_all add: screen_def I X)
  qed (simp add: screen_def X)
  ultimately show ?thesis by blast
qed

lemma game_move:
  assumes ok: "scene_ok g" and b: "body k = BMoveChar x y d t"
  shows "scene_ok (GameMove k g) \<and> screen (GameMove k g) = display_at k (screen g)"
proof (cases "myLocalInstances g (playerID k)")
  case None
  then show ?thesis using ok b by (simp add: GameMove_def display_at_def screen_def)
next
  case (Some j)
  let ?f = "\<lambda>e. e\<lparr>e_x := x, e_y := y\<rparr>"
  have v: "screen g (playerID k) \<noteq> None" using Some by (simp add: screen_def)
  have f: "e_id (?f (myInstances g ! j)) = playerID k" "e_visible (?f (myInstances g ! j))"
    using scene_ok_index(2,3) [OF ok Some] by simp_all
  have "GameMove k g = on_instance j ?f g" using Some b by (simp add: GameMove_def)
  then show ?thesis
    using on_instance_screen [OF ok Some, of ?f, OF f] v b by (auto simp: display_at_def place_of_def)
qed

lemma GameOnNetwork_cases:
  "Type k = SC_APPEAR_OBJ \<Longrightarrow> GameOnNetwork my_id k g = (True, GameAppear my_id k g)"
  "Type k = SC_DISAPPEAR_OBJ \<Longrightarrow> GameOnNetwork my_id k g = (True, GameDisappear k g)"
  "Type k = SC_MOVE_OBJ \<Longrightarrow> GameOnNetwork my_id k g = (True, GameMove k g)"
  "Type k \<notin> {SC_APPEAR_OBJ, SC_DISAPPEAR_OBJ, SC_MOVE_OBJ} \<Longrightarrow> snd (GameOnNetwork my_id k g) = g"
  by (simp_all add: GameOnNetwork_def)

lemma display_at_cases:
  "body k = BAppear c e d lv hp mhp mp mmp am x y \<Longrightarrow> display_at k v = v(playerID k \<mapsto> (x, y))"
  "body k = BNone \<Longrightarrow> Type k = SC_DISAPPEAR_OBJ \<Longrightarrow> display_at k v = v(playerID k := None)"
  "body_of_type (Type k) (body k) \<Longrightarrow> Type k \<notin> {SC_APPEAR_OBJ, SC_DISAPPEAR_OBJ, SC_MOVE_OBJ}
    \<Longrightarrow> display_at k v = v"
  by (simp_all add: display_at_def) (cases "body k"; simp)

lemma game_step:
  assumes ok: "scene_ok g" and "wf_packet k"
  shows "scene_ok (snd (GameOnNetwork my_id k g))
    \<and> screen (snd (GameOnNetwork my_id k g)) = display_at k (screen g)"
proof -
  have bt: "body_of_type (Type k) (body k)" using assms(2) by (simp add: wf_packet_def)
  consider "Type k = SC_APPEAR_OBJ" | "Type k = SC_DISAPPEAR_OBJ" | "Type k = SC_MOVE_OBJ"
    | "Type k \<notin> {SC_APPEAR_OBJ, SC_DISAPPEAR_OBJ, SC_MOVE_OBJ}" by blast
  then show ?thesis
  proof cases
    case 1
    then obtain c e d lv hp mhp mp mmp am x y where "body k = BAppear c e d lv hp mhp mp mmp am x y"
      using bt by (cases "body k") simp_all
    then show ?thesis using game_appear [OF ok, of k] 1 by (simp add: GameOnNetwork_cases display_at_cases(1))
  next
    case 2
    then have "body k = BNone" using bt by (cases "body k") simp_all
    then show ?thesis using game_disappear [OF ok, of k] 2 by (simp add: GameOnNetwork_cases display_at_cases(2))
  next
    case 3
    then obtain x y d t where "body k = BMoveChar x y d t" using bt by (cases "body k") simp_all
    then show ?thesis using game_move [OF ok, of k] 3 by (simp add: GameOnNetwork_cases)
  next
    case 4
    then show ?thesis using ok GameOnNetwork_cases(4) [OF 4, of my_id g] display_at_cases(3) [OF bt 4] by simp
  qed
qed

definition play :: "pid \<Rightarrow> packet list \<Rightarrow> game_scene \<Rightarrow> game_scene" where
  "play my_id ks g = fold (\<lambda>k g. snd (GameOnNetwork my_id k g)) ks g"

lemma play_steps:
  assumes "scene_ok g" and "\<forall>k\<in>set ks. wf_packet k"
  shows "scene_ok (play my_id ks g) \<and> screen (play my_id ks g) = fold display_at ks (screen g)"
  using assms
proof (induction ks arbitrary: g)
  case Nil
  then show ?case by (simp add: play_def)
next
  case (Cons k ks)
  then show ?case using game_step [OF Cons.prems(1), of k my_id] by (simp add: play_def)
qed

lemma SceneGame_fields [simp]:
  "myInstances SceneGame = []" "myLocalInstances SceneGame = Map.empty" "isCompleted SceneGame = False"
  by (simp_all add: SceneGame_def Scene_def scene.defs)

lemma SceneGame_ok [simp]: "scene_ok SceneGame" "screen SceneGame = Map.empty"
  by (simp_all add: scene_ok_def screen_def fun_eq_iff)

text \<open>C27: The game scene implements the screen it stands for: after any well-formed packets,
  the objects it draws are those the packets put on the screen - those that appeared and did not
  disappear - each at the place the last packet about it gave, and its index stays exact.\<close>

theorem game_shows_screen:
  assumes "scene_ok g" and "\<forall>k\<in>set ks. wf_packet k"
  shows "scene_ok (play my_id ks g)
    \<and> screen (play my_id ks g) = fold display_at ks (screen g)
    \<and> drawn (play my_id ks g) = dom (fold display_at ks (screen g))"
  using play_steps [OF assms, of my_id] drawn_screen by simp

definition hello :: "nat \<Rightarrow> packet" where
  "hello p = infobox_packet (myInfobox (demo_player p 11 (100, 100)))"

lemma hello_fields [simp]: "Type (hello p) = SC_APPEAR_OBJ" "playerID (hello p) = int p"
  by (simp_all add: hello_def infobox_packet_def mk_packet_def)

lemma hello_wf:
  assumes "p < 2 ^ 63"
  shows "wf_packet (hello p)"
  using assms is_f32_int [of 0] by (simp add: wf_packet_def hello_def infobox_packet_def mk_packet_def
      demo_player_def new_session_def new_infobox_def in_range_def fits_f32_def named_move_def
      named_category_def named_entity_def)

lemma game_shows_screen_witness:
  "drawn (play 200000 [hello 200000, hello 7, SCPacketMoveCharacter 7 50 60 MV_LEFT,
      SCPacketDisppearCharacter 200000] SceneGame) = {7}
    \<and> screen (play 200000 [hello 200000, hello 7, SCPacketMoveCharacter 7 50 60 MV_LEFT,
      SCPacketDisppearCharacter 200000] SceneGame) 7 = Some (50, 60)"
proof -
  let ?ks = "[hello 200000, hello 7, SCPacketMoveCharacter 7 50 60 MV_LEFT, SCPacketDisppearCharacter 200000]"
  have w: "\<forall>k\<in>set ?ks. wf_packet k"
    by (simp add: hello_wf) (simp add: wf_packet_def SCPacketMoveCharacter_def SCPacketDisppearCharacter_def
        mk_packet_def in_range_def fits_f32_def named_move_def)
  have b: "\<exists>c e d lv hp mhp mp mmp am. body (hello p) = BAppear c e d lv hp mhp mp mmp am 0 0" for p
    by (simp add: hello_def infobox_packet_def mk_packet_def demo_player_def new_session_def new_infobox_def)
  have h: "display_at (hello p) v = v(int p \<mapsto> (0, 0))" for p v
    using b [of p] by (auto simp: display_at_cases(1))
  have m: "display_at (SCPacketMoveCharacter i x y d) v = (if v i = None then v else v(i \<mapsto> (x, y)))"
    "display_at (SCPacketDisppearCharacter i) v = v(i := None)" for i x y d v
    by (simp_all add: display_at_def SCPacketMoveCharacter_def SCPacketDisppearCharacter_def mk_packet_def)
  have "fold display_at ?ks Map.empty = [7 \<mapsto> (50, 60)]"
    by (simp add: h m fun_eq_iff)
  then show ?thesis using game_shows_screen [OF SceneGame_ok(1) w, of 200000] by (simp del: fold_simps)
qed

subsection \<open>The client and the server together\<close>

text \<open>The packets sent to a socket, in order.\<close>

definition sent_to :: "socket \<Rightarrow> effect list \<Rightarrow> packet list" where
  "sent_to s es = concat (map (\<lambda>e. case e of
      ESend s' b a \<Rightarrow> (if s' = s then (case w_buf b of MPacket k \<Rightarrow> [k] | MRecv _ _ \<Rightarrow> []) else [])
    | _ \<Rightarrow> []) es)"

lemma told_sent_to: "told s es = fold display (sent_to s es) {}"
proof (induction es rule: rev_induct)
  case Nil
  then show ?case by (simp add: sent_to_def)
next
  case (snoc e es)
  then show ?case by (cases e) (auto simp: sent_to_def told_step_def split: memory.split)
qed

lemma dom_display_at:
  assumes "wf_packet k"
  shows "dom (display_at k v) = display k (dom v)"
proof -
  have "body_of_type (Type k) (body k)" using assms by (simp add: wf_packet_def)
  then show ?thesis by (cases "body k") (auto simp: display_at_def display_def split: if_splits)
qed

lemma dom_fold_display_at:
  "\<forall>k\<in>set ks. wf_packet k \<Longrightarrow> dom (fold display_at ks v) = fold display ks (dom v)"
  by (induction ks arbitrary: v) (simp_all add: dom_display_at)

lemma informed_screen:
  assumes "informed w q" and "\<forall>k\<in>set (sent_to (Socket (clientsPool w q)) (log w)). wf_packet k"
  shows "drawn (play my_id (sent_to (Socket (clientsPool w q)) (log w)) SceneGame) = myViewList (clientsPool w q)"
  using assms play_steps [OF SceneGame_ok(1) assms(2), of my_id] drawn_screen
  by (simp add: dom_fold_display_at informed_def told_sent_to)

text \<open>Client and server together: in every state that keeps the invariant of sight, a
  client whose game scene handled the packets the server sent to its socket draws exactly the
  entities of the view list the server keeps for it, however many times they came and went.\<close>

theorem client_shows_its_view:
  assumes "sight_inv w" and "player_at w q"
    and "\<forall>k\<in>set (sent_to (Socket (clientsPool w q)) (log w)). wf_packet k"
  shows "drawn (play my_id (sent_to (Socket (clientsPool w q)) (log w)) SceneGame)
    = myViewList (clientsPool w q)"
  using assms(1,2) unfolding sight_inv_def by (intro informed_screen [OF _ assms(3)]) blast

lemma client_shows_its_view_witness:
  "drawn (play 200000 (sent_to 11 (log (demo (100, 100) (300, 300)))) SceneGame) = {200000}"
proof -
  have L: "log (demo (100, 100) (300, 300))
      = [demo_hello 200000 11 (100, 100), demo_hello 200001 12 (300, 300)]" by (simp add: demo_def)
  have S: "sent_to 11 (log (demo (100, 100) (300, 300))) = [hello 200000]"
    unfolding L by (simp add: sent_to_def demo_hello_def Let_def CreateTicket_def hello_def)
  have "sight_inv (demo (100, 100) (300, 300))" by (rule demo_inv) (simp_all add: inside_def)
  moreover have "player_at (demo (100, 100) (300, 300)) 200000"
    by (simp add: player_at_def IsPlayer_def const_simps)
  ultimately show ?thesis
    using client_shows_its_view [of "demo (100, 100) (300, 300)" 200000 200000] S hello_wf [of 200000] by simp
qed

end
