(* ===== verification/ClientRuns.thy ===== *)
theory ClientRuns
  imports ClientScreen
begin

section \<open>Runs of the client\<close>

text \<open>
  The scenes and the queue of packets over a sequence of window messages and completions: the
  queue is emptied one packet a tick, a client that connects reaches the game, and a packet its
  scene does not take holds everything behind it for ever.
\<close>

subsection \<open>One tick in the game\<close>

definition game_takes :: "packet_type \<Rightarrow> bool" where
  "game_takes t \<longleftrightarrow> t \<in> {SC_SIGNUP, CS_MOVE, SC_CREATE_PLAYER, SC_APPEAR_OBJ, SC_DISAPPEAR_OBJ, SC_MOVE_OBJ,
     SC_STAT_OBJ, CS_ATTACK_NONTARGET, CS_ATTACK_TARGET, CS_ATTACK_PLACE, CS_SKILL_0, CS_SKILL_1, CS_CHAT}"

lemma game_takes_iff: "fst (GameOnNetwork my_id k g) \<longleftrightarrow> game_takes (Type k)"
  by (simp add: GameOnNetwork_def game_takes_def)

lemma game_ignores: "\<not> game_takes (Type k) \<Longrightarrow> GameOnNetwork my_id k g = (False, g)"
  by (simp add: GameOnNetwork_def game_takes_def)

lemma AddInstance_completed [simp]:
  "isCompleted (AddInstance e g) = isCompleted g" "isCompleted (on_instance i f g) = isCompleted g"
  by (simp_all add: AddInstance_def on_instance_def)

lemma game_not_completed [simp]: "isCompleted (snd (GameOnNetwork my_id k g)) = isCompleted g"
  by (simp add: GameOnNetwork_def GameAppear_def GameDisappear_def GameMove_def Let_def
      split: option.split packet_body.split)

text \<open>A client in the game, at the end of its stages.\<close>

definition in_game :: "client_app \<Rightarrow> bool" where
  "in_game a \<longleftrightarrow> myState a = Some GAME \<and> \<not> isCompleted (game_s a)"

lemma game_tick:
  assumes "in_game a"
  shows "FrameworkUpdate t a = Inr (offer_task a)"
  using assms by (simp add: FrameworkUpdate_def in_game_def scene_update_def advance_scene_def
      scene_completed_def IsCompleted_def)

lemma game_offer:
  assumes g: "in_game a" and ts: "myTasks a = ts @ [k]"
  shows "offer_task a = (if game_takes (Type k)
      then a\<lparr>myTasks := ts, game_s := snd (GameOnNetwork (GetMyID a) k (game_s a))\<rparr> else a)"
proof (cases "game_takes (Type k)")
  case True
  then obtain g where "GameOnNetwork (GetMyID a) k (game_s a) = (True, g)"
    using game_takes_iff [of "GetMyID a" k "game_s a"] by (metis prod.collapse)
  then show ?thesis using True assms
    by (simp add: offer_task_def in_game_def GetLastTask_def scene_on_network_def PopTask_def Let_def)
next
  case False
  then show ?thesis using g ts
    by (simp add: offer_task_def in_game_def GetLastTask_def scene_on_network_def game_ignores)
qed

lemma ticks_drain:
  assumes "in_game a" and "\<forall>k\<in>set ks. game_takes (Type k)" and "myTasks a = ts @ rev ks"
  shows "client_run fuel co (replicate (length ks) WM_TIMER) a
    = Inr (a\<lparr>myTasks := ts, game_s := play (GetMyID a) ks (game_s a)\<rparr>)"
  using assms
proof (induction ks arbitrary: a)
  case Nil
  then show ?case by (simp add: client_run_def play_def)
next
  case (Cons k ks)
  let ?a = "a\<lparr>myTasks := ts @ rev ks, game_s := snd (GameOnNetwork (GetMyID a) k (game_s a))\<rparr>"
  have "myProcedure fuel co WM_TIMER a = Inr ?a"
    using game_tick [OF Cons.prems(1)] game_offer [OF Cons.prems(1), of "ts @ rev ks" k] Cons.prems(2,3)
    by (simp add: myProcedure_def)
  moreover have "in_game ?a" using Cons.prems(1) by (simp add: in_game_def)
  ultimately show ?case
    using Cons.IH [of ?a] Cons.prems(2) by (simp add: client_run_def GetMyID_def play_def)
qed

text \<open>C29: The queue is emptied in order: a client in the game that holds packets its scene takes
  has handed all of them on, the oldest first, after as many ticks of its timer as there are
  packets, and its scene is what they make of it one after the other.\<close>

theorem queue_drains_in_order:
  assumes "in_game a" and "\<forall>k\<in>set (myTasks a). game_takes (Type k)"
  shows "client_run fuel co (replicate (length (myTasks a)) WM_TIMER) a
    = Inr (a\<lparr>myTasks := [], game_s := play (GetMyID a) (rev (myTasks a)) (game_s a)\<rparr>)"
  using ticks_drain [OF assms(1), of "rev (myTasks a)" "[]"] assms(2) by simp

lemma queue_drains_in_order_witness:
  "client_run 1 demo_co [WM_TIMER, WM_TIMER] ((Framework Network)\<lparr>myState := Some GAME,
      myTasks := [SCPacketDisppearCharacter 7, hello 7]\<rparr>)
    = Inr ((Framework Network)\<lparr>myState := Some GAME, myTasks := [],
        game_s := play (- 1) [hello 7, SCPacketDisppearCharacter 7] SceneGame\<rparr>)"
proof -
  let ?a = "(Framework Network)\<lparr>myState := Some GAME, myTasks := [SCPacketDisppearCharacter 7, hello 7]\<rparr>"
  have "in_game ?a" by (simp add: in_game_def Framework_def)
  moreover have "\<forall>k\<in>set (myTasks ?a). game_takes (Type k)"
    by (simp add: game_takes_def SCPacketDisppearCharacter_def mk_packet_def)
  ultimately show ?thesis
    using queue_drains_in_order [of ?a 1 demo_co]
    by (simp add: Framework_def Network_def GetMyID_def)
qed

subsection \<open>From the start to the game\<close>

definition co_works :: "client_os \<Rightarrow> bool" where
  "co_works co \<longleftrightarrow> c_startup co \<and> c_socket co \<noteq> None \<and> (\<forall>n. c_connect co n \<noteq> IoError)
     \<and> (\<forall>n. c_send co n \<noteq> IoError) \<and> (\<forall>n. c_recv co n \<noteq> IoError)"


text \<open>Return with the address of the client's own machine, the sign-in packet sent, two ticks.\<close>

definition sign_in_packet :: packet where
  "sign_in_packet = mk_packet CS_SIGNIN 0 (BSignIn (the (strcpy_s 30 (profileNickname Network))))"

definition connecting :: "client_event list" where
  "connecting = [WM_CREATE, WM_KEYDOWN VK_RETURN,
     SendDone False False (ClientSetSendBuffer \<lparr>w_buf = MPacket sign_in_packet, w_len = 48\<rparr>
       (ClientAsynchron ASYNC_SEND CS_SIGNIN)) 48, WM_TIMER, WM_TIMER]"

text \<open>Waiting for the server's answer, nothing received.\<close>

definition waiting :: "client_app \<Rightarrow> bool" where
  "waiting a \<longleftrightarrow> myState a = Some LOADING \<and> myStages a = [GAME, LOADING, MAIN] \<and> myStageIterator a = Some 2
     \<and> myTasks a = [] \<and> loading_s a = LoadingStart SceneLoading \<and> game_s a = SceneGame
     \<and> c_idle (myNetwork a) \<and> client_knows (myNetwork a) = client_knows Network"

lemma scene_starts [simp]:
  "isCompleted SceneMain = False" "isCompleted SceneLoading = False"
  "streamIP SceneMain = [49, 50, 55, 46, 48, 46, 48, 46, 49]"
  by (simp_all add: SceneMain_def SceneLoading_def Scene_def scene.defs)

definition created :: "client_app \<Rightarrow> bool" where
  "created a \<longleftrightarrow> myState a = Some MAIN \<and> myStages a = [GAME, LOADING, MAIN] \<and> myStageIterator a = Some 1
     \<and> loading_s a = SceneLoading \<and> game_s a = SceneGame
     \<and> main_s a = SceneMain \<and> myTasks a = []"

lemma create_step:
  assumes "co_works co"
  shows "\<exists>a. myProcedure fuel co WM_CREATE client_rooms = Inr a \<and> created a
    \<and> (\<exists>s. myNetwork a = Network\<lparr>mySocket := s\<rparr>)"
  using assms
  by (auto simp: myProcedure_def co_works_def client_rooms_def AddRoom_def Push_def Register_def
      Framework_def NetworkAwake_def FrameworkStart_def Pop_def at_stage_def scene_start_def created_def
      Let_def scene_name_def)

lemma connect_step:
  assumes w: "co_works co" and c: "created a" and n: "myNetwork a = Network\<lparr>mySocket := s\<rparr>"
  shows "\<exists>n. myProcedure fuel co (WM_KEYDOWN VK_RETURN) a = Inr (a\<lparr>myNetwork := n\<rparr>)
    \<and> c_idle n \<and> client_knows n = client_knows Network"
proof -
  have nick: "strcpy_s 30 (profileNickname Network) \<noteq> None"
    by (simp add: Network_def strcpy_s_def)
  have key: "MainOnKeyDown VK_RETURN SceneMain = (True, SceneMain)"
    by (simp add: MainOnKeyDown_def)
  have a: "a\<lparr>main_s := SceneMain\<rparr> = a" using c by (simp add: created_def)
  obtain m where m: "NetworkStart co (streamIP SceneMain) (myNetwork a) = Inr m"
      "client_knows m = client_knows Network" "length (c_recvCBuffer m) = BUFSIZ" "c_recvBytes m = 0"
    using w nick unfolding n
    by (auto simp: NetworkStart_def SendSignInMsg_def SendPacket_def CSPacketSignIn_def co_works_def
        Let_def c_emit_def client_knows_def Network_def)
  have "NetworkUpdate co m = Inr (snd (Receive co 0 m))"
    using w by (simp add: NetworkUpdate_def Receive_def co_works_def Let_def)
  moreover have "c_idle (snd (Receive co 0 m))"
    using m(3,4) by (simp add: c_idle_def Receive_def c_emit_def Let_def)
  ultimately show ?thesis
    using c key m a
    by (intro exI [of _ "snd (Receive co 0 m)"])
       (simp add: myProcedure_def FrameworkOnKeyDown_def created_def FrameworkConnect_def Let_def)
qed

lemma FrameworkOnNetwork_tasks: "FrameworkOnNetwork ks a = a\<lparr>myTasks := rev ks @ myTasks a\<rparr>"
proof (induction ks arbitrary: a)
  case Nil
  then show ?case by (simp add: FrameworkOnNetwork_def)
next
  case (Cons k ks)
  then show ?case by (simp add: FrameworkOnNetwork_def AddTask_def)
qed

lemma sent_step:
  assumes "created a"
  shows "\<exists>a'. client_run fuel co (drop 2 connecting) a = Inr a' \<and> myNetwork a' = myNetwork a
    \<and> (c_idle (myNetwork a) \<longrightarrow> client_knows (myNetwork a) = client_knows Network \<longrightarrow> waiting a')"
proof -
  have fin: "MainOnNetwork sign_in_packet SceneMain = (True, Complete SceneMain)"
    by (simp add: MainOnNetwork_def sign_in_packet_def mk_packet_def)
  let ?e = "SendDone False False (ClientSetSendBuffer \<lparr>w_buf = MPacket sign_in_packet, w_len = 48\<rparr>
       (ClientAsynchron ASYNC_SEND CS_SIGNIN)) 48"
  let ?a1 = "a\<lparr>myTasks := [sign_in_packet]\<rparr>"
  let ?a2 = "a\<lparr>main_s := Complete SceneMain\<rparr>"
  let ?a3 = "a\<lparr>main_s := Complete SceneMain, myStageIterator := Some 2, myState := Some LOADING,
    loading_s := LoadingStart SceneLoading\<rparr>"
  have 1: "myProcedure fuel co ?e a = Inr ?a1"
    using assms by (simp add: myProcedure_def CallbackSend_def OnSend_def ClientSetSendBuffer_def
        ClientAsynchron_def FrameworkOnNetwork_tasks created_def)
  have 2: "myProcedure fuel co WM_TIMER ?a1 = Inr ?a2"
    using assms fin by (simp add: myProcedure_def FrameworkUpdate_def created_def scene_update_def
        advance_scene_def scene_completed_def IsCompleted_def offer_task_def GetLastTask_def
        scene_on_network_def PopTask_def)
  have 3: "myProcedure fuel co WM_TIMER ?a2 = Inr ?a3"
    using assms by (simp add: myProcedure_def FrameworkUpdate_def created_def scene_update_def
        advance_scene_def scene_completed_def IsCompleted_def offer_task_def GetLastTask_def
        Complete_def JumpToNextScene_def Pop_def at_stage_def scene_start_def)
  have "client_run fuel co (drop 2 connecting) a = Inr ?a3"
    using 1 2 3 by (simp add: client_run_def connecting_def)
  then show ?thesis using assms by (intro exI [of _ ?a3]) (simp add: waiting_def created_def)
qed

lemma client_run_append:
  "client_run fuel co (es @ fs) a = rbind (client_run fuel co es a) (client_run fuel co fs)"
  by (simp add: client_run_def foldR_append rbind_def split: sum.split)

lemma connecting_run:
  assumes "co_works co"
  shows "\<exists>a. client_run fuel co connecting client_rooms = Inr a \<and> waiting a"
proof -
  obtain a s where a: "myProcedure fuel co WM_CREATE client_rooms = Inr a" "created a"
      "myNetwork a = Network\<lparr>mySocket := s\<rparr>" using create_step [OF assms] by blast
  obtain n where n: "myProcedure fuel co (WM_KEYDOWN VK_RETURN) a = Inr (a\<lparr>myNetwork := n\<rparr>)"
      "c_idle n" "client_knows n = client_knows Network" using connect_step [OF assms a(2,3)] by blast
  have "created (a\<lparr>myNetwork := n\<rparr>)" using a(2) by (simp add: created_def)
  then obtain a' where "client_run fuel co (drop 2 connecting) (a\<lparr>myNetwork := n\<rparr>) = Inr a'" "waiting a'"
    using sent_step [of "a\<lparr>myNetwork := n\<rparr>" fuel co] n(2,3) by auto
  moreover have "connecting = WM_CREATE # WM_KEYDOWN VK_RETURN # drop 2 connecting"
    by (simp add: connecting_def)
  ultimately show ?thesis using a(1) n(1) by (metis client_run_def foldR.simps(2) rbind_Inr)
qed

text \<open>The server's answer, and what it makes of a waiting client.\<close>

definition news :: "packet_type \<Rightarrow> bool" where
  "news t \<longleftrightarrow> t \<in> {SC_CREATE_PLAYER, SC_APPEAR_OBJ, SC_DISAPPEAR_OBJ, SC_MOVE_OBJ}"

lemma news_effect:
  "\<forall>k\<in>set ks. news (Type k) \<Longrightarrow> \<exists>m. foldR net_effect ks n = Inr m \<and> myID m = myID n"
proof (induction ks arbitrary: n)
  case Nil
  then show ?case by simp
next
  case (Cons k ks)
  then have "\<exists>n1. net_effect k n = Inr n1 \<and> myID n1 = myID n"
    by (auto simp: net_effect_def news_def NetRegisterPlayer_def)
  then show ?case using Cons by fastforce
qed

lemma welcome_received:
  assumes w: "waiting a" and k: "whole k" "Type k = SC_SIGNUP" "playerID k \<noteq> - 1"
    and ks: "\<forall>k\<in>set ks. whole k \<and> news (Type k)"
    and d: "data = concat (map (packet_bytes v) (k # ks))" "length data \<le> BUFFSZ"
    and f: "length (k # ks) < fuel"
  shows "\<exists>n. myProcedure fuel co (RecvDone False False data) a
      = Inr (a\<lparr>myNetwork := n, myTasks := rev (k # ks)\<rparr>)
    \<and> myID n = playerID k \<and> c_idle n"
proof -
  let ?n = "myNetwork a"
  have i: "c_idle ?n" "myID ?n = - 1" and t: "myTasks a = []"
    using w by (simp_all add: waiting_def client_knows_def Network_def)
  obtain n1 where n1: "net_effect k ?n = Inr n1" "myID n1 = playerID k"
    using k i(2) by (simp add: net_effect_def NetRegisterPlayer_def Let_def)
  obtain m where m: "foldR net_effect (k # ks) ?n = Inr m" "myID m = playerID k"
    using news_effect [of ks n1] ks n1 by auto
  have wh: "\<forall>k\<in>set (k # ks). whole k" using k ks by simp
  obtain n' where n': "OnReceive fuel co (word_of_nat (length data)) (client_deliver data ?n)
        = Inr (filter (\<lambda>k. passed_on (Type k)) (k # ks), n')"
      "c_idle n'" "client_knows n' = client_knows m"
    using on_receive_whole [OF i(1) wh d m(1) f] by blast
  have p: "filter (\<lambda>k. passed_on (Type k)) (k # ks) = k # ks"
    using k ks by (auto simp: passed_on_def news_def filter_id_conv)
  have "0 < length data" using d(1) by (simp add: length_packet_bytes sizeof_Packet_def)
  then have "(word_of_nat (length data) :: u32) \<noteq> 0"
    using d(2) by (simp add: const_simps word_of_nat_eq_0_iff) (auto dest: dvd_imp_le)
  then have "myProcedure fuel co (RecvDone False False data) a
      = Inr (a\<lparr>myNetwork := n', myTasks := rev (k # ks)\<rparr>)"
    using n'(1) t unfolding p
    by (simp add: myProcedure_def CallbackRecv_def Let_def FrameworkOnNetwork_tasks)
  moreover have "myID n' = playerID k" using n'(3) m(2) by (simp add: client_knows_def)
  ultimately show ?thesis using n'(2) by blast
qed


definition short_tick :: "rat \<Rightarrow> bool" where
  "short_tick t \<longleftrightarrow> 0 < fsub (fsub 20 t) t \<and> 0 < fsub 20 t"

lemma timer_tick: "short_tick (f32 (1 / 100))"
proof -
  have r: "f32 (1 / 100) \<le> 1" using is_f32_int [of 1] by (intro f32_le_bound) simp_all
  then have a: "19 \<le> fsub 20 (f32 (1 / 100))" unfolding fsub_def by (intro f32_ge_bound) simp_all
  then have "18 \<le> fsub (fsub 20 (f32 (1 / 100))) (f32 (1 / 100))"
    unfolding fsub_def [of "fsub 20 (f32 (1 / 100))"] using r by (intro f32_ge_bound) simp_all
  with a show ?thesis by (simp add: short_tick_def)
qed

lemma welcome_ticks:
  assumes w: "waiting a" and k: "Type k = SC_SIGNUP"
  shows "\<exists>a'. client_run fuel co [WM_TIMER, WM_TIMER] (a\<lparr>myNetwork := n, myTasks := ts @ [k]\<rparr>) = Inr a'
    \<and> in_game a' \<and> myTasks a' = ts \<and> game_s a' = SceneGame \<and> myNetwork a' = n"
proof -
  let ?t = "f32 (1 / 100)"
  let ?l1 = "(LoadingStart SceneLoading)\<lparr>myLife := fsub 20 ?t\<rparr>"
  let ?a1 = "a\<lparr>myNetwork := n, myTasks := ts @ [k], loading_s := Complete ?l1\<rparr>"
  let ?l2 = "Complete (?l1\<lparr>myLife := fsub (fsub 20 ?t) ?t\<rparr>)"
  let ?a2 = "a\<lparr>myNetwork := n, myTasks := ts, loading_s := ?l2, myStageIterator := Some 3, myState := Some GAME\<rparr>"
  have t: "0 < fsub 20 ?t" "0 < fsub (fsub 20 ?t) ?t" using timer_tick by (simp_all add: short_tick_def)
  have u1: "LoadingUpdate ?t (LoadingStart SceneLoading) = (False, ?l1)"
    using t(1) by (simp add: LoadingUpdate_def LoadingStart_def Let_def)
  have u2: "LoadingUpdate ?t (Complete ?l1) = (False, ?l2)"
    using t(2) by (simp add: LoadingUpdate_def LoadingStart_def Complete_def Let_def)
  have o1: "LoadingOnNetwork k ?l1 = (False, Complete ?l1)" using k by (simp add: LoadingOnNetwork_def)
  have "myProcedure fuel co WM_TIMER (a\<lparr>myNetwork := n, myTasks := ts @ [k]\<rparr>) = Inr ?a1"
    using w u1 o1 by (simp add: myProcedure_def FrameworkUpdate_def waiting_def scene_update_def
        advance_scene_def scene_completed_def IsCompleted_def offer_task_def GetLastTask_def
        scene_on_network_def LoadingStart_def Let_def)
  moreover have "myProcedure fuel co WM_TIMER ?a1 = Inr ?a2"
    using w u2 k by (simp add: myProcedure_def FrameworkUpdate_def waiting_def scene_update_def
        advance_scene_def scene_completed_def IsCompleted_def offer_task_def GetLastTask_def
        JumpToNextScene_def Pop_def at_stage_def scene_start_def scene_on_network_def GameOnNetwork_def
        PopTask_def Complete_def Let_def)
  ultimately have "client_run fuel co [WM_TIMER, WM_TIMER] (a\<lparr>myNetwork := n, myTasks := ts @ [k]\<rparr>) = Inr ?a2"
    by (simp add: client_run_def)
  moreover have "in_game ?a2" using w by (simp add: in_game_def waiting_def)
  moreover have "game_s ?a2 = SceneGame" using w by (simp add: waiting_def)
  ultimately show ?thesis by (intro exI [of _ ?a2]) simp
qed

lemma reaches_game:
  assumes "co_works co" and "whole k" and "Type k = SC_SIGNUP" and "playerID k \<noteq> - 1"
    and "\<forall>k\<in>set ks. whole k \<and> news (Type k)"
    and "data = concat (map (packet_bytes v) (k # ks))" and "length data \<le> BUFFSZ"
    and "length (k # ks) < fuel"
  shows "\<exists>a. client_run fuel co (connecting @ RecvDone False False data
        # replicate (2 + length ks) WM_TIMER) client_rooms = Inr a
    \<and> in_game a \<and> c_idle (myNetwork a) \<and> myTasks a = [] \<and> GetMyID a = playerID k
    \<and> game_s a = play (playerID k) ks SceneGame"
proof -
  obtain a where a: "client_run fuel co connecting client_rooms = Inr a" "waiting a"
    using connecting_run [OF assms(1)] by blast
  obtain n where n: "myProcedure fuel co (RecvDone False False data) a
        = Inr (a\<lparr>myNetwork := n, myTasks := rev ks @ [k]\<rparr>)" "myID n = playerID k" "c_idle n"
    using welcome_received [OF a(2) assms(2-8)] by auto
  obtain b where b: "client_run fuel co [WM_TIMER, WM_TIMER] (a\<lparr>myNetwork := n, myTasks := rev ks @ [k]\<rparr>) = Inr b"
      "in_game b" "myTasks b = rev ks" "game_s b = SceneGame" "myNetwork b = n"
    using welcome_ticks [OF a(2) assms(3)] by blast
  let ?c = "b\<lparr>myTasks := [], game_s := play (GetMyID b) ks (game_s b)\<rparr>"
  have id: "GetMyID b = playerID k" using n(2) b(5) by (simp add: GetMyID_def)
  have "client_run fuel co (replicate (length ks) WM_TIMER) b = Inr ?c"
    using ticks_drain [OF b(2), of ks "[]"] assms(5) b(3) by (auto simp: news_def game_takes_def)
  then have "client_run fuel co (connecting @ [RecvDone False False data] @ [WM_TIMER, WM_TIMER]
      @ replicate (length ks) WM_TIMER) client_rooms = Inr ?c"
    using a(1) n(1) b(1) unfolding client_run_append by (simp add: client_run_def)
  moreover have "isCompleted (play i ks g) = isCompleted g" for i g
    unfolding play_def by (induction ks arbitrary: g) simp_all
  then have "in_game ?c" using b(2) by (simp add: in_game_def)
  ultimately show ?thesis using id b(4,5) n(3) by (intro exI [of _ ?c]) (simp add: GetMyID_def)
qed

text \<open>C8: A client reaches the game: when the system's calls succeed, return pressed at the
  address prompt, the sign-in packet sent, and the server's answer received - the identifier,
  followed by news of players and entities - the client ends in the game scene, under the
  identifier it was given, with an empty queue and the scene that the news make, one packet a
  tick; two ticks take it through the first two scenes.\<close>

theorem client_reaches_game:
  assumes "co_works co" and "whole k" and "Type k = SC_SIGNUP" and "playerID k \<noteq> - 1"
    and "\<forall>k\<in>set ks. whole k \<and> news (Type k)"
    and "data = concat (map (packet_bytes v) (k # ks))" and "length data \<le> BUFFSZ"
    and "length (k # ks) < fuel"
  shows "\<exists>a. client_run fuel co (connecting @ RecvDone False False data
        # replicate (2 + length ks) WM_TIMER) client_rooms = Inr a
    \<and> in_game a \<and> myTasks a = [] \<and> GetMyID a = playerID k
    \<and> game_s a = play (playerID k) ks SceneGame"
  using reaches_game [OF assms] by blast


lemma hello_whole: "p < 2 ^ 63 \<Longrightarrow> whole (hello p)"
  by (simp add: whole_def hello_wf) (simp add: hello_def infobox_packet_def exact_sizes)

lemma sign_up_whole: "in_range 8 i \<Longrightarrow> whole (SCPacketSignUp i u m)"
  by (simp add: whole_def wf_packet_def SCPacketSignUp_def exact_sizes) (simp add: mk_packet_def)

lemma client_reaches_game_witness:
  "\<exists>a. client_run 3 demo_co (connecting @ RecvDone False False
        (packet_bytes 9 (SCPacketSignUp 200000 0 100000) @ packet_bytes 9 (hello 200000))
        # replicate 3 WM_TIMER) client_rooms = Inr a
    \<and> in_game a \<and> myTasks a = [] \<and> GetMyID a = 200000 \<and> game_s a = play 200000 [hello 200000] SceneGame"
proof -
  let ?k = "SCPacketSignUp 200000 0 100000"
  have k: "whole ?k" "Type ?k = SC_SIGNUP" "playerID ?k = 200000"
    by (simp_all add: sign_up_whole in_range_def) (simp_all add: SCPacketSignUp_def mk_packet_def)
  have l: "length (concat (map (packet_bytes 9) [?k, hello 200000])) \<le> BUFFSZ"
    by (simp add: length_packet_bytes SCPacketSignUp_def hello_def infobox_packet_def mk_packet_def
        sizeof_Packet_def const_simps)
  show ?thesis
    using client_reaches_game [of demo_co ?k "[hello 200000]" _ 9 3, OF _ k(1,2) _ _ refl l]
    by (simp add: co_works_def demo_co_def k(3) hello_whole news_def)
qed

subsection \<open>A packet no scene takes\<close>

text \<open>What the first and the last scene leave in the queue without taking any notice of it.\<close>

definition unwanted :: "scene_id \<Rightarrow> packet_type \<Rightarrow> bool" where
  "unwanted s t \<longleftrightarrow> s = MAIN \<and> t \<noteq> CS_SIGNIN \<and> t \<noteq> CS_MOVE \<or> s = GAME \<and> \<not> game_takes t"

definition blocked :: "scene_id \<Rightarrow> packet \<Rightarrow> client_app \<Rightarrow> bool" where
  "blocked s k a \<longleftrightarrow> myState a = Some s \<and> \<not> scene_completed s a \<and> (\<exists>ts. myTasks a = ts @ [k])
     \<and> unwanted s (Type k)"

lemma blocked_tick:
  assumes "blocked s k a"
  shows "FrameworkUpdate t a = Inr a"
proof -
  have s: "s \<noteq> LOADING" "fst (scene_on_network s k a) = False" "snd (scene_on_network s k a) = a"
    using assms by (auto simp: blocked_def unwanted_def scene_on_network_def MainOnNetwork_def game_ignores)
  then have "scene_on_network s k a = (False, a)" by (simp add: prod_eq_iff)
  then show ?thesis using assms s(1)
    by (auto simp: blocked_def FrameworkUpdate_def scene_update_def advance_scene_def offer_task_def
        GetLastTask_def)
qed

lemma blocked_cong:
  assumes "blocked s k a" and "myState b = myState a" and "isCompleted (main_s b) = isCompleted (main_s a)"
    and "isCompleted (game_s b) = isCompleted (game_s a)" and "myTasks b = ts @ myTasks a"
  shows "blocked s k b"
  using assms by (cases s) (auto simp: blocked_def scene_completed_def IsCompleted_def unwanted_def)

lemma blocked_step:
  assumes b: "blocked s k a" and e: "e \<noteq> WM_CREATE" and r: "myProcedure fuel co e a = Inr a'"
  shows "blocked s k a' \<and> myLocalInstances (game_s a') = myLocalInstances (game_s a)
    \<and> myInstances (game_s a') = myInstances (game_s a)"
proof -
  have key: "isCompleted (snd (MainOnKeyDown key m)) = isCompleted m" for key m
    by (simp add: MainOnKeyDown_def)
  have *: "\<exists>ts. myState a' = myState a \<and> isCompleted (main_s a') = isCompleted (main_s a)
      \<and> isCompleted (game_s a') = isCompleted (game_s a) \<and> myTasks a' = ts @ myTasks a
      \<and> myLocalInstances (game_s a') = myLocalInstances (game_s a)
      \<and> myInstances (game_s a') = myInstances (game_s a)"
  proof (cases e)
    case WM_TIMER
    then show ?thesis using r blocked_tick [OF b] by (simp add: myProcedure_def)
  next
    case (WM_KEYDOWN x)
    then show ?thesis using r key [of x "main_s a"]
      by (auto simp: myProcedure_def FrameworkOnKeyDown_def FrameworkConnect_def split_def Let_def rbind_eq_Inr
          split: option.splits scene_id.splits if_splits)
  next
    case (WM_KEYUP x)
    then show ?thesis using r
      by (auto simp: myProcedure_def FrameworkOnKeyUp_def split: option.splits scene_id.splits)
  next
    case WM_PAINT
    then show ?thesis using r
      by (auto simp: myProcedure_def FrameworkRender_def GameRender_def UpdateCamera_def Let_def
          split: option.splits scene_id.splits)
  next
    case (RecvDone x y z)
    then show ?thesis using r
      by (auto simp: myProcedure_def CallbackRecv_def Let_def rbind_eq_Inr FrameworkOnNetwork_tasks)
  next
    case (SendDone x y z u)
    then show ?thesis using r
      by (auto simp: myProcedure_def CallbackSend_def rbind_eq_Inr FrameworkOnNetwork_tasks split: if_splits)
  qed (use e in simp)
  then show ?thesis using blocked_cong [OF b] by blast
qed


definition demo_blocked :: client_app where
  "demo_blocked = client_rooms\<lparr>myState := Some GAME, myTasks := [hello 7, SCPacketSignOut 8]\<rparr>"

lemma blocked_ticks:
  "blocked s k a \<Longrightarrow> client_run fuel co (replicate n WM_TIMER) a = Inr a"
  by (induction n) (simp_all add: client_run_def myProcedure_def blocked_tick)


end
