(* ===== verification/Talk.thy ===== *)
theory Talk
  imports Runs ClientRuns
begin

section \<open>What the server says\<close>

text \<open>
  Every packet that sight sends is one a client can read - complete, with values its types can
  hold - and goes to a player that is in the world. The relation \<open>talk\<close> says so of two states,
  and each operation of sight is in it.
\<close>

definition sane :: "session \<Rightarrow> bool" where
  "sane s \<longleftrightarrow> wf_body (body (infobox_packet (myInfobox s))) \<and> in_range 8 (ib_playerID (myInfobox s))"

definition fits :: "rat \<times> rat \<Rightarrow> bool" where
  "fits pos \<longleftrightarrow> fits_f32 (fst pos) \<and> fits_f32 (snd pos)"

fun tells :: "socket set \<Rightarrow> effect \<Rightarrow> bool" where
  "tells R (ESend so b a) \<longleftrightarrow> so \<in> R \<and> (\<exists>k. w_buf b = MPacket k \<and> whole k \<and> news (Type k))"
| "tells R _ \<longleftrightarrow> True"

definition talk :: "socket set \<Rightarrow> world \<Rightarrow> world \<Rightarrow> bool" where
  "talk R w0 w \<longleftrightarrow> (\<forall>q. sane (clientsPool w q)) \<and> myClients w = myClients w0
     \<and> orderClientIDs w = orderClientIDs w0 \<and> (\<forall>q. Socket (clientsPool w q) = Socket (clientsPool w0 q) \<and> pos_of w q = pos_of w0 q
       \<and> Index (clientsPool w q) = Index (clientsPool w0 q) \<and> Status (clientsPool w q) = Status (clientsPool w0 q))
     \<and> (\<exists>es. log w = log w0 @ es \<and> (\<forall>e\<in>set es. tells R e))"

lemma talkD:
  assumes "talk R w0 w"
  shows "sane (clientsPool w q)" and "myClients w = myClients w0"
    and "Socket (clientsPool w q) = Socket (clientsPool w0 q)" and "pos_of w q = pos_of w0 q"
    and "Index (clientsPool w q) = Index (clientsPool w0 q)" and "orderClientIDs w = orderClientIDs w0"
    and "Status (clientsPool w q) = Status (clientsPool w0 q)"
  using assms by (simp_all add: talk_def)

lemma sane_packets:
  "sane s \<Longrightarrow> whole (infobox_packet (myInfobox s))" "news (Type (infobox_packet ib))"
  by (simp_all add: sane_def whole_def wf_packet_def infobox_packet_def mk_packet_def news_def)
     (simp add: size_is_exact_def sizeof_Packet_def)

lemma other_packets:
  "in_range 8 i \<Longrightarrow> whole (SCPacketDisppearCharacter i)" "news (Type (SCPacketDisppearCharacter i))"
  "in_range 8 i \<Longrightarrow> fits_f32 x \<Longrightarrow> fits_f32 y \<Longrightarrow> named_move d \<Longrightarrow> whole (SCPacketMoveCharacter i x y d)"
  "news (Type (SCPacketMoveCharacter i x y d))"
  by (simp_all add: whole_def wf_packet_def SCPacketDisppearCharacter_def SCPacketMoveCharacter_def
      mk_packet_def news_def size_is_exact_def sizeof_Packet_def)

lemma sane_accessors:
  "sane (AddSight i s) = sane s" "sane (RemoveViewOf i s) = sane s" "sane (AssignSight v s) = sane s"
  "sane (SetSightArea r s) = sane s" "sane (ReleaseStatus st s) = sane s" "sane (SetStatus st s) = sane s"
  "sane (SetSocket so s) = sane s" "in_range 8 i \<Longrightarrow> sane s \<Longrightarrow> sane (ReleaseID i s)"
  "in_range 8 i \<Longrightarrow> sane s \<Longrightarrow> sane (SetID i s)" "sane s \<Longrightarrow> sane (Cleanup_fields s)"
  "sane (s\<lparr>myNickname := n\<rparr>) = sane s" "sane (s\<lparr>pos_x := x, pos_y := y\<rparr>) = sane s"
  "sane s \<Longrightarrow> fits_f32 x \<Longrightarrow> fits_f32 y \<Longrightarrow> sane (s\<lparr>myInfobox := (myInfobox s)\<lparr>ib_x := x, ib_y := y\<rparr>\<rparr>)"
  "sane (RecvStream_buffer sz b s) = sane s" "sane (ClearRecvBuffer s) = sane s"
  by (simp_all add: sane_def session_defs ClearRecvBuffer_def infobox_packet_def mk_packet_def in_range_def)

lemma sane_dir: "sane s \<Longrightarrow> named_move (ib_dir (myInfobox s))"
  by (simp add: sane_def infobox_packet_def mk_packet_def)

lemma talk_refl: "(\<And>q. sane (clientsPool w q)) \<Longrightarrow> talk R w w"
  by (simp add: talk_def)

lemma talk_trans: "talk R w0 w1 \<Longrightarrow> talk R w1 w2 \<Longrightarrow> talk R w0 w2"
  unfolding talk_def by (auto simp: ball_Un)

lemma talk_on_session:
  assumes "talk R w0 w" and "sane (f (clientsPool w p))"
    and "Socket (f (clientsPool w p)) = Socket (clientsPool w p)"
    and "GetPosition (f (clientsPool w p)) = GetPosition (clientsPool w p)"
    and "Index (f (clientsPool w p)) = Index (clientsPool w p)" and "Status (f (clientsPool w p)) = Status (clientsPool w p)"
  shows "talk R w0 (on_session p f w)"
  using assms by (auto simp: talk_def world_simps)

lemma talk_on_sector: "talk R w0 w \<Longrightarrow> talk R w0 (on_sector r g w)"
  by (simp add: talk_def world_simps)

lemma talk_Send:
  assumes "talk R w0 w" and "Socket (clientsPool w0 p) \<in> R" and "whole k" and "news (Type k)"
  shows "talk R w0 (Send p (CreateTicket k) w)"
  using assms by (auto simp: talk_def world_simps Send_def CreateTicket_def Let_def)

lemma kept_fields:
  "Socket (AddSight i s) = Socket s" "Socket (RemoveViewOf i s) = Socket s"
  "GetPosition (AddSight i s) = GetPosition s" "GetPosition (RemoveViewOf i s) = GetPosition s"
  "Index (AddSight i s) = Index s" "Index (RemoveViewOf i s) = Index s"
  "Socket (AssignSight v s) = Socket s" "GetPosition (AssignSight v s) = GetPosition s"
  "Index (AssignSight v s) = Index s"
  "Socket (ReleaseID i s) = Socket s" "GetPosition (ReleaseID i s) = GetPosition s" "Index (ReleaseID i s) = Index s"
  "Status (AddSight i s) = Status s" "Status (RemoveViewOf i s) = Status s" "Status (AssignSight v s) = Status s"
  "Status (ReleaseID i s) = Status s"
  by (simp_all add: session_defs)

lemma talk_views:
  assumes "talk R w0 w"
  shows "talk R w0 (on_session p (AddSight i) w)" and "talk R w0 (on_session p (RemoveViewOf i) w)"
  using assms by (auto intro!: talk_on_session simp: sane_accessors kept_fields talkD)

lemma talk_ReleaseID: "talk R w0 w \<Longrightarrow> in_range 8 i \<Longrightarrow> talk R w0 (on_session p (ReleaseID i) w)"
  by (rule talk_on_session) (simp_all add: sane_accessors kept_fields talkD(1))

lemma talk_sends:
  assumes t: "talk R w0 w" and p: "Socket (clientsPool w0 p) \<in> R" and i: "in_range 8 i"
  shows "talk R w0 (SendAppearEntity p j (myInfobox (clientsPool w q)) w)"
    and "talk R w0 (SendDisppearEntity p i w)"
    and "fits (x, y) \<Longrightarrow> named_move d \<Longrightarrow> talk R w0 (SendMoveEntity p i x y d w)"
  using talk_Send [OF t p sane_packets(1) sane_packets(2)] talk_Send [OF t p other_packets(1) other_packets(2)]
    talk_Send [OF t p other_packets(3) other_packets(4)] talkD(1) [OF t] i
  by (simp_all add: send_defs fits_def)

text \<open>An identifier that may be spoken of: a player that has it may be spoken to.\<close>

definition audible :: "socket set \<Rightarrow> world \<Rightarrow> pid \<Rightarrow> bool" where
  "audible R w i \<longleftrightarrow> in_range 8 i
     \<and> (\<forall>q. myClients w i = Some q \<longrightarrow> IsPlayer i \<longrightarrow> Socket (clientsPool w q) \<in> R)"

lemma audible_talk: "talk R w0 w \<Longrightarrow> audible R w i = audible R w0 i"
  by (simp add: audible_def talk_def)

lemma audible_range: "audible R w i \<Longrightarrow> in_range 8 i"
  by (simp add: audible_def)

lemma audible_socket: "audible R w i \<Longrightarrow> myClients w i = Some q \<Longrightarrow> IsPlayer i \<Longrightarrow> Socket (clientsPool w q) \<in> R"
  by (simp add: audible_def)

subsection \<open>Exchanging views\<close>

lemma talk_see_other:
  assumes t: "talk R w0 (fst wp)" and i: "audible R w0 i" and me: "in_range 8 me"
    and p: "Socket (clientsPool w0 p) \<in> R" and pos: "fits (pos_of w0 p)"
  shows "talk R w0 (fst (see_other p me i wp))"
proof (cases "GetClientByID i (fst wp)")
  case None
  then show ?thesis
    using t p audible_range [OF i] by (simp add: see_other_def Let_def talk_sends talk_views)
next
  case (Some q)
  then have "myClients w0 i = Some q" using talkD(2) [OF t] by (simp add: world_simps)
  then have q: "IsPlayer i \<Longrightarrow> Socket (clientsPool w0 q) \<in> R" using audible_socket [OF i] by blast
  note d = sane_dir [OF talkD(1) [OF t]]
  have pos': "fits (fst (GetPosition (clientsPool (fst wp) p)), snd (GetPosition (clientsPool (fst wp) p)))"
    using pos talkD(4) [OF t] by simp
  show ?thesis
    using Some t p q me audible_range [OF i] pos' d
    by (cases "i \<in> snd wp"; cases "i = me"; cases "IsPlayer i";
        cases "check_out (GetPosition (clientsPool (fst wp) p)) (GetPosition (clientsPool (fst wp) q))")
      (simp_all add: see_other_def Let_def talk_sends talk_views)
qed

lemma talk_lose_other:
  assumes t: "talk R w0 w" and i: "audible R w0 i" and me: "in_range 8 me"
    and p: "Socket (clientsPool w0 p) \<in> R" and pl: "places_ok w0"
  shows "talk R w0 (lose_other p me i w)"
proof (cases "i = me \<or> myClients w i = None")
  case True
  then show ?thesis using t p audible_range [OF i]
    by (auto simp: lose_other_def Let_def world_simps talk_sends talk_views)
next
  case False
  then obtain q where q: "myClients w i = Some q" and "i \<noteq> me" by auto
  then have "myClients w0 i = Some q" using talkD(2) [OF t] by simp
  then have r: "IsPlayer i \<Longrightarrow> Socket (clientsPool w0 q) \<in> R" using audible_socket [OF i] by blast
  let ?w2 = "on_session q (RemoveViewOf me) (SendDisppearEntity p i (on_session p (RemoveViewOf i) w))"
  let ?w3 = "if IsPlayer i then SendDisppearEntity q me ?w2 else ?w2"
  have T: "talk R w0 ?w3" using t p r me audible_range [OF i] by (auto simp: talk_sends talk_views)
  have "Index (clientsPool ?w3 q) = q"
    using pl q talkD(2) [OF t] unfolding talkD(5) [OF T] by (simp add: places_ok_def)
  moreover have "lose_other p me i w = ReleaseClient (Index (clientsPool ?w3 q)) q ?w3"
    using q \<open>i \<noteq> me\<close> by (simp add: lose_other_def Let_def AcquireClientByID_eq)
  ultimately show ?thesis using T by (simp add: world_simps)
qed

lemma talk_forget_me:
  assumes t: "talk R w0 w" and i: "audible R w0 i" and me: "in_range 8 me" and pl: "places_ok w0"
  shows "talk R w0 (forget_me me i w)"
proof (cases "me = i \<or> myClients w i = None")
  case True
  then show ?thesis using t by (auto simp: forget_me_def world_simps)
next
  case False
  then obtain q where q: "myClients w i = Some q" and "me \<noteq> i" by auto
  then have "myClients w0 i = Some q" using talkD(2) [OF t] by simp
  then have r: "IsPlayer i \<Longrightarrow> Socket (clientsPool w0 q) \<in> R" using audible_socket [OF i] by blast
  let ?w1 = "if IsAccepted (clientsPool w q)
    then if IsPlayer i then SendDisppearEntity q me (on_session q (RemoveViewOf me) w)
      else on_session q (RemoveViewOf me) w else w"
  have T: "talk R w0 ?w1" using t r me by (auto simp: talk_sends talk_views)
  have "Index (clientsPool ?w1 q) = q"
    using pl q talkD(2) [OF t] unfolding talkD(5) [OF T] by (simp add: places_ok_def)
  moreover have "forget_me me i w = ReleaseClient (Index (clientsPool ?w1 q)) q ?w1"
    using q \<open>me \<noteq> i\<close> by (simp add: forget_me_def Let_def AcquireClientByID_eq)
  ultimately show ?thesis using T by (simp add: world_simps)
qed

lemma talk_fold:
  assumes "talk R w0 w" and "\<And>i w. i \<in> set xs \<Longrightarrow> talk R w0 w \<Longrightarrow> talk R w0 (f i w)"
  shows "talk R w0 (fold f xs w)"
  using assms by (induction xs arbitrary: w) auto

lemma talk_see_all:
  assumes "talk R w0 (fst wp)" and "\<And>i. i \<in> set xs \<Longrightarrow> audible R w0 i" and "in_range 8 me"
    and "Socket (clientsPool w0 p) \<in> R" and "fits (pos_of w0 p)"
  shows "talk R w0 (fst (fold (see_other p me) xs wp)) \<and> snd (fold (see_other p me) xs wp) \<subseteq> snd wp"
  using assms(1,2)
proof (induction xs arbitrary: wp)
  case (Cons i xs)
  have "snd (see_other p me i wp) \<subseteq> snd wp"
    by (auto simp: see_other_def Let_def split: option.splits)
  moreover have "talk R w0 (fst (see_other p me i wp))"
    using talk_see_other [OF Cons.prems(1) _ assms(3-5)] Cons.prems(2) by simp
  ultimately show ?case using Cons.IH [of "see_other p me i wp"] Cons.prems(2) by auto
qed simp

lemma talk_exchange_views:
  assumes t: "talk R w0 (snd vw)" and v: "\<And>i. i \<in> fst vw \<union> prev \<Longrightarrow> audible R w0 i" and me: "in_range 8 me"
    and p: "Socket (clientsPool w0 p) \<in> R" and pos: "fits (pos_of w0 p)" and pl: "places_ok w0"
    and ord: "is_order (order os)" and fin: "finite (fst vw)" "finite prev"
  shows "talk R w0 (exchange_views os p me (pos_of w0 p) prev vw)"
proof -
  let ?w4 = "on_session p (AssignSight (fst vw)) (on_session p (\<lambda>s. s\<lparr>myInfobox :=
    (myInfobox s)\<lparr>ib_x := fst (pos_of w0 p), ib_y := snd (pos_of w0 p)\<rparr>\<rparr>) (snd vw))"
  let ?r = "fold (see_other p me) (order os (fst vw)) (?w4, prev)"
  have "talk R w0 ?w4"
    by (intro talk_on_session t)
      (use pos talkD(1) [OF t] in \<open>simp_all add: sane_accessors world_simps fits_def kept_fields, simp_all add: GetPosition_def\<close>)
  then have r: "talk R w0 (fst ?r)" "snd ?r \<subseteq> prev"
    using talk_see_all [of R w0 "(?w4, prev)" "order os (fst vw)" me p] v me p pos is_order_set [OF ord fin(1)]
    by simp_all
  then have "talk R w0 (on_session p (ReleaseID me) (fst ?r))"
    using me by (intro talk_ReleaseID)
  moreover have "finite (snd ?r)" using r(2) fin(2) by (rule finite_subset)
  then have "set (order os (snd ?r)) \<subseteq> prev" using is_order_set [OF ord] r(2) by blast
  ultimately have "talk R w0 (fold (lose_other p me) (order os (snd ?r)) (on_session p (ReleaseID me) (fst ?r)))"
    using v by (intro talk_fold talk_lose_other me p pl) auto
  then show ?thesis by (simp add: exchange_views_def Let_def case_prod_beta)
qed

subsection \<open>Looking around, entering, leaving\<close>

lemma talk_UpdateSight:
  assumes sa: "\<And>q. sane (clientsPool w q)" and wf: "wf_world w" and me: "myClients w me = Some p"
    and pos: "inside (pos_of w p)" "fits (pos_of w p)" and ord: "is_order (order os)"
    and r: "in_range 8 me" and p: "Socket (clientsPool w p) \<in> R"
    and a: "\<And>i. i \<in> candidates w p me \<union> myViewList (clientsPool w p) \<Longrightarrow> audible R w i"
    and U: "UpdateSight os p w = Inr w'"
  shows "talk R w w'"
proof -
  let ?w2 = "\<lambda>m. on_session p (SetSightArea (Some (home_sector (pos_of w p)))) (w\<lparr>mySightManager := m\<rparr>)"
  obtain m where m: "UpdateSight os p w = Inr (exchange_views os p me (pos_of w p) (myViewList (clientsPool w p))
      (candidates w p me, ?w2 m))" "grid_has m (new_lists w p me)"
    by (rule UpdateSight_exchanges [OF wf me pos(1)])
  have "talk R w (w\<lparr>mySightManager := m\<rparr>)" using sa by (simp add: talk_def)
  then have t: "talk R w (?w2 m)"
    by (intro talk_on_session) (simp_all add: sane_accessors sa, simp_all add: SetSightArea_def GetPosition_def)
  have "talk R w (exchange_views os p me (pos_of w p) (myViewList (clientsPool w p)) (candidates w p me, ?w2 m))"
    by (rule talk_exchange_views [OF _ _ r p pos(2) wf_places [OF wf] ord])
      (use t a finite_candidates [OF m(2) pos(1)] registered_session(4) [OF wf me] in auto)
  then show ?thesis using U m(1) by simp
qed

lemma talk_RegisterSight:
  assumes sa: "\<And>q. sane (clientsPool w q)" and pos: "fits (pos_of w p)"
    and r: "in_range 8 (ID (clientsPool w p))"
    and p: "IsPlayer (ID (clientsPool w p)) \<Longrightarrow> Socket (clientsPool w p) \<in> R"
    and U: "RegisterSight p w = Inr w'"
  shows "talk R w w'"
proof -
  let ?me = "ID (clientsPool w p)"
  obtain r where w': "w' = place_in_sector p ?me r w"
    using U by (auto simp: RegisterSight_def Let_def rbind_eq_Inr AcquireID_def)
  let ?w4 = "on_sector r Release (on_session p (SetSightArea (Some r)) (on_sector r (Add ?me) (on_sector r Acquire w)))"
  let ?f = "\<lambda>s. s\<lparr>myInfobox := (myInfobox s)\<lparr>ib_x := pos_x s, ib_y := pos_y s\<rparr>\<rparr>"
  have t4: "talk R w ?w4"
    by (intro talk_on_sector talk_on_session talk_refl sa) (simp_all add: world_simps sane_accessors sa,
        simp_all add: SetSightArea_def GetPosition_def)
  have "sane (?f (clientsPool ?w4 p))"
    using sa [of p] pos
    by (simp add: world_simps SetSightArea_def fits_def GetPosition_def)
       (simp add: sane_def infobox_packet_def mk_packet_def)
  then have t5: "talk R w (on_session p ?f ?w4)"
    by (intro talk_on_session t4) (simp_all add: GetPosition_def)
  let ?w5 = "if IsPlayer ?me then SendAppearEntity p ?me (myInfobox (clientsPool (on_session p ?f ?w4) p))
      (on_session p ?f ?w4) else ?w4"
  have T: "talk R w ?w5" using talk_sends(1) [OF t5 p r] t4 by simp
  have "talk R w (on_session p (ReleaseID ?me) ?w5)"
    by (rule talk_ReleaseID [OF T r])
  then show ?thesis unfolding w' place_in_sector_def Let_def .
qed

lemma talk_CleanupSight:
  assumes sa: "\<And>q. sane (clientsPool w q)" and wf: "wf_world w" and me: "myClients w me = Some p"
    and ord: "is_order (order os)" and r: "in_range 8 me"
    and a: "\<And>i. i \<in> myViewList (clientsPool w p) \<Longrightarrow> audible R w i"
    and U: "CleanupSight os p w = Inr w'"
  shows "talk R w w'"
proof -
  note ses = registered_session [OF wf me]
  obtain r where w': "w' = fold (forget_me me) (order os (myViewList (clientsPool w p)))
      (on_sector r Release (on_sector r (Remove me) (on_sector r Acquire w)))"
    using U ses(3) by (auto simp: CleanupSight_def Let_def GetID_def GetSight_def world_simps split: option.splits)
  have "talk R w (on_sector r Release (on_sector r (Remove me) (on_sector r Acquire w)))"
    by (intro talk_on_sector talk_refl sa)
  then show ?thesis unfolding w'
    by (rule talk_fold) (use a is_order_set [OF ord ses(4)] in \<open>auto intro!: talk_forget_me r wf_places [OF wf]\<close>)
qed

end
