(* ===== verification/Heard.thy ===== *)
theory Heard
  imports Talk
begin

section \<open>What each client has been sent\<close>

text \<open>
  In every state a started server reaches, a player that is connected has been sent nothing, and
  a player in the world its identifier and then news of entities, all of it readable.
\<close>

definition welcomed :: "pid \<Rightarrow> packet list \<Rightarrow> bool" where
  "welcomed i ks \<longleftrightarrow> (\<exists>u m ks'. ks = SCPacketSignUp i u m # ks' \<and> (\<forall>k\<in>set ks'. whole k \<and> news (Type k)))"

lemma welcomed_first: "welcomed i [SCPacketSignUp i u m]"
  unfolding welcomed_def by (intro exI [of _ u] exI [of _ m]) simp

abbreviation heard_at :: "world \<Rightarrow> nat \<Rightarrow> packet list" where
  "heard_at w p \<equiv> sent_to (Socket (clientsPool w p)) (log w)"

definition hears :: "world \<Rightarrow> pid \<Rightarrow> nat \<Rightarrow> bool" where
  "hears w i p \<longleftrightarrow> (Status (clientsPool w p) = SS_CONNECTED \<longrightarrow> heard_at w p = [])
     \<and> (Status (clientsPool w p) = SS_ACCEPTED \<longrightarrow> welcomed i (heard_at w p))"

definition heard :: "world \<Rightarrow> bool" where
  "heard w \<longleftrightarrow> (\<forall>q. sane (clientsPool w q)) \<and> (\<forall>i p. myClients w i = Some p \<longrightarrow> 0 \<le> i)
     \<and> orderClientIDs w < 2 ^ 63 \<and> (\<forall>i p. myClients w i = Some p \<longrightarrow> IsPlayer i \<longrightarrow> hears w i p)"

lemma heardD:
  assumes "heard w"
  shows "sane (clientsPool w q)" and "myClients w i = Some p \<Longrightarrow> 0 \<le> i" and "orderClientIDs w < 2 ^ 63"
    and "myClients w i = Some p \<Longrightarrow> IsPlayer i \<Longrightarrow> hears w i p"
  using assms unfolding heard_def by blast+

lemma heard_range:
  assumes h: "heard w" and o: "orderly w" and i: "myClients w i = Some p"
  shows "in_range 8 i"
proof -
  have "i < orderClientIDs w" using orderlyD(5) [OF o, of i] i by (cases "orderClientIDs w \<le> i") auto
  then show ?thesis using heardD(2,3) [OF h] i by (fastforce simp: in_range_def)
qed

subsection \<open>Packets sent\<close>

lemma sent_to_append [simp]: "sent_to so (l @ l') = sent_to so l @ sent_to so l'"
  by (simp add: sent_to_def)

lemma sent_to_quiet [simp]:
  "sent_to so [] = []" "sent_to so (ERecv s n m # l) = sent_to so l" "sent_to so (EPost d i a # l) = sent_to so l"
  "sent_to so (EClose s # l) = sent_to so l" "sent_to so (EPort s i # l) = sent_to so l"
  "sent_to so (ESocket s # l) = sent_to so l" "sent_to so (EAccept s # l) = sent_to so l"
  "sent_to so (ESend s b a # l)
    = (if s = so then (case w_buf b of MPacket k \<Rightarrow> [k] | MRecv _ _ \<Rightarrow> []) else []) @ sent_to so l"
  by (simp_all add: sent_to_def)

lemma tells_sent_one: "tells R e \<Longrightarrow> (\<forall>k\<in>set (sent_to so [e]). whole k \<and> news (Type k)) \<and> (so \<notin> R \<longrightarrow> sent_to so [e] = [])"
proof (cases e)
  case (ESend s b a)
  assume "tells R e"
  then obtain k where "s \<in> R" "w_buf b = MPacket k" "whole k" "news (Type k)" using ESend by auto
  then show ?thesis using ESend by (cases "s = so") auto
qed simp_all

lemma tells_sent:
  assumes "\<forall>e\<in>set es. tells R e"
  shows "\<forall>k\<in>set (sent_to so es). whole k \<and> news (Type k)" and "so \<notin> R \<Longrightarrow> sent_to so es = []"
proof -
  have "(\<forall>k\<in>set (sent_to so es). whole k \<and> news (Type k)) \<and> (so \<notin> R \<longrightarrow> sent_to so es = [])"
    using assms
  proof (induction es)
    case (Cons e es)
    then show ?case using tells_sent_one [of R e so] sent_to_append [of so "[e]" es] by auto
  qed simp
  then show "\<forall>k\<in>set (sent_to so es). whole k \<and> news (Type k)" and "so \<notin> R \<Longrightarrow> sent_to so es = []"
    by blast+
qed

text \<open>The sockets that are spoken to while the entity at \<open>p\<close> is handled.\<close>

definition spoken :: "world \<Rightarrow> nat \<Rightarrow> socket set" where
  "spoken w p = {Socket (clientsPool w q) |i q. myClients w i = Some q \<and> IsPlayer i
     \<and> (Status (clientsPool w q) = SS_ACCEPTED \<or> q = p)}"

lemma talk_welcomed:
  assumes "talk R w w'" and "welcomed i (heard_at w p)"
  shows "welcomed i (heard_at w' p)"
proof -
  obtain es where es: "log w' = log w @ es" "\<forall>e\<in>set es. tells R e" using assms(1) by (auto simp: talk_def)
  obtain u m ks where ks: "heard_at w p = SCPacketSignUp i u m # ks" "\<forall>k\<in>set ks. whole k \<and> news (Type k)"
    using assms(2) by (auto simp: welcomed_def)
  have "heard_at w' p = SCPacketSignUp i u m # ks @ sent_to (Socket (clientsPool w p)) es"
    unfolding talkD(3) [OF assms(1)] es(1) using ks(1) by simp
  then show ?thesis using ks(2) tells_sent(1) [OF es(2)] unfolding welcomed_def
    by (intro exI [of _ u] exI [of _ m] exI [of _ "ks @ sent_to (Socket (clientsPool w p)) es"]) auto
qed

lemma talk_hears:
  assumes t: "talk (spoken w p) w w'" and so: "sockets_ok w" and j: "myClients w j = Some q" "IsPlayer j"
    and "q \<noteq> p" and "hears w j q"
  shows "hears w' j q"
proof -
  have "heard_at w' q = []" if c: "Status (clientsPool w q) = SS_CONNECTED" "heard_at w q = []"
  proof -
    obtain es where es: "log w' = log w @ es" "\<forall>e\<in>set es. tells (spoken w p) e" using t by (auto simp: talk_def)
    have "Socket (clientsPool w q) \<noteq> Socket (clientsPool w r)"
      if "myClients w i = Some r" "Status (clientsPool w r) = SS_ACCEPTED \<or> r = p" for i r
    proof -
      have "i \<noteq> j" using that c(1) j(1) assms(5) by auto
      then show ?thesis using so j that(1) unfolding sockets_ok_def by metis
    qed
    then have "Socket (clientsPool w q) \<notin> spoken w p" by (auto simp: spoken_def)
    then show ?thesis using tells_sent(2) [OF es(2)] c(2) unfolding talkD(3) [OF t] es(1) by simp
  qed
  then show ?thesis using assms(6) talk_welcomed [OF t] unfolding hears_def talkD(7) [OF t] by blast
qed

subsection \<open>Who is spoken to\<close>

text \<open>All that are in a sector, or see the entity at \<open>p\<close>, are in the world.\<close>

definition among_accepted :: "world \<Rightarrow> nat \<Rightarrow> pid \<Rightarrow> bool" where
  "among_accepted w p me \<longleftrightarrow> (\<forall>i q. myClients w i = Some q \<longrightarrow> in_range 8 i \<and> (IsPlayer i \<longrightarrow> q \<noteq> p
     \<longrightarrow> mySightSector (clientsPool w q) \<noteq> None \<or> me \<in> myViewList (clientsPool w q)
     \<longrightarrow> Status (clientsPool w q) = SS_ACCEPTED))"

lemma spokenI:
  "myClients w i = Some q \<Longrightarrow> IsPlayer i \<Longrightarrow> Status (clientsPool w q) = SS_ACCEPTED \<or> q = p
    \<Longrightarrow> Socket (clientsPool w q) \<in> spoken w p"
  by (auto simp: spoken_def)

lemma audible_near:
  assumes wf: "wf_world w" and se: "sectors_ok w" and mu: "mutual w" and kn: "known w"
    and me: "myClients w me = Some p" and pos: "inside (pos_of w p)" and a: "among_accepted w p me"
    and i: "i \<in> candidates w p me \<union> myViewList (clientsPool w p)"
  shows "audible (spoken w p) w i"
proof -
  have "\<exists>q. myClients w i = Some q \<and> (q = p \<or> mySightSector (clientsPool w q) \<noteq> None \<or> me \<in> myViewList (clientsPool w q))"
  proof (cases "i \<in> candidates w p me")
    case True
    then show ?thesis unfolding candidates_iff [OF wf se me pos] by auto
  next
    case False
    then have v: "i \<in> myViewList (clientsPool w p)" using i by simp
    then obtain q where q: "myClients w i = Some q" using kn me unfolding known_def by blast
    then have "me \<in> myViewList (clientsPool w q)" using mu me v unfolding mutual_def by blast
    then show ?thesis using q by blast
  qed
  then obtain q where q: "myClients w i = Some q"
    "q = p \<or> mySightSector (clientsPool w q) \<noteq> None \<or> me \<in> myViewList (clientsPool w q)" by blast
  then have "in_range 8 i" "IsPlayer i \<longrightarrow> Status (clientsPool w q) = SS_ACCEPTED \<or> q = p"
    using a unfolding among_accepted_def by blast+
  then show ?thesis using q(1) spokenI [OF q(1)] by (auto simp: audible_def)
qed

lemma orderly_among:
  assumes o: "orderly w" and h: "heard w"
  shows "among_accepted w p me"
  unfolding among_accepted_def
proof (intro allI impI conjI)
  fix i q assume q: "myClients w i = Some q"
  show "in_range 8 i" by (rule heard_range [OF h o q])
  assume "mySightSector (clientsPool w q) \<noteq> None \<or> me \<in> myViewList (clientsPool w q)"
  then have "Status (clientsPool w q) \<noteq> SS_CONNECTED" using connected_sees_nothing [OF o q] by auto
  then show "Status (clientsPool w q) = SS_ACCEPTED" using orderlyD(2) [OF o q] by (auto simp: settled_def)
qed

lemma in_world_fits: "in_world s \<Longrightarrow> fits (GetPosition s)"
  by (simp add: in_world_def fits_def fits_f32_def GetPosition_def)

subsection \<open>Moves\<close>

text \<open>Only what a session says and to whom matters.\<close>

lemma heard_alike:
  assumes h: "heard w" and "myClients w' = myClients w" and "orderClientIDs w' = orderClientIDs w"
    and ses: "\<And>q. myInfobox (clientsPool w' q) = myInfobox (clientsPool w q)
      \<and> Status (clientsPool w' q) = Status (clientsPool w q) \<and> Socket (clientsPool w' q) = Socket (clientsPool w q)"
    and sent: "\<And>so. sent_to so (log w') = sent_to so (log w)"
  shows "heard w'"
  using h unfolding heard_def hears_def assms(2,3) sent by (simp add: ses sane_def)

lemma heard_talk:
  assumes o: "orderly w" and h: "heard w" and me: "myClients w i = Some p"
    and t: "talk (spoken w p) w w'"
    and a: "IsPlayer i \<Longrightarrow> Status (clientsPool w p) = SS_ACCEPTED"
  shows "heard w'"
proof -
  have so: "sockets_ok w" using orderlyD(1) [OF o] by (simp add: sight_inv_def)
  have "hears w' j q" if j: "myClients w j = Some q" "IsPlayer j" for j q
  proof (cases "q = p")
    case False
    then show ?thesis using talk_hears [OF t so j _ heardD(4) [OF h j]] by blast
  next
    case True
    then have "j = i" using registered_inj [OF orderly_wf [OF o]] me j by blast
    then have "Status (clientsPool w q) = SS_ACCEPTED" using a j True by blast
    then show ?thesis using talk_welcomed [OF t] heardD(4) [OF h j] unfolding hears_def talkD(7) [OF t] by simp
  qed
  then show ?thesis
    using talkD(1) [OF t] heardD(2,3) [OF h] unfolding heard_def talkD(2,6) [OF t] by blast
qed

lemma heard_moves:
  assumes o: "orderly w" and h: "heard w" and me: "myClients w i = Some p"
    and pl: "IsPlayer i" and st: "Status (clientsPool w p) = SS_ACCEPTED" and ord: "is_order (order os)"
    and E: "EntityMove os i dir w = Inr w'"
  shows "heard w'"
proof (cases "fst (try_move dir (clientsPool w p))")
  case False
  then have "on_session p (snd \<circ> try_move dir) w = w" using try_move_not_moved by (simp add: on_session_def)
  then show ?thesis using me False E h by (simp add: EntityMove_def world_simps Let_def)
next
  case True
  let ?w1 = "on_session p (snd \<circ> try_move dir) w"
  have U: "UpdateSight os p ?w1 = Inr w'" using E me True by (simp add: EntityMove_def world_simps Let_def)
  have s: "in_world (clientsPool w p)" "mySightSector (clientsPool w p) \<noteq> None"
    using orderlyD(2) [OF o me] st by (simp_all add: settled_def)
  have T: "Status (snd (try_move dir t)) = Status t" "Socket (snd (try_move dir t)) = Socket t"
      "myInfobox (snd (try_move dir t)) = myInfobox t"
      "mySightSector (snd (try_move dir t)) = mySightSector t" "myViewList (snd (try_move dir t)) = myViewList t" for t
    by (cases dir; simp add: try_move_def TryMoveLT_def TryMoveRT_def TryMoveUP_def TryMoveDW_def)+
  have iw: "in_world (clientsPool ?w1 p)" using s(1) by (simp add: world_simps try_move_in_world)
  have iv1: "sight_inv ?w1" by (rule moved_inv [OF orderlyD(1) [OF o]])
  have o1: "orderly ?w1"
    by (rule orderly_same [OF o iv1])
      (use orderlyD(2) [OF o] iw s in \<open>auto simp: world_simps T settled_def\<close>)
  have h1: "heard ?w1"
    by (rule heard_alike [OF h]) (simp_all add: world_simps T)
  have me1: "myClients ?w1 i = Some p" and st1: "Status (clientsPool ?w1 p) = SS_ACCEPTED"
    using me st by (simp_all add: world_simps T)
  have sp: "Socket (clientsPool ?w1 p) \<in> spoken ?w1 p" using spokenI [OF me1 pl] by blast
  have t: "talk (spoken ?w1 p) ?w1 w'"
  proof (rule talk_UpdateSight [OF heardD(1) [OF h1] _ me1 _ _ ord heard_range [OF h1 o1 me1] sp _ U])
    show "wf_world ?w1" by (rule orderly_wf [OF o1])
    show pos: "inside (pos_of ?w1 p)" and "fits (pos_of ?w1 p)"
      by (rule in_world_inside [OF iw], rule in_world_fits [OF iw])
    show "audible (spoken ?w1 p) ?w1 j" if "j \<in> candidates ?w1 p i \<union> myViewList (clientsPool ?w1 p)" for j
      by (rule audible_near [OF _ _ _ _ me1 pos orderly_among [OF o1 h1] that])
        (use iv1 in \<open>simp_all add: sight_inv_def\<close>)
  qed
  show ?thesis using heard_talk [OF o1 h1 me1 t] st1 by blast
qed

subsection \<open>Signing in\<close>

text \<open>Right before the newcomer looks around: it was sent its identifier and itself.\<close>

definition greeted :: "nat \<Rightarrow> bytes \<Rightarrow> world \<Rightarrow> world" where
  "greeted p n w = (let w3 = on_session p (\<lambda>s. s\<lparr>myNickname := n, pos_x := 100, pos_y := 100\<rparr>) w
     in Send p (CreateTicket (SCPacketSignUp (ID (clientsPool w p)) 0 (GetClientsNumber w3))) w3)"

lemma greeted_fields:
  "clientsPool (greeted p n w) = (clientsPool w)(p := (clientsPool w p)\<lparr>myNickname := n, pos_x := 100, pos_y := 100\<rparr>)"
  "myClients (greeted p n w) = myClients w" "mySightManager (greeted p n w) = mySightManager w"
  "orderClientIDs (greeted p n w) = orderClientIDs w"
  "\<exists>u m. sent_to so (log (greeted p n w)) = sent_to so (log w)
    @ (if so = Socket (clientsPool w p) then [SCPacketSignUp (ID (clientsPool w p)) u m] else [])"
  "told so (log (greeted p n w)) = told so (log w)"
proof -
  show "told so (log (greeted p n w)) = told so (log w)"
    by (simp add: greeted_def Let_def Send_def world_simps)
qed (auto simp: greeted_def Let_def Send_def world_simps CreateTicket_def)

lemma sign_in_stages:
  assumes wf: "wf_world w" and me: "myClients w i = Some p" and st: "Status (clientsPool w p) = SS_CONNECTED"
    and S: "ProceedSignIn os p n w = Inr w'"
  obtains w5 w6 where "RegisterSight p (greeted p n w) = Inr w5" and "UpdateSight os p w5 = Inr w6"
    and "w' = on_session p (ReleaseID i) (on_session p (ReleaseStatus SS_ACCEPTED) w6)"
proof -
  note ses = registered_session [OF wf me]
  let ?w3 = "on_session p (SetID i) (on_session p (\<lambda>s. s\<lparr>pos_x := 100, pos_y := 100\<rparr>)
    (on_session p (\<lambda>s. s\<lparr>myNickname := n\<rparr>) w))"
  have "?w3 = on_session p (\<lambda>s. s\<lparr>myNickname := n, pos_x := 100, pos_y := 100\<rparr>) w"
    using ses(2,3) by (auto simp: on_session_def SetID_def fun_eq_iff)
  then have "Send p (CreateTicket (SCPacketSignUp i 0 (GetClientsNumber ?w3))) ?w3 = greeted p n w"
    unfolding greeted_def Let_def ses(3) by simp
  then show thesis
    using S st that by (auto simp: ProceedSignIn_def Let_def AcquireStatus_def AcquireID_def ses(3)
        InitializeSight_def rbind_eq_Inr)
qed

lemma heard_signs_in:
  assumes o: "orderly w" and h: "heard w" and me: "myClients w i = Some p" and pl: "IsPlayer i"
    and ord: "is_order (order os)" and S: "ProceedSignIn os p n w = Inr w'"
  shows "heard w'"
proof (cases "Status (clientsPool w p) = SS_CONNECTED")
  case False
  have "wf_world w" using orderly_wf [OF o] .
  note ses = registered_session [OF this me]
  have "on_session p (ReleaseID i) (on_session p (ReleaseStatus (Status (clientsPool w p))) w) = w"
    using ses(2,3) by (simp add: on_session_def ReleaseID_def ReleaseStatus_def fun_eq_iff)
  then show ?thesis using False S h ses(3) by (simp add: ProceedSignIn_def Let_def AcquireStatus_def AcquireID_def)
next
  case True
  note wf = orderly_wf [OF o] and iv = orderlyD(1) [OF o]
  note ses = registered_session [OF wf me] and W = greeted_fields [where p = p and n = n and w = w]
  let ?w4 = "greeted p n w"
  obtain w5 w6 where R: "RegisterSight p ?w4 = Inr w5" and U: "UpdateSight os p w5 = Inr w6"
    and w': "w' = on_session p (ReleaseID i) (on_session p (ReleaseStatus SS_ACCEPTED) w6)"
    by (rule sign_in_stages [OF wf me True S])
  have iv4: "sight_inv ?w4" by (rule sight_inv_alike [OF iv]) (simp_all add: W sight_alike_def)
  have me4: "myClients ?w4 i = Some p" using me by (simp add: W)
  have s4: "sane (clientsPool ?w4 q)" for q using heardD(1) [OF h] by (simp add: W sane_def)
  have P4: "pos_of ?w4 p = (100, 100)" by (simp add: W GetPosition_def)
  then have pos4: "inside (pos_of ?w4 p)" "fits (pos_of ?w4 p)"
    using is_f32_int [of 100] by (simp_all add: inside_def fits_def fits_f32_def)
  have n4: "mySightSector (clientsPool ?w4 p) = None" using connected_sees_nothing(2) [OF o me True] by (simp add: W)
  have r: "in_range 8 i" by (rule heard_range [OF h o me])
  let ?R = "spoken w p"
  have sp: "Socket (clientsPool ?w4 p) \<in> ?R" using spokenI [OF me pl] by (simp add: W)
  have t45: "talk ?R ?w4 w5"
    by (rule talk_RegisterSight [OF s4 pos4(2) _ sp R]) (simp add: W r ses(3))
  obtain w5' where L: "RegisterSight p ?w4 = Inr w5'" "about_to_look w5' p" "\<And>q. pos_of w5' q = pos_of ?w4 q"
    "\<And>q. clientsPool w5' q = (if q = p then registered_session_of i (clientsPool ?w4 p) else clientsPool ?w4 q)"
    by (rule RegisterSight_looks [OF iv4 me4 pos4(1) n4]) (rule that)
  have "w5' = w5" using L(1) R by simp
  note L = L(2-4) [unfolded this]
  have me5: "myClients w5 i = Some p" using talkD(2) [OF t45] me4 by simp
  have pos5: "inside (pos_of w5 p)" "fits (pos_of w5 p)" using pos4 unfolding L(2) .
  have iv5: "wf_world w5" "sectors_ok w5" "mutual w5" "known w5" using L(1) by (simp_all add: about_to_look_def)
  have "among_accepted w5 p i"
    using orderly_among [OF o h, of p i] unfolding among_accepted_def talkD(2) [OF t45] L(3) W by simp
  moreover have "spoken w5 p = ?R"
    unfolding spoken_def talkD(2,3) [OF t45] L(3) W by (auto simp: registered_session_fields)
  ultimately have "audible ?R w5 j" if "j \<in> candidates w5 p i \<union> myViewList (clientsPool w5 p)" for j
    using audible_near [OF iv5 me5 pos5(1) _ that] by simp
  then have t56: "talk ?R w5 w6"
    using talkD(3) [OF t45] sp by (intro talk_UpdateSight [OF talkD(1) [OF t45] iv5(1) me5 pos5 ord r _ _ U]) simp_all
  have t: "talk ?R ?w4 w6" by (rule talk_trans [OF t45 t56])
  have st6: "Status (clientsPool w6 q) = Status (clientsPool w q)" for q
    unfolding talkD(7) [OF t] W(1) by simp
  let ?f = "ReleaseID i \<circ> ReleaseStatus SS_ACCEPTED"
  have F: "clientsPool w' = (clientsPool w6)(p := ?f (clientsPool w6 p))" "myClients w' = myClients w"
    "log w' = log w6" "orderClientIDs w' = orderClientIDs w"
    using talkD(2,6) [OF t] W(2,4) unfolding w' by (auto simp: world_simps)
  have so4: "sockets_ok ?w4" using iv4 by (simp add: sight_inv_def)
  have sane': "sane (clientsPool w' q)" for q
    using talkD(1) [OF t] r by (simp add: F sane_accessors)
  have at': "Socket (clientsPool w' q) = Socket (clientsPool w6 q)" for q
    by (simp add: F kept_fields ReleaseStatus_def)
  have "hears w' j q" if j: "myClients w j = Some q" "IsPlayer j" for j q
  proof (cases "q = p")
    case True
    have "heard_at w p = []" using heardD(4) [OF h me pl] True st6 \<open>Status (clientsPool w p) = SS_CONNECTED\<close>
      by (simp add: hears_def)
    moreover have "j = i" using registered_inj [OF wf] me j True by blast
    ultimately have "welcomed j (heard_at ?w4 p)"
      using W(5) [of "Socket (clientsPool w p)"] ses(3) welcomed_first by (auto simp: W(1))
    then have "welcomed j (heard_at w' p)" using talk_welcomed [OF t] unfolding F(3) at' by blast
    then show ?thesis using True by (simp add: hears_def F(1) ReleaseID_def ReleaseStatus_def)
  next
    case False
    have "sockets_ok w" using iv by (simp add: sight_inv_def)
    moreover have "i \<noteq> j" using False j me by auto
    ultimately have "Socket (clientsPool w q) \<noteq> Socket (clientsPool w p)"
      using sockets_okD(2) [OF _ me pl] j by blast
    then have "heard_at ?w4 q = heard_at w q"
      using W(5) [of "Socket (clientsPool w q)"] False by (simp add: W(1))
    then have "hears ?w4 j q" using heardD(4) [OF h j] False by (simp add: hears_def W(1))
    moreover have "spoken ?w4 p = ?R" unfolding spoken_def W(1,2) by auto
    ultimately have "hears w6 j q"
      using talk_hears [of ?w4 p w6 j q] t so4 j False st6 by (simp add: W(1,2))
    then show ?thesis using False by (simp add: hears_def F(1,3))
  qed
  then show ?thesis using sane' heardD(2,3) [OF h] unfolding heard_def F(2,4) by blast
qed

subsection \<open>Leaving\<close>

lemma heard_disconnects:
  assumes o: "orderly w" and h: "heard w" and pl: "IsPlayer i" and ord: "is_order (order os)"
    and D: "Disconnect os i w = Inr w'"
  shows "heard w'"
proof (cases "myClients w i")
  case None
  then show ?thesis using D h by (simp add: Disconnect_def world_simps)
next
  case (Some p)
  note wf = orderly_wf [OF o] and iv = orderlyD(1) [OF o]
  note ses = registered_session [OF wf Some]
  have r: "in_range 8 i" by (rule heard_range [OF h o Some])
  obtain w2 where t: "talk (spoken w p) w w2" and w': "w' = Cleanup p (DeregisterPlayer i w2)"
  proof (cases "Status (clientsPool w p) = SS_ACCEPTED")
    case True
    then obtain w2 where C: "CleanupSight os p w = Inr w2"
      and w': "w' = ReleaseClient (Index (clientsPool w p)) p (Cleanup p (DeregisterPlayer i w2))"
      using D Some by (auto simp: Disconnect_def world_simps Let_def IsAccepted_def rbind_eq_Inr)
    have pos: "inside (pos_of w p)" using orderlyD(2) [OF o Some] True by (simp add: settled_def in_world_inside)
    have "talk (spoken w p) w w2"
      by (rule talk_CleanupSight [OF heardD(1) [OF h] wf Some ord r _ C],
          rule audible_near [OF wf _ _ _ Some pos orderly_among [OF o h]])
        (use iv in \<open>simp_all add: sight_inv_def\<close>)
    then show ?thesis using that w' by (simp add: ses(1) world_simps)
  next
    case False
    then have "Status (clientsPool w p) = SS_CONNECTED" using orderlyD(2) [OF o Some] by (simp add: settled_def)
    then have "w' = Cleanup p (DeregisterPlayer i w)"
      using D Some ses(1) by (simp add: Disconnect_def world_simps Let_def IsAccepted_def IsConnected_def)
    then show ?thesis using that talk_refl heardD(1) [OF h] by blast
  qed
  have so: "sockets_ok w" using iv by (simp add: sight_inv_def)
  have F: "myClients w' = (myClients w)(i := None)" "orderClientIDs w' = orderClientIDs w"
    "clientsPool w' = (clientsPool w2)(p := Cleanup_fields (clientsPool w2 p))"
    "sent_to s (log w') = sent_to s (log w2)" for s
    using talkD(2,6) [OF t] by (simp_all add: w' world_simps)
  have "hears w' j q" if j: "myClients w j = Some q" "IsPlayer j" "j \<noteq> i" for j q
  proof -
    have q: "q \<noteq> p" using registered_inj [OF wf Some] j by blast
    have "hears w2 j q" by (rule talk_hears [OF t so j(1,2) q heardD(4) [OF h j(1,2)]])
    then show ?thesis using q by (simp add: hears_def F)
  qed
  moreover have "sane (clientsPool w' q)" for q using talkD(1) [OF t] by (simp add: F sane_accessors)
  ultimately show ?thesis using heardD(2,3) [OF h] unfolding heard_def F(1,2) by (auto split: if_splits)
qed

subsection \<open>Connecting\<close>

lemma refused_says:
  assumes "word_of_nat USERS_MAX \<le> numberClients w" and "ProceedSignUp os w = Inr w'"
  shows "clientsPool w' = clientsPool w" and "myClients w' = myClients w" and "orderClientIDs w' = orderClientIDs w"
    and "so \<noteq> acceptNewbie w \<Longrightarrow> sent_to so (log w') = sent_to so (log w)"
  using assms(2) by (auto simp: ProceedSignUp_def Let_def assms(1) AcquireNewbieSocket_def CreateSocket_def GetClientsNumber_def
      case_prod_beta world_simps ProceedLoginFailed_def)

lemma sign_up_says:
  assumes "\<not> word_of_nat USERS_MAX \<le> numberClients w" and "first_free w = Some p"
    and "Index (clientsPool w p) = p" and "create_port os (length (log w))" and U: "ProceedSignUp os w = Inr w'"
    and so: "wsa_recv os (Suc (length (log w))) = IoDone \<or> so \<noteq> acceptNewbie w"
  shows "sent_to so (log w') = sent_to so (log w)"
proof -
  let ?r = "wsa_recv os (Suc (length (log w)))"
  note defs = ProceedSignUp_def Let_def AcquireNewbieSocket_def GetClientsNumber_def
    AcquireNewbieID_def FindPlace_first_free now_def case_prod_beta world_simps RecvStream_log
    ReleaseClient_pool CreateSocket_def newcomer_def assms(1-4) ProceedLoginFailed_def
  show ?thesis using U so by (cases ?r) (auto simp: defs)
qed

lemma heard_connects:
  assumes o: "orderly w" and h: "heard w" and c: "new_connection os w" and f: "sent_to (acceptNewbie w) (log w) = []"
    and id: "orderClientIDs w + 1 < 2 ^ 63" and U: "ProceedSignUp os w = Inr w'"
  shows "heard w'"
proof -
  have new: "Socket (clientsPool w q) \<noteq> acceptNewbie w" if "myClients w i = Some q" for i q
    using c that by (simp add: new_connection_def)
  show ?thesis
  proof (cases "word_of_nat USERS_MAX \<le> numberClients w")
    case True
    note R = refused_says [OF True U]
    have "heard_at w' q = heard_at w q" if "myClients w i = Some q" for i q
      unfolding R(1) by (rule R(4) [OF new [OF that]])
    then show ?thesis using h unfolding heard_def hears_def R(1-3) by metis
  next
    case False
    let ?r = "wsa_recv os (Suc (length (log w)))" and ?i = "orderClientIDs w"
    obtain p where rd: "ready os w p" by (rule orderly_ready [OF o c False])
    have p: "first_free w = Some p" "create_port os (length (log w))" and u: "\<And>i q. myClients w i = Some q \<Longrightarrow> q \<noteq> p"
      using rd by (auto simp: ready_def)
    have ix: "Index (clientsPool w p) = p"
      using wf_worldD(3) [OF orderly_wf [OF o] first_free_SomeD(1) [OF p(1)]] by (simp add: wf_session_def)
    note says = sign_up_says [OF False p(1) ix p(2) U]
    obtain w1 where 1: "ProceedSignUp os w = Inr w1"
      and pool: "clientsPool w1 = (clientsPool w)(p := (if ?r = IoError then Cleanup_fields (newcomer w p)
        else newcomer w p))"
      and nd: "?r \<noteq> IoDone \<Longrightarrow> myClients w1 = myClients w
        \<and> orderClientIDs w1 = orderClientIDs w \<and> numberClients w1 = numberClients w"
      and dn: "?r = IoDone \<Longrightarrow> myClients w1 = (myClients w)(?i \<mapsto> p)
        \<and> orderClientIDs w1 = ?i + 1 \<and> numberClients w1 = numberClients w + 1"
      by (rule sign_up_result [OF orderlyD(1) [OF o] rd]) (rule that)
    have "w1 = w'" using U 1 by simp
    note pool = pool [unfolded this] and nd = nd [unfolded this] and dn = dn [unfolded this]
    have i: "0 \<le> ?i" "in_range 8 ?i"
      using orderlyD(4) [OF o] id by (simp_all add: IsPlayer_def const_simps in_range_def)
    have "sane (newcomer w p)" using heardD(1) [OF h] i(2) by (simp add: newcomer_def sane_accessors)
    then have sane': "sane (clientsPool w' q)" for q using heardD(1) [OF h] by (simp add: pool sane_accessors)
    have old: "hears w' j q" if j: "myClients w j = Some q" "IsPlayer j" for j q
    proof -
      have "clientsPool w' q = clientsPool w q" using u [OF j(1)] by (simp add: pool)
      moreover have "heard_at w q = sent_to (Socket (clientsPool w q)) (log w')"
        using says [of "Socket (clientsPool w q)"] new [OF j(1)] by simp
      ultimately show ?thesis using heardD(4) [OF h j] by (simp add: hears_def)
    qed
    show ?thesis
    proof (cases "?r = IoDone")
      case False
      then show ?thesis using nd sane' old heardD(2,3) [OF h] unfolding heard_def by metis
    next
      case True
      note dn = dn [OF True]
      have "hears w' ?i p"
        using True says [of "acceptNewbie w"] f by (simp add: hears_def pool newcomer_fields)
      moreover have "0 \<le> j" if "myClients w' j = Some q" for j q
        using that i(1) heardD(2) [OF h] dn by (auto split: if_splits)
      moreover have "hears w' j q" if "myClients w' j = Some q" "IsPlayer j" for j q
        using that old calculation(1) dn by (auto split: if_splits)
      ultimately show ?thesis using sane' id dn unfolding heard_def by auto
    qed
  qed
qed

subsection \<open>Every event\<close>

lemma heard_posts: "heard w \<Longrightarrow> heard (post d i a w)"
  by (rule heard_alike) (simp_all add: post_def world_simps)

lemma heard_requests:
  assumes h: "heard w" and wf: "wf_world w" and me: "myClients w i = Some p"
  shows "heard (TryMove p d w)" and "heard (TryNormalAttack p d w)"
proof -
  note ses = registered_session [OF wf me]
  have "on_session p (ReleaseID i) (post b j a w) = post b j a w" for b j a
    using released [OF ses(3,2)] by (simp add: on_session_def post_def emit_def)
  then show "heard (TryMove p d w)" and "heard (TryNormalAttack p d w)"
    using heard_posts [OF h] ses(3) by (simp_all add: TryMove_def TryNormalAttack_def Let_def AcquireID_def)
qed

lemma heard_clears: "heard w \<Longrightarrow> heard (on_session p ClearRecvBuffer w)"
  by (rule heard_alike) (simp_all add: world_simps ClearRecvBuffer_def)

lemma heard_attacks:
  assumes o: "orderly w" and h: "heard w" and me: "myClients w i = Some p" and pl: "IsPlayer i"
    and st: "Status (clientsPool w p) = SS_ACCEPTED" and ord: "is_order (order os)"
    and A: "PlayerAttack os i dir w = Inr w'"
  shows "heard w'"
proof -
  have s: "in_world (clientsPool w p)" "mySightSector (clientsPool w p) \<noteq> None"
    using orderlyD(2) [OF o me] st by (simp_all add: settled_def)
  obtain m js where "PlayerAttack os i dir w = Inr (w\<lparr>mySightManager := m, log := log w @ map death js\<rparr>)"
    by (rule player_attack_result [OF orderlyD(1) [OF o] me pl s(2) in_world_inside [OF s(1)] ord]) (rule that)
  moreover have "sent_to so (map death js) = []" for so by (induction js) simp_all
  ultimately show ?thesis using A by (intro heard_alike [OF h]) auto
qed

lemma heard_packet:
  assumes o: "orderly w" and h: "heard w" and me: "myClients w i = Some p" and pl: "IsPlayer i"
    and ord: "is_order (order os)" and H: "handle os p k w = Inr (b, w')"
  shows "heard w'"
proof -
  note wf = orderly_wf [OF o]
  note ses = registered_session [OF wf me]
  note D = heard_disconnects [OF o h pl ord] and S = heard_signs_in [OF o h me pl ord]
    and C = heard_disconnects [OF clears_in_order [OF o me] heard_clears [OF h] pl ord]
    and R = heard_requests [OF h wf me]
  show ?thesis
    using H h D S C R heard_posts [OF h] ses(3)
    by (cases "body k") (auto simp: Let_def rbind_eq_Inr split: if_splits)
qed

text \<open>A connection comes on a socket nothing was sent to, and the identifiers do not run out.\<close>

definition anew :: "world \<Rightarrow> event \<Rightarrow> bool" where
  "anew w e \<longleftrightarrow> (e = Knock \<longrightarrow> sent_to (acceptNewbie w) (log w) = [] \<and> orderClientIDs w + 1 < 2 ^ 63)"

lemma heard_reacts:
  assumes o: "orderly w" and h: "heard w" and a: "admitted os w e" and n: "anew w e"
    and ord: "is_order (order os)" and R: "react os e w = Inr w'"
  shows "heard w'"
proof (cases e)
  case Knock
  then show ?thesis using heard_connects [OF o h, of os w'] a n R
    by (simp add: react_def Update_def Asynchron_def admitted_def anew_def)
next
  case (Said i k)
  then have pl: "IsPlayer i" using a by (auto simp: admitted_def)
  show ?thesis
  proof (cases "myClients w i")
    case None
    then show ?thesis using h Said R by (simp add: react_def)
  next
    case (Some p)
    then obtain b where "handle os p k w = Inr (b, w')"
      using R Said by (auto simp: react_def rbind_eq_Inr simp del: handle.simps)
    then show ?thesis by (rule heard_packet [OF o h Some pl ord])
  qed
next
  case (Posted d i c)
  then have due: "due w i c" and nd: "Operation c \<noteq> OP_ENTITY_DEAD"
    using a orderlyD(8) [OF o] by (auto simp: admitted_def)
  show ?thesis
  proof (cases "Operation c = OP_ACCEPT \<or> myClients w i = None")
    case True
    then show ?thesis
      using due nd h R by (auto simp: react_def Update_def Posted due_def EntityMove_def PlayerAttack_def world_simps)
  next
    case False
    then obtain p where p: "myClients w i = Some p" by auto
    have "Operation c = OP_ENTITY_MOVE \<or> Operation c = OP_PLAYER_ATTACK" and pl: "IsPlayer i"
      and st: "Status (clientsPool w p) = SS_ACCEPTED" using due nd False p by (auto simp: due_def)
    then show ?thesis
      using heard_moves [OF o h p pl st ord] heard_attacks [OF o h p pl st ord] R
      by (auto simp: react_def Update_def Posted)
  qed
next
  case (Broken i)
  then have "IsPlayer i" using a by (simp add: admitted_def)
  then show ?thesis using heard_disconnects [OF o h _ ord] h Broken R by (auto simp: react_def Update_def split: if_splits)
qed

end
