(* ===== verification/Together.thy ===== *)
theory Together
  imports Heard
begin

section \<open>The client and the server together\<close>

text \<open>
  A run of the server, and a client that gets what the server sent to its socket: it ends in the
  game and draws the view list the server keeps for it.
\<close>

subsection \<open>From the start of the server on\<close>

definition silent :: "world \<Rightarrow> bool" where
  "silent w \<longleftrightarrow> (\<forall>q. sane (clientsPool w q)) \<and> (\<forall>so. sent_to so (log w) = [])"

lemma created_npc:
  "clientsPool (snd (CreateNPC k c w)) = (clientsPool w)(k := ReleaseStatus SS_ACCEPTED
     ((SetID (int k) (clientsPool w k))\<lparr>myInfobox := (myInfobox (SetID (int k) (clientsPool w k)))\<lparr>ib_category := c\<rparr>\<rparr>))"
  "log (snd (CreateNPC k c w)) = log w" "fst (CreateNPC k c w) = k"
  by (auto simp: CreateNPC_def Let_def AcquireClient_def insert_client_def ReleaseClient_def on_session_def
      fun_eq_iff split: option.split)

lemma unit_fits: "unit_rands os \<Longrightarrow> fits_f32 (fmul (rand_unit os n) 64000)"
  using unit_position [of os n] by (simp add: fits_f32_def)

lemma silent_npc:
  assumes w: "silent w" and u: "unit_rands os" and k: "k < NPC_ID_END" and B: "build_npc os k w = Inr w'"
  shows "silent w'"
proof -
  let ?w1 = "snd (CreateNPC k CAT_MOB w)"
  let ?w2 = "on_session k (SetPosition (fmul (rand_unit os (2 * k)) WORLD_W) (fmul (rand_unit os (2 * k + 1)) WORLD_H)) ?w1"
  let ?f = "\<lambda>s. s\<lparr>myInfobox := (myInfobox s)\<lparr>ib_category := CAT_MOB, ib_type := npc_type (rand_percent os k)\<rparr>,
      myNickname := [77, 45] @ decimal k\<rparr>"
  obtain w3 where R: "RegisterSight k ?w2 = Inr w3" and w': "w' = on_session k ?f w3"
    using B by (auto simp: build_npc_def created_npc case_prod_beta Let_def rbind_eq_Inr on_session_def)
  have f: "WORLD_W = 64000" "WORLD_H = 64000" by (simp_all add: const_simps)
  have id: "in_range 8 (int k)" "\<not> IsPlayer (int k)" using k by (simp_all add: in_range_def IsPlayer_def const_simps)
  have s2: "sane (clientsPool ?w2 q)" for q
    using w id(1) unit_fits [OF u] unfolding f
    by (auto simp: silent_def created_npc world_simps sane_def infobox_packet_def mk_packet_def SetPosition_def
        ReleaseStatus_def SetID_def named_category_def)
  have "talk {} ?w2 w3"
    by (rule talk_RegisterSight [OF s2 _ _ _ R])
      (use id unit_fits [OF u] in \<open>simp_all add: f world_simps created_npc SetPosition_def SetID_def ReleaseStatus_def
        fits_def GetPosition_def\<close>)
  then have t: "\<And>q. sane (clientsPool w3 q)" "\<And>so. sent_to so (log w3) = sent_to so (log w)"
    using tells_sent(2) by (auto simp: talk_def world_simps created_npc)
  have "sane (?f s)" if "sane s" for s
    using that by (simp add: sane_def infobox_packet_def mk_packet_def named_category_def npc_type_def named_entity_def)
  then show ?thesis using t w unfolding w' by (simp add: silent_def world_simps)
qed

lemma silent_npcs:
  assumes "silent w" and u: "unit_rands os" and "n \<le> NPC_ID_END" and "foldR (build_npc os) [0..<n] w = Inr w'"
  shows "silent w'"
  using assms(3,4)
proof (induction n arbitrary: w')
  case 0
  then show ?case using assms(1) by simp
next
  case (Suc n)
  then obtain w1 where "foldR (build_npc os) [0..<n] w = Inr w1" "build_npc os n w1 = Inr w'"
    by (auto simp: foldR_append rbind_eq_Inr)
  then show ?case using Suc silent_npc [OF _ u, of w1 n w'] by auto
qed

lemma silent_built:
  assumes "\<And>q. sane (clientsPool w q)" and "\<And>so. sent_to so (log w) = []"
  shows "silent (BuildSessions mem w)"
proof -
  have "sane (built mem q)" if "q < ENTITIES_MAX_NUMBER" for q
    using that is_f32_int [of 0]
    by (simp add: sane_def built_def Let_def SetBoundingBox_def new_session_def new_infobox_def infobox_packet_def
        mk_packet_def in_range_def named_category_def named_entity_def named_move_def fits_f32_def const_simps)
  then show ?thesis using assms by (simp add: silent_def BuildSessions_result)
qed

lemma starts_heard:
  assumes "reuse_ok b" and "listen_ok b" and "unit_rands os" and "\<And>n. new_socket os n \<noteq> NULL_SOCKET"
    and M: "server_main b os mem = Inr (Serving w ts)"
  shows "orderly w \<and> heard w" and "sent_to so (log w) = []"
proof -
  obtain w1 where 1: "server_main b os mem = Inr (Serving w1 (BuildThreads threadWorkers0))"
    "npcs_at NPC_ID_END w1" "numberClients w1 = 0" "orderClientIDs w1 = 200000" "posted (log w1) = {}"
    by (rule start_result [OF assms(1-4)]) (rule that)
  then have w: "w1 = w" using M by simp
  let ?s = "new_socket os (now (Awake b IOCPFramework))"
  let ?w1 = "(emit (ESocket ?s) (Awake b IOCPFramework))\<lparr>acceptNewbie := ?s\<rparr>"
  obtain w3 where 3: "BuildNPCs os (BuildSessions mem ?w1) = Inr w3" "w = Listen w3"
    using M assms(1,2) by (auto simp: server_main_def Start_def CreateSocket_def Let_def rbind_eq_Inr)
  have "silent (BuildSessions mem ?w1)"
  proof (rule silent_built)
    show "sane (clientsPool ?w1 q)" for q
      using is_f32_int [of 0] unfolding world.simps
      by (simp add: world_simps Awake_fields IOCPFramework_def sane_def new_session_def new_infobox_def infobox_packet_def
        mk_packet_def in_range_def named_category_def named_entity_def named_move_def fits_f32_def)
    show "sent_to so (log ?w1) = []" for so
      by (auto simp: Awake_def Let_def world_simps IOCPFramework_def split: option.split)
  qed
  then have "silent w3"
    using silent_npcs [OF _ assms(3) order_refl] 3(1) by (simp add: BuildNPCs_def NPC_ID_BEGIN_def)
  then have "silent w" by (simp add: 3(2) silent_def world_simps)
  then show "sent_to so (log w) = []" by (simp add: silent_def)
  have "\<not> IsPlayer i" "0 \<le> i" if "myClients w i = Some p" for i p
    using that npcs_at_end(1) [OF 1(2)] unfolding w by (auto simp: IsPlayer_def const_simps split: if_splits)
  with \<open>silent w\<close> have "heard w" using 1(4) unfolding heard_def silent_def w by auto
  then show "orderly w \<and> heard w" using starts_in_order [OF 1(2-5)] w by simp
qed

text \<open>The events of \<open>Runs\<close>, with fresh sockets and identifiers.\<close>

inductive plays_on :: "os \<Rightarrow> world \<Rightarrow> world \<Rightarrow> bool" for os where
  plays_on: "admitted os w e \<Longrightarrow> anew w e \<Longrightarrow> react os e w = Inr w' \<Longrightarrow> plays_on os w w'"

lemma runs_heard:
  assumes "reaches (plays_on os) w0 w" and "orderly w0 \<and> heard w0" and ord: "is_order (order os)"
  shows "orderly w \<and> heard w"
proof (rule reaches_invariant [where I = "\<lambda>w. orderly w \<and> heard w", OF assms(1,2)])
  fix t u assume t: "orderly t \<and> heard t" and "plays_on os t u"
  then obtain e where e: "admitted os t e" "anew t e" "react os e t = Inr u" by (auto elim: plays_on.cases)
  then show "orderly u \<and> heard u"
    using reacts_in_order [OF conjunct1 [OF t] e(1) ord] heard_reacts [OF conjunct1 [OF t] conjunct2 [OF t] e(1,2) ord e(3)]
    by auto
qed

subsection \<open>Packets in the game\<close>

text \<open>Packets that come in one receive, and a tick for each and one more.\<close>

definition arrival :: "u64 \<Rightarrow> packet list \<Rightarrow> client_event list" where
  "arrival v c = RecvDone False False (concat (map (packet_bytes v) c)) # replicate (Suc (length c)) WM_TIMER"

lemma play_append: "play i (ks @ ks') g = play i ks' (play i ks g)"
  by (simp add: play_def)

lemma game_receives:
  assumes g: "in_game a" and n: "c_idle (myNetwork a)" and e: "myTasks a = []"
    and ks: "\<forall>k\<in>set c. whole k \<and> news (Type k)" and c: "c \<noteq> []"
    and l: "length (concat (map (packet_bytes v) c)) \<le> BUFFSZ" and f: "length c < fuel"
  shows "\<exists>a'. client_run fuel co (arrival v c) a = Inr a' \<and> in_game a' \<and> c_idle (myNetwork a')
    \<and> myTasks a' = [] \<and> GetMyID a' = GetMyID a \<and> game_s a' = play (GetMyID a) c (game_s a)"
proof -
  let ?d = "concat (map (packet_bytes v) c)"
  obtain m where m: "foldR net_effect c (myNetwork a) = Inr m" "myID m = myID (myNetwork a)"
    using news_effect [of c "myNetwork a"] ks by auto
  obtain n' where n': "OnReceive fuel co (word_of_nat (length ?d)) (client_deliver ?d (myNetwork a))
        = Inr (filter (\<lambda>k. passed_on (Type k)) c, n')" "c_idle n'" "client_knows n' = client_knows m"
    using on_receive_whole [OF n _ refl l m(1) f] ks by blast
  have p: "filter (\<lambda>k. passed_on (Type k)) c = c"
    using ks by (auto simp: passed_on_def news_def filter_id_conv)
  have "0 < length ?d" using c by (cases c) (simp_all add: length_packet_bytes sizeof_Packet_def)
  then have "(word_of_nat (length ?d) :: u32) \<noteq> 0"
    using l by (simp add: const_simps word_of_nat_eq_0_iff) (auto dest: dvd_imp_le)
  then have 1: "myProcedure fuel co (RecvDone False False ?d) a = Inr (a\<lparr>myNetwork := n', myTasks := rev c\<rparr>)"
    using n'(1) e unfolding p by (simp add: myProcedure_def CallbackRecv_def Let_def FrameworkOnNetwork_tasks)
  have id: "myID n' = myID (myNetwork a)" using n'(3) m(2) by (simp add: client_knows_def)
  let ?a = "a\<lparr>myNetwork := n', myTasks := rev c\<rparr>"
  let ?b = "?a\<lparr>myTasks := [], game_s := play (GetMyID ?a) c (game_s ?a)\<rparr>"
  have g1: "in_game ?a" using g by (simp add: in_game_def)
  have 2: "client_run fuel co (replicate (length c) WM_TIMER) ?a = Inr ?b"
    using ticks_drain [OF g1, of c "[]"] ks by (auto simp: news_def game_takes_def)
  have "isCompleted (play i c h) = isCompleted h" for i h
    unfolding play_def by (induction c arbitrary: h) simp_all
  then have g2: "in_game ?b" using g by (simp add: in_game_def)
  have 3: "client_run fuel co [WM_TIMER] ?b = Inr ?b"
    using game_tick [OF g2] by (simp add: client_run_def myProcedure_def offer_task_def GetLastTask_def split: option.split)
  have "arrival v c = RecvDone False False ?d # replicate (length c) WM_TIMER @ [WM_TIMER]"
    by (simp add: arrival_def replicate_append_same)
  then have "client_run fuel co (arrival v c) a = Inr ?b"
    using 1 client_run_append [of fuel co "replicate (length c) WM_TIMER" "[WM_TIMER]" ?a] 2 3
    by (simp add: client_run_def)
  then show ?thesis using g2 n'(2) id by (intro exI [of _ ?b]) (simp add: GetMyID_def)
qed

definition fits_buffer :: "u64 \<Rightarrow> nat \<Rightarrow> packet list \<Rightarrow> bool" where
  "fits_buffer v fuel c \<longleftrightarrow> c \<noteq> [] \<and> length (concat (map (packet_bytes v) c)) \<le> BUFFSZ \<and> length c < fuel"

lemma game_receives_all:
  assumes "in_game a" and "c_idle (myNetwork a)" and "myTasks a = []"
    and "\<forall>k\<in>set (concat cs). whole k \<and> news (Type k)" and "\<forall>c\<in>set cs. fits_buffer v fuel c"
  shows "\<exists>a'. client_run fuel co (concat (map (arrival v) cs)) a = Inr a' \<and> in_game a'
    \<and> GetMyID a' = GetMyID a \<and> game_s a' = play (GetMyID a) (concat cs) (game_s a)"
  using assms
proof (induction cs arbitrary: a)
  case Nil
  then show ?case by (simp add: client_run_def play_def)
next
  case (Cons c cs)
  obtain b where b: "client_run fuel co (arrival v c) a = Inr b" "in_game b" "c_idle (myNetwork b)" "myTasks b = []"
      "GetMyID b = GetMyID a" "game_s b = play (GetMyID a) c (game_s a)"
    using game_receives [OF Cons.prems(1-3), of c v fuel co] Cons.prems(4,5) by (auto simp: fits_buffer_def)
  then show ?case
    using Cons.IH [OF b(2-4)] Cons.prems(4,5) by (auto simp: client_run_append play_append)
qed

subsection \<open>The whole\<close>

lemma welcomed_readable:
  assumes "welcomed i ks" and "in_range 8 i"
  shows "\<forall>k\<in>set ks. whole k"
  using assms sign_up_whole [OF assms(2)] by (auto simp: welcomed_def)

lemma client_plays:
  assumes w: "co_works co" and ks: "welcomed i (concat cs)" and i: "in_range 8 i" "i \<noteq> - 1"
    and fb: "\<forall>c\<in>set cs. fits_buffer v fuel c"
  shows "\<exists>a. client_run fuel co (connecting @ concat (map (arrival v) cs)) client_rooms = Inr a
    \<and> in_game a \<and> GetMyID a = i \<and> game_s a = play i (concat cs) SceneGame"
proof -
  obtain u m ks' where ks': "concat cs = SCPacketSignUp i u m # ks'" "\<forall>k\<in>set ks'. whole k \<and> news (Type k)"
    using ks by (auto simp: welcomed_def)
  let ?k = "SCPacketSignUp i u m"
  obtain c cs' where c: "cs = c # cs'" using ks'(1) by (cases cs) auto
  then obtain c' where c': "c = ?k # c'" "ks' = c' @ concat cs'"
    using ks'(1) fb by (cases c) (auto simp: fits_buffer_def)
  have k: "whole ?k" "Type ?k = SC_SIGNUP" "playerID ?k = i"
    using sign_up_whole [OF i(1)] by (simp_all add: SCPacketSignUp_def mk_packet_def)
  have skip: "snd (GameOnNetwork i ?k g) = g" for g by (rule GameOnNetwork_cases(4)) (simp add: k(2))
  obtain b where b: "client_run fuel co (connecting @ arrival v c) client_rooms = Inr b" "in_game b"
      "c_idle (myNetwork b)" "myTasks b = []" "GetMyID b = i" "game_s b = play i c' SceneGame"
    using reaches_game [OF w k(1,2) _ _ refl, of c' v fuel] fb i(2) ks'(2) k(3) c c'
    by (auto simp: fits_buffer_def arrival_def)
  obtain a where a: "client_run fuel co (concat (map (arrival v) cs')) b = Inr a" "in_game a" "GetMyID a = i"
      "game_s a = play i (concat cs') (game_s b)"
    using game_receives_all [OF b(2-4), of cs' v fuel co] fb c ks'(2) c'(2) b(5) by auto
  have "client_run fuel co (connecting @ concat (map (arrival v) cs)) client_rooms = Inr a"
    using a(1) b(1) client_run_append [of fuel co "connecting @ arrival v c" "concat (map (arrival v) cs')" client_rooms]
    by (simp add: c)
  moreover have "game_s a = play i (concat cs) SceneGame"
    unfolding a(4) b(6) ks'(1) c'(2) by (simp add: play_def skip)
  ultimately show ?thesis using a(2,3) by blast
qed

text \<open>C2: The program as a whole: whatever clients did to a started server, in any order, a player
  that is in the world has been sent complete and readable packets only, first its identifier and
  then news of entities; and a client that gets them - in receives of whole packets, with time to
  handle each - comes from its address prompt into the game under that identifier, and draws
  exactly the entities of the view list the server keeps for it. As in the other runs nobody moves
  before signing in, no death completes, and sockets and identifiers are fresh.\<close>

theorem clients_draw_their_views:
  assumes "reuse_ok b" and "listen_ok b" and "unit_rands os" and "\<And>n. new_socket os n \<noteq> NULL_SOCKET"
    and "is_order (order os)" and "server_main b os mem = Inr (Serving w0 ts)"
    and "reaches (plays_on os) w0 w"
    and "myClients w i = Some p" and "IsPlayer i" and "Status (clientsPool w p) = SS_ACCEPTED"
    and "co_works co" and "concat cs = sent_to (Socket (clientsPool w p)) (log w)"
    and "\<forall>c\<in>set cs. fits_buffer v fuel c"
  shows "welcomed i (concat cs) \<and> (\<exists>a. client_run fuel co (connecting @ concat (map (arrival v) cs)) client_rooms = Inr a
    \<and> in_game a \<and> GetMyID a = i \<and> drawn (game_s a) = myViewList (clientsPool w p))"
proof -
  have oh: "orderly w" "heard w"
    using runs_heard [OF assms(7) starts_heard(1) [OF assms(1-4,6)] assms(5)] by blast+
  have W: "welcomed i (concat cs)"
    using heardD(4) [OF oh(2) assms(8,9)] assms(10,12) by (simp add: hears_def)
  have r: "in_range 8 i" by (rule heard_range [OF oh(2,1) assms(8)])
  have i: "i \<noteq> - 1" using assms(9) by (simp add: IsPlayer_def const_simps)
  have "player_at w p"
    using assms(8,9) registered_session(3) [OF orderly_wf [OF oh(1)]] by (simp add: player_at_def)
  then have "informed w p" using orderlyD(1) [OF oh(1)] by (simp add: sight_inv_def)
  moreover have "\<forall>k\<in>set (sent_to (Socket (clientsPool w p)) (log w)). wf_packet k"
    using welcomed_readable [OF W r] assms(12) by (simp add: whole_def)
  ultimately have "drawn (play i (concat cs) SceneGame) = myViewList (clientsPool w p)"
    unfolding assms(12) by (rule informed_screen)
  then show ?thesis using client_plays [OF assms(11) W r i assms(13)] W by auto
qed

text \<open>One player that connects and signs in.\<close>

lemma player_joins:
  assumes o: "orderly w" and h: "heard w" and ord: "is_order (order os)" and rd: "ready os w p"
    and so: "create_port os (length (log w))" "sent_to (acceptNewbie w) (log w) = []"
    and id: "orderClientIDs w + 1 < 2 ^ 63" and r: "wsa_recv os (Suc (length (log w))) = IoDone"
  shows "\<exists>w'. reaches (plays_on os) w w' \<and> myClients w' (orderClientIDs w) = Some p
    \<and> Status (clientsPool w' p) = SS_ACCEPTED"
proof -
  let ?i = "orderClientIDs w" and ?k = "mk_packet CS_SIGNIN 0 (BSignIn (replicate 30 0))"
  have pl: "IsPlayer ?i" using rd by (simp add: ready_def)
  have "admitted os w Knock" using rd by (auto simp: admitted_def new_connection_def ready_def)
  moreover have "anew w Knock" using so(2) id by (simp add: anew_def)
  moreover obtain w1 where w1: "ProceedSignUp os w = Inr w1"
      "clientsPool w1 = (clientsPool w)(p := newcomer w p)" "myClients w1 = (myClients w)(?i \<mapsto> p)"
    by (rule sign_up_result [OF orderlyD(1) [OF o] rd]) (use r that in auto)
  then have R1: "react os Knock w = Inr w1" by (simp add: react_def Update_def Asynchron_def)
  ultimately have s1: "plays_on os w w1" by (intro plays_on.intros)
  have o1: "orderly w1" using reacts_in_order [OF o \<open>admitted os w Knock\<close> ord] R1 by auto
  have me: "myClients w1 ?i = Some p" and st: "Status (clientsPool w1 p) = SS_CONNECTED"
    using w1 by (simp_all add: newcomer_fields)
  obtain w2 where w2: "ProceedSignIn os p [] w1 = Inr w2"
      "same_but_sight (on_session p placed_player w1) p w2"
    by (rule sign_in_step [OF orderlyD(1) [OF o1] me ord st connected_sees_nothing(2) [OF o1 me st]]) (rule that)
  have "admitted os w1 (Said ?i ?k)" using pl by (simp add: admitted_def plays_def mk_packet_def)
  moreover have "react os (Said ?i ?k) w1 = Inr w2"
    using me st w2(1) by (simp add: react_def mk_packet_def IsAccepted_def takeWhile_replicate)
  ultimately have s2: "plays_on os w1 w2" by (intro plays_on.intros) (simp_all add: anew_def)
  have "reaches (plays_on os) w w2"
    by (rule reaches_step [where r = "plays_on os", OF reaches_step [where r = "plays_on os", OF reaches_refl s1] s2])
  moreover have "myClients w2 ?i = Some p" "Status (clientsPool w2 p) = SS_ACCEPTED"
    using w2(2) me by (simp_all add: same_but_sight_def placed_player_def world_simps)
  ultimately show ?thesis by blast
qed

lemma singles:
  assumes "\<forall>k\<in>set ks. whole k"
  shows "concat (map (\<lambda>k. [k]) ks) = ks" and "\<forall>c\<in>set (map (\<lambda>k. [k]) ks). fits_buffer v 2 c"
proof -
  show "concat (map (\<lambda>k. [k]) ks) = ks" by (induction ks) auto
  have "length (packet_bytes v k) \<le> BUFFSZ" if "whole k" for k
    using whole_length(1) [OF that, of v] unsigned_less [of "Size k", where 'a = nat] by (simp add: const_simps)
  then show "\<forall>c\<in>set (map (\<lambda>k. [k]) ks). fits_buffer v 2 c" using assms by (auto simp: fits_buffer_def)
qed

text \<open>A server that is started and has one player in the world.\<close>

definition fresh_os :: os where "fresh_os = demo_os\<lparr>new_socket := (\<lambda>n. n + 100)\<rparr>"

definition working_boot :: boot where
  "working_boot = \<lparr>wsa_startup = True, listener_socket = Some 3, bind_ok = True,
      port_made = Some 4, port_joined = True, reuse_ok = True, listen_ok = True\<rparr>"

lemma fresh_os_works:
  "reuse_ok working_boot" "listen_ok working_boot" "unit_rands fresh_os" "\<And>n. new_socket fresh_os n \<noteq> NULL_SOCKET"
  "is_order (order fresh_os)" "\<And>n. create_port fresh_os n" "\<And>n. wsa_recv fresh_os n = IoDone"
  using demo_order by (simp_all add: unit_rands_def demo_os_def fresh_os_def working_boot_def)

lemma demo_run:
  obtains w0 w where "server_main working_boot fresh_os (\<lambda>_. (0, 0)) = Inr (Serving w0 (BuildThreads threadWorkers0))"
    and "reaches (plays_on fresh_os) w0 w" and "myClients w 200000 = Some 200000"
    and "Status (clientsPool w 200000) = SS_ACCEPTED" and "orderly w" and "heard w"
proof -
  note os = fresh_os_works
  obtain w0 where 1: "server_main working_boot fresh_os (\<lambda>_. (0, 0)) = Inr (Serving w0 (BuildThreads threadWorkers0))"
    "npcs_at NPC_ID_END w0" "acceptNewbie w0 \<noteq> NULL_SOCKET" "acceptBeginPlace w0 = 200000"
    "numberClients w0 = 0" "orderClientIDs w0 = 200000" "\<And>s. told s (log w0) = {}"
    by (rule start_result [OF os(1-4)]) (rule that)
  note H = starts_heard [OF os(1-4) 1(1)]
  have "ready fresh_os w0 200000" by (rule first_place_ready [OF 1(2-7) os(6)])
  then obtain w where w: "reaches (plays_on fresh_os) w0 w" "myClients w 200000 = Some 200000"
      "Status (clientsPool w 200000) = SS_ACCEPTED"
    using player_joins [OF conjunct1 [OF H(1)] conjunct2 [OF H(1)] os(5) _ os(6) H(2) _ os(7)] 1(6) by auto
  show ?thesis using that [OF 1(1) w] runs_heard [OF w(1) H(1) os(5)] by blast
qed

theorem clients_draw_their_views_witness:
  "\<exists>w0 w a. server_main working_boot fresh_os (\<lambda>_. (0, 0)) = Inr (Serving w0 (BuildThreads threadWorkers0))
    \<and> reaches (plays_on fresh_os) w0 w
    \<and> client_run 2 demo_co (connecting @ concat (map (arrival 9) (map (\<lambda>k. [k])
        (sent_to (Socket (clientsPool w 200000)) (log w))))) client_rooms = Inr a
    \<and> in_game a \<and> GetMyID a = 200000 \<and> drawn (game_s a) = myViewList (clientsPool w 200000)"
proof -
  obtain w0 w where w: "server_main working_boot fresh_os (\<lambda>_. (0, 0)) = Inr (Serving w0 (BuildThreads threadWorkers0))"
    "reaches (plays_on fresh_os) w0 w" "myClients w 200000 = Some 200000" "Status (clientsPool w 200000) = SS_ACCEPTED"
    "orderly w" "heard w" by (rule demo_run)
  have pl: "IsPlayer 200000" by (simp add: IsPlayer_def const_simps)
  have "\<forall>k\<in>set (sent_to (Socket (clientsPool w 200000)) (log w)). whole k"
    using welcomed_readable heardD(4) [OF w(6,3) pl] heard_range [OF w(6,5,3)] w(4) by (auto simp: hears_def)
  note S = singles [OF this]
  have co: "co_works demo_co" by (simp add: co_works_def demo_co_def)
  show ?thesis
    using clients_draw_their_views [OF fresh_os_works(1-5) w(1-3) pl w(4) co S] w(1,2) by auto
qed

subsection \<open>What the state can hold\<close>



end
