(* ===== verification/Drawing.thy ===== *)
theory Drawing
  imports ClientApp
begin

section \<open>How the client draws\<close>

text \<open>
  \<open>WorldClient/Draw\<close>, \<open>Sprite\<close>, \<open>Panel\<close>, the \<open>Render\<close> functions of the scenes and of the objects,
  and \<open>Framework::BeginRendering\<close>, as the calls of GDI they make. A call is added to the list of
  the calls so far, and what it answers is a function of that list: an argument, as GDI is a part
  of the system. A handle is a number; a picture is the file it was loaded from.
\<close>

subsection \<open>Calls\<close>

type_synonym colorref = nat

definition C_BLACK :: colorref where "C_BLACK = 0"
definition C_WHITE :: colorref where "C_WHITE = 255 + 255 * 2 ^ 8 + 255 * 2 ^ 16"
definition C_GREEN :: colorref where "C_GREEN = 128 * 2 ^ 8"

text \<open>Constants of the system's headers.\<close>

definition PS_NULL :: nat where "PS_NULL = 5"
definition TRANSPARENT :: nat where "TRANSPARENT = 1"
definition TA_CENTER :: nat where "TA_CENTER = 6"
definition GM_ADVANCED :: nat where "GM_ADVANCED = 2"

record xform =
  eM11 :: rat
  eM12 :: rat
  eM21 :: rat
  eM22 :: rat
  eDx :: rat
  eDy :: rat

datatype picture = Raw string | Frame string nat

datatype gdi_call =
  GCreatePen nat nat colorref
| GCreateSolidBrush colorref
| GSelectObject nat
| GDeleteObject nat
| GRectangle int int int int
| GEllipse int int int int
| GSetWorldTransform xform
| GSetGraphicsMode nat
| GSetBkMode nat
| GSetTextAlign nat
| GTextOut int int wstring
| GAlphaBlend picture int int int int u8
| GImageDraw picture int int int int
| GBeginPaint
| GReleaseDC
| GEndPaint

type_synonym gdi_calls = "gdi_call list"

text \<open>
  What GDI answers, the cosine and the sine of the library in single precision, and the files:
  which exist, and the width and height of what they hold - both 0 when it cannot be loaded.
\<close>

record gdi =
  gdi_answer :: "gdi_calls \<Rightarrow> nat"
  gdi_cos :: "rat \<Rightarrow> rat"
  gdi_sin :: "rat \<Rightarrow> rat"
  image_exists :: "string \<Rightarrow> bool"
  image_size :: "string \<Rightarrow> nat \<times> nat"

definition gdi_do :: "gdi \<Rightarrow> gdi_call \<Rightarrow> gdi_calls \<Rightarrow> nat \<times> gdi_calls" where
  "gdi_do g c cs = (gdi_answer g (cs @ [c]), cs @ [c])"

subsection \<open>\<open>Draw\<close>\<close>

definition Attach :: "gdi \<Rightarrow> nat \<Rightarrow> gdi_calls \<Rightarrow> nat \<times> gdi_calls" where
  "Attach g obj cs = gdi_do g (GSelectObject obj) cs"

definition Detach :: "gdi \<Rightarrow> nat \<Rightarrow> nat \<Rightarrow> gdi_calls \<Rightarrow> gdi_calls" where
  "Detach g object_old object_new cs =
     snd (gdi_do g (GDeleteObject object_new) (snd (Attach g object_old cs)))"

definition SizedRect :: "gdi \<Rightarrow> int \<Rightarrow> int \<Rightarrow> int \<Rightarrow> int \<Rightarrow> gdi_calls \<Rightarrow> gdi_calls" where
  "SizedRect g x y w h cs = snd (gdi_do g (GRectangle x y (x + w) (y + h)) cs)"

definition Rect :: "gdi \<Rightarrow> int \<Rightarrow> int \<Rightarrow> int \<Rightarrow> int \<Rightarrow> gdi_calls \<Rightarrow> gdi_calls" where
  "Rect g x1 y1 x2 y2 cs = snd (gdi_do g (GRectangle x1 y1 x2 y2) cs)"

definition Ellipse :: "gdi \<Rightarrow> int \<Rightarrow> int \<Rightarrow> int \<Rightarrow> int \<Rightarrow> gdi_calls \<Rightarrow> gdi_calls" where
  "Ellipse g x1 y1 x2 y2 cs = snd (gdi_do g (GEllipse x1 y1 x2 y2) cs)"

definition Clear :: "gdi \<Rightarrow> int \<Rightarrow> int \<Rightarrow> colorref \<Rightarrow> gdi_calls \<Rightarrow> gdi_calls" where
  "Clear g width height color cs =
     (let (m_hPen, cs) = gdi_do g (GCreatePen PS_NULL 1 color) cs;
          (m_oldhPen, cs) = Attach g m_hPen cs;
          (m_hBR, cs) = gdi_do g (GCreateSolidBrush color) cs;
          (m_oldhBR, cs) = Attach g m_hBR cs;
          cs = SizedRect g 0 0 width height cs
      in Detach g m_oldhPen m_hPen (Detach g m_oldhBR m_hBR cs))"

definition transform_identity :: xform where
  "transform_identity = \<lparr>eM11 = 1, eM12 = 0, eM21 = 0, eM22 = 1, eDx = 0, eDy = 0\<rparr>"

definition Transform :: "gdi \<Rightarrow> xform \<Rightarrow> gdi_calls \<Rightarrow> gdi_calls" where
  "Transform g info cs = snd (gdi_do g (GSetWorldTransform info) cs)"

definition ResetTransform :: "gdi \<Rightarrow> gdi_calls \<Rightarrow> gdi_calls" where
  "ResetTransform g cs = Transform g transform_identity cs"

text \<open>The functions of the namespace \<open>Render\<close>, an older version of these.\<close>

definition draw_end :: "gdi \<Rightarrow> nat \<Rightarrow> nat \<Rightarrow> gdi_calls \<Rightarrow> gdi_calls" where
  "draw_end g object_old object_new cs =
     snd (gdi_do g (GDeleteObject object_new) (snd (gdi_do g (GSelectObject object_old) cs)))"

definition draw_rectangle :: "gdi \<Rightarrow> int \<Rightarrow> int \<Rightarrow> int \<Rightarrow> int \<Rightarrow> gdi_calls \<Rightarrow> gdi_calls" where
  "draw_rectangle g x1 y1 x2 y2 cs = snd (gdi_do g (GRectangle x1 y1 x2 y2) cs)"

definition draw_clear :: "gdi \<Rightarrow> int \<Rightarrow> int \<Rightarrow> colorref \<Rightarrow> gdi_calls \<Rightarrow> gdi_calls" where
  "draw_clear g width height color cs =
     (let (m_hPen, cs) = gdi_do g (GCreatePen PS_NULL 1 color) cs;
          (m_oldhPen, cs) = gdi_do g (GSelectObject m_hPen) cs;
          (m_hBR, cs) = gdi_do g (GCreateSolidBrush color) cs;
          (m_oldhBR, cs) = gdi_do g (GSelectObject m_hBR) cs;
          cs = draw_rectangle g 0 0 width height cs
      in draw_end g m_oldhPen m_hPen (draw_end g m_oldhBR m_hBR cs))"

subsection \<open>Sprites\<close>

text \<open>A frame is the part of the picture that is copied to it: left, top, width and height.\<close>

record game_sprite =
  gs_raw :: string
  gs_number :: nat
  xoffset :: int
  yoffset :: int
  gs_bbox :: "int \<times> int \<times> int \<times> int"
  raw_width :: int
  raw_height :: int
  gs_frames :: "(int \<times> int \<times> int \<times> int) list"
  gs_width :: int
  gs_height :: int

definition set_bbox :: "int \<Rightarrow> int \<Rightarrow> int \<Rightarrow> int \<Rightarrow> game_sprite \<Rightarrow> game_sprite" where
  "set_bbox l r t b sp = sp\<lparr>gs_bbox := (l, r, t, b)\<rparr>"

definition slice_width :: "nat \<Rightarrow> nat \<Rightarrow> int" where
  "slice_width number width =
     (if 1 = width then 1 else let temp_w = int (width div number) in if temp_w < 2 then 1 else temp_w)"

definition process_image :: "nat \<Rightarrow> nat \<Rightarrow> game_sprite \<Rightarrow> bool \<times> game_sprite" where
  "process_image width height sp =
     (if 0 < width \<and> 0 < height then
        let sp1 = (if 1 < gs_number sp then
              let slice_w = slice_width (gs_number sp) width
              in sp\<lparr>gs_frames := gs_frames sp
                     @ map (\<lambda>i. (int i * slice_w, 0, slice_w, int height)) [0..<gs_number sp],
                   gs_width := slice_w, gs_height := raw_height sp\<rparr>
            else sp\<lparr>gs_width := raw_width sp, gs_height := raw_height sp\<rparr>)
        in (True, set_bbox (- xoffset sp1) (gs_width sp1 - xoffset sp1) (- yoffset sp1)
             (gs_height sp1 - yoffset sp1) sp1)
      else (False, sp))"

text \<open>The constructor for a file. A picture that is not valid only opens a message box.\<close>

definition make_sprite :: "gdi \<Rightarrow> string \<Rightarrow> nat \<Rightarrow> int \<Rightarrow> int \<Rightarrow> game_sprite res" where
  "make_sprite g path number xoff yoff =
     (if \<not> image_exists g path then Inl Thrown
      else let (w, h) = image_size g path
        in Inr (snd (process_image w h \<lparr>gs_raw = path, gs_number = number, xoffset = xoff, yoffset = yoff,
             gs_bbox = (0, 0, 0, 0), raw_width = int w, raw_height = int h, gs_frames = [],
             gs_width = 0, gs_height = 0\<rparr>)))"

definition draw_single :: "gdi \<Rightarrow> game_sprite \<Rightarrow> picture \<Rightarrow> rat \<Rightarrow> rat \<Rightarrow> rat \<Rightarrow> rat \<Rightarrow> rat \<Rightarrow> rat
    \<Rightarrow> gdi_calls \<Rightarrow> gdi_calls" where
  "draw_single g sp pic dx dy angle xscale yscale alpha cs =
     (let (nGraphicsMode, cs) = gdi_do g (GSetGraphicsMode GM_ADVANCED) cs;
          cosine = gdi_cos g angle; sine = - gdi_sin g angle;
          ex = of_int \<lfloor>fsub dx (fmul (of_int (xoffset sp)) xscale)\<rfloor>;
          ey = of_int \<lfloor>fsub dy (fmul (of_int (yoffset sp)) yscale)\<rfloor>;
          form = (if angle \<noteq> 0 then \<lparr>eM11 = fmul cosine xscale, eM12 = sine, eM21 = - sine,
              eM22 = fmul cosine yscale, eDx = ex, eDy = ey\<rparr>
            else \<lparr>eM11 = xscale, eM12 = 0, eM21 = 0, eM22 = yscale, eDx = ex, eDy = ey\<rparr>);
          cs = Transform g form cs;
          w = to_int32 (fmul (of_int (gs_width sp)) \<bar>xscale\<bar>); h = to_int32 (fmul (of_int (gs_height sp)) \<bar>yscale\<bar>);
          cs = (if alpha \<noteq> 1
            then snd (gdi_do g (GAlphaBlend pic w h (gs_width sp) (gs_height sp)
              (word_of_int (truncate_rat (fmul 255 alpha)))) cs)
            else snd (gdi_do g (GImageDraw pic w h (gs_width sp) (gs_height sp)) cs));
          cs = Transform g transform_identity cs
      in snd (gdi_do g (GSetGraphicsMode nGraphicsMode) cs))"

text \<open>A number below zero becomes a large \<open>u_int\<close>, for which there is no frame either.\<close>

definition draw_sprite :: "gdi \<Rightarrow> game_sprite \<Rightarrow> rat \<Rightarrow> rat \<Rightarrow> rat \<Rightarrow> rat \<Rightarrow> rat \<Rightarrow> rat \<Rightarrow> rat
    \<Rightarrow> gdi_calls \<Rightarrow> gdi_calls res" where
  "draw_sprite g sp x y index angle xscale yscale alpha cs =
     (if 1 < gs_number sp then
        let i = truncate_rat index
        in if i < 0 \<or> int (length (gs_frames sp)) \<le> i then Inl OutOfRange
           else Inr (draw_single g sp (Frame (gs_raw sp) (nat i)) x y angle xscale yscale alpha cs)
      else Inr (draw_single g sp (Raw (gs_raw sp)) x y angle xscale yscale alpha cs))"

text \<open>The images of the objects, which are loaded before \<open>wWinMain\<close>.\<close>

definition image_file :: "sprite \<Rightarrow> string" where
  "image_file p = (case p of SpritePlayer \<Rightarrow> ''resource/player.png'' | SpriteSkeleton \<Rightarrow> ''resource/enemy_skeleton.png''
     | SpriteSkeletonKing \<Rightarrow> ''resource/enemy_skelking.png'' | SpriteDemon \<Rightarrow> ''resource/enemy_demon.png'')"

definition load_images :: "gdi \<Rightarrow> (sprite \<Rightarrow> game_sprite) res" where
  "load_images g =
     rbind (make_sprite g (image_file SpriteSkeleton) 1 0 0) (\<lambda>skel.
     rbind (make_sprite g (image_file SpriteSkeletonKing) 1 0 0) (\<lambda>king.
     rbind (make_sprite g (image_file SpriteDemon) 1 0 0) (\<lambda>demon.
     rbind (make_sprite g (image_file SpritePlayer) 1 0 0) (\<lambda>player.
       Inr (\<lambda>p. case p of SpritePlayer \<Rightarrow> player | SpriteSkeleton \<Rightarrow> skel | SpriteSkeletonKing \<Rightarrow> king
         | SpriteDemon \<Rightarrow> demon)))))"

subsection \<open>Objects and scenes\<close>

definition wide :: "bytes \<Rightarrow> wstring" where "wide = map (\<lambda>b. ucast b)"

text \<open>\<open>wsprintf (text_id, L\<open>ID: %lu\<close>, UINT (myID))\<close>.\<close>

definition text_id :: "u32 \<Rightarrow> wstring" where
  "text_id i = wide ([73, 68, 58, 32] @ decimal (unat i))"

text \<open>
  \<open>GameEntity::Render\<close> and \<open>PlayerCharacter::Render\<close>, which differ in that the second does not ask
  whether there is an image.
\<close>

definition render_object :: "gdi \<Rightarrow> (sprite \<Rightarrow> game_sprite) \<Rightarrow> rat \<Rightarrow> rat \<Rightarrow> entity \<Rightarrow> gdi_calls \<Rightarrow> gdi_calls res" where
  "render_object g images ax ay e cs =
     (if \<not> e_visible e then Inr cs
      else
        let dx = fadd (of_int (to_int32 (fadd ax (e_x e)))) (CELL_W / 2);
            dy = fadd (of_int (to_int32 (fadd ay (e_y e)))) (CELL_H / 2)
        in rbind (case e_sprite e of
             Some p \<Rightarrow> draw_sprite g (images p) dx dy 0 0 1 1 1 cs
           | None \<Rightarrow> if e_is_player e then Inl NullDeref else Inr cs) (\<lambda>cs.
             let (filler, cs) = gdi_do g (GCreateSolidBrush C_WHITE) cs;
                 (old_filler, cs) = Attach g filler cs;
                 (liner, cs) = gdi_do g (GCreatePen 0 1 C_BLACK) cs;
                 (old_liner, cs) = Attach g liner cs;
                 (old_align, cs) = gdi_do g (GSetTextAlign TA_CENTER) cs;
                 cs = snd (gdi_do g (GTextOut (to_int32 dx) (to_int32 dy + 16) (text_id (word_of_int (e_id e)))) cs);
                 cs = snd (gdi_do g (GSetTextAlign old_align) cs)
             in Inr (Detach g old_liner liner (Detach g old_filler filler cs))))"

definition render_scene :: "gdi \<Rightarrow> (sprite \<Rightarrow> game_sprite) \<Rightarrow> 'a scene_scheme \<Rightarrow> gdi_calls \<Rightarrow> gdi_calls res" where
  "render_scene g images s cs =
     foldR (render_object g images (- fst (myCamera s)) (- snd (myCamera s))) (myInstances s) cs"

definition render_game :: "gdi \<Rightarrow> (sprite \<Rightarrow> game_sprite) \<Rightarrow> game_scene \<Rightarrow> gdi_calls \<Rightarrow> (gdi_calls \<times> game_scene) res" where
  "render_game g images s cs =
     (let s1 = (case myPlayerCharacter s of None \<Rightarrow> s | Some i \<Rightarrow> UpdateCamera (myInstances s ! i) s);
          cam_pos = myCamera s1;
          (old_bk, cs) = gdi_do g (GSetBkMode TRANSPARENT) cs;
          cs = Clear g CLIENT_W CLIENT_H C_GREEN cs;
          (m_hPen, cs) = gdi_do g (GCreatePen PS_NULL 1 C_WHITE) cs;
          (m_oldhPen, cs) = Attach g m_hPen cs;
          (m_hBR, cs) = gdi_do g (GCreateSolidBrush C_WHITE) cs;
          (m_oldhBR, cs) = Attach g m_hBR cs;
          cs = SizedRect g (to_int32 (fsub 40 (fst cam_pos))) (to_int32 (fsub 80 (snd cam_pos))) 300 300 cs;
          cs = Detach g m_oldhPen m_hPen (Detach g m_oldhBR m_hBR cs)
      in rbind (render_scene g images s1 cs) (\<lambda>cs. Inr (snd (gdi_do g (GSetBkMode old_bk) cs), s1)))"

text \<open>The two texts: that the address is to be typed, and that the client is connecting.\<close>

definition ask_for_address :: wstring where
  "ask_for_address = [51217, 49549, 54624, 32, 49436, 48260, 51032, 32, 73, 80, 32, 51452, 49548, 47484, 32,
     51077, 47141, 54644, 51452, 49464, 50836, 46]"

definition now_connecting :: wstring where
  "now_connecting = [51217, 49549, 32, 51473, 32, 51077, 45768, 45796, 46, 46, 46]"

definition write_texts :: "gdi \<Rightarrow> (int \<times> int \<times> wstring) list \<Rightarrow> gdi_calls \<Rightarrow> gdi_calls" where
  "write_texts g ts cs =
     (let cs = Clear g CLIENT_W CLIENT_H C_WHITE cs;
          (filler, cs) = gdi_do g (GCreateSolidBrush C_BLACK) cs;
          (old_filler, cs) = Attach g filler cs;
          (old_bk, cs) = gdi_do g (GSetBkMode TRANSPARENT) cs;
          (old_align, cs) = gdi_do g (GSetTextAlign TA_CENTER) cs;
          cs = fold (\<lambda>(x, y, t) cs. snd (gdi_do g (GTextOut x y t) cs)) ts cs;
          cs = snd (gdi_do g (GSetTextAlign old_align) cs);
          cs = snd (gdi_do g (GSetBkMode old_bk) cs)
      in Detach g old_filler filler cs)"

definition render_main :: "gdi \<Rightarrow> main_scene \<Rightarrow> gdi_calls \<Rightarrow> gdi_calls" where
  "render_main g s = write_texts g [(CLIENT_W div 2, CLIENT_H div 2 - 70, ask_for_address),
     (CLIENT_W div 2, CLIENT_H div 2, wide (take 16 (streamIP s)))]"

definition render_loading :: "gdi \<Rightarrow> loading_scene \<Rightarrow> gdi_calls \<Rightarrow> gdi_calls" where
  "render_loading g s = write_texts g [(CLIENT_W div 2, CLIENT_H div 2 - 70, now_connecting)]"

definition FrameworkPaint :: "gdi \<Rightarrow> (sprite \<Rightarrow> game_sprite) \<Rightarrow> client_app \<Rightarrow> gdi_calls \<Rightarrow> (gdi_calls \<times> client_app) res" where
  "FrameworkPaint g images a cs = (case myState a of
      None \<Rightarrow> Inr (cs, a)
    | Some MAIN \<Rightarrow> Inr (render_main g (main_s a) cs, a)
    | Some LOADING \<Rightarrow> Inr (render_loading g (loading_s a) cs, a)
    | Some GAME \<Rightarrow> rbind (render_game g images (game_s a) cs) (\<lambda>(cs, s). Inr (cs, a\<lparr>game_s := s\<rparr>)))"

definition BeginRendering :: "gdi \<Rightarrow> (sprite \<Rightarrow> game_sprite) \<Rightarrow> client_app \<Rightarrow> gdi_calls \<Rightarrow> (gdi_calls \<times> client_app) res" where
  "BeginRendering g images a cs =
     rbind (FrameworkPaint g images a (snd (gdi_do g GBeginPaint cs))) (\<lambda>(cs, a).
       Inr (snd (gdi_do g GEndPaint (snd (gdi_do g GReleaseDC cs))), a))"

subsection \<open>The window\<close>

text \<open>
  \<open>Panel\<close>. The window is created for the instance the panel had before, and the panel is given
  its own afterwards.
\<close>

record panel =
  pn_width :: int
  pn_height :: int
  pn_instance :: nat
  pn_hwindow :: nat

datatype window_call =
  WRegisterClass nat
| WCreateWindow nat int int
| WShowWindow nat
| WUpdateWindow nat

definition Panel :: "int \<Rightarrow> int \<Rightarrow> panel" where
  "Panel cw ch = \<lparr>pn_width = cw, pn_height = ch, pn_instance = 0, pn_hwindow = 0\<rparr>"

definition Initialize :: "(nat \<Rightarrow> nat) \<Rightarrow> nat \<Rightarrow> panel \<Rightarrow> bool \<times> panel \<times> window_call list" where
  "Initialize window_of hinst p =
     (let hWnd = window_of (pn_instance p);
          cs = [WRegisterClass hinst, WCreateWindow (pn_instance p) (pn_width p) (pn_height p)];
          p1 = p\<lparr>pn_instance := hinst\<rparr>
      in if hWnd = 0 then (False, p1, cs)
         else (True, p1\<lparr>pn_hwindow := hWnd\<rparr>, cs @ [WShowWindow hWnd, WUpdateWindow hWnd]))"

end
