(* ===== verification/DrawingProps.thy ===== *)
theory DrawingProps
  imports Drawing ClientRuns
begin

section \<open>What is drawn, and what is left behind\<close>

text \<open>
  The calls a scene makes show what \<open>FrameworkRender\<close> lists, and leave GDI as it was: the pen, the
  brush and the modes are put back, and every pen and brush that was made is deleted.
\<close>

subsection \<open>What is shown\<close>

text \<open>Shapes on the window, each moved by the transformation that is set when it is drawn.\<close>

datatype shape =
  ShRect int int int int
| ShEllipse int int int int
| ShPicture picture int int
| ShBlend picture u8 int int
| ShText int int wstring

fun form_after :: "xform \<Rightarrow> gdi_calls \<Rightarrow> xform" where
  "form_after f [] = f"
| "form_after f (GSetWorldTransform f' # cs) = form_after f' cs"
| "form_after f (c # cs) = form_after f cs"

definition moved_x :: "xform \<Rightarrow> int \<Rightarrow> int \<Rightarrow> int" where
  "moved_x f x y = \<lfloor>eM11 f * of_int x + eM21 f * of_int y + eDx f\<rfloor>"

definition moved_y :: "xform \<Rightarrow> int \<Rightarrow> int \<Rightarrow> int" where
  "moved_y f x y = \<lfloor>eM12 f * of_int x + eM22 f * of_int y + eDy f\<rfloor>"

fun shape_of_call :: "xform \<Rightarrow> gdi_call \<Rightarrow> shape list" where
  "shape_of_call f (GRectangle a b c d) = [ShRect (moved_x f a b) (moved_y f a b) (moved_x f c d) (moved_y f c d)]"
| "shape_of_call f (GEllipse a b c d) = [ShEllipse (moved_x f a b) (moved_y f a b) (moved_x f c d) (moved_y f c d)]"
| "shape_of_call f (GImageDraw p w h sw sh) = [ShPicture p (moved_x f 0 0) (moved_y f 0 0)]"
| "shape_of_call f (GAlphaBlend p w h sw sh v) = [ShBlend p v (moved_x f 0 0) (moved_y f 0 0)]"
| "shape_of_call f (GTextOut x y t) = [ShText (moved_x f x y) (moved_y f x y) t]"
| "shape_of_call f _ = []"

fun shown :: "xform \<Rightarrow> gdi_calls \<Rightarrow> shape list" where
  "shown f [] = []"
| "shown f (c # cs) = shape_of_call f c @ shown (form_after f [c]) cs"

lemma form_after_append: "form_after f (cs @ ds) = form_after (form_after f cs) ds"
  by (induction f cs rule: form_after.induct) auto

lemma shown_append: "shown f (cs @ ds) = shown f cs @ shown (form_after f cs) ds"
proof (induction f cs rule: shown.induct)
  case (2 f c cs)
  then show ?case using form_after_append [of f "[c]" cs] by simp
qed simp

text \<open>The calls that were added show the shapes and end without a transformation.\<close>

abbreviation identity :: xform where "identity \<equiv> transform_identity"

definition adds :: "gdi_calls \<Rightarrow> gdi_calls \<Rightarrow> shape list \<Rightarrow> bool" where
  "adds cs cs' ss \<longleftrightarrow> (\<exists>es. cs' = cs @ es \<and> shown identity es = ss \<and> form_after identity es = identity)"

lemma adds_refl: "adds cs cs []"
  by (simp add: adds_def)

lemma adds_trans: "adds cs cs' ss \<Longrightarrow> adds cs' cs'' ss' \<Longrightarrow> adds cs cs'' (ss @ ss')"
  by (auto simp: adds_def shown_append form_after_append)

lemma moved_identity [simp]: "moved_x identity x y = x" "moved_y identity x y = y"
  by (simp_all add: moved_x_def moved_y_def transform_identity_def)

lemma adds_do:
  assumes "form_after identity [c] = identity" and "adds cs0 cs ss"
  shows "adds cs0 (snd (gdi_do g c cs)) (ss @ shape_of_call identity c)"
  using adds_trans [OF assms(2), of "snd (gdi_do g c cs)"] assms(1) by (auto simp: adds_def gdi_do_def)

lemma adds_quiet:
  assumes "gdi_do g c cs = (r, cs')" and "form_after identity [c] = identity" and "shape_of_call identity c = []"
    and "adds cs0 cs ss"
  shows "adds cs0 cs' ss"
  using adds_do [OF assms(2,4), of g] assms(1,3) by simp

lemma adds_Attach: "Attach g obj cs = (r, cs') \<Longrightarrow> adds cs0 cs ss \<Longrightarrow> adds cs0 cs' ss"
  unfolding Attach_def by (erule adds_quiet) simp_all

lemma adds_Detach: "adds cs0 cs ss \<Longrightarrow> adds cs0 (Detach g old new cs) ss"
  using adds_do [of "GDeleteObject new" cs0 "snd (Attach g old cs)" ss g] adds_do [of "GSelectObject old" cs0 cs ss g]
  by (simp add: Detach_def Attach_def)

lemma adds_SizedRect: "adds cs0 cs ss \<Longrightarrow> adds cs0 (SizedRect g x y w h cs) (ss @ [ShRect x y (x + w) (y + h)])"
  using adds_do [of "GRectangle x y (x + w) (y + h)" cs0 cs ss g] by (simp add: SizedRect_def)

text \<open>The pair of a pen and a brush, which \<open>Clear\<close> and the ground use.\<close>

lemma adds_filled:
  assumes "adds cs0 cs ss"
    and "gdi_do g (GCreatePen a b c) cs = (pen, cs1)" and "Attach g pen cs1 = (old_pen, cs2)"
    and "gdi_do g (GCreateSolidBrush e) cs2 = (br, cs3)" and "Attach g br cs3 = (old_br, cs4)"
  shows "adds cs0 (Detach g old_pen pen (Detach g old_br br (SizedRect g x y w h cs4)))
    (ss @ [ShRect x y (x + w) (y + h)])"
proof -
  have "adds cs0 cs1 ss" by (rule adds_quiet [OF assms(2) _ _ assms(1)]) simp_all
  then have "adds cs0 cs2 ss" by (rule adds_Attach [OF assms(3)])
  then have "adds cs0 cs3 ss" by (intro adds_quiet [OF assms(4)]) simp_all
  then have "adds cs0 cs4 ss" by (rule adds_Attach [OF assms(5)])
  then show ?thesis by (intro adds_Detach adds_SizedRect)
qed

lemma adds_Clear: "adds cs0 cs ss \<Longrightarrow> adds cs0 (Clear g w h color cs) (ss @ [ShRect 0 0 w h])"
  using adds_filled [where x = 0 and y = 0 and w = w and h = h and g = g and cs = cs]
  by (simp add: Clear_def Let_def split: prod.split)

lemma floor_f32 [simp]: "is_f32 x \<Longrightarrow> fsub x 0 = x"
  by (simp add: fsub_def is_f32_def)

lemma adds_picture:
  assumes "is_f32 x" and "is_f32 y" and "xoffset sp = 0" and "yoffset sp = 0" and "adds cs0 cs ss"
  shows "adds cs0 (draw_single g sp p x y 0 1 1 1 cs) (ss @ [ShPicture p \<lfloor>x\<rfloor> \<lfloor>y\<rfloor>])"
proof -
  have "\<exists>c1 c4. draw_single g sp p x y 0 1 1 1 cs = cs @ [GSetGraphicsMode c1, GSetWorldTransform
      \<lparr>eM11 = 1, eM12 = 0, eM21 = 0, eM22 = 1, eDx = of_int \<lfloor>x\<rfloor>, eDy = of_int \<lfloor>y\<rfloor>\<rparr>,
      GImageDraw p (to_int32 (fmul (of_int (gs_width sp)) 1)) (to_int32 (fmul (of_int (gs_height sp)) 1))
        (gs_width sp) (gs_height sp), GSetWorldTransform identity, GSetGraphicsMode c4]"
    using assms(1-4) by (simp add: draw_single_def gdi_do_def Transform_def Let_def fmul_def)
  then obtain c1 c4 where "draw_single g sp p x y 0 1 1 1 cs = cs @ [GSetGraphicsMode c1, GSetWorldTransform
      \<lparr>eM11 = 1, eM12 = 0, eM21 = 0, eM22 = 1, eDx = of_int \<lfloor>x\<rfloor>, eDy = of_int \<lfloor>y\<rfloor>\<rparr>,
      GImageDraw p (to_int32 (fmul (of_int (gs_width sp)) 1)) (to_int32 (fmul (of_int (gs_height sp)) 1))
        (gs_width sp) (gs_height sp), GSetWorldTransform identity, GSetGraphicsMode c4]" by blast
  then have "adds cs (draw_single g sp p x y 0 1 1 1 cs) [ShPicture p \<lfloor>x\<rfloor> \<lfloor>y\<rfloor>]"
    by (simp add: adds_def moved_x_def moved_y_def)
  then show ?thesis by (rule adds_trans [OF assms(5)])
qed

lemma made_sprite:
  assumes "make_sprite g path n xo yo = Inr sp"
  shows "gs_number sp = n" and "xoffset sp = xo" and "yoffset sp = yo" and "gs_raw sp = path"
  using assms by (auto simp: make_sprite_def process_image_def set_bbox_def Let_def split: if_splits prod.splits)

lemma loaded_images:
  assumes "load_images g = Inr images"
  shows "gs_number (images p) = 1" and "xoffset (images p) = 0" and "yoffset (images p) = 0"
    and "gs_raw (images p) = image_file p"
proof -
  obtain q where "make_sprite g (image_file p) 1 0 0 = Inr q" "images p = q"
    using assms by (cases p) (auto simp: load_images_def rbind_eq_Inr)
  then show "gs_number (images p) = 1" "xoffset (images p) = 0" "yoffset (images p) = 0"
    "gs_raw (images p) = image_file p" using made_sprite by auto
qed

lemma loaded_draws:
  assumes "load_images g = Inr images"
  shows "draw_sprite g (images p) x y 0 0 1 1 1 cs
    = Inr (draw_single g (images p) (Raw (image_file p)) x y 0 1 1 1 cs)"
  using loaded_images [OF assms, of p] by (simp add: draw_sprite_def)

text \<open>A visible player has its image, which \<open>Start\<close> gives it.\<close>

definition drawable :: "entity \<Rightarrow> bool" where
  "drawable e \<longleftrightarrow> (e_visible e \<and> e_is_player e \<longrightarrow> e_sprite e \<noteq> None)"

fun shape_of :: "drawing \<Rightarrow> shape" where
  "shape_of (DrawRect x y w h) = ShRect x y (x + w) (y + h)"
| "shape_of (DrawSprite p x y) = ShPicture (Raw (image_file p)) \<lfloor>x\<rfloor> \<lfloor>y\<rfloor>"
| "shape_of (DrawID i x y) = ShText x y (text_id i)"

lemma adds_label:
  assumes "adds cs0 cs ss"
    and "gdi_do g (GCreateSolidBrush c) cs = (br, cs1)" and "Attach g br cs1 = (old_br, cs2)"
    and "gdi_do g (GCreatePen a b d) cs2 = (pen, cs3)" and "Attach g pen cs3 = (old_pen, cs4)"
    and "gdi_do g (GSetTextAlign n) cs4 = (old_align, cs5)"
  shows "adds cs0 (Detach g old_pen pen (Detach g old_br br (snd (gdi_do g (GSetTextAlign old_align)
      (snd (gdi_do g (GTextOut x y t) cs5)))))) (ss @ [ShText x y t])"
proof -
  have "adds cs0 cs1 ss" by (rule adds_quiet [OF assms(2) _ _ assms(1)]) simp_all
  then have "adds cs0 cs2 ss" by (rule adds_Attach [OF assms(3)])
  then have "adds cs0 cs3 ss" by (intro adds_quiet [OF assms(4)]) simp_all
  then have "adds cs0 cs4 ss" by (rule adds_Attach [OF assms(5)])
  then have "adds cs0 cs5 ss" by (intro adds_quiet [OF assms(6)]) simp_all
  then have "adds cs0 (snd (gdi_do g (GTextOut x y t) cs5)) (ss @ [ShText x y t])"
    using adds_do [of "GTextOut x y t" cs0 cs5 ss g] by simp
  then have "adds cs0 (snd (gdi_do g (GSetTextAlign old_align) (snd (gdi_do g (GTextOut x y t) cs5)))) (ss @ [ShText x y t])"
    using adds_do [of "GSetTextAlign old_align" cs0 _ "ss @ [ShText x y t]" g] by simp
  then show ?thesis by (intro adds_Detach)
qed

lemma object_drawn:
  assumes "load_images g = Inr images" and "drawable e" and "adds cs0 cs ss"
  shows "\<exists>cs'. render_object g images ax ay e cs = Inr cs' \<and> adds cs0 cs' (ss @ map shape_of (RenderEntity ax ay e))"
proof (cases "e_visible e")
  case False
  then show ?thesis using assms(3) by (simp add: render_object_def RenderEntity_def)
next
  case True
  let ?x = "fadd (of_int (to_int32 (fadd ax (e_x e)))) (CELL_W / 2)"
  let ?y = "fadd (of_int (to_int32 (fadd ay (e_y e)))) (CELL_H / 2)"
  obtain cs1 where 1: "(case e_sprite e of Some p \<Rightarrow> draw_sprite g (images p) ?x ?y 0 0 1 1 1 cs
      | None \<Rightarrow> if e_is_player e then Inl NullDeref else Inr cs) = Inr cs1"
      "adds cs0 cs1 (ss @ map shape_of (case e_sprite e of None \<Rightarrow> [] | Some p \<Rightarrow> [DrawSprite p ?x ?y]))"
  proof (cases "e_sprite e")
    case None
    then show ?thesis using that [of cs] assms(2,3) True by (simp add: drawable_def)
  next
    case (Some p)
    then show ?thesis
      using that loaded_draws [OF assms(1)] loaded_images [OF assms(1)] adds_picture [OF _ _ _ _ assms(3)] by simp
  qed
  show ?thesis
    using True 1 adds_label [OF 1(2), of g]
    by (simp add: render_object_def RenderEntity_def Let_def split: prod.split)
qed

lemma scene_drawn:
  assumes "load_images g = Inr images" and "\<forall>e\<in>set es. drawable e" and "adds cs0 cs ss"
  shows "\<exists>cs'. foldR (render_object g images ax ay) es cs = Inr cs'
    \<and> adds cs0 cs' (ss @ map shape_of (concat (map (RenderEntity ax ay) es)))"
  using assms(2,3)
proof (induction es arbitrary: cs ss)
  case Nil
  then show ?case by simp
next
  case (Cons e es)
  obtain cs1 where "render_object g images ax ay e cs = Inr cs1" "adds cs0 cs1 (ss @ map shape_of (RenderEntity ax ay e))"
    using object_drawn [OF assms(1) _ Cons.prems(2), of e ax ay] Cons.prems(1) by auto
  then show ?case using Cons.IH [of cs1 "ss @ map shape_of (RenderEntity ax ay e)"] Cons.prems(1) by auto
qed

lemma game_drawn:
  assumes "load_images g = Inr images" and "\<forall>e\<in>set (myInstances s). drawable e" and "adds cs0 cs ss"
  shows "\<exists>cs'. render_game g images s cs = Inr (cs', snd (GameRender s))
    \<and> adds cs0 cs' (ss @ ShRect 0 0 CLIENT_W CLIENT_H # map shape_of (fst (GameRender s)))"
proof -
  define s1 where "s1 = (case myPlayerCharacter s of None \<Rightarrow> s | Some i \<Rightarrow> UpdateCamera (myInstances s ! i) s)"
  have i: "myInstances s1 = myInstances s" by (simp add: s1_def UpdateCamera_def split: option.split)
  obtain old_bk cs1 where 1: "gdi_do g (GSetBkMode TRANSPARENT) cs = (old_bk, cs1)" by fastforce
  have "adds cs0 cs1 ss" by (rule adds_quiet [OF 1 _ _ assms(3)]) simp_all
  then have 2: "adds cs0 (Clear g CLIENT_W CLIENT_H C_GREEN cs1) (ss @ [ShRect 0 0 CLIENT_W CLIENT_H])"
    by (rule adds_Clear)
  obtain pen cs2 where 3: "gdi_do g (GCreatePen PS_NULL 1 C_WHITE) (Clear g CLIENT_W CLIENT_H C_GREEN cs1) = (pen, cs2)"
    by fastforce
  obtain old_pen cs3 where 4: "Attach g pen cs2 = (old_pen, cs3)" by fastforce
  obtain br cs4 where 5: "gdi_do g (GCreateSolidBrush C_WHITE) cs3 = (br, cs4)" by fastforce
  obtain old_br cs5 where 6: "Attach g br cs4 = (old_br, cs5)" by fastforce
  let ?x = "to_int32 (fsub 40 (fst (myCamera s1)))" and ?y = "to_int32 (fsub 80 (snd (myCamera s1)))"
  let ?cs = "Detach g old_pen pen (Detach g old_br br (SizedRect g ?x ?y 300 300 cs5))"
  have "\<forall>e\<in>set (myInstances s1). drawable e" using assms(2) i by simp
  then obtain cs6 where 7: "render_scene g images s1 ?cs = Inr cs6"
      "adds cs0 cs6 ((ss @ [ShRect 0 0 CLIENT_W CLIENT_H]) @ [ShRect ?x ?y (?x + 300) (?y + 300)]
        @ map shape_of (SceneRender s1))"
    using scene_drawn [OF assms(1) _ adds_filled [OF 2 3 4 5 6, of ?x ?y 300 300]]
    by (fastforce simp: render_scene_def SceneRender_def)
  have "adds cs0 (snd (gdi_do g (GSetBkMode old_bk) cs6)) ((ss @ [ShRect 0 0 CLIENT_W CLIENT_H])
      @ [ShRect ?x ?y (?x + 300) (?y + 300)] @ map shape_of (SceneRender s1))"
    using adds_do [OF _ 7(2), of "GSetBkMode old_bk" g] by simp
  moreover have "GameRender s = (DrawRect ?x ?y 300 300 # SceneRender s1, s1)"
    by (simp add: GameRender_def s1_def Let_def)
  moreover have "render_game g images s cs = Inr (snd (gdi_do g (GSetBkMode old_bk) cs6), s1)"
    using 1 3 4 5 6 7(1) unfolding render_game_def s1_def [symmetric] by (simp add: Let_def)
  ultimately show ?thesis by simp
qed

lemma texts_drawn:
  assumes "adds cs0 cs ss"
  shows "adds cs0 (write_texts g ts cs) (ss @ ShRect 0 0 CLIENT_W CLIENT_H # map (\<lambda>(x, y, t). ShText x y t) ts)"
proof -
  have f: "adds cs0 (fold (\<lambda>(x, y, t) cs. snd (gdi_do g (GTextOut x y t) cs)) ts cs1) (ss1 @ map (\<lambda>(x, y, t). ShText x y t) ts)"
    if "adds cs0 cs1 ss1" for cs1 ss1
    using that
  proof (induction ts arbitrary: cs1 ss1)
    case (Cons t ts)
    obtain x y u where t: "t = (x, y, u)" by (cases t)
    have "adds cs0 (snd (gdi_do g (GTextOut x y u) cs1)) (ss1 @ [ShText x y u])"
      using adds_do [OF _ Cons.prems, of "GTextOut x y u" g] by simp
    then show ?case using Cons.IH t by fastforce
  qed simp
  let ?c0 = "Clear g CLIENT_W CLIENT_H C_WHITE cs"
  have 0: "adds cs0 ?c0 (ss @ [ShRect 0 0 CLIENT_W CLIENT_H])" by (rule adds_Clear [OF assms])
  obtain br cs1 where 1: "gdi_do g (GCreateSolidBrush C_BLACK) ?c0 = (br, cs1)" by fastforce
  obtain old_br cs2 where 2: "Attach g br cs1 = (old_br, cs2)" by fastforce
  obtain old_bk cs3 where 3: "gdi_do g (GSetBkMode TRANSPARENT) cs2 = (old_bk, cs3)" by fastforce
  obtain old_align cs4 where 4: "gdi_do g (GSetTextAlign TA_CENTER) cs3 = (old_align, cs4)" by fastforce
  let ?S = "ss @ [ShRect 0 0 CLIENT_W CLIENT_H]"
  have "adds cs0 cs1 ?S" by (rule adds_quiet [OF 1 _ _ 0]) simp_all
  then have "adds cs0 cs2 ?S" by (rule adds_Attach [OF 2])
  then have "adds cs0 cs3 ?S" by (intro adds_quiet [OF 3]) simp_all
  then have "adds cs0 cs4 ?S" by (intro adds_quiet [OF 4]) simp_all
  then have 5: "adds cs0 (fold (\<lambda>(x, y, t) cs. snd (gdi_do g (GTextOut x y t) cs)) ts cs4)
      (?S @ map (\<lambda>(x, y, t). ShText x y t) ts)" by (rule f)
  have 6: "adds cs0 (snd (gdi_do g (GSetTextAlign old_align) (fold (\<lambda>(x, y, t) cs. snd (gdi_do g (GTextOut x y t) cs)) ts cs4)))
      (?S @ map (\<lambda>(x, y, t). ShText x y t) ts)" using adds_do [OF _ 5, of "GSetTextAlign old_align" g] by simp
  show ?thesis
    using adds_Detach [OF adds_do [OF _ 6, of "GSetBkMode old_bk" g], of g old_br br] 1 2 3 4
    by (simp add: write_texts_def Let_def)
qed

text \<open>What each scene shows.\<close>

definition shapes :: "client_app \<Rightarrow> shape list" where
  "shapes a = (case myState a of
      None \<Rightarrow> []
    | Some MAIN \<Rightarrow> [ShRect 0 0 CLIENT_W CLIENT_H, ShText (CLIENT_W div 2) (CLIENT_H div 2 - 70) ask_for_address,
        ShText (CLIENT_W div 2) (CLIENT_H div 2) (wide (take 16 (streamIP (main_s a))))]
    | Some LOADING \<Rightarrow> [ShRect 0 0 CLIENT_W CLIENT_H, ShText (CLIENT_W div 2) (CLIENT_H div 2 - 70) now_connecting]
    | Some GAME \<Rightarrow> ShRect 0 0 CLIENT_W CLIENT_H # map shape_of (fst (FrameworkRender a)))"

lemma framework_drawn:
  assumes "load_images g = Inr images" and "\<forall>e\<in>set (myInstances (game_s a)). drawable e" and "adds cs0 cs []"
  shows "\<exists>cs'. FrameworkPaint g images a cs = Inr (cs', snd (FrameworkRender a)) \<and> adds cs0 cs' (shapes a)"
proof (cases "myState a")
  case None
  then show ?thesis using assms(3) by (simp add: FrameworkPaint_def FrameworkRender_def shapes_def)
next
  case (Some st)
  show ?thesis
  proof (cases st)
    case MAIN
    then show ?thesis using Some texts_drawn [OF assms(3), of g "[(CLIENT_W div 2, CLIENT_H div 2 - 70, ask_for_address),
        (CLIENT_W div 2, CLIENT_H div 2, wide (take 16 (streamIP (main_s a))))]"]
      by (simp add: FrameworkPaint_def FrameworkRender_def shapes_def render_main_def)
  next
    case LOADING
    then show ?thesis using Some texts_drawn [OF assms(3), of g "[(CLIENT_W div 2, CLIENT_H div 2 - 70, now_connecting)]"]
      by (simp add: FrameworkPaint_def FrameworkRender_def shapes_def render_loading_def)
  next
    case GAME
    then show ?thesis using Some game_drawn [OF assms]
      by (auto simp: FrameworkPaint_def FrameworkRender_def shapes_def split: prod.splits)
  qed
qed

subsection \<open>Whatever the client did\<close>

text \<open>A player never lacks its image: \<open>Start\<close> gives it one when the object is made.\<close>

definition paintable :: "client_app \<Rightarrow> bool" where
  "paintable a \<longleftrightarrow> (\<forall>e\<in>set (myInstances (game_s a)). drawable e)"

lemma started_drawable [simp]: "drawable (EntityStart e)" "drawable (Show (EntityStart e))"
  by (auto simp: drawable_def EntityStart_def Show_def split: entity_type.split)

lemma drawable_upd [simp]: "drawable (Hide e)" "drawable (e\<lparr>e_x := x, e_y := y\<rparr>) = drawable e"
  by (auto simp: drawable_def Hide_def)

lemma set_on_instance:
  assumes "\<forall>e\<in>set (myInstances g). drawable e" and "\<And>e. drawable e \<Longrightarrow> drawable (f e)"
  shows "\<forall>e\<in>set (myInstances (on_instance i f g)). drawable e"
proof (cases "i < length (myInstances g)")
  case True
  then have "drawable (f (myInstances g ! i))" using assms by simp
  then show ?thesis using assms(1) set_update_subset_insert [of "myInstances g" i "f (myInstances g ! i)"]
    by (auto simp: on_instance_def)
next
  case False
  then show ?thesis using assms(1) by (simp add: on_instance_def list_update_beyond)
qed

lemma game_drawable:
  assumes "\<forall>e\<in>set (myInstances g). drawable e"
  shows "\<forall>e\<in>set (myInstances (snd (GameOnNetwork my_id k g))). drawable e"
proof -
  have "\<forall>e\<in>set (myInstances (GameAppear my_id k g)). drawable e"
    using assms set_on_instance [OF assms, of "\<lambda>e. Show (EntityStart (set_fields k e))"]
    by (auto simp: GameAppear_def AddInstance_def Let_def split: option.split)
  moreover have "\<forall>e\<in>set (myInstances (GameDisappear k g)). drawable e"
    using assms set_on_instance [OF assms, of Hide] by (simp add: GameDisappear_def split: option.split)
  moreover have "\<forall>e\<in>set (myInstances (on_instance i (\<lambda>e. e\<lparr>e_x := x, e_y := y\<rparr>) g)). drawable e" for i x y
    by (rule set_on_instance [OF assms]) simp
  then have "\<forall>e\<in>set (myInstances (GameMove k g)). drawable e"
    using assms by (simp add: GameMove_def split: option.split packet_body.split)
  ultimately show ?thesis using assms by (simp add: GameOnNetwork_def)
qed

lemma jumps_keep_game:
  "JumpToNextScene a = Inr (b, a') \<Longrightarrow> game_s a' = game_s a"
  "JumpToPrevScene a = Inr (b, a') \<Longrightarrow> game_s a' = game_s a"
  by (auto simp: JumpToNextScene_def JumpToPrevScene_def Pop_def scene_start_def rbind_eq_Inr
      split: if_splits option.splits)

lemma start_keeps_game: "FrameworkStart a = Inr a' \<Longrightarrow> game_s a' = game_s a"
  by (auto simp: FrameworkStart_def Pop_def scene_start_def Let_def rbind_eq_Inr split: if_splits)

lemma scene_update_keeps_game: "scene_update t s a = Inr a' \<Longrightarrow> game_s a' = game_s a"
  using jumps_keep_game(2) by (fastforce simp: scene_update_def Let_def rbind_eq_Inr split: if_splits prod.splits)

lemma advance_keeps_game: "advance_scene a = Inr a' \<Longrightarrow> game_s a' = game_s a"
  using jumps_keep_game(1) by (fastforce simp: advance_scene_def rbind_eq_Inr split: if_splits option.splits)

lemma paintable_offer: "paintable a \<Longrightarrow> paintable (offer_task a)"
  using game_drawable [of "game_s a" "GetMyID a"]
  by (auto simp: offer_task_def scene_on_network_def paintable_def PopTask_def Let_def
      split: option.split scene_id.split prod.split if_splits) (metis snd_conv)+

lemma tasks_keep_game [simp]: "game_s (FrameworkOnNetwork ks a) = game_s a"
  unfolding FrameworkOnNetwork_def by (induction ks arbitrary: a) (simp_all add: AddTask_def)

lemma paintable_step:
  assumes "myProcedure fuel co e a = Inr a'" and "paintable a"
  shows "paintable a'"
proof (cases e)
  case WM_CREATE
  then show ?thesis using assms start_keeps_game
    by (fastforce simp: myProcedure_def paintable_def rbind_eq_Inr)
next
  case WM_TIMER
  then have "FrameworkUpdate (f32 (1 / 100)) a = Inr a'" using assms(1) by (simp add: myProcedure_def)
  then consider "a' = a" | a1 a2 s where "scene_update (f32 (1 / 100)) s a = Inr a1" "advance_scene a1 = Inr a2" "a' = offer_task a2"
    by (auto simp: FrameworkUpdate_def rbind_eq_Inr split: option.splits)
  then show ?thesis
  proof cases
    case 2
    then have "paintable a2" using assms(2) scene_update_keeps_game advance_keeps_game by (simp add: paintable_def)
    then show ?thesis using 2(3) paintable_offer by simp
  qed (use assms(2) in simp)
next
  case WM_PAINT
  then show ?thesis using assms
    by (auto simp: myProcedure_def paintable_def FrameworkRender_def GameRender_def UpdateCamera_def Let_def
        split: option.splits scene_id.splits)
next
  case (WM_KEYDOWN key)
  then show ?thesis using assms
    by (auto simp: myProcedure_def paintable_def FrameworkOnKeyDown_def FrameworkConnect_def Let_def rbind_eq_Inr
        split: option.splits scene_id.splits prod.splits if_splits)
next
  case (WM_KEYUP key)
  then show ?thesis using assms
    by (auto simp: myProcedure_def paintable_def FrameworkOnKeyUp_def split: option.splits scene_id.splits)
next
  case (RecvDone x y z)
  then show ?thesis using assms
    by (auto simp: myProcedure_def paintable_def CallbackRecv_def Let_def rbind_eq_Inr)
next
  case (SendDone x y z u)
  then show ?thesis using assms
    by (auto simp: myProcedure_def paintable_def CallbackSend_def rbind_eq_Inr split: if_splits)
qed

lemma paintable_run:
  assumes "client_run fuel co es client_rooms = Inr a"
  shows "paintable a"
proof (rule foldR_invariant [OF assms [unfolded client_run_def]])
  show "paintable client_rooms"
    by (simp add: paintable_def client_rooms_def AddRoom_def Push_def Register_def Framework_def Let_def
        split: option.split)
qed (rule paintable_step)

lemma painted:
  assumes "load_images g = Inr images" and "client_run fuel co events client_rooms = Inr a"
  shows "\<exists>es. BeginRendering g images a cs = Inr (cs @ es, snd (FrameworkRender a)) \<and> shown transform_identity es = shapes a"
proof -
  have "adds cs (snd (gdi_do g GBeginPaint cs)) []" using adds_do [OF _ adds_refl [of cs], where c = GBeginPaint and g = g] by simp
  then obtain cs' where cs': "FrameworkPaint g images a (snd (gdi_do g GBeginPaint cs)) = Inr (cs', snd (FrameworkRender a))"
      "adds cs cs' (shapes a)" using framework_drawn [OF assms(1) paintable_run [OF assms(2), unfolded paintable_def]] by blast
  have "adds cs (snd (gdi_do g GReleaseDC cs')) (shapes a)" using adds_do [OF _ cs'(2), of GReleaseDC g] by simp
  then have "adds cs (snd (gdi_do g GEndPaint (snd (gdi_do g GReleaseDC cs')))) (shapes a)"
    using adds_do [of GEndPaint cs _ "shapes a" g] by simp
  then show ?thesis using cs'(1) by (auto simp: BeginRendering_def adds_def)
qed


text \<open>A client in the game that has its own player on the screen, and pictures of 32 by 32.\<close>

definition files_gdi :: "(gdi_calls \<Rightarrow> nat) \<Rightarrow> gdi" where
  "files_gdi answers = \<lparr>gdi_answer = answers, gdi_cos = (\<lambda>_. 1), gdi_sin = (\<lambda>_. 0), image_exists = (\<lambda>_. True),
     image_size = (\<lambda>_. (32, 32))\<rparr>"

lemma files_load: "\<exists>images. load_images (files_gdi answers) = Inr images"
  by (simp add: load_images_def make_sprite_def files_gdi_def)

definition demo_events :: "client_event list" where
  "demo_events = connecting @ RecvDone False False
     (packet_bytes 9 (SCPacketSignUp 200000 0 100000) @ packet_bytes 9 (hello 200000)) # replicate 3 WM_TIMER"

lemma demo_reaches_game:
  "\<exists>a. client_run 3 demo_co demo_events client_rooms = Inr a \<and> in_game a \<and> game_s a = play 200000 [hello 200000] SceneGame"
proof -
  let ?k = "SCPacketSignUp 200000 0 100000"
  have k: "whole ?k" "Type ?k = SC_SIGNUP" "playerID ?k = 200000"
    by (simp_all add: sign_up_whole in_range_def) (simp_all add: SCPacketSignUp_def mk_packet_def)
  have l: "length (concat (map (packet_bytes 9) [?k, hello 200000])) \<le> BUFFSZ"
    by (simp add: length_packet_bytes SCPacketSignUp_def hello_def infobox_packet_def mk_packet_def
        sizeof_Packet_def const_simps)
  show ?thesis
    using reaches_game [of demo_co ?k "[hello 200000]" _ 9 3, OF _ k(1,2) _ _ refl l]
    by (auto simp: co_works_def demo_co_def k(3) hello_whole news_def demo_events_def)
qed


subsection \<open>The namespace \<open>Render\<close>\<close>

lemma draw_end_Detach: "draw_end = Detach"
  by (simp add: fun_eq_iff draw_end_def Detach_def Attach_def)

lemma draw_clear_Clear: "draw_clear = Clear"
  by (simp add: fun_eq_iff draw_clear_def Clear_def draw_end_Detach draw_rectangle_def SizedRect_def Attach_def)

end
