(* ===== verification/DrawingDevice.thy ===== *)
theory DrawingDevice
  imports DrawingProps
begin

section \<open>What painting leaves behind\<close>

text \<open>
  A device context as the documentation of GDI has it, which the answers of GDI follow. A pen or
  a brush that the client makes and does not delete, or a mode that it does not put back, would
  be seen in the state of this device after a frame.
\<close>

subsection \<open>A device context\<close>

record device =
  dv_pen :: nat
  dv_brush :: nat
  dv_pens :: "nat set"
  dv_brushes :: "nat set"
  dv_align :: nat
  dv_bk :: nat
  dv_mode :: nat
  dv_form :: xform

text \<open>
  An object is selected by its kind, a selected one is not deleted, a transformation is set in the
  advanced mode only, and the mode is left only without a transformation.
\<close>

definition device_step :: "nat \<Rightarrow> gdi_call \<Rightarrow> device \<Rightarrow> device" where
  "device_step answer c d = (case c of
      GCreatePen s w k \<Rightarrow> d\<lparr>dv_pens := insert answer (dv_pens d)\<rparr>
    | GCreateSolidBrush k \<Rightarrow> d\<lparr>dv_brushes := insert answer (dv_brushes d)\<rparr>
    | GSelectObject h \<Rightarrow> if h \<in> dv_pens d then d\<lparr>dv_pen := h\<rparr>
        else if h \<in> dv_brushes d then d\<lparr>dv_brush := h\<rparr> else d
    | GDeleteObject h \<Rightarrow> if h = dv_pen d \<or> h = dv_brush d then d
        else d\<lparr>dv_pens := dv_pens d - {h}, dv_brushes := dv_brushes d - {h}\<rparr>
    | GSetWorldTransform f \<Rightarrow> if dv_mode d = GM_ADVANCED then d\<lparr>dv_form := f\<rparr> else d
    | GSetGraphicsMode m \<Rightarrow> if m \<noteq> GM_ADVANCED \<and> dv_form d \<noteq> transform_identity then d else d\<lparr>dv_mode := m\<rparr>
    | GSetBkMode m \<Rightarrow> d\<lparr>dv_bk := m\<rparr>
    | GSetTextAlign m \<Rightarrow> d\<lparr>dv_align := m\<rparr>
    | _ \<Rightarrow> d)"

text \<open>A new object has a handle of its own, and what is set answers what was set before.\<close>

definition answer_ok :: "device \<Rightarrow> gdi_call \<Rightarrow> nat \<Rightarrow> bool" where
  "answer_ok d c answer \<longleftrightarrow> (case c of
      GCreatePen s w k \<Rightarrow> answer \<notin> dv_pens d \<union> dv_brushes d
    | GCreateSolidBrush k \<Rightarrow> answer \<notin> dv_pens d \<union> dv_brushes d
    | GSelectObject h \<Rightarrow> if h \<in> dv_pens d then answer = dv_pen d else h \<in> dv_brushes d \<longrightarrow> answer = dv_brush d
    | GSetGraphicsMode m \<Rightarrow> answer = dv_mode d
    | GSetBkMode m \<Rightarrow> answer = dv_bk d
    | GSetTextAlign m \<Rightarrow> answer = dv_align d
    | _ \<Rightarrow> True)"

text \<open>The device after the calls, from the answers GDI gave to each.\<close>

fun device_run :: "gdi \<Rightarrow> gdi_calls \<Rightarrow> device \<Rightarrow> gdi_calls \<Rightarrow> device" where
  "device_run g past d [] = d"
| "device_run g past d (c # cs) = device_run g (past @ [c]) (device_step (gdi_answer g (past @ [c])) c d) cs"

definition device_after :: "gdi \<Rightarrow> device \<Rightarrow> gdi_calls \<Rightarrow> device" where
  "device_after g d cs = device_run g [] d cs"

definition gdi_documented :: "gdi \<Rightarrow> device \<Rightarrow> bool" where
  "gdi_documented g d \<longleftrightarrow> (\<forall>cs c. answer_ok (device_after g d cs) c (gdi_answer g (cs @ [c])))"

text \<open>A device context as one is given: its pen and its brush exist, and nothing is transformed.\<close>

definition ready :: "device \<Rightarrow> bool" where
  "ready d \<longleftrightarrow> dv_pen d \<in> dv_pens d \<and> dv_brush d \<in> dv_brushes d \<and> dv_pens d \<inter> dv_brushes d = {}
     \<and> dv_form d = transform_identity"

lemma device_run_append:
  "device_run g past d (cs @ ds) = device_run g (past @ cs) (device_run g past d cs) ds"
  by (induction g past d cs rule: device_run.induct) simp_all

lemma device_after_snoc:
  "device_after g d (cs @ [c]) = device_step (gdi_answer g (cs @ [c])) c (device_after g d cs)"
  by (simp add: device_after_def device_run_append)

lemma device_do:
  assumes "gdi_documented g d" and "gdi_do g c cs = (r, cs')"
  shows "device_after g d cs' = device_step r c (device_after g d cs)" and "answer_ok (device_after g d cs) c r"
  using assms by (auto simp: gdi_do_def device_after_snoc gdi_documented_def)

lemma device_quiet:
  assumes "gdi_documented g d" and "\<And>r e. device_step r c e = e"
  shows "device_after g d (snd (gdi_do g c cs)) = device_after g d cs"
  using assms by (simp add: gdi_do_def device_after_snoc)

lemma device_Detach:
  assumes "gdi_documented g d"
  shows "device_after g d (Detach g old new cs)
    = device_step 0 (GDeleteObject new) (device_step 0 (GSelectObject old) (device_after g d cs))"
  by (simp add: Detach_def Attach_def gdi_do_def device_after_snoc device_step_def del: append_assoc)

lemmas step_simps = device_step_def answer_ok_def ready_def

subsection \<open>Brackets\<close>

text \<open>A pen and a brush that are taken and given back, in either order, and a brush alone.\<close>

definition take_new :: "gdi_call \<Rightarrow> nat \<Rightarrow> device \<Rightarrow> device" where
  "take_new create h d = device_step 0 (GSelectObject h) (device_step h create d)"

definition give_back :: "nat \<Rightarrow> nat \<Rightarrow> device \<Rightarrow> device" where
  "give_back old new d = device_step 0 (GDeleteObject new) (device_step 0 (GSelectObject old) d)"

lemma take_pen:
  "take_new (GCreatePen a b c) h d = d\<lparr>dv_pens := insert h (dv_pens d), dv_pen := h\<rparr>"
  by (simp add: take_new_def device_step_def)

lemma take_brush:
  "h \<notin> dv_pens d \<Longrightarrow>
    take_new (GCreateSolidBrush c) h d = d\<lparr>dv_brushes := insert h (dv_brushes d), dv_brush := h\<rparr>"
  by (simp add: take_new_def device_step_def)

lemma give_pen:
  "old \<in> dv_pens d \<Longrightarrow> new \<noteq> old \<Longrightarrow> new \<noteq> dv_brush d \<Longrightarrow> give_back old new d
    = d\<lparr>dv_pen := old, dv_pens := dv_pens d - {new}, dv_brushes := dv_brushes d - {new}\<rparr>"
  by (simp add: give_back_def device_step_def)

lemma give_brush:
  "old \<notin> dv_pens d \<Longrightarrow> old \<in> dv_brushes d \<Longrightarrow> new \<noteq> old \<Longrightarrow> new \<noteq> dv_pen d \<Longrightarrow> give_back old new d
    = d\<lparr>dv_brush := old, dv_pens := dv_pens d - {new}, dv_brushes := dv_brushes d - {new}\<rparr>"
  by (simp add: give_back_def device_step_def)

lemmas taking = take_pen take_brush give_pen give_brush

lemma ready_apart: "ready d \<Longrightarrow> x \<in> dv_brushes d \<Longrightarrow> x \<notin> dv_pens d" "ready d \<Longrightarrow> x \<in> dv_pens d \<Longrightarrow> x \<notin> dv_brushes d"
  by (auto simp: ready_def)

lemma given_back:
  fixes d :: device
  assumes r: "ready d" and p: "pen \<notin> dv_pens d \<union> dv_brushes d" and b: "br \<notin> dv_pens d \<union> dv_brushes d" and n: "pen \<noteq> br"
  shows "give_back (dv_pen d) pen (give_back (dv_brush d) br
      (take_new (GCreateSolidBrush k) br (take_new (GCreatePen x y z) pen d))) = d"
    and "give_back (dv_pen d) pen (give_back (dv_brush d) br
      (take_new (GCreatePen x y z) pen (take_new (GCreateSolidBrush k) br d))) = d"
proof -
  have i: "dv_pen d \<in> dv_pens d" "dv_brush d \<in> dv_brushes d" "dv_brush d \<notin> dv_pens d" "dv_pen d \<notin> dv_brushes d"
    using r ready_apart [OF r] by (auto simp: ready_def)
  then have u: "dv_pen d \<noteq> pen" "dv_brush d \<noteq> pen" "dv_pen d \<noteq> br" "dv_brush d \<noteq> br"
      "pen \<noteq> dv_pen d" "pen \<noteq> dv_brush d" "br \<noteq> dv_pen d" "br \<noteq> dv_brush d" "br \<noteq> pen"
    using p b n by auto
  have m: "dv_pens d - {br} = dv_pens d" "dv_brushes d - {br} = dv_brushes d"
      "dv_pens d - {pen} = dv_pens d" "dv_brushes d - {pen} = dv_brushes d"
    using p b by auto
  show "give_back (dv_pen d) pen (give_back (dv_brush d) br
      (take_new (GCreateSolidBrush k) br (take_new (GCreatePen x y z) pen d))) = d"
    using p b n i u m by (simp add: taking insert_Diff_if)
  show "give_back (dv_pen d) pen (give_back (dv_brush d) br
      (take_new (GCreatePen x y z) pen (take_new (GCreateSolidBrush k) br d))) = d"
    using p b n i u m by (simp add: taking insert_Diff_if)
qed

lemma given_brush_back:
  fixes d :: device
  assumes r: "ready d" and b: "br \<notin> dv_pens d \<union> dv_brushes d"
  shows "give_back (dv_brush d) br (take_new (GCreateSolidBrush k) br d) = d"
proof -
  have "dv_pen d \<in> dv_pens d" "dv_brush d \<in> dv_brushes d" "dv_brush d \<notin> dv_pens d"
    using r ready_apart [OF r] by (auto simp: ready_def)
  moreover from this have "dv_pen d \<noteq> br" "dv_brush d \<noteq> br" "br \<noteq> dv_pen d" "br \<noteq> dv_brush d" using b by auto
  moreover have "dv_pens d - {br} = dv_pens d" "dv_brushes d - {br} = dv_brushes d" using b by auto
  ultimately show ?thesis using b by (simp add: taking insert_Diff_if)
qed

text \<open>What is made and taken, and how it is put back.\<close>

lemma taken:
  assumes g: "gdi_documented g d" and 1: "gdi_do g c cs = (h, cs1)" and 2: "Attach g h cs1 = (old, cs2)"
  shows "c = GCreatePen x y z \<Longrightarrow> device_after g d cs2 = take_new c h (device_after g d cs)
      \<and> h \<notin> dv_pens (device_after g d cs) \<union> dv_brushes (device_after g d cs) \<and> old = dv_pen (device_after g d cs)"
    and "c = GCreateSolidBrush k \<Longrightarrow> device_after g d cs2 = take_new c h (device_after g d cs)
      \<and> h \<notin> dv_pens (device_after g d cs) \<union> dv_brushes (device_after g d cs) \<and> old = dv_brush (device_after g d cs)"
  using device_do [OF g 1] device_do [OF g 2 [unfolded Attach_def]]
  by (auto simp: take_new_def device_step_def answer_ok_def)

lemma device_given_back:
  assumes "gdi_documented g d"
  shows "device_after g d (Detach g old new cs) = give_back old new (device_after g d cs)"
  using assms by (simp add: device_Detach give_back_def)

lemma pen_then_brush:
  assumes g: "gdi_documented g d" and r: "ready (device_after g d cs)"
    and 1: "gdi_do g (GCreatePen a b c) cs = (pen, cs1)" and 2: "Attach g pen cs1 = (old_pen, cs2)"
    and 3: "gdi_do g (GCreateSolidBrush e) cs2 = (br, cs3)" and 4: "Attach g br cs3 = (old_br, cs4)"
    and 5: "device_after g d cs5 = device_after g d cs4"
  shows "device_after g d (Detach g old_pen pen (Detach g old_br br cs5)) = device_after g d cs"
  using taken(1) [OF g 1 2 refl] taken(2) [OF g 3 4 refl] 5
    given_back(1) [OF r, of pen br e a b c] by (simp add: device_given_back [OF g] take_pen)

lemma brush_then_pen:
  assumes g: "gdi_documented g d" and r: "ready (device_after g d cs)"
    and 1: "gdi_do g (GCreateSolidBrush e) cs = (br, cs1)" and 2: "Attach g br cs1 = (old_br, cs2)"
    and 3: "gdi_do g (GCreatePen a b c) cs2 = (pen, cs3)" and 4: "Attach g pen cs3 = (old_pen, cs4)"
    and 5: "device_after g d cs5 = device_after g d cs4"
  shows "device_after g d (Detach g old_pen pen (Detach g old_br br cs5)) = device_after g d cs"
  using taken(2) [OF g 1 2 refl] taken(1) [OF g 3 4 refl] 5
    given_back(2) [OF r, of pen br a b c e] by (simp add: device_given_back [OF g] take_brush)

lemma brush_alone:
  assumes g: "gdi_documented g d" and r: "ready (device_after g d cs)"
    and 1: "gdi_do g (GCreateSolidBrush e) cs = (br, cs1)" and 2: "Attach g br cs1 = (old_br, cs2)"
    and 3: "device_after g d cs3 = device_after g d cs2"
  shows "device_after g d (Detach g old_br br cs3) = device_after g d cs"
  using taken(2) [OF g 1 2 refl] 3 given_brush_back [OF r, of br e]
  by (simp add: device_given_back [OF g])

subsection \<open>Scenes\<close>

text \<open>The rectangle between the brackets, the text, and the modes around them.\<close>

lemma device_SizedRect: "gdi_documented g d \<Longrightarrow> device_after g d (SizedRect g x y w h cs) = device_after g d cs"
  unfolding SizedRect_def by (rule device_quiet) (simp_all add: device_step_def)

lemma device_TextOut:
  "gdi_documented g d \<Longrightarrow> device_after g d (snd (gdi_do g (GTextOut x y t) cs)) = device_after g d cs"
  by (rule device_quiet) (simp_all add: device_step_def)

lemma device_Clear:
  assumes "gdi_documented g d" and "ready (device_after g d cs)"
  shows "device_after g d (Clear g w h k cs) = device_after g d cs"
  using pen_then_brush [OF assms] device_SizedRect [OF assms(1)]
  by (simp add: Clear_def Let_def split: prod.split)

text \<open>A mode that is set answers the one before, which is set again after what happens between.\<close>

lemma align_restored:
  assumes g: "gdi_documented g d" and 1: "gdi_do g (GSetTextAlign n) cs = (old, cs1)"
    and 2: "device_after g d cs2 = device_after g d cs1"
  shows "device_after g d (snd (gdi_do g (GSetTextAlign old) cs2)) = device_after g d cs"
  using device_do [OF g 1] device_do(1) [OF g, of "GSetTextAlign old" cs2] 2
  by (simp add: step_simps prod_eq_iff)

lemma bk_restored:
  assumes g: "gdi_documented g d" and 1: "gdi_do g (GSetBkMode n) cs = (old, cs1)"
    and 2: "device_after g d cs2 = device_after g d cs1"
  shows "device_after g d (snd (gdi_do g (GSetBkMode old) cs2)) = device_after g d cs"
  using device_do [OF g 1] device_do(1) [OF g, of "GSetBkMode old" cs2] 2
  by (simp add: step_simps prod_eq_iff)

lemma device_picture:
  assumes g: "gdi_documented g d" and r: "ready (device_after g d cs)"
  shows "device_after g d (draw_single g sp p x y angle xs ys alpha cs) = device_after g d cs"
proof -
  obtain m cs1 where 1: "gdi_do g (GSetGraphicsMode GM_ADVANCED) cs = (m, cs1)" by fastforce
  have D1: "device_after g d cs1 = (device_after g d cs)\<lparr>dv_mode := GM_ADVANCED\<rparr>" "m = dv_mode (device_after g d cs)"
    using device_do [OF g 1] r by (simp_all add: step_simps)
  have t: "device_after g d (Transform g f cs') = device_step 0 (GSetWorldTransform f) (device_after g d cs')" for f cs'
    by (simp add: Transform_def gdi_do_def device_after_snoc device_step_def)
  have q: "device_after g d (snd (gdi_do g (GAlphaBlend p a b e f v) cs')) = device_after g d cs'"
    "device_after g d (snd (gdi_do g (GImageDraw p a b e f) cs')) = device_after g d cs'" for a b e f v cs'
    by (rule device_quiet [OF g], simp add: device_step_def)+
  have e: "device_after g d (snd (gdi_do g (GSetGraphicsMode n) cs')) = device_step 0 (GSetGraphicsMode n) (device_after g d cs')" for n cs'
    by (simp add: gdi_do_def device_after_snoc device_step_def)
  show ?thesis
    using 1 D1 r by (simp add: draw_single_def Let_def e t q step_simps if_distrib)
qed

lemma device_sprite:
  assumes "gdi_documented g d" and "ready (device_after g d cs)"
    and "draw_sprite g sp x y n angle xs ys alpha cs = Inr cs'"
  shows "device_after g d cs' = device_after g d cs"
  using assms(3) device_picture [OF assms(1,2)] by (auto simp: draw_sprite_def Let_def split: if_splits)

lemma device_object:
  assumes g: "gdi_documented g d" and r: "ready (device_after g d cs)"
    and o': "render_object g images ax ay e cs = Inr cs'"
  shows "device_after g d cs' = device_after g d cs"
proof (cases "e_visible e")
  case False
  then show ?thesis using o' by (simp add: render_object_def)
next
  case True
  let ?x = "fadd (of_int (to_int32 (fadd ax (e_x e)))) (CELL_W / 2)"
  let ?y = "fadd (of_int (to_int32 (fadd ay (e_y e)))) (CELL_H / 2)"
  obtain cs0 where 0: "(case e_sprite e of Some p \<Rightarrow> draw_sprite g (images p) ?x ?y 0 0 1 1 1 cs
      | None \<Rightarrow> if e_is_player e then Inl NullDeref else Inr cs) = Inr cs0"
    using o' True by (auto simp: render_object_def Let_def rbind_eq_Inr)
  have D0: "device_after g d cs0 = device_after g d cs"
    using 0 device_sprite [OF g r] by (auto split: option.splits if_splits)
  obtain br cs1 where 1: "gdi_do g (GCreateSolidBrush C_WHITE) cs0 = (br, cs1)" by fastforce
  obtain old_br cs2 where 2: "Attach g br cs1 = (old_br, cs2)" by fastforce
  obtain pen cs3 where 3: "gdi_do g (GCreatePen 0 1 C_BLACK) cs2 = (pen, cs3)" by fastforce
  obtain old_pen cs4 where 4: "Attach g pen cs3 = (old_pen, cs4)" by fastforce
  obtain old_align cs5 where 5: "gdi_do g (GSetTextAlign TA_CENTER) cs4 = (old_align, cs5)" by fastforce
  let ?t = "snd (gdi_do g (GTextOut (to_int32 ?x) (to_int32 ?y + 16) (text_id (word_of_int (e_id e)))) cs5)"
  let ?a = "snd (gdi_do g (GSetTextAlign old_align) ?t)"
  have "device_after g d ?a = device_after g d cs4" by (rule align_restored [OF g 5 device_TextOut [OF g]])
  then have "device_after g d (Detach g old_pen pen (Detach g old_br br ?a)) = device_after g d cs0"
    using brush_then_pen [OF g _ 1 2 3 4] r D0 by simp
  moreover have "cs' = Detach g old_pen pen (Detach g old_br br ?a)"
    using o' True 0 1 2 3 4 5 by (simp add: render_object_def Let_def)
  ultimately show ?thesis using D0 by simp
qed

lemma device_scene:
  assumes g: "gdi_documented g d" and r: "ready (device_after g d cs)"
    and s: "render_scene g images s cs = Inr cs'"
  shows "device_after g d cs' = device_after g d cs"
proof (rule foldR_invariant [OF s [unfolded render_scene_def], where I = "\<lambda>c. device_after g d c = device_after g d cs"])
  fix e c c'
  assume "render_object g images (- fst (myCamera s)) (- snd (myCamera s)) e c = Inr c'"
    and "device_after g d c = device_after g d cs"
  then show "device_after g d c' = device_after g d cs" using device_object [OF g, of c] r by simp
qed simp

lemma device_game:
  assumes g: "gdi_documented g d" and r: "ready (device_after g d cs)"
    and s: "render_game g images s cs = Inr (cs', s')"
  shows "device_after g d cs' = device_after g d cs"
proof -
  define s1 where "s1 = (case myPlayerCharacter s of None \<Rightarrow> s | Some i \<Rightarrow> UpdateCamera (myInstances s ! i) s)"
  obtain old_bk cs1 where 1: "gdi_do g (GSetBkMode TRANSPARENT) cs = (old_bk, cs1)" by fastforce
  have r1: "ready (device_after g d cs1)" using device_do(1) [OF g 1] r by (simp add: step_simps)
  let ?c = "Clear g CLIENT_W CLIENT_H C_GREEN cs1"
  have D2: "device_after g d ?c = device_after g d cs1" by (rule device_Clear [OF g r1])
  obtain pen cs2 where 3: "gdi_do g (GCreatePen PS_NULL 1 C_WHITE) ?c = (pen, cs2)" by fastforce
  obtain old_pen cs3 where 4: "Attach g pen cs2 = (old_pen, cs3)" by fastforce
  obtain br cs4 where 5: "gdi_do g (GCreateSolidBrush C_WHITE) cs3 = (br, cs4)" by fastforce
  obtain old_br cs5 where 6: "Attach g br cs4 = (old_br, cs5)" by fastforce
  let ?x = "to_int32 (fsub 40 (fst (myCamera s1)))" and ?y = "to_int32 (fsub 80 (snd (myCamera s1)))"
  let ?cs = "Detach g old_pen pen (Detach g old_br br (SizedRect g ?x ?y 300 300 cs5))"
  have D3: "device_after g d ?cs = device_after g d cs1"
    using pen_then_brush [OF g _ 3 4 5 6 device_SizedRect [OF g]] r1 D2 by simp
  obtain cs6 where 7: "render_scene g images s1 ?cs = Inr cs6" "cs' = snd (gdi_do g (GSetBkMode old_bk) cs6)"
    using s 1 3 4 5 6 unfolding render_game_def s1_def [symmetric] by (auto simp: Let_def rbind_eq_Inr)
  have "device_after g d cs6 = device_after g d cs1" using device_scene [OF g _ 7(1)] r1 D3 by simp
  then show ?thesis unfolding 7(2) by (rule bk_restored [OF g 1])
qed

lemma device_texts:
  assumes g: "gdi_documented g d" and r: "ready (device_after g d cs)"
  shows "device_after g d (write_texts g ts cs) = device_after g d cs"
proof -
  have f: "device_after g d (fold (\<lambda>(x, y, t) cs. snd (gdi_do g (GTextOut x y t) cs)) ts c) = device_after g d c" for c
    by (induction ts arbitrary: c) (auto simp: device_TextOut [OF g])
  let ?c = "Clear g CLIENT_W CLIENT_H C_WHITE cs"
  have D: "device_after g d ?c = device_after g d cs" by (rule device_Clear [OF assms])
  obtain br cs1 where 1: "gdi_do g (GCreateSolidBrush C_BLACK) ?c = (br, cs1)" by fastforce
  obtain old_br cs2 where 2: "Attach g br cs1 = (old_br, cs2)" by fastforce
  obtain old_bk cs3 where 3: "gdi_do g (GSetBkMode TRANSPARENT) cs2 = (old_bk, cs3)" by fastforce
  obtain old_align cs4 where 4: "gdi_do g (GSetTextAlign TA_CENTER) cs3 = (old_align, cs4)" by fastforce
  let ?f = "fold (\<lambda>(x, y, t) cs. snd (gdi_do g (GTextOut x y t) cs)) ts cs4"
  have "device_after g d (snd (gdi_do g (GSetBkMode old_bk) (snd (gdi_do g (GSetTextAlign old_align) ?f))))
      = device_after g d cs2"
    by (rule bk_restored [OF g 3 align_restored [OF g 4 f]])
  then show ?thesis
    using brush_alone [OF g _ 1 2] r D 1 2 3 4 by (simp add: write_texts_def Let_def)
qed

lemma device_framework:
  assumes g: "gdi_documented g d" and r: "ready (device_after g d cs)"
    and f: "FrameworkPaint g images a cs = Inr (cs', a')"
  shows "device_after g d cs' = device_after g d cs"
  using f device_texts [OF g r] device_game [OF g r]
  by (auto simp: FrameworkPaint_def render_main_def render_loading_def rbind_eq_Inr
      split: option.splits scene_id.splits)

text \<open>C26: A frame leaves the device context as it was: whatever the client did before, and whatever
  the scene holds, one \<open>WM_PAINT\<close> returns, and after its calls the pen, the brush, the text
  alignment, the background mode, the graphics mode and the transformation are those from before,
  and there is no pen and no brush more or less - provided GDI answers as its documentation
  says, and the context was given with a pen and a brush of its own and no transformation.\<close>

theorem painting_restores_device:
  assumes "load_images g = Inr images" and "client_run fuel co events client_rooms = Inr a"
    and "gdi_documented g d" and "ready (device_after g d cs)"
  shows "\<exists>es. BeginRendering g images a cs = Inr (cs @ es, snd (FrameworkRender a))
    \<and> device_after g d (cs @ es) = device_after g d cs"
proof -
  note g = assms(3)
  have q: "device_after g d (snd (gdi_do g GBeginPaint c)) = device_after g d c"
    "device_after g d (snd (gdi_do g GReleaseDC c)) = device_after g d c"
    "device_after g d (snd (gdi_do g GEndPaint c)) = device_after g d c" for c
    by (rule device_quiet [OF g], simp add: device_step_def)+
  obtain es where es: "BeginRendering g images a cs = Inr (cs @ es, snd (FrameworkRender a))"
    using painted [OF assms(1,2)] by blast
  then obtain cs' a' where "FrameworkPaint g images a (snd (gdi_do g GBeginPaint cs)) = Inr (cs', a')"
      "cs @ es = snd (gdi_do g GEndPaint (snd (gdi_do g GReleaseDC cs')))"
    by (auto simp: BeginRendering_def rbind_eq_Inr)
  then have "device_after g d (cs @ es) = device_after g d cs" using q assms(4) device_framework [OF g, of "snd (gdi_do g GBeginPaint cs)" images a cs' a'] by simp
  then show ?thesis using es by blast
qed

text \<open>A device whose handles are the numbers of the calls that made them.\<close>

definition demo_dev :: device where
  "demo_dev = \<lparr>dv_pen = 1, dv_brush = 2, dv_pens = {1}, dv_brushes = {2}, dv_align = 0, dv_bk = 2, dv_mode = 1,
     dv_form = transform_identity\<rparr>"

definition demo_answer :: "device \<Rightarrow> nat \<Rightarrow> gdi_call \<Rightarrow> nat" where
  "demo_answer d n c = (case c of
      GCreatePen s w k \<Rightarrow> n + 3
    | GCreateSolidBrush k \<Rightarrow> n + 3
    | GSelectObject h \<Rightarrow> if h \<in> dv_pens d then dv_pen d else dv_brush d
    | GSetGraphicsMode m \<Rightarrow> dv_mode d
    | GSetBkMode m \<Rightarrow> dv_bk d
    | GSetTextAlign m \<Rightarrow> dv_align d
    | _ \<Rightarrow> 0)"

definition demo_device :: "gdi_calls \<Rightarrow> nat \<times> device" where
  "demo_device cs = fold (\<lambda>c (n, d). (Suc n, device_step (demo_answer d n c) c d)) cs (0, demo_dev)"

definition demo_gdi :: gdi where
  "demo_gdi = files_gdi (\<lambda>cs. case demo_device (butlast cs) of (n, d) \<Rightarrow> demo_answer d n (last cs))"

lemma demo_device_snoc:
  "demo_device (cs @ [c]) = (case demo_device cs of (n, d) \<Rightarrow> (Suc n, device_step (demo_answer d n c) c d))"
  by (simp add: demo_device_def)

lemma demo_after: "demo_device cs = (length cs, device_after demo_gdi demo_dev cs)"
proof (induction cs rule: rev_induct)
  case Nil
  then show ?case by (simp add: demo_device_def device_after_def)
next
  case (snoc c cs)
  then show ?case by (simp add: demo_device_snoc device_after_snoc demo_gdi_def files_gdi_def)
qed

lemma demo_handles:
  "h \<in> dv_pens (device_after demo_gdi demo_dev cs) \<union> dv_brushes (device_after demo_gdi demo_dev cs) \<Longrightarrow> h < length cs + 3"
proof (induction cs arbitrary: h rule: rev_induct)
  case Nil
  then show ?case by (auto simp: device_after_def demo_dev_def)
next
  case (snoc c cs)
  have "gdi_answer demo_gdi (cs @ [c]) = demo_answer (device_after demo_gdi demo_dev cs) (length cs) c"
    using demo_after [of cs] by (simp add: demo_gdi_def files_gdi_def)
  then show ?case using snoc.prems snoc.IH [of h] unfolding device_after_snoc
    by (cases c) (auto simp: device_step_def demo_answer_def split: if_splits)
qed

lemma demo_documented: "gdi_documented demo_gdi demo_dev"
proof -
  have "gdi_answer demo_gdi (cs @ [c]) = demo_answer (device_after demo_gdi demo_dev cs) (length cs) c" for cs c
    using demo_after [of cs] by (simp add: demo_gdi_def files_gdi_def)
  moreover have "length cs + 3 \<notin> dv_pens (device_after demo_gdi demo_dev cs) \<union> dv_brushes (device_after demo_gdi demo_dev cs)" for cs
    using demo_handles [of "length cs + 3" cs] by blast
  ultimately show ?thesis
    by (auto simp: gdi_documented_def answer_ok_def demo_answer_def split: gdi_call.split)
qed

lemma painting_restores_device_witness:
  "\<exists>images a es. client_run 3 demo_co demo_events client_rooms = Inr a \<and> in_game a
    \<and> BeginRendering demo_gdi images a [] = Inr (es, snd (FrameworkRender a))
    \<and> device_after demo_gdi demo_dev es = demo_dev"
proof -
  obtain a where a: "client_run 3 demo_co demo_events client_rooms = Inr a" "in_game a" using demo_reaches_game by blast
  obtain images where i: "load_images demo_gdi = Inr images" unfolding demo_gdi_def using files_load by blast
  have d: "device_after demo_gdi demo_dev [] = demo_dev" by (simp add: device_after_def)
  have "ready demo_dev" by (simp add: ready_def demo_dev_def)
  then show ?thesis
    using painting_restores_device [OF i a(1) demo_documented, of "[]"] a d by fastforce
qed

subsection \<open>Frames of a picture\<close>

text \<open>A part of a picture, as the pixels of it.\<close>

definition pixels :: "int \<times> int \<times> int \<times> int \<Rightarrow> (int \<times> int) set" where
  "pixels r = (case r of (l, t, w, h) \<Rightarrow> {l..<l + w} \<times> {t..<t + h})"

lemma slice_fits:
  assumes "1 < n" and "n \<le> w"
  shows "1 \<le> slice_width n w" and "int n * slice_width n w \<le> int w"
proof -
  have d: "int n * int (w div n) \<le> int w"
    by (metis of_nat_mult of_nat_le_iff div_times_less_eq_dividend mult.commute)
  show "1 \<le> slice_width n w" by (simp add: slice_width_def Let_def)
  show "int n * slice_width n w \<le> int w"
    using d assms by (auto simp: slice_width_def Let_def)
qed

lemma strip_inside: "0 \<le> a \<Longrightarrow> b \<le> w \<Longrightarrow> {a..<b} \<times> t \<subseteq> {0..<w :: int} \<times> t"
  by auto

lemma sliced:
  assumes "make_sprite g path n xo yo = Inr sp" and "image_size g path = (w, h)" and "1 < n" and "0 < w" and "0 < h"
  shows "gs_frames sp = map (\<lambda>i. (int i * slice_width n w, 0, slice_width n w, int h)) [0..<n]"
  using assms by (auto simp: make_sprite_def process_image_def set_bbox_def Let_def split: if_splits)

text \<open>C39: The frames of a sprite are parts of its picture: for a picture at least as wide in pixels as it
  is to have frames, there is a frame for every number below that, none is empty or reaches
  beyond the picture, no two share a pixel, and each of these numbers is drawn with its frame.\<close>

theorem frames_lie_in_picture:
  assumes "make_sprite g path n xo yo = Inr sp" and "image_size g path = (w, h)" and "1 < n" and "n \<le> w" and "0 < h"
  shows "length (gs_frames sp) = n
    \<and> (\<forall>i<n. pixels (gs_frames sp ! i) \<noteq> {} \<and> pixels (gs_frames sp ! i) \<subseteq> {0..<int w} \<times> {0..<int h}
      \<and> (\<forall>j<i. pixels (gs_frames sp ! i) \<inter> pixels (gs_frames sp ! j) = {})
      \<and> draw_sprite g sp x y (of_nat i) angle xs ys alpha cs
        = Inr (draw_single g sp (Frame path i) x y angle xs ys alpha cs))"
proof -
  let ?s = "slice_width n w"
  have f: "gs_frames sp = map (\<lambda>i. (int i * ?s, 0, ?s, int h)) [0..<n]"
    using sliced [OF assms(1,2,3) _ assms(5)] assms(3,4) by simp
  note s = slice_fits [OF assms(3,4)]
  have p: "pixels (gs_frames sp ! i) = {int i * ?s..<int (Suc i) * ?s} \<times> {0..<int h}" if "i < n" for i
    using that f by (simp add: pixels_def algebra_simps)
  have le: "int i * ?s \<le> int j * ?s" if "i \<le> j" for i j
    using that s(1) by (intro mult_right_mono) simp_all
  have in_picture: "pixels (gs_frames sp ! i) \<subseteq> {0..<int w} \<times> {0..<int h}" if "i < n" for i
  proof -
    have "0 \<le> int i * ?s" using s(1) by simp
    moreover have "int (Suc i) * ?s \<le> int w" using order_trans [OF le [of "Suc i" n] s(2)] that by simp
    ultimately show ?thesis unfolding p [OF that] by (rule strip_inside)
  qed
  have apart: "pixels (gs_frames sp ! i) \<inter> pixels (gs_frames sp ! j) = {}" if "i < n" "j < i" for i j
  proof -
    have "int (Suc j) * ?s \<le> int i * ?s" using le [of "Suc j" i] that by simp
    then show ?thesis using that unfolding p [OF that(1)] p [OF less_trans [OF that(2,1)]]
      by (auto simp: Sigma_Int_distrib1)
  qed
  have some: "pixels (gs_frames sp ! i) \<noteq> {}" if "i < n" for i
    using s(1) assms(5) unfolding p [OF that] by (simp add: algebra_simps)
  have "draw_sprite g sp x y (of_nat i) angle xs ys alpha cs
      = Inr (draw_single g sp (Frame path i) x y angle xs ys alpha cs)" if "i < n" for i
    using made_sprite [OF assms(1)] that assms(3) f by (simp add: draw_sprite_def truncate_rat_def)
  then show ?thesis using f in_picture apart some by simp
qed

lemma frames_lie_in_picture_witness:
  "\<exists>sp. make_sprite (files_gdi length) ''a.png'' 5 0 0 = Inr sp
    \<and> gs_frames sp = [(0, 0, 6, 32), (6, 0, 6, 32), (12, 0, 6, 32), (18, 0, 6, 32), (24, 0, 6, 32)]
    \<and> pixels (gs_frames sp ! 4) \<subseteq> {0..<32} \<times> {0..<32}"
proof -
  obtain sp where sp: "make_sprite (files_gdi length) ''a.png'' 5 0 0 = Inr sp"
    by (simp add: make_sprite_def files_gdi_def)
  have z: "image_size (files_gdi length) ''a.png'' = (32, 32)" by (simp add: files_gdi_def)
  have "gs_frames sp = [(0, 0, 6, 32), (6, 0, 6, 32), (12, 0, 6, 32), (18, 0, 6, 32), (24, 0, 6, 32)]"
    using sliced [OF sp z] by (simp add: slice_width_def upt_rec)
  moreover have "pixels (gs_frames sp ! 4) \<subseteq> {0..<32} \<times> {0..<32}"
    using frames_lie_in_picture [OF sp z, of 0 0 0 1 1 1 "[]"] by simp
  ultimately show ?thesis using sp by blast
qed

end
