(* ===== verification/Timer.thy ===== *)
theory Timer
  imports Handlers "HOL-Library.Multiset"
begin

section \<open>Timed events\<close>

text \<open>
  \<open>Timeline\<close> and \<open>TimerWorker\<close>: a priority queue of events ordered so that the event with
  the earliest time is on top. \<open>std::priority_queue\<close> gives an element than which none is
  greater; which one, when several are equal, is not specified. What the worker relies on is
  the locale \<open>timed_queue\<close>; the queue of the model is a list that is searched.
\<close>

text \<open>\<open>Timeline::operator<\<close>, with the sides exchanged.\<close>

definition timeline_less :: "timeline \<Rightarrow> timeline \<Rightarrow> bool" where
  "timeline_less x y \<longleftrightarrow> act_time x > act_time y"

locale timed_queue =
  fixes elems :: "'q \<Rightarrow> timeline multiset" and top :: "'q \<Rightarrow> timeline" and pop :: "'q \<Rightarrow> 'q"
  assumes top_in: "elems q \<noteq> {#} \<Longrightarrow> top q \<in># elems q"
    and top_max: "x \<in># elems q \<Longrightarrow> \<not> timeline_less (top q) x"
    and elems_pop: "elems q \<noteq> {#} \<Longrightarrow> elems (pop q) = elems q - {#top q#}"
begin

lemma top_earliest: "x \<in># elems q \<Longrightarrow> act_time (top q) \<le> act_time x"
  using top_max [of x q] by (simp add: timeline_less_def)

lemma none_due: "\<not> act_time (top q) < t \<Longrightarrow> filter_mset (\<lambda>e. act_time e < t) (elems q) = {#}"
  using top_earliest [of _ q] by (auto simp: filter_mset_eq_conv) fastforce

lemma all_left: "\<not> act_time (top q) < t \<Longrightarrow> filter_mset (\<lambda>e. \<not> act_time e < t) (elems q) = elems q"
  using top_earliest [of _ q] by (auto simp: filter_mset_eq_conv) fastforce

lemma pop_later: "elems q \<noteq> {#} \<Longrightarrow> x \<in># elems (pop q) \<Longrightarrow> act_time (top q) \<le> act_time x"
  using top_earliest [of x q] by (auto simp: elems_pop dest: in_diffD)

lemma elems_split: "elems q \<noteq> {#} \<Longrightarrow> elems q = add_mset (top q) (elems (pop q))"
  using top_in [of q] by (simp add: elems_pop)

end

fun pq_top :: "timeline list \<Rightarrow> timeline" where
  "pq_top [] = undefined"
| "pq_top [e] = e"
| "pq_top (e # es) = (let t = pq_top es in if timeline_less e t then t else e)"

definition pq_pop :: "timeline list \<Rightarrow> timeline list" where
  "pq_pop q = remove1 (pq_top q) q"

lemma pq_top_in: "q \<noteq> [] \<Longrightarrow> pq_top q \<in> set q"
  by (induction q rule: pq_top.induct) (auto simp: Let_def)

lemma pq_top_max: "x \<in> set q \<Longrightarrow> \<not> timeline_less (pq_top q) x"
proof (induction q arbitrary: x rule: pq_top.induct)
  case (3 e e' es)
  let ?t = "pq_top (e' # es)"
  have "act_time ?t \<le> act_time y" if "y \<in> set (e' # es)" for y
    using "3.IH" [OF that] by (simp add: timeline_less_def)
  then have x: "x = e \<or> act_time ?t \<le> act_time x" using "3.prems" by auto
  show ?case
  proof (cases "timeline_less e ?t")
    case True
    then have "pq_top (e # e' # es) = ?t" by (simp add: Let_def)
    then show ?thesis using x True by (auto simp only: timeline_less_def)
  next
    case False
    then have "pq_top (e # e' # es) = e" by (simp add: Let_def)
    then show ?thesis using x False by (auto simp only: timeline_less_def)
  qed
qed (simp_all add: timeline_less_def)

interpretation timers: timed_queue mset pq_top pq_pop
  by unfold_locales (auto simp: pq_top_in pq_top_max pq_pop_def)

lemma length_pq_pop: "q \<noteq> [] \<Longrightarrow> length (pq_pop q) < length q"
  using pq_top_in [of q] by (simp add: pq_pop_def length_remove1)

subsection \<open>The worker\<close>

definition timer_post :: "timeline \<Rightarrow> effect" where
  "timer_post e = EPost (word_of_int (target_id e)) (object_id e) (Asynchron (ev e))"

text \<open>
  The inner loop, between \<open>lock\<close> and \<open>unlock\<close>. The clock is read anew for each event; its
  readings are a function of the number of calls made so far.
\<close>

function timer_drain :: "(nat \<Rightarrow> int) \<Rightarrow> world \<Rightarrow> world" where
  "timer_drain clock w =
     (if timerQueue w = [] then w
      else let timed_event = pq_top (timerQueue w); now_time = clock (now w)
        in if act_time timed_event < now_time then
             timer_drain clock ((emit (timer_post timed_event) w)
               \<lparr>timerQueue := pq_pop (timerQueue w)\<rparr>)
           else w)"
  by auto
termination
  by (relation "measure (\<lambda>(_, w). length (timerQueue w))")
    (auto simp: length_pq_pop world_simps)

declare timer_drain.simps [simp del]

text \<open>C35: A turn of the timer, at one reading of the clock, posts exactly the events whose time has
  passed, the earliest first, and leaves exactly the others in the queue; an event whose time
  is the reading itself waits for the next turn. Nothing else of the state changes.\<close>

theorem timer_posts_due_events:
  assumes "\<And>n. clock n = t"
  shows "\<exists>es. log (timer_drain clock w) = log w @ map timer_post es \<and> sorted (map act_time es)
    \<and> mset es = filter_mset (\<lambda>e. act_time e < t) (mset (timerQueue w))
    \<and> mset (timerQueue (timer_drain clock w)) = filter_mset (\<lambda>e. \<not> act_time e < t) (mset (timerQueue w))
    \<and> timer_drain clock w = w\<lparr>log := log (timer_drain clock w),
        timerQueue := timerQueue (timer_drain clock w)\<rparr>"
  using assms
proof (induction clock w rule: timer_drain.induct)
  case (1 clock w)
  let ?e = "pq_top (timerQueue w)" and ?q = "pq_pop (timerQueue w)"
  let ?w = "(emit (timer_post ?e) w)\<lparr>timerQueue := ?q\<rparr>"
  show ?case
  proof (cases "timerQueue w = [] \<or> \<not> act_time ?e < t")
    case True
    then have "timer_drain clock w = w" using "1.prems" by (subst timer_drain.simps) (auto simp: Let_def)
    moreover have "filter_mset (\<lambda>e. act_time e < t) (mset (timerQueue w)) = {#}"
      "filter_mset (\<lambda>e. \<not> act_time e < t) (mset (timerQueue w)) = mset (timerQueue w)"
      using True timers.none_due timers.all_left by auto
    ultimately show ?thesis by (intro exI [of _ "[]"]) simp
  next
    case False
    then have d: "timer_drain clock w = timer_drain clock ?w"
      using "1.prems" by (subst timer_drain.simps) (simp add: Let_def)
    have nq: "timerQueue w \<noteq> []" and ne: "mset (timerQueue w) \<noteq> {#}" using False by simp_all
    have c: "act_time ?e < clock (now w)" using False "1.prems" by simp
    from "1.IH" [OF nq refl refl c "1.prems"] obtain es where es: "log (timer_drain clock ?w) = log ?w @ map timer_post es" "sorted (map act_time es)"
        "mset es = filter_mset (\<lambda>e. act_time e < t) (mset (timerQueue ?w))"
        "mset (timerQueue (timer_drain clock ?w)) = filter_mset (\<lambda>e. \<not> act_time e < t) (mset (timerQueue ?w))"
        "timer_drain clock ?w = ?w\<lparr>log := log (timer_drain clock ?w),
          timerQueue := timerQueue (timer_drain clock ?w)\<rparr>"
      by (elim exE conjE) (rule that)
    have q: "timerQueue ?w = ?q" by simp
    note es = es(1,2) es(3,4) [unfolded q] es(5)
    have "act_time ?e \<le> act_time x" if "x \<in> set es" for x
    proof -
      have "x \<in># mset ?q" using that es(3) by (metis mset_subset_eqD multiset_filter_subset set_mset_mset)
      then show ?thesis by (rule timers.pop_later [OF ne])
    qed
    moreover have "mset (timerQueue w) = add_mset ?e (mset ?q)" using timers.elems_split [OF ne] .
    moreover have "?w\<lparr>log := l, timerQueue := q\<rparr> = w\<lparr>log := l, timerQueue := q\<rparr>" for l q
      by (simp add: emit_def)
    ultimately show ?thesis
      unfolding d using es False
      by (intro exI [of _ "?e # es"]) (simp add: world_simps)
  qed
qed

theorem timer_posts_due_events_witness:
  "\<exists>es. mset es = filter_mset (\<lambda>e. act_time e < 10) {# \<lparr>object_id = 1, ev = OP_ENTITY_MOVE, act_time = 5, target_id = 0\<rparr>,
      \<lparr>object_id = 2, ev = OP_ENTITY_MOVE, act_time = 10, target_id = 0\<rparr> #}
    \<and> log (timer_drain (\<lambda>_. 10) (IOCPFramework\<lparr>timerQueue :=
      [\<lparr>object_id = 1, ev = OP_ENTITY_MOVE, act_time = 5, target_id = 0\<rparr>,
       \<lparr>object_id = 2, ev = OP_ENTITY_MOVE, act_time = 10, target_id = 0\<rparr>]\<rparr>)) = map timer_post es"
  using timer_posts_due_events [of "\<lambda>_. 10" 10 "IOCPFramework\<lparr>timerQueue :=
      [\<lparr>object_id = 1, ev = OP_ENTITY_MOVE, act_time = 5, target_id = 0\<rparr>,
       \<lparr>object_id = 2, ev = OP_ENTITY_MOVE, act_time = 10, target_id = 0\<rparr>]\<rparr>"]
  by (auto simp: IOCPFramework_def)

end
