(* ===== verification/StressTest.thy ===== *)
theory StressTest
  imports Startup
begin

section \<open>The stress test\<close>

text \<open>
  \<open>WorldStressTest/NetworkModule.cpp\<close>: a program that plays many clients at once, to find how
  many the server can bear. It has its own code to put the server's packets together. Its
  \<open>Commons.hpp\<close> numbers the packets as the server's does. Times are nanoseconds.
\<close>

definition MAX_TEST :: int where "MAX_TEST = int USERS_MAX"
definition MAX_CLIENTS :: nat where "MAX_CLIENTS = ENTITIES_MAX_NUMBER"
definition INVALID_ID :: int where "INVALID_ID = -1"
definition MAX_PACKET_SIZE :: nat where "MAX_PACKET_SIZE = 255"
definition MAX_BUFF_SIZE :: nat where "MAX_BUFF_SIZE = 255"
definition DELAY_LIMIT :: int where "DELAY_LIMIT = 100"
definition DELAY_LIMIT2 :: int where "DELAY_LIMIT2 = 150"
definition ACCEPT_DELY :: int where "ACCEPT_DELY = 50"

lemmas stress_consts = MAX_TEST_def MAX_CLIENTS_def INVALID_ID_def MAX_PACKET_SIZE_def MAX_BUFF_SIZE_def
  DELAY_LIMIT_def DELAY_LIMIT2_def ACCEPT_DELY_def

text \<open>\<open>CLIENT\<close> and the buffer of its \<open>recv_over\<close>; \<open>recv_prev\<close> and \<open>event_target\<close> are not used.\<close>

record stress_client =
  st_id :: int
  st_x :: int
  st_y :: int
  st_connected :: bool
  client_socket :: socket
  IOCP_buf :: bytes
  packet_buf :: bytes
  prev_packet_data :: nat
  curr_packet_size :: nat
  last_move_time :: int

datatype stress_effect =
  SSocket socket
| SConnect socket
| SPort socket nat
| SSend socket packet
| SRecv socket
| SClose socket
| SDisplay

record stress_os =
  ss_socket :: "nat \<Rightarrow> socket"
  ss_connect :: "nat \<Rightarrow> io_result"
  ss_send :: "nat \<Rightarrow> io_result"
  ss_recv :: "nat \<Rightarrow> io_result"
  ss_now :: "nat \<Rightarrow> int"
  ss_rand :: "nat \<Rightarrow> nat"

text \<open>The globals, with the static variables of \<open>Adjust_Number_Of_Client\<close> at the end.\<close>

record stress =
  client_map :: "nat \<Rightarrow> pid"
  everySessions :: "nat \<Rightarrow> stress_client"
  num_connections :: nat
  client_to_close :: nat
  active_clients :: int
  global_delay :: int
  last_connect_time :: int
  delay_multiplier :: int
  max_limit :: int
  increasing :: bool
  st_log :: "stress_effect list"
  st_clock :: nat
  st_dice :: nat

definition on_client :: "nat \<Rightarrow> (stress_client \<Rightarrow> stress_client) \<Rightarrow> stress \<Rightarrow> stress" where
  "on_client c f w = w\<lparr>everySessions := (everySessions w)(c := f (everySessions w c))\<rparr>"

definition st_emit :: "stress_effect \<Rightarrow> stress \<Rightarrow> stress" where
  "st_emit e w = w\<lparr>st_log := st_log w @ [e]\<rparr>"

definition read_clock :: "stress_os \<Rightarrow> stress \<Rightarrow> int \<times> stress" where
  "read_clock so w = (ss_now so (st_clock w), w\<lparr>st_clock := Suc (st_clock w)\<rparr>)"

definition to_ms :: "int \<Rightarrow> int" where "to_ms t = t div 1000000"

text \<open>\<open>static_cast<int>\<close> and implicit conversions of an identifier.\<close>

definition to_int :: "int \<Rightarrow> int" where "to_int i = wrap_int32 i"

subsection \<open>Sending\<close>

text \<open>\<open>IsPlayer\<close> is asked of the number of a client, not of the identifier the server gave.\<close>

definition DisconnectClient :: "nat \<Rightarrow> stress \<Rightarrow> stress res" where
  "DisconnectClient ci w =
     (if IsPlayer (int ci) then
        if MAX_CLIENTS \<le> ci then Inl BufferOverrun
        else Inr (if st_connected (everySessions w ci) then
            (st_emit (SClose (client_socket (everySessions w ci)))
              (on_client ci (\<lambda>c. c\<lparr>st_connected := False\<rparr>) w))
            \<lparr>active_clients := active_clients w - 1\<rparr>
          else w)
      else Inr w)"

definition StressSend :: "stress_os \<Rightarrow> nat \<Rightarrow> packet \<Rightarrow> stress \<Rightarrow> stress" where
  "StressSend so cl k w =
     (let w1 = st_emit (SSend (client_socket (everySessions w cl)) k) w
      in if ss_send so (length (st_log w)) = IoError then st_emit SDisplay w1 else w1)"

subsection \<open>Packets\<close>

text \<open>
  \<open>std::array\<close> does not check an index. A packet of any other type opens a message box and
  then loops.
\<close>

definition place_client :: "int \<Rightarrow> rat \<Rightarrow> rat \<Rightarrow> stress \<Rightarrow> stress res" where
  "place_client my_id x y w =
     (if my_id < 0 \<or> int MAX_CLIENTS \<le> my_id then Inl BufferOverrun
      else Inr (on_client (nat my_id) (\<lambda>c. c\<lparr>st_x := to_int32 x, st_y := to_int32 y\<rparr>) w))"

definition measure_delay :: "stress_os \<Rightarrow> u32 \<Rightarrow> stress \<Rightarrow> stress" where
  "measure_delay so move_time w =
     (if move_time = 0 then w
      else let (now, w1) = read_clock so w; d_ms = to_ms now - int (unat move_time)
        in if global_delay w1 < d_ms then w1\<lparr>global_delay := global_delay w1 + 1\<rparr>
           else if d_ms < global_delay w1 then w1\<lparr>global_delay := global_delay w1 - 1\<rparr>
           else w1)"

definition move_other :: "stress_os \<Rightarrow> nat \<Rightarrow> packet \<Rightarrow> stress \<Rightarrow> stress res" where
  "move_other so ci k w = (case body k of
      BMoveChar x y d move_time \<Rightarrow>
        if IsPlayer (playerID k) then
          let my_local_id = playerID k - CLIENTS_ORDER_BEGIN
          in if int MAX_CLIENTS \<le> my_local_id then Inl BufferOverrun
             else
               let my_id = to_int (client_map w (nat my_local_id))
               in rbind (if -1 \<noteq> my_id then place_client my_id x y w else Inr w) (\<lambda>w1.
                    Inr (if int ci = my_id then measure_delay so move_time w1 else w1))
        else Inr w
    | _ \<Rightarrow> Inr w)"

definition appear_other :: "nat \<Rightarrow> packet \<Rightarrow> stress \<Rightarrow> stress res" where
  "appear_other ci k w = (case body k of
      BAppear c e d lv hp mhp mp mmp am x y \<Rightarrow>
        let w1 = (on_client ci (\<lambda>c. c\<lparr>st_connected := True\<rparr>) w)\<lparr>active_clients := active_clients w + 1\<rparr>;
            my_local_id = playerID k - CLIENTS_ORDER_BEGIN
        in if IsPlayer (int ci) \<and> (my_local_id < 0 \<or> int MAX_CLIENTS \<le> my_local_id) then Inl BufferOverrun
           else
             let w2 = (if IsPlayer (int ci) then
                 w1\<lparr>client_map := (client_map w1)(nat my_local_id := int ci)\<rparr> else w1)
             in Inr (on_client ci (\<lambda>c. c\<lparr>st_id := to_int (playerID k), st_x := to_int32 x,
                  st_y := to_int32 y\<rparr>) w2)
    | _ \<Rightarrow> Inr w)"

definition ProcessPacket :: "stress_os \<Rightarrow> nat \<Rightarrow> bytes \<Rightarrow> stress \<Rightarrow> stress res" where
  "ProcessPacket so ci packet w =
     (let k = view_packet packet in
      if Type k = SC_MOVE_OBJ then move_other so ci k w
      else if Type k \<in> {SC_SIGNIN_FAILED, SC_SIGNOUT, SC_STAT_OBJ, SC_SIGNUP, SC_CREATE_PLAYER,
        SC_DISAPPEAR_OBJ} then Inr w
      else if Type k = SC_APPEAR_OBJ then appear_other ci k w
      else Inl NoReturn)"

subsection \<open>Receiving\<close>

text \<open>
  The sizes of the loop are unsigned; none of them falls below 0, as \<open>pr_size\<close> is less than a
  known \<open>proceed_size\<close>. The loop over the received bytes: \<open>io_size\<close> bytes are left from \<open>off\<close> on, \<open>pr_size\<close> bytes of
  the packet were kept before, and its size is \<open>proceed_size\<close>, 0 while not known.
\<close>

fun worker_loop :: "nat \<Rightarrow> stress_os \<Rightarrow> nat \<Rightarrow> nat \<Rightarrow> nat \<Rightarrow> nat \<Rightarrow> nat \<Rightarrow> stress \<Rightarrow> (nat \<times> nat \<times> stress) res" where
  "worker_loop 0 so ci io_size off proceed_size pr_size w = Inl NoReturn"
| "worker_loop (Suc fuel) so ci io_size off proceed_size pr_size w =
     (if io_size = 0 then Inr (proceed_size, pr_size, w)
      else
        let c = everySessions w ci; buf = drop off (IOCP_buf c)
        in if proceed_size = 0 \<and> length buf \<le> 8 then Inl BufferOverrun
           else
             let want = (if proceed_size = 0 then unat (view_size buf) else proceed_size)
             in if want \<le> io_size + pr_size then
                  if want < pr_size \<or> MAX_PACKET_SIZE < want \<or> length buf < want - pr_size
                  then Inl BufferOverrun
                  else
                    let packet = take pr_size (packet_buf c) @ take (want - pr_size) buf
                        @ replicate (MAX_PACKET_SIZE - want) 0
                    in rbind (ProcessPacket so ci packet w) (\<lambda>w1.
                         worker_loop fuel so ci (io_size - (want - pr_size)) (off + (want - pr_size)) 0 0 w1)
                else if MAX_PACKET_SIZE < pr_size + io_size \<or> length buf < io_size then Inl BufferOverrun
                else worker_loop fuel so ci 0 off want (pr_size + io_size)
                  (on_client ci (\<lambda>c. c\<lparr>packet_buf := take pr_size (packet_buf c) @ take io_size buf
                    @ drop (pr_size + io_size) (packet_buf c)\<rparr>) w))"

declare worker_loop.simps(2) [simp del]

definition stress_receive :: "nat \<Rightarrow> stress_os \<Rightarrow> nat \<Rightarrow> nat \<Rightarrow> stress \<Rightarrow> stress res" where
  "stress_receive fuel so ci io_size w =
     (let c = everySessions w ci
      in rbind (worker_loop fuel so ci io_size 0 (curr_packet_size c) (prev_packet_data c) w)
        (\<lambda>(proceed_size, pr_size, w1).
          let w2 = on_client ci (\<lambda>c. c\<lparr>curr_packet_size := proceed_size, prev_packet_data := pr_size\<rparr>) w1;
              w3 = st_emit (SRecv (client_socket (everySessions w2 ci))) w2
          in if ss_recv so (length (st_log w2)) = IoError then DisconnectClient ci w3 else Inr w3))"

text \<open>The system writes what arrived into the buffer of the receive.\<close>

definition stress_deliver :: "nat \<Rightarrow> bytes \<Rightarrow> stress \<Rightarrow> stress" where
  "stress_deliver ci data w =
     on_client ci (\<lambda>c. c\<lparr>IOCP_buf := data @ drop (length data) (IOCP_buf c)\<rparr>) w"

text \<open>
  One turn of \<open>Worker_Thread\<close>: a completion with its bytes and its key. A failed completion is
  handled like the others once the client is disconnected, although a send was deleted then.
\<close>

record stress_completion =
  sc_ret :: bool
  io_size :: nat
  sc_key :: nat
  sc_event :: overlap_op
  sc_len :: nat

definition worker_turn :: "nat \<Rightarrow> stress_os \<Rightarrow> stress_completion \<Rightarrow> stress \<Rightarrow> stress res" where
  "worker_turn fuel so k w =
     (let ci = sc_key k in
      rbind (if sc_ret k then Inr w else DisconnectClient ci w) (\<lambda>w1.
        if io_size k = 0 then DisconnectClient ci w1
        else if \<not> sc_ret k \<and> sc_event k = OP_SEND then Inl NullDeref
        else if sc_event k = OP_RECV then stress_receive fuel so ci (io_size k) w1
        else if sc_event k = OP_SEND then
          if io_size k \<noteq> sc_len k then DisconnectClient ci w1 else Inr w1
        else if sc_event k = OP_ENTITY_MOVE then Inr w1
        else Inl NoReturn))"

subsection \<open>Connecting and moving\<close>

text \<open>A new client: its number is printed over the nickname the packet was built with, \<open>temp\<close>.\<close>

definition new_client :: "stress_os \<Rightarrow> stress \<Rightarrow> stress res" where
  "new_client so w =
     (let n = num_connections w; s = ss_socket so (length (st_log w));
          w1 = st_emit (SConnect s) (st_emit (SSocket s) (on_client n (\<lambda>c. c\<lparr>client_socket := s\<rparr>) w));
          w2 = (if ss_connect so (length (st_log w)) = IoError then st_emit SDisplay w1 else w1);
          w3 = st_emit (SPort s n) (on_client n (\<lambda>c. c\<lparr>curr_packet_size := 0, prev_packet_data := 0,
            IOCP_buf := replicate MAX_BUFF_SIZE 0\<rparr>) w2);
          digits = decimal n;
          nickname = digits @ [0] @ drop (length digits + 1) ([116, 101, 109, 112] @ replicate 26 0);
          w4 = StressSend so n (mk_packet CS_SIGNIN 0 (BSignIn nickname)) w3;
          w5 = st_emit (SRecv s) w4
      in if ss_recv so (length (st_log w4)) = IoError then Inr (st_emit SDisplay w5)
         else Inr (w5\<lparr>num_connections := n + 1\<rparr>))"

definition Adjust_Number_Of_Client :: "stress_os \<Rightarrow> stress \<Rightarrow> stress res" where
  "Adjust_Number_Of_Client so w =
     (if MAX_TEST \<le> active_clients w \<or> MAX_CLIENTS \<le> num_connections w then Inr w
      else
        let (now, w1) = read_clock so w; duration = to_ms (now - last_connect_time w1)
        in if duration < ACCEPT_DELY * delay_multiplier w1 then Inr w1
           else if DELAY_LIMIT2 < global_delay w1 then
             let w2 = (if increasing w1
               then w1\<lparr>max_limit := active_clients w1, increasing := False\<rparr> else w1)
             in if active_clients w2 < 100 \<or> duration < ACCEPT_DELY * 10 then Inr w2
                else
                  let (now2, w3) = read_clock so w2
                  in rbind (DisconnectClient (client_to_close w3) (w3\<lparr>last_connect_time := now2\<rparr>))
                    (\<lambda>w4. Inr (w4\<lparr>client_to_close := client_to_close w4 + 1\<rparr>))
           else if DELAY_LIMIT < global_delay w1 then Inr (w1\<lparr>delay_multiplier := 10\<rparr>)
           else if max_limit w1 - max_limit w1 div 20 < active_clients w1 then Inr w1
           else
             let (now2, w2) = read_clock so (w1\<lparr>increasing := True\<rparr>)
             in new_client so (w2\<lparr>last_connect_time := now2\<rparr>))"

text \<open>A client that has moved less than a second ago, or is not in the world yet, is left alone.\<close>

definition test_client :: "stress_os \<Rightarrow> nat \<Rightarrow> stress \<Rightarrow> stress" where
  "test_client so i w =
     (if \<not> st_connected (everySessions w i) then w
      else
        let (now, w1) = read_clock so w
        in if now < last_move_time (everySessions w1 i) + 1000000000 then w1
           else
             let (now2, w2) = read_clock so w1;
                 w3 = on_client i (\<lambda>c. c\<lparr>last_move_time := now2\<rparr>) w2;
                 dir = [MV_LEFT, MV_RIGHT, MV_UP, MV_DOWN] ! (ss_rand so (st_dice w3) mod 4);
                 (now3, w4) = read_clock so (w3\<lparr>st_dice := Suc (st_dice w3)\<rparr>)
             in StressSend so i (mk_packet CS_MOVE (CLIENTS_ORDER_BEGIN + int i)
                  (BMove dir (word_of_int (to_ms now3)))) w4)"

definition test_turn :: "stress_os \<Rightarrow> stress \<Rightarrow> stress res" where
  "test_turn so w = rbind (Adjust_Number_Of_Client so w)
     (\<lambda>w1. Inr (fold (test_client so) [0..<num_connections w1] w1))"

definition InitializeNetwork :: "stress_os \<Rightarrow> stress" where
  "InitializeNetwork so = \<lparr>client_map = (\<lambda>_. -1),
     everySessions = (\<lambda>_. \<lparr>st_id = INVALID_ID, st_x = 0, st_y = 0, st_connected = False,
       client_socket = NULL_SOCKET, IOCP_buf = replicate MAX_BUFF_SIZE 0,
       packet_buf = replicate MAX_PACKET_SIZE 0, prev_packet_data = 0, curr_packet_size = 0,
       last_move_time = 0\<rparr>),
     num_connections = 0, client_to_close = 0, active_clients = 0, global_delay = 0,
     last_connect_time = ss_now so 0, delay_multiplier = 1, max_limit = 2147483647,
     increasing = True, st_log = [], st_clock = 1, st_dice = 0\<rparr>"

text \<open>The points of the connected clients, for the screen; the array has room for \<open>MAX_TEST\<close>.\<close>

definition GetPointCloud :: "stress \<Rightarrow> (rat \<times> rat) list res" where
  "GetPointCloud w =
     (let cs = filter (\<lambda>i. st_connected (everySessions w i)) [0..<num_connections w]
      in if MAX_TEST < int (length cs) then Inl BufferOverrun
         else Inr (map (\<lambda>i. (f32 (of_int (st_x (everySessions w i))), f32 (of_int (st_y (everySessions w i))))) cs))"

end
