(* ===== verification/StressProps.thy ===== *)
theory StressProps
  imports StressTest ClientFraming
begin

section \<open>Properties of the stress test\<close>

text \<open>
  Its clients put the server's packets together from the pieces they arrive in, as long as a
  piece does not end within the first bytes of a packet. Its measure of the server's delay never
  changes, because a client is looked up by a number that is never that of a player.
\<close>

subsection \<open>Nothing is measured\<close>

text \<open>What no step changes while the clients have numbers below those of the players.\<close>

definition unmeasured :: "stress \<Rightarrow> bool" where
  "unmeasured w \<longleftrightarrow> client_map w = (\<lambda>_. -1) \<and> global_delay w = 0 \<and> delay_multiplier w = 1
     \<and> increasing w \<and> max_limit w = 2147483647 \<and> client_to_close w = 0
     \<and> (\<forall>s. SClose s \<notin> set (st_log w))"

lemma unmeasured_simps [simp]:
  "unmeasured (on_client ci f w) = unmeasured w"
  "unmeasured (w\<lparr>active_clients := n\<rparr>) = unmeasured w"
  "unmeasured (w\<lparr>num_connections := c\<rparr>) = unmeasured w"
  "unmeasured (w\<lparr>last_connect_time := t\<rparr>) = unmeasured w"
  "unmeasured (w\<lparr>st_dice := c\<rparr>) = unmeasured w"
  "unmeasured (snd (read_clock so w)) = unmeasured w"
  "unmeasured (st_emit e w) \<longleftrightarrow> unmeasured w \<and> (\<forall>s. e \<noteq> SClose s)"
  by (auto simp: unmeasured_def on_client_def read_clock_def st_emit_def)

lemma unmeasured_send [simp]: "unmeasured (StressSend so c k w) = unmeasured w"
  by (simp add: StressSend_def Let_def)

lemma not_player_disconnect: "\<not> IsPlayer (int ci) \<Longrightarrow> DisconnectClient ci w = Inr w"
  by (simp add: DisconnectClient_def)

lemma process_unmeasured:
  assumes "\<not> IsPlayer (int ci)" and "unmeasured w" and "ProcessPacket so ci p w = Inr w'"
  shows "unmeasured w'"
proof -
  have "client_map w = (\<lambda>_. -1)" using assms(2) by (simp add: unmeasured_def)
  then have "move_other so ci k w = Inr w' \<Longrightarrow> w' = w" for k
    by (auto simp: move_other_def to_int_def wrap_int32_def Let_def split: packet_body.splits if_splits)
  moreover have "appear_other ci k w = Inr w' \<Longrightarrow> unmeasured w'" for k
    using assms(1,2) by (auto simp: appear_other_def Let_def split: packet_body.splits)
  ultimately show ?thesis using assms(2,3) by (auto simp: ProcessPacket_def Let_def split: if_splits)
qed

lemma loop_unmeasured:
  assumes "\<not> IsPlayer (int ci)" and "unmeasured w"
    and "worker_loop fuel so ci n off p r w = Inr (p', r', w')"
  shows "unmeasured w'"
  using assms(2,3)
proof (induction fuel arbitrary: n off p r w)
  case 0
  then show ?case by simp
next
  case (Suc fuel)
  show ?case
    using Suc.prems unfolding worker_loop.simps(2) Let_def
    by (simp only: rbind_eq_Inr split: if_splits)
       (auto intro: Suc.IH Suc.IH [OF unmeasured_simps(1) [THEN iffD2]] process_unmeasured [OF assms(1)])
qed

datatype stress_event = Turn | Completion stress_completion bytes

definition stress_step :: "nat \<Rightarrow> stress_os \<Rightarrow> stress_event \<Rightarrow> stress \<Rightarrow> stress res" where
  "stress_step fuel so e w = (case e of
      Turn \<Rightarrow> test_turn so w
    | Completion k data \<Rightarrow> worker_turn fuel so k (stress_deliver (sc_key k) data w))"

lemma turn_unmeasured:
  assumes "unmeasured w" and "test_turn so w = Inr w'"
  shows "unmeasured w'"
proof -
  obtain w1 where a: "Adjust_Number_Of_Client so w = Inr w1"
      "w' = fold (test_client so) [0..<num_connections w1] w1"
    using assms(2) by (auto simp: test_turn_def rbind_eq_Inr)
  have n: "new_client so v = Inr v' \<Longrightarrow> unmeasured v \<Longrightarrow> unmeasured v'" for v v'
    by (auto simp: new_client_def Let_def split: option.splits if_splits)
  let ?w = "snd (read_clock so w)"
  have u: "unmeasured ?w" using assms(1) by simp
  then have d: "global_delay ?w = 0" "\<And>t. unmeasured (?w\<lparr>increasing := True\<rparr>)" 
    by (simp_all add: unmeasured_def)
  have "unmeasured w1"
    using a(1) assms(1) u d n
    by (auto simp: Adjust_Number_Of_Client_def split_def Let_def DELAY_LIMIT_def DELAY_LIMIT2_def split: if_splits)
  moreover have t: "unmeasured (test_client so i v)" if "unmeasured v" for i v
    using that by (simp add: test_client_def split_def Let_def)
  ultimately show ?thesis unfolding a(2) by (intro fold_invariant2 [where I = unmeasured])
qed

lemma worker_unmeasured:
  assumes "\<not> IsPlayer (int (sc_key k))" and "unmeasured w" and "worker_turn fuel so k w = Inr w'"
  shows "unmeasured w'"
proof -
  note d = not_player_disconnect [OF assms(1)]
  have "unmeasured v'" if v': "stress_receive fuel so (sc_key k) n w = Inr v'" for v' n
  proof -
    obtain p r w1 where l: "worker_loop fuel so (sc_key k) n 0 (curr_packet_size (everySessions w (sc_key k)))
        (prev_packet_data (everySessions w (sc_key k))) w = Inr (p, r, w1)"
      using v' by (auto simp: stress_receive_def Let_def rbind_eq_Inr)
    then have "unmeasured w1" by (rule loop_unmeasured [OF assms(1,2)])
    then show ?thesis using v' l by (auto simp: stress_receive_def Let_def d split: if_splits)
  qed
  then show ?thesis using assms(2,3) d
    by (auto simp: worker_turn_def Let_def split: if_splits)
qed

text \<open>The stress test measures nothing: as long as it has fewer clients than the server has
  identifiers for the others, no sequence of turns and completions changes the delay it compares
  with its limits, maps an identifier to a client, or closes a connection - so it never slows
  down, whatever the server does.\<close>

theorem delay_never_measured:
  assumes "\<forall>k data. Completion k data \<in> set es \<longrightarrow> \<not> IsPlayer (int (sc_key k))"
    and "foldR (stress_step fuel so) es (InitializeNetwork so) = Inr w"
  shows "global_delay w = 0 \<and> client_map w = (\<lambda>_. -1) \<and> client_to_close w = 0
    \<and> (\<forall>s. SClose s \<notin> set (st_log w))"
proof -
  have "unmeasured w"
    using assms(2)
  proof (rule foldR_invariant)
    show "unmeasured (InitializeNetwork so)" by (simp add: unmeasured_def InitializeNetwork_def)
    fix e v v' assume e: "e \<in> set es" "stress_step fuel so e v = Inr v'" "unmeasured v"
    show "unmeasured v'"
    proof (cases e)
      case Turn
      then show ?thesis using e turn_unmeasured by (simp add: stress_step_def)
    next
      case (Completion k data)
      then have "\<not> IsPlayer (int (sc_key k))" using e(1) assms(1) by blast
      moreover have "unmeasured (stress_deliver (sc_key k) data v)" using e(3) by (simp add: stress_deliver_def)
      ultimately show ?thesis using worker_unmeasured e(2) Completion by (simp add: stress_step_def)
    qed
  qed
  then show ?thesis by (simp add: unmeasured_def)
qed


text \<open>A network whose calls succeed; the clock reads a tenth of a second more each time.\<close>

definition demo_so :: stress_os where
  "demo_so = \<lparr>ss_socket = (\<lambda>n. n + 1), ss_connect = (\<lambda>_. IoDone), ss_send = (\<lambda>_. IoDone),
     ss_recv = (\<lambda>_. IoPending), ss_now = (\<lambda>n. int n * 100000000), ss_rand = (\<lambda>n. n)\<rparr>"

lemma delay_never_measured_witness:
  "\<exists>w. foldR (stress_step 3 demo_so) [Turn, Completion \<lparr>sc_ret = False, io_size = 0, sc_key = 0,
      sc_event = OP_RECV, sc_len = 0\<rparr> []] (InitializeNetwork demo_so) = Inr w
    \<and> global_delay w = 0 \<and> num_connections w = 1"
proof -
  let ?k = "\<lparr>sc_ret = False, io_size = 0, sc_key = 0, sc_event = OP_RECV, sc_len = 0\<rparr>"
  have n: "\<not> IsPlayer (int 0)" by (simp add: IsPlayer_def const_simps)
  obtain w where w: "test_turn demo_so (InitializeNetwork demo_so) = Inr w" "num_connections w = 1"
    by (auto simp: test_turn_def Adjust_Number_Of_Client_def InitializeNetwork_def demo_so_def read_clock_def
        stress_consts const_simps to_ms_def new_client_def StressSend_def st_emit_def on_client_def
        test_client_def Let_def)
  have "stress_step 3 demo_so (Completion ?k []) w = Inr w"
    using n by (simp add: stress_step_def stress_deliver_def worker_turn_def not_player_disconnect Let_def on_client_def)
  then have r: "foldR (stress_step 3 demo_so) [Turn, Completion ?k []] (InitializeNetwork demo_so) = Inr w"
    using w(1) by (simp add: stress_step_def)
  have "\<forall>k data. Completion k data \<in> set [Turn, Completion ?k []] \<longrightarrow> \<not> IsPlayer (int (sc_key k))"
    using n by simp
  then have "global_delay w = 0" using delay_never_measured [OF _ r] by blast
  then show ?thesis using r w(2) by blast
qed

subsection \<open>Packets in pieces\<close>

text \<open>The state with other buffers, counts and requests of a client.\<close>

definition with_io :: "nat \<Rightarrow> stress_effect list \<Rightarrow> bytes \<Rightarrow> bytes \<Rightarrow> nat \<Rightarrow> nat \<Rightarrow> stress \<Rightarrow> stress" where
  "with_io ci es ib pb p r w = (on_client ci (\<lambda>c. c\<lparr>IOCP_buf := ib, packet_buf := pb,
     curr_packet_size := p, prev_packet_data := r\<rparr>) w)\<lparr>st_log := es\<rparr>"

lemma with_io_fields [simp]:
  "IOCP_buf (everySessions (with_io ci es ib pb p r w) ci) = ib"
  "packet_buf (everySessions (with_io ci es ib pb p r w) ci) = pb"
  "curr_packet_size (everySessions (with_io ci es ib pb p r w) ci) = p"
  "prev_packet_data (everySessions (with_io ci es ib pb p r w) ci) = r"
  "st_log (with_io ci es ib pb p r w) = es"
  "client_map (with_io ci es ib pb p r w) = client_map w"
  "active_clients (with_io ci es ib pb p r w) = active_clients w"
  "global_delay (with_io ci es ib pb p r w) = global_delay w"
  "client_socket (everySessions (with_io ci es ib pb p r w) j) = client_socket (everySessions w j)"
  by (simp_all add: with_io_def on_client_def)

lemma with_io_with_io [simp]: "with_io ci es ib pb p r (with_io ci es' ib' pb' p' r' w) = with_io ci es ib pb p r w"
  by (simp add: with_io_def on_client_def)

lemma with_io_self:
  "with_io ci (st_log w) (IOCP_buf (everySessions w ci)) (packet_buf (everySessions w ci))
     (curr_packet_size (everySessions w ci)) (prev_packet_data (everySessions w ci)) w = w"
  by (simp add: with_io_def on_client_def)

lemma with_io_ops:
  "stress_deliver ci data (with_io ci es ib pb p r w)
    = with_io ci es (data @ drop (length data) ib) pb p r w"
  "on_client ci (\<lambda>c. c\<lparr>packet_buf := f (packet_buf c)\<rparr>) (with_io ci es ib pb p r w)
    = with_io ci es ib (f pb) p r w"
  "on_client ci (\<lambda>c. c\<lparr>curr_packet_size := p', prev_packet_data := r'\<rparr>) (with_io ci es ib pb p r w)
    = with_io ci es ib pb p' r' w"
  "st_emit e (with_io ci es ib pb p r w) = with_io ci (es @ [e]) ib pb p r w"
  by (auto simp: with_io_def on_client_def stress_deliver_def st_emit_def fun_eq_iff
      intro!: stress.equality stress_client.equality)

text \<open>A packet touches none of these, for a client whose number is none of a player.\<close>

lemma process_with_io:
  assumes c: "\<not> IsPlayer (int ci)" and m: "client_map w = (\<lambda>_. -1)"
  shows "ProcessPacket so ci x (with_io ci es ib pb p r w)
    = rbind (ProcessPacket so ci x w) (\<lambda>w'. Inr (with_io ci es ib pb p r w'))"
proof -
  have "move_other so ci k (with_io ci es ib pb p r w)
      = rbind (move_other so ci k w) (\<lambda>w'. Inr (with_io ci es ib pb p r w'))" for k
    using m by (simp add: move_other_def to_int_def wrap_int32_def Let_def split: packet_body.split)
  moreover have "appear_other ci k (with_io ci es ib pb p r w)
      = rbind (appear_other ci k w) (\<lambda>w'. Inr (with_io ci es ib pb p r w'))" for k
    using c by (auto simp: appear_other_def Let_def with_io_def on_client_def fun_eq_iff
        split: packet_body.split intro!: stress.equality stress_client.equality)
  ultimately show ?thesis by (simp add: ProcessPacket_def Let_def)
qed

definition process_all :: "stress_os \<Rightarrow> nat \<Rightarrow> u64 \<Rightarrow> packet list \<Rightarrow> stress \<Rightarrow> stress res" where
  "process_all so ci v ks w = foldR (\<lambda>k. ProcessPacket so ci (packet_bytes v k)) ks w"

lemma process_padded:
  "whole k \<Longrightarrow> ProcessPacket so ci (packet_bytes v k @ x) w = ProcessPacket so ci (packet_bytes v k) w"
  using view_packet_bytes [of k v] view_packet_bytes [of k v "[]"] by (simp add: ProcessPacket_def whole_def)

text \<open>The beginning of a packet, long enough to show its size.\<close>

definition partial :: "u64 \<Rightarrow> bytes \<Rightarrow> bool" where
  "partial v bs \<longleftrightarrow> (\<exists>k. whole k \<and> 9 \<le> length bs \<and> length bs < unat (Size k)
     \<and> bs = take (length bs) (packet_bytes v k))"

text \<open>What the client kept: nothing, or the beginning of a packet and its size.\<close>

definition kept_part :: "u64 \<Rightarrow> bytes \<Rightarrow> nat \<Rightarrow> bytes \<Rightarrow> bool" where
  "kept_part v pb p bs \<longleftrightarrow> length pb = MAX_PACKET_SIZE \<and> length bs \<le> MAX_PACKET_SIZE
     \<and> take (length bs) pb = bs
     \<and> (bs = [] \<and> p = 0 \<or> partial v bs \<and> p = unat (view_size bs))"

lemma view_size_append: "9 \<le> length bs \<Longrightarrow> view_size (bs @ x) = view_size bs"
  by (simp add: view_size_def byte_at_def nth_append)

lemma view_size_packet: "whole k \<Longrightarrow> view_size (packet_bytes v k @ x) = Size k"
  unfolding packet_bytes_header using body_named_type by (auto simp: view_header whole_def wf_packet_def)

lemma view_size_begin:
  assumes "9 \<le> length bs" and "bs @ x = packet_bytes v k @ y" and "whole k"
  shows "view_size bs = Size k"
  using view_size_append [OF assms(1), of x] view_size_packet [OF assms(3), of v y] assms(2) by simp

lemma partial_size:
  assumes "partial v bs"
  shows "9 \<le> length bs" and "length bs < unat (view_size bs)"
proof -
  obtain k where k: "whole k" "9 \<le> length bs" "length bs < unat (Size k)"
      "bs = take (length bs) (packet_bytes v k)" using assms by (auto simp: partial_def)
  have "bs @ drop (length bs) (packet_bytes v k) = packet_bytes v k @ []"
    using k(4) append_take_drop_id [of "length bs" "packet_bytes v k"] by simp
  then have "view_size bs = Size k" using view_size_begin [OF k(2) _ k(1)] by blast
  with k show "9 \<le> length bs" "length bs < unat (view_size bs)" by simp_all
qed

lemma process_map:
  assumes "\<not> IsPlayer (int ci)" and "client_map w = (\<lambda>_. -1)" and "ProcessPacket so ci x w = Inr w'"
  shows "client_map w' = (\<lambda>_. -1)"
proof -
  have "move_other so ci k w = Inr w' \<Longrightarrow> w' = w" for k
    using assms(2) by (auto simp: move_other_def to_int_def wrap_int32_def Let_def split: packet_body.splits if_splits)
  moreover have "appear_other ci k w = Inr w' \<Longrightarrow> client_map w' = client_map w" for k
    using assms(1) by (auto simp: appear_other_def on_client_def Let_def split: packet_body.splits)
  ultimately show ?thesis using assms(2,3) by (auto simp: ProcessPacket_def Let_def split: if_splits)
qed

text \<open>The two ways one turn of the loop can go on.\<close>

lemma worker_loop_take:
  assumes "drop off (IOCP_buf (everySessions w ci)) = buf" and "p = 0 \<longrightarrow> 8 < length buf"
    and "(if p = 0 then unat (view_size buf) else p) = want" and "want \<le> n + r" and "r \<le> want"
    and "want \<le> MAX_PACKET_SIZE" and "want - r \<le> length buf" and "0 < n"
  shows "worker_loop (Suc fuel) so ci n off p r w
    = rbind (ProcessPacket so ci (take r (packet_buf (everySessions w ci)) @ take (want - r) buf
        @ replicate (MAX_PACKET_SIZE - want) 0) w)
        (\<lambda>w1. worker_loop fuel so ci (n - (want - r)) (off + (want - r)) 0 0 w1)"
  using assms(2,4-8) unfolding worker_loop.simps(2) Let_def assms(1) assms(3) by auto

lemma worker_loop_store:
  assumes "drop off (IOCP_buf (everySessions w ci)) = buf" and "p = 0 \<longrightarrow> 8 < length buf"
    and "(if p = 0 then unat (view_size buf) else p) = want" and "n + r < want"
    and "r + n \<le> MAX_PACKET_SIZE" and "n \<le> length buf" and "0 < n"
  shows "worker_loop (Suc fuel) so ci n off p r w = worker_loop fuel so ci 0 off want (r + n)
    (on_client ci (\<lambda>c. c\<lparr>packet_buf := take r (packet_buf c) @ take n buf @ drop (r + n) (packet_buf c)\<rparr>) w)"
  using assms(2,4-7) unfolding worker_loop.simps(2) Let_def assms(1) assms(3) by auto

lemma loop_stores:
  assumes kp: "kept_part v pb p bs" and r: "rest \<noteq> []" and pt: "partial v (bs @ rest)"
    and buf: "drop off ib = rest @ junk"
  shows "\<exists>pb' p'. kept_part v pb' p' (bs @ rest)
    \<and> worker_loop (Suc (Suc fuel)) so ci (length rest) off p (length bs) (with_io ci es ib pb cp cr w)
      = Inr (p', length (bs @ rest), with_io ci es ib pb' cp cr w)"
proof -
  let ?bs = "bs @ rest" let ?p = "unat (view_size ?bs)"
  let ?pb = "take (length bs) pb @ take (length rest) (rest @ junk) @ drop (length bs + length rest) pb"
  note ps = partial_size [OF pt]
  have u: "?p < 256" using unsigned_less [of "view_size ?bs", where 'a = nat] by simp
  have l: "length pb = 255" "take (length bs) pb = bs" using kp by (simp_all add: kept_part_def stress_consts)
  have want: "(if p = 0 then unat (view_size (rest @ junk)) else p) = ?p" and b8: "p = 0 \<longrightarrow> 8 < length (rest @ junk)"
  proof -
    consider "bs = []" "p = 0" | "partial v bs" "p = unat (view_size bs)" using kp by (auto simp: kept_part_def)
    then show "(if p = 0 then unat (view_size (rest @ junk)) else p) = ?p" "p = 0 \<longrightarrow> 8 < length (rest @ junk)"
      by (cases; use ps partial_size view_size_append in force)+
  qed
  have "kept_part v ?pb ?p ?bs" using l ps u pt by (simp add: kept_part_def stress_consts)
  moreover have "worker_loop (Suc (Suc fuel)) so ci (length rest) off p (length bs) (with_io ci es ib pb cp cr w)
      = worker_loop (Suc fuel) so ci 0 off ?p (length ?bs) (with_io ci es ib ?pb cp cr w)"
    using r ps u worker_loop_store [of off "with_io ci es ib pb cp cr w" ci "rest @ junk" p ?p "length rest"
        "length bs" "Suc fuel" so, OF _ b8 want]
      with_io_ops(2) [of ci "\<lambda>b. take (length bs) b @ take (length rest) (rest @ junk)
        @ drop (length bs + length rest) b" es ib pb cp cr w]
    by (simp add: buf stress_consts add.commute)
  ultimately show ?thesis
    by (intro exI [of _ ?pb] exI [of _ ?p]) (simp add: worker_loop.simps(2) [of fuel])
qed

lemma loop_takes:
  assumes c: "\<not> IsPlayer (int ci)" and m: "client_map w = (\<lambda>_. -1)"
    and kp: "kept_part v pb p bs" and k: "whole k" and e: "bs @ rest = packet_bytes v k @ later"
    and buf: "drop off ib = rest @ junk"
  shows "worker_loop (Suc fuel) so ci (length rest) off p (length bs) (with_io ci es ib pb cp cr w)
    = rbind (ProcessPacket so ci (packet_bytes v k) w) (\<lambda>w1.
        worker_loop fuel so ci (length later) (length rest - length later + off) 0 0 (with_io ci es ib pb cp cr w1))"
    and "drop (length rest - length later + off) ib = later @ junk"
proof -
  note len = whole_length(1) [OF k, of v] whole_length(2) [OF k]
  have u: "unat (Size k) < 256" using unsigned_less [of "Size k", where 'a = nat] by simp
  have l: "length pb = 255" "take (length bs) pb = bs" using kp by (simp_all add: kept_part_def stress_consts)
  have n: "length bs + length rest = unat (Size k) + length later"
    using arg_cong [OF e, of length] len by simp
  have *: "length bs < unat (Size k)"
    "(if p = 0 then unat (view_size (rest @ junk)) else p) = unat (Size k)" "p = 0 \<longrightarrow> 8 < length (rest @ junk)"
  proof -
    consider "bs = []" "p = 0" | "partial v bs" "p = unat (view_size bs)" using kp by (auto simp: kept_part_def)
    then have "length bs < unat (Size k) \<and> (if p = 0 then unat (view_size (rest @ junk)) else p) = unat (Size k)
        \<and> (p = 0 \<longrightarrow> 8 < length (rest @ junk))"
    proof cases
      case 1
      then show ?thesis using e len n view_size_packet [OF k, of v "later @ junk"] by simp
    next
      case 2
      then show ?thesis using partial_size [OF 2(1)] view_size_begin [OF _ e k] len(2) by auto
    qed
    then show "length bs < unat (Size k)"
      "(if p = 0 then unat (view_size (rest @ junk)) else p) = unat (Size k)" "p = 0 \<longrightarrow> 8 < length (rest @ junk)"
      by blast+
  qed
  have pk: "bs @ take (unat (Size k) - length bs) rest = packet_bytes v k"
    using arg_cong [OF e, of "take (unat (Size k))"] *(1) len(1) by simp
  have mr: "drop (unat (Size k) - length bs) rest = later"
    using arg_cong [OF e, of "drop (unat (Size k))"] *(1) len(1) by simp
  have d: "unat (Size k) - length bs = length rest - length later" using n *(1) by linarith
  have lt: "unat (Size k) - length bs \<le> length rest" "length rest - (unat (Size k) - length bs) = length later"
    using n *(1) by linarith+
  have R: "rest \<noteq> []" using lt *(1) by auto
  show "worker_loop (Suc fuel) so ci (length rest) off p (length bs) (with_io ci es ib pb cp cr w)
    = rbind (ProcessPacket so ci (packet_bytes v k) w) (\<lambda>w1.
        worker_loop fuel so ci (length later) (length rest - length later + off) 0 0 (with_io ci es ib pb cp cr w1))"
    using R *(1) lt u n l pk d worker_loop_take [of off "with_io ci es ib pb cp cr w" ci "rest @ junk" p
        "unat (Size k)" "length rest" "length bs" fuel so, OF _ *(3,2)]
      process_padded [OF k, of so ci v "replicate (MAX_PACKET_SIZE - unat (Size k)) 0" w]
      process_with_io [OF c m, of so "packet_bytes v k @ replicate (MAX_PACKET_SIZE - unat (Size k)) 0" es ib pb cp cr]
    by (cases "ProcessPacket so ci (packet_bytes v k) w")
       (simp_all add: buf stress_consts add.commute append_assoc [symmetric] del: append_assoc)
  have "drop (length rest - length later + off) ib = drop (length rest - length later) (rest @ junk)"
    unfolding buf [symmetric] by simp
  also have "\<dots> = later @ junk" using mr lt(1) unfolding d by simp
  finally show "drop (length rest - length later + off) ib = later @ junk" .
qed

lemma kept_part_nothing: "length pb = MAX_PACKET_SIZE \<Longrightarrow> kept_part v pb 0 []"
  by (simp add: kept_part_def)

lemma loop_pieces:
  assumes c: "\<not> IsPlayer (int ci)"
    and "\<forall>k\<in>set ks. whole k" and "bs @ rest = concat (map (packet_bytes v) ks) @ bs'"
    and "bs' = [] \<or> partial v bs'" and "kept_part v pb p bs" and "drop off ib = rest @ junk"
    and "client_map w = (\<lambda>_. -1)" and "length ks + 1 < fuel"
  shows "\<exists>pb' p'. kept_part v pb' p' bs'
    \<and> worker_loop fuel so ci (length rest) off p (length bs) (with_io ci es ib pb cp cr w)
      = rbind (process_all so ci v ks w) (\<lambda>w1. Inr (p', length bs', with_io ci es ib pb' cp cr w1))"
  using assms(2-)
proof (induction ks arbitrary: w bs rest p off fuel)
  case Nil
  obtain f where f: "fuel = Suc (Suc f)" using Nil.prems(7) by (cases fuel; cases "fuel - 1") auto
  show ?case
  proof (cases "rest = []")
    case True
    then have "bs' = bs" using Nil.prems(2) by simp
    moreover have "worker_loop fuel so ci (length rest) off p (length bs) (with_io ci es ib pb cp cr w)
        = Inr (p, length bs, with_io ci es ib pb cp cr w)"
      using True f by (simp add: worker_loop.simps(2))
    ultimately show ?thesis using Nil.prems(4) by (auto simp: process_all_def)
  next
    case False
    have b: "bs' = bs @ rest" "partial v (bs @ rest)" using Nil.prems(2,3) False by auto
    show ?thesis using loop_stores [OF Nil.prems(4) False b(2) Nil.prems(5)] unfolding f b(1)
      by (simp add: process_all_def)
  qed
next
  case (Cons k ks)
  let ?later = "concat (map (packet_bytes v) ks) @ bs'"
  obtain f where f: "fuel = Suc f" "length ks + 1 < f" using Cons.prems(7) by (cases fuel) auto
  have k: "whole k" and e: "bs @ rest = packet_bytes v k @ ?later" using Cons.prems(1,2) by simp_all
  note t = loop_takes [OF c Cons.prems(6) Cons.prems(4) k e Cons.prems(5)]
  have kp: "kept_part v pb 0 []" using Cons.prems(4) by (simp add: kept_part_def)
  have ih: "\<exists>pb' p'. kept_part v pb' p' bs'
    \<and> worker_loop f so ci (length ?later) (length rest - length ?later + off) 0 (length ([]::bytes)) (with_io ci es ib pb cp cr w1)
      = rbind (process_all so ci v ks w1) (\<lambda>w1. Inr (p', length bs', with_io ci es ib pb' cp cr w1))"
    if "client_map w1 = (\<lambda>_. -1)" for w1
    using Cons.prems(1,3) kp t(2) that f(2) by (intro Cons.IH) simp_all
  show ?case
  proof (cases "ProcessPacket so ci (packet_bytes v k) w")
    case (Inl fault)
    then show ?thesis using ih [OF Cons.prems(6)] t(1) f(1) by (auto simp: process_all_def)
  next
    case (Inr w1)
    then show ?thesis
      using ih [OF process_map [OF c Cons.prems(6) Inr]] t(1) f(1) by (auto simp: process_all_def)
  qed
qed

lemma process_socket:
  assumes "ProcessPacket so ci x w = Inr w'"
  shows "client_socket (everySessions w' j) = client_socket (everySessions w j)"
proof -
  have "move_other so ci k w = Inr w' \<Longrightarrow> client_socket (everySessions w' j) = client_socket (everySessions w j)" for k
    by (auto simp: move_other_def place_client_def measure_delay_def read_clock_def on_client_def Let_def rbind_def
        split: packet_body.splits if_splits)
  moreover have "appear_other ci k w = Inr w' \<Longrightarrow>
      client_socket (everySessions w' j) = client_socket (everySessions w j)" for k
    by (auto simp: appear_other_def on_client_def Let_def split: packet_body.splits if_splits)
  ultimately show ?thesis using assms by (auto simp: ProcessPacket_def Let_def split: if_splits)
qed

lemma process_all_socket:
  assumes "process_all so ci v ks w = Inr w'"
  shows "client_socket (everySessions w' j) = client_socket (everySessions w j)"
  using assms unfolding process_all_def
  by (rule foldR_invariant) (use process_socket in auto)

lemma process_all_map:
  assumes "\<not> IsPlayer (int ci)" and "client_map w = (\<lambda>_. -1)" and "process_all so ci v ks w = Inr w'"
  shows "client_map w' = (\<lambda>_. -1)"
  using assms(3,2) unfolding process_all_def by (rule foldR_invariant) (use process_map [OF assms(1)] in blast)

text \<open>One completed receive: the request is repeated, whatever it answers.\<close>

definition piece :: "nat \<Rightarrow> stress_os \<Rightarrow> nat \<Rightarrow> bytes \<Rightarrow> stress \<Rightarrow> stress res" where
  "piece fuel so ci data w = stress_receive fuel so ci (length data) (stress_deliver ci data w)"

lemma piece_processed:
  assumes c: "\<not> IsPlayer (int ci)" and ks: "\<forall>k\<in>set ks. whole k"
    and e: "bs @ data = concat (map (packet_bytes v) ks) @ bs'" and b: "bs' = [] \<or> partial v bs'"
    and kp: "kept_part v pb p bs" and m: "client_map w = (\<lambda>_. -1)" and f: "length ks + 1 < fuel"
  shows "\<exists>es' ib' pb' p'. kept_part v pb' p' bs'
    \<and> piece fuel so ci data (with_io ci es ib pb p (length bs) w)
      = rbind (process_all so ci v ks w) (\<lambda>w1. Inr (with_io ci es' ib' pb' p' (length bs') w1))"
proof -
  let ?ib = "data @ drop (length data) ib"
  obtain pb' p' where l: "kept_part v pb' p' bs'"
      "worker_loop fuel so ci (length data) 0 p (length bs) (with_io ci es ?ib pb p (length bs) w)
        = rbind (process_all so ci v ks w) (\<lambda>w1. Inr (p', length bs', with_io ci es ?ib pb' p (length bs) w1))"
    using loop_pieces [OF c ks e b kp _ m f, of 0 ?ib "drop (length data) ib" so es p "length bs"] by auto
  have s: "client_socket (everySessions w1 ci) = client_socket (everySessions w ci)"
    if "process_all so ci v ks w = Inr w1" for w1
    using that by (rule process_all_socket)
  show ?thesis
    by (rule exI [of _ "es @ [SRecv (client_socket (everySessions w ci))]"], rule exI [of _ ?ib],
        rule exI [of _ pb'], rule exI [of _ p'],
        cases "process_all so ci v ks w";
        simp add: piece_def with_io_ops stress_receive_def Let_def not_player_disconnect [OF c] s l)
qed


text \<open>
  The pieces \<open>ds\<close> bring the packets \<open>ks\<close> when \<open>bs\<close> was kept before: every piece ends with a
  packet, or at least nine bytes into one, and fits into the buffer.
\<close>

inductive bring :: "u64 \<Rightarrow> bytes \<Rightarrow> bytes list \<Rightarrow> packet list \<Rightarrow> bool" for v where
  bring_nothing: "bring v [] [] []"
| bring_piece: "bs @ data = concat (map (packet_bytes v) ks) @ bs' \<Longrightarrow> length data \<le> MAX_BUFF_SIZE \<Longrightarrow>
    \<forall>k\<in>set ks. whole k \<Longrightarrow> bs' = [] \<or> partial v bs' \<Longrightarrow> bring v bs' ds ks' \<Longrightarrow>
    bring v bs (data # ds) (ks @ ks')"

lemma bring_stream: "bring v bs ds ks \<Longrightarrow> bs @ concat ds = concat (map (packet_bytes v) ks)"
proof (induction rule: bring.induct)
  case bring_nothing
  then show ?case by simp
next
  case (bring_piece bs data ks bs' ds ks')
  have "bs @ concat (data # ds) = (bs @ data) @ concat ds" by simp
  also have "\<dots> = concat (map (packet_bytes v) ks) @ bs' @ concat ds"
    using bring_piece.hyps(1) by simp
  finally show ?case using bring_piece.IH by simp
qed

lemma pieces_processed:
  assumes "bring v bs ds ks" and c: "\<not> IsPlayer (int ci)" and "kept_part v pb p bs"
    and "client_map w = (\<lambda>_. -1)" and "length ks + 1 < fuel"
  shows "\<exists>es' ib' pb'. foldR (piece fuel so ci) ds (with_io ci es ib pb p (length bs) w)
    = rbind (process_all so ci v ks w) (\<lambda>w1. Inr (with_io ci es' ib' pb' 0 0 w1))"
  using assms(1,3-)
proof (induction arbitrary: w es ib pb p rule: bring.induct)
  case bring_nothing
  then have "p = 0" by (auto simp: kept_part_def partial_def)
  then show ?case by (auto simp: process_all_def)
next
  case (bring_piece bs data ks bs' ds ks')
  obtain es1 ib1 pb1 p1 where 1: "kept_part v pb1 p1 bs'"
      "piece fuel so ci data (with_io ci es ib pb p (length bs) w)
        = rbind (process_all so ci v ks w) (\<lambda>w1. Inr (with_io ci es1 ib1 pb1 p1 (length bs') w1))"
    using piece_processed [OF c bring_piece.hyps(3,1,4) bring_piece.prems(1,2), of fuel so es ib]
      bring_piece.prems(3) by auto
  have s: "process_all so ci v (ks @ ks') w = rbind (process_all so ci v ks w) (process_all so ci v ks')"
    by (simp add: process_all_def foldR_append) (simp add: rbind_def process_all_def split: sum.split)
  show ?case
  proof (cases "process_all so ci v ks w")
    case (Inl a)
    then show ?thesis using 1(2) s by simp
  next
    case (Inr w1)
    have "client_map w1 = (\<lambda>_. -1)" using process_all_map [OF c bring_piece.prems(2) Inr] .
    then obtain es' ib' pb' where "foldR (piece fuel so ci) ds (with_io ci es1 ib1 pb1 p1 (length bs') w1)
        = rbind (process_all so ci v ks' w1) (\<lambda>w1. Inr (with_io ci es' ib' pb' 0 0 w1))"
      using bring_piece.IH [OF 1(1), of w1 es1 ib1] bring_piece.prems(3) by auto
    then show ?thesis using 1(2) s Inr by auto
  qed
qed

text \<open>C12: Reassembly: however the bytes of a sequence of packets are cut into completed
  receives - as long as no cut falls within the first nine bytes of a packet, where its size is -
  a client of the stress test processes exactly these packets, in order, and the state it ends
  in is the one it would have after the packets one by one, with nothing kept.\<close>

theorem pieces_reassembled:
  assumes "bring v [] ds ks" and "\<not> IsPlayer (int ci)" and "client_map w = (\<lambda>_. -1)"
    and "curr_packet_size (everySessions w ci) = 0" and "prev_packet_data (everySessions w ci) = 0"
    and "length (packet_buf (everySessions w ci)) = MAX_PACKET_SIZE" and "length ks + 1 < fuel"
  shows "\<exists>es ib pb. foldR (piece fuel so ci) ds w
    = rbind (process_all so ci v ks w) (\<lambda>w1. Inr (with_io ci es ib pb 0 0 w1))"
  using pieces_processed [OF assms(1,2) kept_part_nothing [OF assms(6)] assms(3,7), of so "st_log w"
      "IOCP_buf (everySessions w ci)"] with_io_self [of ci w] assms(4,5) by simp

lemma pieces_reassembled_witness:
  "\<exists>es ib pb. foldR (piece 4 demo_so 5)
      [packet_bytes 9 (SCPacketDisppearCharacter 7) @ take 12 (packet_bytes 9 (SCPacketSignUp 200000 1 2)),
       drop 12 (packet_bytes 9 (SCPacketSignUp 200000 1 2))] (InitializeNetwork demo_so)
    = Inr (with_io 5 es ib pb 0 0 (InitializeNetwork demo_so))"
proof -
  let ?k1 = "SCPacketDisppearCharacter 7" let ?k2 = "SCPacketSignUp 200000 1 2"
  let ?b = "take 12 (packet_bytes 9 ?k2)"
  have wh: "whole ?k1" "whole ?k2"
    by (simp_all add: whole_def wf_packet_def SCPacketDisppearCharacter_def SCPacketSignUp_def exact_sizes)
       (simp_all add: mk_packet_def in_range_def)
  have l: "length (packet_bytes 9 ?k1) = 18" "length (packet_bytes 9 ?k2) = 26"
    by (simp_all add: length_packet_bytes SCPacketDisppearCharacter_def SCPacketSignUp_def mk_packet_def sizeof_Packet_def)
  then have p: "partial 9 ?b" unfolding partial_def using wh(2) whole_length(1) [OF wh(2), of 9]
    by (intro exI [of _ ?k2]) simp
  have 2: "bring 9 ?b [drop 12 (packet_bytes 9 ?k2)] ([?k2] @ [])"
    by (rule bring_piece [where bs' = "[]"]) (use wh l in \<open>simp_all add: stress_consts bring_nothing\<close>)
  have "bring 9 [] [packet_bytes 9 ?k1 @ ?b, drop 12 (packet_bytes 9 ?k2)] ([?k1] @ [?k2])"
    by (rule bring_piece [where bs' = ?b]) (use wh l p 2 in \<open>simp_all add: stress_consts\<close>)
  moreover have "\<not> IsPlayer (int 5)" by (simp add: IsPlayer_def const_simps)
  moreover have "process_all demo_so 5 9 [?k1, ?k2] w = Inr w" for w
  proof -
    have "Type ?k1 = SC_DISAPPEAR_OBJ" "Type ?k2 = SC_SIGNUP"
      by (simp_all add: SCPacketDisppearCharacter_def SCPacketSignUp_def mk_packet_def)
    then have "ProcessPacket demo_so 5 (packet_bytes 9 ?k1) w = Inr w"
        "ProcessPacket demo_so 5 (packet_bytes 9 ?k2) w = Inr w"
      using view_packet_bytes [of ?k1 9 "[]"] view_packet_bytes [of ?k2 9 "[]"] wh
      by (simp_all add: ProcessPacket_def whole_def)
    then show ?thesis by (simp add: process_all_def)
  qed
  ultimately show ?thesis
    using pieces_reassembled [of 9 "[packet_bytes 9 ?k1 @ ?b, drop 12 (packet_bytes 9 ?k2)]" "[?k1, ?k2]" 5
        "InitializeNetwork demo_so" 4 demo_so]
    by (simp add: InitializeNetwork_def stress_consts)
qed

end
