(* ===== verification/TermServer.thy ===== *)
theory TermServer
  imports Float32
begin

section \<open>The server of the term project\<close>

text \<open>
  \<open>Old/TermProjectServer\<close>: an earlier server with the same division of the places, its own
  packets, and the sight of a player kept by comparing it with every other player. The array
  \<open>clients\<close> holds one session for each place, by pointers that only \<open>BuildSessions\<close> sets, so that
  \<open>AcquireSession\<close>, \<open>GetSession\<close> and \<open>ReleaseSession\<close> amount to naming the place. Handlers
  run one after the other; the mutex of a view list is held within single statements only and
  is left out.
\<close>

subsection \<open>Constants, packets, sessions\<close>

definition T_BUF_SIZE :: nat where "T_BUF_SIZE = 200"
definition T_NAME_SIZE :: nat where "T_NAME_SIZE = 20"
definition T_W_WIDTH :: int where "T_W_WIDTH = 2000"
definition T_W_HEIGHT :: int where "T_W_HEIGHT = 2000"
definition T_MAX_USER :: pid where "T_MAX_USER = 10000"
definition T_MAX_NPC :: pid where "T_MAX_NPC = 200000"
definition ORDER_BEGIN_NPC :: pid where "ORDER_BEGIN_NPC = 0"
definition ORDER_BEGIN_USER :: pid where "ORDER_BEGIN_USER = T_MAX_NPC"
definition ORDER_END_NPC :: pid where "ORDER_END_NPC = ORDER_BEGIN_NPC + T_MAX_NPC"
definition ORDER_END_USER :: pid where "ORDER_END_USER = ORDER_BEGIN_USER + T_MAX_USER"
definition ORDER_END_ALL :: pid where "ORDER_END_ALL = ORDER_END_USER"
definition SIGHT_RANGE :: int where "SIGHT_RANGE = 7"

lemmas term_consts = T_BUF_SIZE_def T_NAME_SIZE_def T_W_WIDTH_def T_W_HEIGHT_def T_MAX_USER_def
  T_MAX_NPC_def ORDER_BEGIN_NPC_def ORDER_BEGIN_USER_def ORDER_END_NPC_def ORDER_END_USER_def
  ORDER_END_ALL_def SIGHT_RANGE_def

definition t_IsPlayer :: "pid \<Rightarrow> bool" where "t_IsPlayer i \<longleftrightarrow> T_MAX_NPC \<le> i"

definition t_IsNPC :: "pid \<Rightarrow> bool" where "t_IsNPC i \<longleftrightarrow> i < T_MAX_NPC"

text \<open>A place that is a player's.\<close>

definition user_place :: "pid \<Rightarrow> bool" where
  "user_place i \<longleftrightarrow> ORDER_BEGIN_USER \<le> i \<and> i < ORDER_END_USER"

datatype term_type = T_NONE | T_CS_LOGIN | T_CS_MOVE | T_CS_ATTACK | T_CS_ATTACK_NONTARGET
  | T_CS_SKILL_1 | T_CS_SKILL_2 | T_CS_CHAT | T_SC_LOGIN_OK | T_SC_LOGIN_FAIL | T_SC_ADD_OBJECT
  | T_SC_REMOVE_OBJECT | T_SC_MOVE_OBJECT | T_SC_CHANGE_OBJECT_STAT | T_SC_CHAT

definition term_types :: "term_type list" where
  "term_types = [T_NONE, T_CS_LOGIN, T_CS_MOVE, T_CS_ATTACK, T_CS_ATTACK_NONTARGET, T_CS_SKILL_1,
     T_CS_SKILL_2, T_CS_CHAT, T_SC_LOGIN_OK, T_SC_LOGIN_FAIL, T_SC_ADD_OBJECT, T_SC_REMOVE_OBJECT,
     T_SC_MOVE_OBJECT, T_SC_CHANGE_OBJECT_STAT, T_SC_CHAT]"

text \<open>A byte that names no type is none of the cases of a switch.\<close>

definition term_type_of_code :: "u8 \<Rightarrow> term_type option" where
  "term_type_of_code b = (if unat b < length term_types then Some (term_types ! unat b) else None)"

datatype term_move = T_STAY | T_LEFT | T_RIGHT | T_UP | T_DOWN

text \<open>A direction that names no move is none of the cases of the switch either.\<close>

definition term_move_of_code :: "u8 \<Rightarrow> term_move" where
  "term_move_of_code b = (if b = 1 then T_LEFT else if b = 2 then T_RIGHT else if b = 3 then T_UP
     else if b = 4 then T_DOWN else T_STAY)"

text \<open>
  \<open>string_copy_safe\<close> stops at the character 0, not at the terminating zero; what it does not
  write keeps the zeros of the initialiser.
\<close>

definition string_copy_safe :: "nat \<Rightarrow> bytes \<Rightarrow> bytes" where
  "string_copy_safe n src = (let s = takeWhile (\<lambda>c. c \<noteq> 48) (take n src) in s @ replicate (n - length s) 0)"

text \<open>
  A packet starts with the pointer of its virtual destructor, then \<open>mySize\<close> and \<open>myType\<close>.
\<close>

definition t_view_size :: "bytes \<Rightarrow> u8" where "t_view_size bs = byte_at bs 8"
definition t_view_type :: "bytes \<Rightarrow> term_type option" where
  "t_view_type bs = term_type_of_code (byte_at bs 9)"
definition t_view_direction :: "bytes \<Rightarrow> term_move" where
  "t_view_direction bs = term_move_of_code (byte_at bs 10)"
definition t_view_client_time :: "bytes \<Rightarrow> nat" where
  "t_view_client_time bs = read_le bs 11 4"

text \<open>
  What is sent. The nickname of \<open>SC_ADD_OBJECT\<close> is read from the packet that is being made and
  is not modelled; the constructor that takes it sets both coordinates to 0.
\<close>

datatype term_packet =
  LoginOk pid nat int rat rat
| AddObject pid rat rat
| RemoveObject pid
| MoveObject pid rat rat nat

fun term_size :: "term_packet \<Rightarrow> nat" where
  "term_size (LoginOk i u l x y) = 62"
| "term_size (AddObject i x y) = 63"
| "term_size (RemoveObject i) = 18"
| "term_size (MoveObject i x y t) = 30"

definition SC_ADD_OBJECT_PACKET :: "pid \<Rightarrow> rat \<Rightarrow> rat \<Rightarrow> term_packet" where
  "SC_ADD_OBJECT_PACKET i cx cy = AddObject i 0 0"

datatype term_status = ST_FREE | ST_ACCEPTED | ST_INGAME

record avatar =
  av_x :: rat
  av_y :: rat

record term_session =
  ts_status :: term_status
  ts_id :: pid
  ts_socket :: socket
  ts_nickname :: bytes
  ts_avatar :: "avatar option"
  view_list :: "pid set"
  ts_recvBytes :: int
  ts_buf :: bytes

definition new_term_session :: term_session where
  "new_term_session = \<lparr>ts_status = ST_FREE, ts_id = -1, ts_socket = NULL_SOCKET,
     ts_nickname = replicate T_NAME_SIZE 0, ts_avatar = None, view_list = {}, ts_recvBytes = 0,
     ts_buf = replicate T_BUF_SIZE 0\<rparr>"

datatype term_effect =
  TSend socket term_packet nat
| TRecv socket int int
| TClose socket
| TPort socket pid
| TSocket socket
| TAccept socket

record term_os =
  t_socket :: "nat \<Rightarrow> socket"
  t_accept :: "nat \<Rightarrow> bool"
  t_rand :: "nat \<Rightarrow> nat"
  t_order :: "pid set \<Rightarrow> pid list"

record tworld =
  clients :: "pid \<Rightarrow> term_session"
  t_newbie :: socket
  t_numberClients :: nat
  t_rands :: nat
  t_log :: "term_effect list"

definition on_place :: "pid \<Rightarrow> (term_session \<Rightarrow> term_session) \<Rightarrow> tworld \<Rightarrow> tworld" where
  "on_place i f w = w\<lparr>clients := (clients w)(i := f (clients w i))\<rparr>"

definition t_emit :: "term_effect \<Rightarrow> tworld \<Rightarrow> tworld" where
  "t_emit e w = w\<lparr>t_log := t_log w @ [e]\<rparr>"

definition draw_rand :: "term_os \<Rightarrow> tworld \<Rightarrow> nat \<times> tworld" where
  "draw_rand os w = (t_rand os (t_rands w), w\<lparr>t_rands := Suc (t_rands w)\<rparr>)"

subsection \<open>Sending\<close>

definition do_send :: "pid \<Rightarrow> term_packet \<Rightarrow> tworld \<Rightarrow> tworld" where
  "do_send i p w = t_emit (TSend (ts_socket (clients w i)) p (term_size p)) w"

definition do_recv :: "pid \<Rightarrow> tworld \<Rightarrow> tworld" where
  "do_recv i w = (let s = clients w i
     in t_emit (TRecv (ts_socket s) (ts_recvBytes s) (int T_BUF_SIZE - ts_recvBytes s)) w)"

definition send_login_info_packet :: "pid \<Rightarrow> nat \<Rightarrow> tworld \<Rightarrow> tworld res" where
  "send_login_info_packet i number_users w = (case ts_avatar (clients w i) of
      None \<Rightarrow> Inl NullDeref
    | Some a \<Rightarrow> Inr (do_send i (LoginOk (ts_id (clients w i)) number_users T_MAX_USER (av_x a) (av_y a)) w))"

definition send_move_packet :: "pid \<Rightarrow> pid \<Rightarrow> pid \<Rightarrow> nat \<Rightarrow> tworld \<Rightarrow> tworld res" where
  "send_move_packet i c_id other client_time w =
     (if c_id \<le> 0 then Inr w
      else case ts_avatar (clients w other) of
        None \<Rightarrow> Inl NullDeref
      | Some a \<Rightarrow> Inr (do_send i (MoveObject c_id (av_x a) (av_y a) client_time) w))"

definition send_add_object :: "pid \<Rightarrow> pid \<Rightarrow> pid \<Rightarrow> tworld \<Rightarrow> tworld res" where
  "send_add_object i c_id other w =
     (if c_id \<le> 0 then Inr w
      else case ts_avatar (clients w other) of
        None \<Rightarrow> Inl NullDeref
      | Some a \<Rightarrow> Inr (do_send i (SC_ADD_OBJECT_PACKET c_id (av_x a) (av_y a)) w))"

definition send_remove_object :: "pid \<Rightarrow> pid \<Rightarrow> tworld \<Rightarrow> tworld" where
  "send_remove_object i c_id w = do_send i (RemoveObject c_id) w"

definition GetGridDistance :: "pid \<Rightarrow> pid \<Rightarrow> tworld \<Rightarrow> int res" where
  "GetGridDistance i j w = (case (ts_avatar (clients w i), ts_avatar (clients w j)) of
      (Some a, Some b) \<Rightarrow> Inr (to_int32 (fadd \<bar>fsub (av_x a) (av_x b)\<bar> \<bar>fsub (av_y a) (av_y b)\<bar>))
    | _ \<Rightarrow> Inl NullDeref)"

subsection \<open>Leaving\<close>

definition users :: "pid list" where
  "users = [ORDER_BEGIN_USER..ORDER_END_USER - 1]"

definition forget_client :: "pid \<Rightarrow> pid \<Rightarrow> tworld \<Rightarrow> tworld" where
  "forget_client who other w =
     (if other = who \<or> ts_status (clients w other) \<noteq> ST_INGAME then w
      else if who \<in> view_list (clients w other) then
        do_send other (RemoveObject who)
          (on_place other (\<lambda>s. s\<lparr>view_list := view_list s - {who}\<rparr>) w)
      else w)"

definition t_Disconnect :: "pid \<Rightarrow> tworld \<Rightarrow> tworld res" where
  "t_Disconnect who w =
     (if \<not> t_IsPlayer who then Inl Thrown
      else if ts_status (clients w who) = ST_FREE then Inr w
      else let w1 = fold (forget_client who) users w
        in Inr (on_place who (\<lambda>s. s\<lparr>ts_status := ST_FREE\<rparr>)
          (t_emit (TClose (ts_socket (clients w1 who))) w1)))"

subsection \<open>Signing in\<close>

text \<open>Players in sight are told of the newcomer, then the newcomer of those that see it.\<close>

definition tell_of_newbie :: "pid \<Rightarrow> pid \<Rightarrow> tworld \<Rightarrow> tworld res" where
  "tell_of_newbie client_id i w =
     (if i = client_id \<or> ts_status (clients w i) \<noteq> ST_INGAME then Inr w
      else rbind (GetGridDistance client_id i w) (\<lambda>d.
        if d \<le> SIGHT_RANGE then
          send_add_object i client_id client_id
            (on_place i (\<lambda>s. s\<lparr>view_list := insert client_id (view_list s)\<rparr>) w)
        else Inr w))"

definition tell_newbie :: "pid \<Rightarrow> pid \<Rightarrow> tworld \<Rightarrow> tworld res" where
  "tell_newbie client_id i w =
     (let other = clients w i
      in if i = client_id \<or> ts_status other \<noteq> ST_INGAME then Inr w
         else if client_id \<in> view_list other then
           send_add_object client_id (ts_id other) i
             (on_place client_id (\<lambda>s. s\<lparr>view_list := insert (ts_id other) (view_list s)\<rparr>) w)
         else Inr w)"

text \<open>
  The nickname is compared and measured up to a terminating zero, and not kept. The status
  taken at the beginning is put back at the end.
\<close>

definition process_login :: "term_os \<Rightarrow> pid \<Rightarrow> bytes \<Rightarrow> tworld \<Rightarrow> tworld res" where
  "process_login os client_id p w =
     (let newbie_status = ts_status (clients w client_id)
      in rbind
        (case newbie_status of
           ST_FREE \<Rightarrow> Inr w
         | ST_INGAME \<Rightarrow> t_Disconnect client_id w
         | ST_ACCEPTED \<Rightarrow>
             if 0 \<notin> set (drop 10 p) then Inl BufferOverrun
             else
               let w1 = on_place client_id (\<lambda>s. s\<lparr>ts_status := ST_INGAME\<rparr>) w;
                   (r1, w2) = draw_rand os w1;
                   (r2, w3) = draw_rand os w2;
                   avatar = \<lparr>av_x = of_int (int r1 mod T_W_WIDTH), av_y = of_int (int r2 mod T_W_HEIGHT)\<rparr>;
                   w4 = on_place client_id (\<lambda>s. s\<lparr>ts_avatar := Some avatar\<rparr>) w3
               in rbind (send_login_info_packet client_id (t_numberClients w4) w4) (\<lambda>w5.
                  rbind (foldR (tell_of_newbie client_id) users w5) (\<lambda>w6.
                  foldR (tell_newbie client_id) [0..ORDER_END_ALL - 1] w6)))
        (\<lambda>w. Inr (on_place client_id (\<lambda>s. s\<lparr>ts_status := newbie_status\<rparr>) w)))"

subsection \<open>Moving\<close>

definition step_avatar :: "term_move \<Rightarrow> avatar \<Rightarrow> avatar" where
  "step_avatar dir a = (case dir of
      T_LEFT \<Rightarrow> if 0 < av_x a then a\<lparr>av_x := fsub (av_x a) 1\<rparr> else a
    | T_RIGHT \<Rightarrow> if av_x a < of_int (T_W_WIDTH - 1) then a\<lparr>av_x := fadd (av_x a) 1\<rparr> else a
    | T_UP \<Rightarrow> if 0 < av_y a then a\<lparr>av_y := fsub (av_y a) 1\<rparr> else a
    | T_DOWN \<Rightarrow> if av_y a < of_int (T_W_HEIGHT - 1) then a\<lparr>av_y := fadd (av_y a) 1\<rparr> else a
    | T_STAY \<Rightarrow> a)"

text \<open>The players in game within range of the mover, itself apart.\<close>

definition sight_step :: "pid \<Rightarrow> tworld \<Rightarrow> pid \<Rightarrow> pid set \<Rightarrow> pid set res" where
  "sight_step client_id w i S =
     (let other = clients w i; other_id = ts_id other
      in if other_id = client_id \<or> ts_status other \<noteq> ST_INGAME then Inr S
         else rbind (GetGridDistance client_id other_id w) (\<lambda>d.
           if SIGHT_RANGE < d then Inr S else Inr (insert other_id S)))"

definition show_or_move :: "pid \<Rightarrow> pid \<Rightarrow> tworld \<Rightarrow> tworld res" where
  "show_or_move i c_id w =
     (if c_id \<notin> view_list (clients w i) then
        send_add_object i c_id c_id (on_place i (\<lambda>s. s\<lparr>view_list := insert c_id (view_list s)\<rparr>) w)
      else send_move_packet i c_id c_id 0 w)"

definition hide :: "pid \<Rightarrow> pid \<Rightarrow> tworld \<Rightarrow> tworld" where
  "hide i c_id w =
     (if c_id \<in> view_list (clients w i) then
        send_remove_object i c_id (on_place i (\<lambda>s. s\<lparr>view_list := view_list s - {c_id}\<rparr>) w)
      else w)"

definition show_step :: "pid \<Rightarrow> pid \<Rightarrow> tworld \<Rightarrow> tworld res" where
  "show_step client_id i w = rbind (show_or_move client_id i w) (\<lambda>w1.
     if t_IsPlayer i then show_or_move i client_id w1 else Inr w1)"

definition hide_step :: "pid \<Rightarrow> pid set \<Rightarrow> pid \<Rightarrow> tworld \<Rightarrow> tworld" where
  "hide_step client_id new_sight_list i w =
     (if i \<in> new_sight_list then w
      else let w1 = hide client_id i w
        in if t_IsPlayer i then hide i client_id w1 else w1)"

definition process_move :: "term_os \<Rightarrow> pid \<Rightarrow> bytes \<Rightarrow> tworld \<Rightarrow> tworld res" where
  "process_move os client_id p w = (case ts_avatar (clients w client_id) of
      None \<Rightarrow> Inr w
    | Some a \<Rightarrow>
        let old_sight_list = view_list (clients w client_id);
            w1 = on_place client_id (\<lambda>s. s\<lparr>ts_avatar := Some (step_avatar (t_view_direction p) a)\<rparr>) w
        in rbind (foldR (sight_step client_id w1) users {}) (\<lambda>new_sight_list.
           rbind (send_move_packet client_id client_id client_id (t_view_client_time p) w1) (\<lambda>w2.
           rbind (foldR (show_step client_id) (t_order os new_sight_list) w2) (\<lambda>w3.
           Inr (fold (hide_step client_id new_sight_list) (t_order os old_sight_list) w3)))))"

definition process_packet :: "term_os \<Rightarrow> pid \<Rightarrow> bytes \<Rightarrow> tworld \<Rightarrow> tworld res" where
  "process_packet os client_id p w =
     (if t_view_type p = Some T_CS_LOGIN then process_login os client_id p w
      else if t_view_type p = Some T_CS_MOVE then process_move os client_id p w
      else Inr w)"

subsection \<open>Creatures\<close>

definition near_step :: "pid \<Rightarrow> tworld \<Rightarrow> pid \<Rightarrow> pid set \<Rightarrow> pid set res" where
  "near_step npc_id w i S =
     (if ts_status (clients w i) \<noteq> ST_INGAME then Inr S
      else rbind (GetGridDistance npc_id i w) (\<lambda>d. Inr (if d \<le> SIGHT_RANGE then insert i S else S)))"

definition npc_direction :: "nat \<Rightarrow> term_move" where
  "npc_direction r = (let n = r mod 5
     in if n = 1 then T_UP else if n = 2 then T_DOWN else if n = 3 then T_LEFT
        else if n = 4 then T_RIGHT else T_STAY)"

text \<open>The first loop also takes the players it visits out of the old list.\<close>

definition npc_show :: "pid \<Rightarrow> pid \<Rightarrow> pid set \<times> tworld \<Rightarrow> (pid set \<times> tworld) res" where
  "npc_show npc_id i ow = rbind (show_or_move i npc_id (snd ow)) (\<lambda>w. Inr (fst ow - {i}, w))"

definition npc_hide :: "pid \<Rightarrow> pid set \<Rightarrow> pid \<Rightarrow> tworld \<Rightarrow> tworld" where
  "npc_hide npc_id new_view_list i w = (if i \<notin> new_view_list then hide i npc_id w else w)"

definition BehaveNPC :: "term_os \<Rightarrow> pid \<Rightarrow> tworld \<Rightarrow> tworld res" where
  "BehaveNPC os npc_id w = (case ts_avatar (clients w npc_id) of
      None \<Rightarrow> Inl NullDeref
    | Some a \<Rightarrow>
        rbind (foldR (near_step npc_id w) users {}) (\<lambda>old_view_list.
        let (r, w1) = draw_rand os w;
            w2 = on_place npc_id (\<lambda>s. s\<lparr>ts_avatar := Some (step_avatar (npc_direction r) a)\<rparr>) w1
        in rbind (foldR (near_step npc_id w2) users {}) (\<lambda>new_view_list.
           rbind (foldR (npc_show npc_id) (t_order os new_view_list) (old_view_list, w2)) (\<lambda>(old, w3).
           Inr (fold (npc_hide npc_id new_view_list) (t_order os old) w3)))))"

text \<open>One beat of \<open>do_ai_ver_heat_beat\<close>.\<close>

definition heart_beat :: "term_os \<Rightarrow> tworld \<Rightarrow> tworld res" where
  "heart_beat os w = foldR (BehaveNPC os) [ORDER_BEGIN_NPC..ORDER_END_NPC - 1] w"

subsection \<open>Connections\<close>

definition MakeSocket :: "term_os \<Rightarrow> tworld \<Rightarrow> socket \<times> tworld" where
  "MakeSocket os w = (let s = t_socket os (length (t_log w)) in (s, t_emit (TSocket s) w))"

definition t_Listen :: "term_os \<Rightarrow> tworld \<Rightarrow> tworld res" where
  "t_Listen os w = (if t_accept os (length (t_log w)) then Inr (t_emit (TAccept (t_newbie w)) w) else Inl Thrown)"

definition MakeNewbieID :: "tworld \<Rightarrow> pid \<times> tworld" where
  "MakeNewbieID w = (case find (\<lambda>i. ts_status (clients w i) = ST_FREE) users of
      Some i \<Rightarrow> (i, on_place i (\<lambda>s. s\<lparr>ts_status := ST_ACCEPTED\<rparr>) w)
    | None \<Rightarrow> (-1, w))"

definition ProceedAccept :: "term_os \<Rightarrow> tworld \<Rightarrow> tworld res" where
  "ProceedAccept os w =
     (let newbie_socket = t_newbie w
      in if newbie_socket = NULL_SOCKET then Inl Thrown
         else let (newbie_id, w1) = MakeNewbieID w
           in if newbie_id \<noteq> -1 then
                let w2 = on_place newbie_id (\<lambda>s. s\<lparr>ts_avatar := Some \<lparr>av_x = 4, av_y = 4\<rparr>,
                      ts_id := newbie_id, ts_socket := newbie_socket\<rparr>) w1;
                    w3 = do_recv newbie_id (t_emit (TPort newbie_socket newbie_id) w2);
                    (s, w4) = MakeSocket os w3
                in t_Listen os (w4\<lparr>t_newbie := s\<rparr>)
              else t_Listen os w1)"

text \<open>
  \<open>raw_view\<close> points to the beginning of the buffer all the time, and so do the size and the
  packet that is handled; only \<open>raw_packet\<close> goes on.
\<close>

fun t_receive_loop :: "nat \<Rightarrow> term_os \<Rightarrow> pid \<Rightarrow> nat \<Rightarrow> tworld \<Rightarrow> (nat \<times> tworld) res" where
  "t_receive_loop 0 os i raw_packet w = Inl NoReturn"
| "t_receive_loop (Suc fuel) os i raw_packet w =
     (let saved_bytes = ts_recvBytes (clients w i); packet_size = unat (t_view_size (ts_buf (clients w i)))
      in if 0 < saved_bytes \<and> int packet_size \<le> saved_bytes then
           rbind (process_packet os i (ts_buf (clients w i)) w) (\<lambda>w1.
             t_receive_loop fuel os i (raw_packet + packet_size)
               (on_place i (\<lambda>s. s\<lparr>ts_recvBytes := ts_recvBytes s - int packet_size\<rparr>) w1))
         else Inr (raw_packet, w))"

definition keep_rest :: "nat \<Rightarrow> term_session \<Rightarrow> term_session" where
  "keep_rest raw_packet s = (if 0 < ts_recvBytes s then
     let n = nat (ts_recvBytes s) in s\<lparr>ts_buf := take n (drop raw_packet (ts_buf s)) @ drop n (ts_buf s)\<rparr> else s)"

definition ProceedRecv :: "nat \<Rightarrow> term_os \<Rightarrow> pid \<Rightarrow> nat \<Rightarrow> tworld \<Rightarrow> tworld res" where
  "ProceedRecv fuel os i recv_bytes w =
     (if recv_bytes = 0 then t_Disconnect i w
      else rbind (t_receive_loop fuel os i 0
          (on_place i (\<lambda>s. s\<lparr>ts_recvBytes := ts_recvBytes s + int recv_bytes\<rparr>) w)) (\<lambda>(raw_packet, w1).
        Inr (do_recv i (on_place i (keep_rest raw_packet) w1))))"

definition ProceedSend :: "pid \<Rightarrow> nat \<Rightarrow> tworld \<Rightarrow> tworld res" where
  "ProceedSend i sent_bytes w = (if sent_bytes = 0 then t_Disconnect i w else Inr w)"

datatype comp_type = T_ACCEPT | T_RECV | T_SEND

record term_completion =
  tc_result :: bool
  tc_pending :: bool
  tc_operation :: comp_type
  tc_key :: pid
  tc_bytes :: nat

text \<open>One turn of \<open>ConcurrentWorker\<close>.\<close>

definition ConcurrentWorker :: "nat \<Rightarrow> term_os \<Rightarrow> term_completion \<Rightarrow> tworld \<Rightarrow> tworld res" where
  "ConcurrentWorker fuel os c w =
     (if \<not> tc_result c then
        if tc_pending c \<or> tc_operation c = T_ACCEPT then Inr w else t_Disconnect (tc_key c) w
      else case tc_operation c of
        T_ACCEPT \<Rightarrow> ProceedAccept os w
      | T_RECV \<Rightarrow> ProceedRecv fuel os (tc_key c) (tc_bytes c) w
      | T_SEND \<Rightarrow> ProceedSend (tc_key c) (tc_bytes c) w)"

subsection \<open>Start\<close>

definition t_BuildSessions :: "tworld \<Rightarrow> tworld" where
  "t_BuildSessions w = fold (\<lambda>i. on_place i (\<lambda>_. new_term_session\<lparr>ts_id := i\<rparr>)) [0..T_MAX_NPC + T_MAX_USER - 1] w"

definition npc_nickname :: "pid \<Rightarrow> bytes" where
  "npc_nickname npc_id = (let s = [77, 45] @ decimal (nat npc_id) in s @ replicate (T_NAME_SIZE - length s) 0)"

definition t_BuildNPCs :: "tworld \<Rightarrow> tworld" where
  "t_BuildNPCs w = fold (\<lambda>i. on_place i (\<lambda>s. s\<lparr>ts_avatar := Some \<lparr>av_x = 4, av_y = 4\<rparr>,
     ts_status := ST_INGAME, ts_nickname := npc_nickname (i + T_MAX_USER)\<rparr>))
     [ORDER_BEGIN_NPC..ORDER_BEGIN_NPC + T_MAX_NPC - 1] w"

record term_boot =
  tb_wsa :: bool
  tb_listener :: bool
  tb_bind :: bool
  tb_port :: bool
  tb_listen :: bool

definition t_Awake :: "term_boot \<Rightarrow> tworld \<Rightarrow> tworld res" where
  "t_Awake b w = (if tb_wsa b \<and> tb_listener b \<and> tb_bind b \<and> tb_port b
     then Inr (t_BuildNPCs (t_BuildSessions w)) else Inl Thrown)"

definition t_Start :: "term_boot \<Rightarrow> term_os \<Rightarrow> tworld \<Rightarrow> tworld res" where
  "t_Start b os w = (if \<not> tb_listen b then Inl Thrown
     else let (s, w1) = MakeSocket os w
       in if s = NULL_SOCKET then Inl Thrown else t_Listen os (w1\<lparr>t_newbie := s\<rparr>))"

definition tworld0 :: tworld where
  "tworld0 = \<lparr>clients = (\<lambda>_. new_term_session), t_newbie = NULL_SOCKET, t_numberClients = 0,
     t_rands = 0, t_log = []\<rparr>"

text \<open>
  \<open>main\<close> up to where the threads serve: \<open>Start\<close> waits for them at its end, as its vector of
  \<open>jthread\<close> is destroyed.
\<close>

definition t_main :: "term_boot \<Rightarrow> term_os \<Rightarrow> tworld res" where
  "t_main b os = rbind (t_Awake b tworld0) (t_Start b os)"

end
