(* ===== verification/TermFrames.thy ===== *)
theory TermFrames
  imports TermServer
begin

section \<open>What the handlers of the term project keep\<close>

text \<open>
  Avatars stand on whole cells, where the distance is exact; the locale \<open>t_frame\<close> carries facts
  through the handlers of packets and creatures, for the cells and for the receive buffers.
\<close>

subsection \<open>The grid\<close>

text \<open>Avatars stand on whole cells of the world.\<close>

definition on_grid :: "avatar \<Rightarrow> bool" where
  "on_grid a \<longleftrightarrow> (\<exists>x y. av_x a = of_int x \<and> 0 \<le> x \<and> x < T_W_WIDTH \<and> av_y a = of_int y \<and> 0 \<le> y \<and> y < T_W_HEIGHT)"

lemma step_int:
  assumes "0 \<le> x" and "x < 2000"
  shows "fsub (of_int x) 1 = of_int (x - 1)" and "fadd (of_int x) 1 = of_int (x + 1)"
  using assms is_f32_int [of "x - 1"] is_f32_int [of "x + 1"]
  by (simp_all add: fsub_def fadd_def is_f32_def)

lemma step_on_grid:
  assumes "on_grid a"
  shows "on_grid (step_avatar dir a)"
proof -
  obtain x y where a: "av_x a = of_int x" "0 \<le> x" "x < 2000" "av_y a = of_int y" "0 \<le> y" "y < 2000"
    using assms by (auto simp: on_grid_def term_consts)
  note s = step_int [OF a(2,3)] step_int [OF a(5,6)]
  have e: "0 < (of_int x :: rat) \<longleftrightarrow> 0 < x" "(of_int x :: rat) < 1999 \<longleftrightarrow> x < 1999"
    "0 < (of_int y :: rat) \<longleftrightarrow> 0 < y" "(of_int y :: rat) < 1999 \<longleftrightarrow> y < 1999"
    by (simp_all flip: of_int_less_iff)
  show ?thesis
    using a e s unfolding on_grid_def step_avatar_def T_W_WIDTH_def T_W_HEIGHT_def
    by (cases dir)
      (force intro: exI [of _ "x - 1"] exI [of _ "x + 1"] exI [of _ "y - 1"] exI [of _ "y + 1"]
        simp: term_consts)+
qed

text \<open>On the grid the distance is exact.\<close>

definition grid_distance :: "avatar \<Rightarrow> avatar \<Rightarrow> rat" where
  "grid_distance a b = \<bar>av_x a - av_x b\<bar> + \<bar>av_y a - av_y b\<bar>"

lemma distance_exact:
  assumes "on_grid a" and "on_grid b"
  shows "of_int (to_int32 (fadd \<bar>fsub (av_x a) (av_x b)\<bar> \<bar>fsub (av_y a) (av_y b)\<bar>)) = grid_distance a b"
proof -
  obtain x y x' y' where p: "av_x a = of_int x" "av_y a = of_int y" "av_x b = of_int x'" "av_y b = of_int y'"
    "0 \<le> x" "x < 2000" "0 \<le> y" "y < 2000" "0 \<le> x'" "x' < 2000" "0 \<le> y'" "y' < 2000"
    using assms by (auto simp: on_grid_def term_consts)
  have f: "fsub (of_int x) (of_int x') = of_int (x - x')" "fsub (of_int y) (of_int y') = of_int (y - y')"
    using p is_f32_int [of "x - x'"] is_f32_int [of "y - y'"] by (simp_all add: fsub_def is_f32_def)
  let ?n = "\<bar>x - x'\<bar> + \<bar>y - y'\<bar>"
  have "fadd (of_int \<bar>x - x'\<bar>) (of_int \<bar>y - y'\<bar>) = of_int ?n"
    using p is_f32_int [of ?n] by (simp add: fadd_def is_f32_def)
  then have "fadd \<bar>fsub (av_x a) (av_x b)\<bar> \<bar>fsub (av_y a) (av_y b)\<bar> = of_int ?n"
    unfolding p f of_int_abs .
  moreover have "to_int32 (of_int ?n) = ?n" using p by (intro to_int32_of_int) auto
  moreover have "grid_distance a b = of_int ?n" by (simp add: grid_distance_def p)
  ultimately show ?thesis by simp
qed

text \<open>Sessions of the players' places: their own identifiers, and an avatar on the grid when in game.\<close>

definition t_ok :: "tworld \<Rightarrow> bool" where
  "t_ok w \<longleftrightarrow> (\<forall>i. 0 \<le> i \<and> i < ORDER_END_ALL \<longrightarrow> ts_id (clients w i) = i)
     \<and> (\<forall>i a. ts_avatar (clients w i) = Some a \<longrightarrow> on_grid a)
     \<and> (\<forall>i. ts_status (clients w i) = ST_INGAME \<longrightarrow> ts_avatar (clients w i) \<noteq> None)"

lemma distance_result:
  assumes "t_ok w" and "ts_avatar (clients w i) = Some a" and "ts_avatar (clients w j) = Some b"
  obtains d where "GetGridDistance i j w = Inr d" and "\<And>n. d \<le> n \<longleftrightarrow> grid_distance a b \<le> of_int n"
proof -
  let ?d = "to_int32 (fadd \<bar>fsub (av_x a) (av_x b)\<bar> \<bar>fsub (av_y a) (av_y b)\<bar>)"
  have "of_int ?d = grid_distance a b" using assms by (intro distance_exact) (auto simp: t_ok_def)
  then have "?d \<le> n \<longleftrightarrow> grid_distance a b \<le> of_int n" for n by (metis of_int_le_iff)
  then show thesis using that [of ?d] assms(2,3) by (simp add: GetGridDistance_def)
qed

lemma set_users: "i \<in> set users \<longleftrightarrow> user_place i"
  by (auto simp: users_def user_place_def)

lemma user_place_bounds: "user_place i \<Longrightarrow> 0 < i \<and> i < ORDER_END_ALL \<and> t_IsPlayer i"
  by (simp add: user_place_def t_IsPlayer_def term_consts)

lemma user_ids: "t_ok w \<Longrightarrow> user_place i \<Longrightarrow> ts_id (clients w i) = i"
  using user_place_bounds [of i] unfolding t_ok_def by auto

subsection \<open>What the handlers leave alone\<close>

text \<open>A fact that survives the elementary changes survives the handlers of packets and creatures.\<close>

locale t_frame =
  fixes P :: "tworld \<Rightarrow> bool"
  assumes view: "P w \<Longrightarrow> P (on_place i (\<lambda>s. s\<lparr>view_list := f (view_list s)\<rparr>) w)"
    and status: "P w \<Longrightarrow> P (on_place i (\<lambda>s. s\<lparr>ts_status := st\<rparr>) w)"
    and avatar: "P w \<Longrightarrow> on_grid a \<Longrightarrow> P (on_place i (\<lambda>s. s\<lparr>ts_avatar := Some a\<rparr>) w)"
    and send: "P w \<Longrightarrow> P (t_emit (TSend so p n) w)"
    and close: "P w \<Longrightarrow> P (t_emit (TClose so) w)"
    and rand: "P w \<Longrightarrow> P (w\<lparr>t_rands := n\<rparr>)"
    and grid: "P w \<Longrightarrow> ts_avatar (clients w i) = Some a \<Longrightarrow> on_grid a"
begin

lemma after_sends: "P w \<Longrightarrow> P (do_send i p w)" "P w \<Longrightarrow> P (send_remove_object i c w)"
  by (simp_all add: do_send_def send_remove_object_def send)

lemma after_send_results:
  "send_login_info_packet i n w = Inr w' \<Longrightarrow> P w \<Longrightarrow> P w'"
  "send_move_packet i c k t w = Inr w' \<Longrightarrow> P w \<Longrightarrow> P w'"
  "send_add_object i c k w = Inr w' \<Longrightarrow> P w \<Longrightarrow> P w'"
  by (auto simp: send_login_info_packet_def send_move_packet_def send_add_object_def after_sends
      split: option.splits if_splits)

lemma after_view: "P w \<Longrightarrow> P (on_place i (\<lambda>s. s\<lparr>view_list := insert k (view_list s)\<rparr>) w)"
    "P w \<Longrightarrow> P (on_place i (\<lambda>s. s\<lparr>view_list := view_list s - {k}\<rparr>) w)"
  using view [of w i "insert k"] view [of w i "\<lambda>v. v - {k}"] by simp_all

lemma after_show_or_move: "show_or_move i c w = Inr w' \<Longrightarrow> P w \<Longrightarrow> P w'"
  by (auto simp: show_or_move_def after_view split: if_splits dest: after_send_results)

lemma after_hide: "P w \<Longrightarrow> P (hide i c w)"
  by (simp add: hide_def after_view after_sends)

lemma after_show_step: "show_step c i w = Inr w' \<Longrightarrow> P w \<Longrightarrow> P w'"
  by (auto simp: show_step_def rbind_eq_Inr split: if_splits dest: after_show_or_move)

lemma after_t_Disconnect: "t_Disconnect i w = Inr w' \<Longrightarrow> P w \<Longrightarrow> P w'"
  unfolding t_Disconnect_def Let_def
  by (auto split: if_splits intro!: status close fold_invariant2 [where I = P]
      simp: forget_client_def after_view after_sends)

lemma login_avatar: "on_grid \<lparr>av_x = of_int (int r mod T_W_WIDTH), av_y = of_int (int r' mod T_W_HEIGHT)\<rparr>"
  by (force simp: on_grid_def term_consts)

lemma after_login:
  assumes "process_login os c p w = Inr w'" and P: "P w"
  shows "P w'"
proof -
  have T: "P v'" if "tell_of_newbie c i v = Inr v'" "P v" for i v v'
    using that by (auto simp: tell_of_newbie_def rbind_eq_Inr after_view split: if_splits dest: after_send_results)
  have N: "P v'" if "tell_newbie c i v = Inr v'" "P v" for i v v'
    using that by (auto simp: tell_newbie_def Let_def after_view split: if_splits dest: after_send_results)
  show ?thesis
    using assms(1) P unfolding process_login_def Let_def draw_rand_def prod.case
    by (cases "ts_status (clients w c)")
      (auto simp: rbind_eq_Inr intro!: status split: if_splits
        elim!: foldR_invariant [where I = P] dest!: after_t_Disconnect after_send_results
        intro: T N avatar [OF rand [OF status] login_avatar])
qed

lemma after_move:
  assumes M: "process_move os c p w = Inr w'" and P: "P w"
  shows "P w'"
proof (cases "ts_avatar (clients w c)")
  case None
  then show ?thesis using M P by (simp add: process_move_def)
next
  case (Some a)
  let ?w1 = "on_place c (\<lambda>s. s\<lparr>ts_avatar := Some (step_avatar (t_view_direction p) a)\<rparr>) w"
  have 1: "P ?w1" by (rule avatar [OF P step_on_grid [OF grid [OF P Some]]])
  obtain S w2 w3 where "send_move_packet c c c (t_view_client_time p) ?w1 = Inr w2"
    and 3: "foldR (show_step c) (t_order os S) w2 = Inr w3"
    and w': "w' = fold (hide_step c S) (t_order os (view_list (clients w c))) w3"
    using M Some by (auto simp: process_move_def Let_def rbind_eq_Inr)
  then have "P w2" using after_send_results(2) 1 by blast
  with 3 have "P w3" by (rule foldR_invariant [where I = P]) (rule after_show_step)
  then show ?thesis unfolding w'
    by (rule fold_invariant2 [where I = P]) (simp add: hide_step_def Let_def after_hide)
qed

lemma after_process_packet: "process_packet os c p w = Inr w' \<Longrightarrow> P w \<Longrightarrow> P w'"
  by (auto simp: process_packet_def split: if_splits dest: after_login after_move)

lemma after_BehaveNPC:
  assumes M: "BehaveNPC os c w = Inr w'" and P: "P w"
  shows "P w'"
proof (cases "ts_avatar (clients w c)")
  case None
  then show ?thesis using M by (simp add: BehaveNPC_def)
next
  case (Some a)
  let ?w2 = "on_place c (\<lambda>s. s\<lparr>ts_avatar := Some (step_avatar (npc_direction (t_rand os (t_rands w))) a)\<rparr>)
    (w\<lparr>t_rands := Suc (t_rands w)\<rparr>)"
  have 2: "P ?w2" by (rule avatar [OF rand [OF P] step_on_grid [OF grid [OF P Some]]])
  obtain S old old' w3 where 3: "foldR (npc_show c) (t_order os S) (old, ?w2) = Inr (old', w3)"
    and w': "w' = fold (npc_hide c S) (t_order os old') w3"
    using M Some by (auto simp: BehaveNPC_def draw_rand_def Let_def rbind_eq_Inr)
  have "P (snd (old', w3))"
  proof (rule foldR_invariant [OF 3, where I = "\<lambda>ow. P (snd ow)"])
    fix i ow ow' assume "npc_show c i ow = Inr ow'" and "P (snd ow)"
    then show "P (snd ow')" by (auto simp: npc_show_def rbind_eq_Inr dest: after_show_or_move)
  qed (simp add: 2)
  then show ?thesis unfolding w'
    by (intro fold_invariant2 [where I = P]) (simp_all add: npc_hide_def after_hide)
qed

end

text \<open>Every avatar stays on the grid, and no handler touches the receive buffers.\<close>

definition grid_ok :: "tworld \<Rightarrow> bool" where
  "grid_ok w \<longleftrightarrow> (\<forall>i a. ts_avatar (clients w i) = Some a \<longrightarrow> on_grid a)"

definition same_buffers :: "tworld \<Rightarrow> tworld \<Rightarrow> bool" where
  "same_buffers w0 w \<longleftrightarrow> (\<forall>i. ts_buf (clients w i) = ts_buf (clients w0 i)
     \<and> ts_recvBytes (clients w i) = ts_recvBytes (clients w0 i) \<and> ts_id (clients w i) = ts_id (clients w0 i)
     \<and> ts_socket (clients w i) = ts_socket (clients w0 i))"

lemma on_place_fields [simp]:
  "clients (on_place i f w) = (clients w)(i := f (clients w i))" "t_newbie (on_place i f w) = t_newbie w"
  "t_log (on_place i f w) = t_log w" "t_rands (on_place i f w) = t_rands w"
  "t_numberClients (on_place i f w) = t_numberClients w"
  by (simp_all add: on_place_def)

lemma t_emit_fields [simp]:
  "clients (t_emit e w) = clients w" "t_newbie (t_emit e w) = t_newbie w" "t_log (t_emit e w) = t_log w @ [e]"
  "t_rands (t_emit e w) = t_rands w" "t_numberClients (t_emit e w) = t_numberClients w"
  by (simp_all add: t_emit_def)

interpretation grids: t_frame grid_ok
  by unfold_locales (auto simp: grid_ok_def)

interpretation term_buffers: t_frame "\<lambda>w. grid_ok w \<and> same_buffers w0 w" for w0
  by unfold_locales (auto simp: grid_ok_def same_buffers_def)

end
