(* ===== verification/TermSight.thy ===== *)
theory TermSight
  imports TermFrames
begin

section \<open>What the players of the term project see\<close>

text \<open>
  The view lists after a move of a player and after the turn of a creature, from any state: who
  is listed is compared with who is within range.
\<close>

lemma step_distance:
  assumes "on_grid a"
  shows "grid_distance a (step_avatar dir a) \<le> 1"
proof -
  obtain x y where a: "av_x a = of_int x" "0 \<le> x" "x < 2000" "av_y a = of_int y" "0 \<le> y" "y < 2000"
    using assms by (auto simp: on_grid_def term_consts)
  then show ?thesis
    using step_int [OF a(2,3)] step_int [OF a(5,6)]
    by (cases dir) (simp_all add: step_avatar_def grid_distance_def)
qed

subsection \<open>Changes of view lists\<close>

text \<open>The state with other view lists and another log.\<close>

definition with_lists :: "(pid \<Rightarrow> pid set) \<Rightarrow> term_effect list \<Rightarrow> tworld \<Rightarrow> tworld" where
  "with_lists V L w = w\<lparr>clients := (\<lambda>i. (clients w i)\<lparr>view_list := V i\<rparr>), t_log := L\<rparr>"

lemma with_lists_id: "with_lists (\<lambda>i. view_list (clients w i)) (t_log w) w = w"
  by (simp add: with_lists_def)

lemma with_lists_fields [simp]:
  "view_list (clients (with_lists V L w) i) = V i" "ts_avatar (clients (with_lists V L w) i) = ts_avatar (clients w i)"
  "ts_socket (clients (with_lists V L w) i) = ts_socket (clients w i)"
  "ts_id (clients (with_lists V L w) i) = ts_id (clients w i)"
  "ts_status (clients (with_lists V L w) i) = ts_status (clients w i)" "t_log (with_lists V L w) = L"
  by (simp_all add: with_lists_def)

lemma with_lists_view:
  "on_place i (\<lambda>s. s\<lparr>view_list := f (view_list s)\<rparr>) (with_lists V L w) = with_lists (V(i := f (V i))) L w"
  by (auto simp: with_lists_def on_place_def fun_eq_iff)

lemma with_lists_send: "do_send i p (with_lists V L w)
  = with_lists V (L @ [TSend (ts_socket (clients w i)) p (term_size p)]) w"
  by (simp add: do_send_def t_emit_def with_lists_def)

lemma show_or_move_result:
  assumes "ts_avatar (clients w c) \<noteq> None"
  shows "\<exists>L'. show_or_move i c (with_lists V L w) = Inr (with_lists (V(i := insert c (V i))) L' w)"
proof -
  have V: "on_place i (\<lambda>s. s\<lparr>view_list := insert c (view_list s)\<rparr>) (with_lists V L w)
    = with_lists (V(i := insert c (V i))) L w" by (rule with_lists_view)
  have same: "with_lists V L' w = with_lists (V(i := insert c (V i))) L' w" if "c \<in> V i" for L'
    using that by (simp add: insert_absorb)
  obtain a where "ts_avatar (clients w c) = Some a" using assms by blast
  then show ?thesis
    using same by (auto simp: show_or_move_def V send_add_object_def send_move_packet_def with_lists_send)
qed

lemma hide_result: "\<exists>L'. hide i c (with_lists V L w) = with_lists (V(i := V i - {c})) L' w"
proof -
  have "on_place i (\<lambda>s. s\<lparr>view_list := view_list s - {c}\<rparr>) (with_lists V L w)
    = with_lists (V(i := V i - {c})) L w" by (rule with_lists_view)
  moreover have "with_lists V L w = with_lists (V(i := V i - {c})) L w" if "c \<notin> V i" using that by simp
  ultimately show ?thesis by (auto simp: hide_def send_remove_object_def with_lists_send)
qed

lemma send_move_lists:
  assumes "0 < k" and "ts_avatar (clients w k) \<noteq> None"
  shows "\<exists>L. send_move_packet i k k t w = Inr (with_lists (\<lambda>i. view_list (clients w i)) L w)"
proof -
  obtain a where "ts_avatar (clients w k) = Some a" using assms(2) by blast
  moreover have "do_send i p w = with_lists (\<lambda>i. view_list (clients w i))
      (t_log w @ [TSend (ts_socket (clients w i)) p (term_size p)]) w" for p
    by (simp add: do_send_def t_emit_def with_lists_def)
  ultimately show ?thesis using assms(1) by (auto simp: send_move_packet_def)
qed

subsection \<open>Moving\<close>

definition shown_lists :: "pid \<Rightarrow> pid set \<Rightarrow> (pid \<Rightarrow> pid set) \<Rightarrow> pid \<Rightarrow> pid set" where
  "shown_lists c S V r = (if r = c then V c \<union> S else if r \<in> S \<and> t_IsPlayer r then insert c (V r) else V r)"

definition hidden_lists :: "pid \<Rightarrow> pid set \<Rightarrow> (pid \<Rightarrow> pid set) \<Rightarrow> pid \<Rightarrow> pid set" where
  "hidden_lists c S V r = (if r = c then V c - S else if r \<in> S \<and> t_IsPlayer r then V r - {c} else V r)"

lemma show_all:
  assumes "c \<notin> set xs" and "ts_avatar (clients w c) \<noteq> None" and "\<And>i. i \<in> set xs \<Longrightarrow> ts_avatar (clients w i) \<noteq> None"
  shows "\<exists>L'. foldR (show_step c) xs (with_lists V L w) = Inr (with_lists (shown_lists c (set xs) V) L' w)"
  using assms(1,3)
proof (induction xs arbitrary: V L)
  case Nil
  have "shown_lists c {} V = V" by (simp add: shown_lists_def fun_eq_iff)
  then show ?case by auto
next
  case (Cons x xs)
  obtain L1 where 1: "show_or_move c x (with_lists V L w) = Inr (with_lists (V(c := insert x (V c))) L1 w)"
    using show_or_move_result [of w x c V L] Cons.prems(2) by auto
  obtain L2 where 2: "show_or_move x c (with_lists (V(c := insert x (V c))) L1 w)
      = Inr (with_lists ((V(c := insert x (V c)))(x := insert c ((V(c := insert x (V c))) x))) L2 w)"
    using show_or_move_result [OF assms(2)] by blast
  let ?V = "if t_IsPlayer x then (V(c := insert x (V c)))(x := insert c ((V(c := insert x (V c))) x))
    else V(c := insert x (V c))"
  have "show_step c x (with_lists V L w) = Inr (with_lists ?V (if t_IsPlayer x then L2 else L1) w)"
    using 1 2 by (simp add: show_step_def)
  moreover have "shown_lists c (set xs) ?V = shown_lists c (set (x # xs)) V"
    using Cons.prems(1) by (auto simp: shown_lists_def fun_eq_iff)
  ultimately show ?case using Cons.IH [of ?V] Cons.prems by simp
qed

lemma hide_all:
  assumes "c \<notin> set xs"
  shows "\<exists>L'. fold (hide_step c N) xs (with_lists V L w) = with_lists (hidden_lists c (set xs - N) V) L' w"
  using assms
proof (induction xs arbitrary: V L)
  case Nil
  have "hidden_lists c {} V = V" by (simp add: hidden_lists_def fun_eq_iff)
  then show ?case by auto
next
  case (Cons x xs)
  show ?case
  proof (cases "x \<in> N")
    case True
    then show ?thesis using Cons.IH Cons.prems by (simp add: hide_step_def insert_Diff_if)
  next
    case False
    obtain L1 where 1: "hide c x (with_lists V L w) = with_lists (V(c := V c - {x})) L1 w"
      using hide_result by blast
    obtain L2 where 2: "hide x c (with_lists (V(c := V c - {x})) L1 w)
        = with_lists ((V(c := V c - {x}))(x := (V(c := V c - {x})) x - {c})) L2 w" using hide_result by blast
    let ?V = "if t_IsPlayer x then (V(c := V c - {x}))(x := (V(c := V c - {x})) x - {c}) else V(c := V c - {x})"
    have "hide_step c N x (with_lists V L w) = with_lists ?V (if t_IsPlayer x then L2 else L1) w"
      using 1 2 False by (simp add: hide_step_def)
    moreover have "hidden_lists c (set xs - N) ?V = hidden_lists c (set (x # xs) - N) V"
      using Cons.prems(1) False by (auto simp: hidden_lists_def fun_eq_iff)
    ultimately show ?thesis using Cons.IH [of ?V] Cons.prems by simp
  qed
qed

text \<open>The players in game within seven cells of an avatar, one place apart.\<close>

definition players_near :: "tworld \<Rightarrow> avatar \<Rightarrow> pid \<Rightarrow> pid set" where
  "players_near w a c = {q. user_place q \<and> q \<noteq> c \<and> ts_status (clients w q) = ST_INGAME
     \<and> (\<exists>b. ts_avatar (clients w q) = Some b \<and> grid_distance a b \<le> 7)}"

lemma foldR_collect:
  assumes "\<And>x S. x \<in> set xs \<Longrightarrow> f x S = Inr (if Q x then insert x S else S)"
  shows "foldR f xs S = Inr (S \<union> {x \<in> set xs. Q x})"
  using assms
proof (induction xs arbitrary: S)
  case (Cons x xs)
  then show ?case by (auto simp: insert_commute intro: arg_cong [where f = Inr])
qed simp

lemma sight_collects:
  assumes ok: "t_ok w" and c: "ts_avatar (clients w c) = Some a"
  shows "foldR (sight_step c w) users {} = Inr (players_near w a c)"
proof -
  have "sight_step c w i S = Inr (if i \<noteq> c \<and> ts_status (clients w i) = ST_INGAME
      \<and> (\<exists>b. ts_avatar (clients w i) = Some b \<and> grid_distance a b \<le> 7) then insert i S else S)"
    if i: "i \<in> set users" for i S
  proof -
    have id: "ts_id (clients w i) = i" using user_ids [OF ok] i set_users by blast
    show ?thesis
    proof (cases "ts_status (clients w i) = ST_INGAME")
      case True
      then obtain b where b: "ts_avatar (clients w i) = Some b" using ok unfolding t_ok_def by blast
      obtain d where "GetGridDistance c i w = Inr d" "\<And>n. d \<le> n \<longleftrightarrow> grid_distance a b \<le> of_int n"
        by (rule distance_result [OF ok c b]) (rule that)
      then show ?thesis using b True id by (auto simp: sight_step_def Let_def SIGHT_RANGE_def not_less [symmetric])
    qed (simp add: sight_step_def id)
  qed
  note foldR_collect [OF this, of users "{}"]
  then show ?thesis by (simp add: players_near_def set_users conj_assoc)
qed

lemma finite_players_near: "finite (players_near w a c)"
  by (rule finite_subset [of _ "set users"]) (auto simp: players_near_def set_users)

text \<open>C17: The packet that moves a player moves its avatar by one cell, not beyond the border, and
  afterwards its view list is exactly the players in game within seven cells of the new
  position - also what the list held before is gone, creatures among it. A player nearby lists
  the mover; a player that was listed and is no longer near does not; no other list changes.
  So between players sight stays mutual.\<close>

theorem move_sees_players_near:
  assumes "t_ok w" and "user_place c" and "ts_avatar (clients w c) = Some a" and "finite (view_list (clients w c))"
    and "c \<notin> view_list (clients w c)" and "is_order (t_order os)" and "t_view_type p = Some T_CS_MOVE"
  shows "\<exists>w'. process_packet os c p w = Inr w'
    \<and> ts_avatar (clients w' c) = Some (step_avatar (t_view_direction p) a) \<and> on_grid (step_avatar (t_view_direction p) a)
    \<and> view_list (clients w' c) = players_near w (step_avatar (t_view_direction p) a) c
    \<and> (\<forall>q. q \<noteq> c \<longrightarrow> view_list (clients w' q) =
        (if q \<in> players_near w (step_avatar (t_view_direction p) a) c then insert c (view_list (clients w q))
         else if q \<in> view_list (clients w c) \<and> t_IsPlayer q then view_list (clients w q) - {c}
         else view_list (clients w q)))"
proof -
  let ?a = "step_avatar (t_view_direction p) a" and ?old = "view_list (clients w c)"
  let ?w1 = "on_place c (\<lambda>s. s\<lparr>ts_avatar := Some ?a\<rparr>) w"
  let ?V = "\<lambda>i. view_list (clients ?w1 i)"
  have g: "on_grid ?a" using assms(1,3) step_on_grid unfolding t_ok_def by blast
  have ok1: "t_ok ?w1" using assms(1) g by (auto simp: t_ok_def)
  have N: "players_near ?w1 ?a c = players_near w ?a c" by (auto simp: players_near_def)
  let ?N = "players_near w ?a c"
  have 1: "foldR (sight_step c ?w1) users {} = Inr ?N"
    using sight_collects [OF ok1, of c ?a] N by simp
  have c: "0 < c" "t_IsPlayer c" using user_place_bounds [OF assms(2)] by blast+
  obtain L2 where 2: "send_move_packet c c c (t_view_client_time p) ?w1 = Inr (with_lists ?V L2 ?w1)"
    using send_move_lists [of c ?w1 c] c(1) by auto
  note oN = is_order_set [OF assms(6) finite_players_near, of w ?a c] and oo = is_order_set [OF assms(6,4)]
  have cN: "c \<notin> ?N" by (simp add: players_near_def)
  obtain L3 where 3: "foldR (show_step c) (t_order os ?N) (with_lists ?V L2 ?w1)
      = Inr (with_lists (shown_lists c ?N ?V) L3 ?w1)"
    using show_all [of c "t_order os ?N" ?w1 ?V L2] cN unfolding oN
    by (auto simp: players_near_def)
  obtain L4 where 4: "fold (hide_step c ?N) (t_order os ?old) (with_lists (shown_lists c ?N ?V) L3 ?w1)
      = with_lists (hidden_lists c (?old - ?N) (shown_lists c ?N ?V)) L4 ?w1"
    using hide_all [of c "t_order os ?old" ?N] assms(5) unfolding oo by blast
  have "process_packet os c p w = Inr (with_lists (hidden_lists c (?old - ?N) (shown_lists c ?N ?V)) L4 ?w1)"
    using 1 2 3 4 assms(3,7) by (simp add: process_packet_def process_move_def Let_def)
  then show ?thesis
    using g cN by (auto simp: hidden_lists_def shown_lists_def players_near_def user_place_bounds)
qed

text \<open>Two players in game, eight cells apart, and a creature next to the first.\<close>

definition demo_term_player :: "pid \<Rightarrow> rat \<Rightarrow> term_session" where
  "demo_term_player i x = new_term_session\<lparr>ts_id := i, ts_status := ST_INGAME, ts_socket := nat i,
     ts_avatar := Some \<lparr>av_x = x, av_y = 4\<rparr>\<rparr>"

definition demo_term :: tworld where
  "demo_term = tworld0\<lparr>clients := (\<lambda>i. new_term_session\<lparr>ts_id := i\<rparr>)(200000 := demo_term_player 200000 4,
     200001 := demo_term_player 200001 12, 7 := demo_term_player 7 5)\<rparr>"

lemma demo_on_grid: "0 \<le> x \<Longrightarrow> x < 2000 \<Longrightarrow> on_grid \<lparr>av_x = of_int x, av_y = 4\<rparr>"
  unfolding on_grid_def by (rule exI [of _ x], rule exI [of _ 4]) (simp add: term_consts)

lemma demo_term_ok: "t_ok demo_term"
  using demo_on_grid [of 4] demo_on_grid [of 12] demo_on_grid [of 5]
  by (simp add: t_ok_def demo_term_def demo_term_player_def new_term_session_def)

lemma demo_players: "user_place q \<and> ts_status (clients demo_term q) = ST_INGAME \<longleftrightarrow> q = 200000 \<or> q = 200001"
  by (auto simp: demo_term_def demo_term_player_def new_term_session_def user_place_def term_consts)

definition demo_term_os :: term_os where
  "demo_term_os = \<lparr>t_socket = (\<lambda>n. n + 100), t_accept = (\<lambda>_. True), t_rand = (\<lambda>n. n), t_order = sorted_list_of_set\<rparr>"

lemma demo_term_order: "is_order (t_order demo_term_os)"
  by (simp add: is_order_def demo_term_os_def)

theorem move_sees_players_near_witness:
  "\<exists>w'. process_packet demo_term_os 200000 (replicate 8 0 @ [15, 2, 2, 0, 0, 0, 0]) demo_term = Inr w'
    \<and> view_list (clients w' 200000) = {200001} \<and> view_list (clients w' 200001) = {200000}"
proof -
  let ?p = "replicate 8 0 @ [15, 2, 2, 0, 0, 0, 0] :: bytes"
  have p: "t_view_type ?p = Some T_CS_MOVE" "t_view_direction ?p = T_RIGHT"
    by (simp_all add: t_view_type_def t_view_direction_def term_type_of_code_def term_types_def byte_at_def
        term_move_of_code_def nth_append)
  let ?a = "\<lparr>av_x = 4, av_y = 4\<rparr> :: avatar"
  have a: "ts_avatar (clients demo_term 200000) = Some ?a" "view_list (clients demo_term 200000) = {}"
    "ts_avatar (clients demo_term 200001) = Some \<lparr>av_x = 12, av_y = 4\<rparr>" "view_list (clients demo_term 200001) = {}"
    by (simp_all add: demo_term_def demo_term_player_def new_term_session_def)
  have s: "step_avatar T_RIGHT ?a = \<lparr>av_x = 5, av_y = 4\<rparr>"
    using step_int(2) [of 4] by (simp add: step_avatar_def term_consts)
  have "players_near demo_term \<lparr>av_x = 5, av_y = 4\<rparr> 200000 = {200001}"
    using demo_players a(3) by (auto simp: players_near_def grid_distance_def)
  then show ?thesis
    using move_sees_players_near [OF demo_term_ok _ a(1) _ _ demo_term_order p(1)] a(2,4)
    unfolding p(2) s by (auto simp: user_place_def term_consts)
qed

subsection \<open>Creatures\<close>

lemma npc_show_all:
  assumes "ts_avatar (clients w c) \<noteq> None"
  shows "\<exists>L'. foldR (npc_show c) xs (old, with_lists V L w)
    = Inr (old - set xs, with_lists (\<lambda>r. if r \<in> set xs then insert c (V r) else V r) L' w)"
proof (induction xs arbitrary: old V L)
  case (Cons x xs)
  define V1 where "V1 = V(x := insert c (V x))"
  obtain L1 where 1: "show_or_move x c (with_lists V L w) = Inr (with_lists V1 L1 w)"
    using show_or_move_result [OF assms] unfolding V1_def by blast
  have "(\<lambda>r. if r \<in> set xs then insert c (V1 r) else V1 r)
    = (\<lambda>r. if r \<in> set (x # xs) then insert c (V r) else V r)" by (auto simp: V1_def fun_eq_iff)
  moreover have "old - set (x # xs) = old - {x} - set xs" by auto
  moreover have "npc_show c x (old, with_lists V L w) = Inr (old - {x}, with_lists V1 L1 w)"
    using 1 by (simp add: npc_show_def)
  ultimately show ?case using Cons.IH [of "old - {x}" V1 L1] by (simp only: foldR.simps rbind_Inr)
qed auto

lemma npc_hide_all:
  assumes "set xs \<inter> N = {}"
  shows "\<exists>L'. fold (npc_hide c N) xs (with_lists V L w)
    = with_lists (\<lambda>r. if r \<in> set xs then V r - {c} else V r) L' w"
  using assms
proof (induction xs arbitrary: V L)
  case (Cons x xs)
  define V1 where "V1 = V(x := V x - {c})"
  obtain L1 where 1: "hide x c (with_lists V L w) = with_lists V1 L1 w"
    using hide_result unfolding V1_def by blast
  have "(\<lambda>r. if r \<in> set xs then V1 r - {c} else V1 r)
    = (\<lambda>r. if r \<in> set (x # xs) then V r - {c} else V r)" by (auto simp: V1_def fun_eq_iff)
  moreover have "npc_hide c N x (with_lists V L w) = with_lists V1 L1 w"
    using 1 Cons.prems by (simp add: npc_hide_def)
  moreover have "set xs \<inter> N = {}" using Cons.prems by simp
  ultimately show ?case using Cons.IH [of V1 L1] by (simp only: fold_simps)
qed auto

lemma near_collects:
  assumes ok: "t_ok w" and c: "ts_avatar (clients w c) = Some a" and n: "t_IsNPC c"
  shows "foldR (near_step c w) users {} = Inr (players_near w a c)"
proof -
  have "near_step c w i S = Inr (if ts_status (clients w i) = ST_INGAME
      \<and> (\<exists>b. ts_avatar (clients w i) = Some b \<and> grid_distance a b \<le> 7) then insert i S else S)" for i S
  proof (cases "ts_status (clients w i) = ST_INGAME")
    case True
    then obtain b where b: "ts_avatar (clients w i) = Some b" using ok unfolding t_ok_def by blast
    obtain d where "GetGridDistance c i w = Inr d" "\<And>n. d \<le> n \<longleftrightarrow> grid_distance a b \<le> of_int n"
      by (rule distance_result [OF ok c b]) (rule that)
    then show ?thesis using b True by (simp add: near_step_def SIGHT_RANGE_def)
  qed (simp add: near_step_def)
  note foldR_collect [OF this, of users "{}"]
  moreover have "q \<noteq> c" if "user_place q" for q
    using that n user_place_bounds [OF that] by (auto simp: t_IsNPC_def t_IsPlayer_def)
  ultimately show ?thesis by (auto simp: players_near_def set_users intro: arg_cong [where f = Inr])
qed

text \<open>C18: The turn of a creature moves it by at most one cell within the world, and then the players
  in game that list it are those within seven cells of it, given that no others in game listed it
  before. Nothing else of any list changes.\<close>

theorem creature_seen_when_near:
  assumes "t_ok w" and "t_IsNPC c" and "ts_avatar (clients w c) = Some a" and "is_order (t_order os)"
    and "\<And>q. user_place q \<Longrightarrow> ts_status (clients w q) = ST_INGAME \<Longrightarrow> c \<in> view_list (clients w q)
      \<Longrightarrow> q \<in> players_near w a c"
  shows "\<exists>w' a'. BehaveNPC os c w = Inr w' \<and> ts_avatar (clients w' c) = Some a' \<and> on_grid a' \<and> grid_distance a a' \<le> 1
    \<and> (\<forall>q. user_place q \<and> ts_status (clients w q) = ST_INGAME \<longrightarrow>
        (c \<in> view_list (clients w' q) \<longleftrightarrow> q \<in> players_near w' a' c))
    \<and> (\<forall>q. view_list (clients w' q) - {c} = view_list (clients w q) - {c})"
proof -
  let ?a = "step_avatar (npc_direction (t_rand os (t_rands w))) a"
  let ?w2 = "on_place c (\<lambda>s. s\<lparr>ts_avatar := Some ?a\<rparr>) (w\<lparr>t_rands := Suc (t_rands w)\<rparr>)"
  let ?V = "\<lambda>i. view_list (clients ?w2 i)"
  have ga: "on_grid a" using assms(1,3) unfolding t_ok_def by blast
  have g: "on_grid ?a" by (rule step_on_grid [OF ga])
  have ok2: "t_ok ?w2" using assms(1) g by (auto simp: t_ok_def)
  have N: "players_near ?w2 ?a c = players_near w ?a c" by (auto simp: players_near_def)
  let ?N = "players_near w ?a c" and ?O = "players_near w a c"
  note oN = is_order_set [OF assms(4) finite_players_near, of w ?a c]
  have 1: "foldR (near_step c w) users {} = Inr ?O" by (rule near_collects [OF assms(1,3,2)])
  have 2: "foldR (near_step c ?w2) users {} = Inr ?N"
    using near_collects [OF ok2, of c ?a] N assms(2) by simp
  obtain L3 where 3: "foldR (npc_show c) (t_order os ?N) (?O, ?w2)
      = Inr (?O - ?N, with_lists (\<lambda>r. if r \<in> ?N then insert c (?V r) else ?V r) L3 ?w2)"
    using npc_show_all [of ?w2 c "t_order os ?N" ?O ?V "t_log ?w2"] unfolding oN with_lists_id by auto
  have oO: "set (t_order os (?O - ?N)) = ?O - ?N"
    by (rule is_order_set [OF assms(4)]) (simp add: finite_players_near)
  let ?V3 = "\<lambda>r. if r \<in> ?N then insert c (?V r) else ?V r"
  obtain L4 where 4: "fold (npc_hide c ?N) (t_order os (?O - ?N)) (with_lists ?V3 L3 ?w2)
      = with_lists (\<lambda>r. if r \<in> ?O - ?N then ?V3 r - {c} else ?V3 r) L4 ?w2"
    using npc_hide_all [of "t_order os (?O - ?N)" ?N c ?V3 L3 ?w2] unfolding oO by auto
  let ?w' = "with_lists (\<lambda>r. if r \<in> ?O - ?N then ?V3 r - {c} else ?V3 r) L4 ?w2"
  have b: "BehaveNPC os c w = Inr ?w'"
    using 1 2 3 4 assms(3) by (simp add: BehaveNPC_def draw_rand_def Let_def)
  have av: "ts_avatar (clients ?w' c) = Some ?a" by simp
  have "players_near ?w' ?a c = ?N" by (auto simp: players_near_def)
  then have v: "c \<in> view_list (clients ?w' q) \<longleftrightarrow> q \<in> players_near ?w' ?a c"
    if "user_place q \<and> ts_status (clients w q) = ST_INGAME" for q using assms(5) [of q] that by auto
  have o: "view_list (clients ?w' q) - {c} = view_list (clients w q) - {c}" for q by auto
  show ?thesis
    by (intro exI [of _ ?w'] exI [of _ ?a] conjI allI impI)
      (rule b, rule av, rule g, rule step_distance [OF ga], erule v, rule o)
qed

theorem creature_seen_when_near_witness:
  "\<exists>w' a'. BehaveNPC demo_term_os 7 demo_term = Inr w' \<and> ts_avatar (clients w' 7) = Some a'
    \<and> (7 \<in> view_list (clients w' 200000) \<longleftrightarrow> 200000 \<in> players_near w' a' 7)"
proof -
  have a: "ts_avatar (clients demo_term 7) = Some \<lparr>av_x = 5, av_y = 4\<rparr>"
    and v: "view_list (clients demo_term q) = {}" for q
    by (simp_all add: demo_term_def demo_term_player_def new_term_session_def)
  have "user_place 200000" "ts_status (clients demo_term 200000) = ST_INGAME" using demo_players by blast+
  then show ?thesis
    using creature_seen_when_near [OF demo_term_ok _ a demo_term_order] v
    by (simp add: t_IsNPC_def term_consts) blast
qed

end
