(* ===== verification/TermRuns.thy ===== *)
theory TermRuns
  imports TermSight
begin

section \<open>Runs of the server of the term project\<close>

text \<open>What holds in every state that a started server reaches.\<close>

subsection \<open>Nobody is ever in game\<close>

definition shows_something :: "term_effect \<Rightarrow> bool" where
  "shows_something e = (case e of
      TSend so (AddObject i x y) n \<Rightarrow> True | TSend so (RemoveObject i) n \<Rightarrow> True | _ \<Rightarrow> False)"

definition dark :: "tworld \<Rightarrow> bool" where
  "dark w \<longleftrightarrow> grid_ok w \<and> (\<forall>i. user_place i \<longrightarrow> ts_status (clients w i) \<noteq> ST_INGAME)
     \<and> (\<forall>i. view_list (clients w i) = {}) \<and> (\<forall>e \<in> set (t_log w). \<not> shows_something e)"

lemma foldR_idle: "(\<And>x. x \<in> set xs \<Longrightarrow> f x s = Inr s) \<Longrightarrow> foldR f xs s = Inr s"
  by (induction xs) auto

lemma fold_idle: "(\<And>x. x \<in> set xs \<Longrightarrow> f x s = s) \<Longrightarrow> fold f xs s = s"
  by (induction xs) auto

lemma dark_idle:
  assumes "dark w"
  shows "foldR (sight_step c w) users S = Inr S" and "foldR (near_step c w) users S = Inr S"
    and "fold (forget_client c) users w = w"
  using assms
  by (auto intro!: foldR_idle fold_idle simp: sight_step_def near_step_def forget_client_def Let_def dark_def set_users)

lemma dark_change:
  assumes "dark w" and "grid_ok w'" and "\<And>i. user_place i \<Longrightarrow> ts_status (clients w' i) = ST_INGAME \<Longrightarrow> ts_status (clients w i) = ST_INGAME"
    and "\<And>i. view_list (clients w' i) = view_list (clients w i)"
    and "\<And>e. e \<in> set (t_log w') \<Longrightarrow> e \<in> set (t_log w) \<or> \<not> shows_something e"
  shows "dark w'"
  using assms unfolding dark_def by metis

lemma dark_emit: "dark w \<Longrightarrow> \<not> shows_something e \<Longrightarrow> dark (t_emit e w)"
  by (auto simp: dark_def grid_ok_def)

lemma dark_send_move: "send_move_packet i c k t w = Inr w' \<Longrightarrow> dark w \<Longrightarrow> dark w'"
  by (auto simp: send_move_packet_def do_send_def dark_emit shows_something_def split: if_splits option.splits)

lemma dark_Disconnect:
  assumes "dark w" and "t_Disconnect i w = Inr w'"
  shows "dark w'"
  using assms dark_idle(3) [OF assms(1)]
  by (auto simp: t_Disconnect_def Let_def shows_something_def grid_ok_def dark_def split: if_splits)

lemma dark_login:
  assumes d: "dark w" and c: "user_place c" and L: "process_login os c p w = Inr w'"
  shows "dark w'"
proof (cases "ts_status (clients w c)")
  case ST_FREE
  then have "w' = w" using L by (simp add: process_login_def on_place_def fun_upd_idem)
  then show ?thesis using d by simp
next
  case ST_INGAME
  then show ?thesis using d c by (simp add: dark_def)
next
  case ST_ACCEPTED
  let ?a = "\<lparr>av_x = of_int (int (t_rand os (t_rands w)) mod T_W_WIDTH),
    av_y = of_int (int (t_rand os (Suc (t_rands w))) mod T_W_HEIGHT)\<rparr>"
  let ?w4 = "on_place c (\<lambda>s. s\<lparr>ts_avatar := Some ?a\<rparr>)
    ((on_place c (\<lambda>s. s\<lparr>ts_status := ST_INGAME\<rparr>) w)\<lparr>t_rands := Suc (Suc (t_rands w))\<rparr>)"
  let ?w5 = "do_send c (LoginOk (ts_id (clients w c)) (t_numberClients w) T_MAX_USER (av_x ?a) (av_y ?a)) ?w4"
  have 1: "foldR (tell_of_newbie c) users ?w5 = Inr ?w5"
    by (rule foldR_idle) (use d in \<open>auto simp: tell_of_newbie_def do_send_def dark_def set_users\<close>)
  have 2: "foldR (tell_newbie c) [0..ORDER_END_ALL - 1] ?w5 = Inr ?w5"
    by (rule foldR_idle) (use d in \<open>auto simp: tell_newbie_def Let_def do_send_def dark_def\<close>)
  have "w' = on_place c (\<lambda>s. s\<lparr>ts_status := ST_ACCEPTED\<rparr>) ?w5"
    using L 1 2 ST_ACCEPTED
    by (auto simp: process_login_def Let_def draw_rand_def send_login_info_packet_def split: if_splits)
  then show ?thesis
    using d grids.login_avatar
    by (auto simp: dark_def do_send_def shows_something_def grid_ok_def split: if_splits)
qed

lemma dark_move:
  assumes d: "dark w" and c: "user_place c" and ord: "is_order (t_order os)" and M: "process_move os c p w = Inr w'"
  shows "dark w'"
proof (cases "ts_avatar (clients w c)")
  case None
  then show ?thesis using d M by (simp add: process_move_def)
next
  case (Some a)
  let ?w1 = "on_place c (\<lambda>s. s\<lparr>ts_avatar := Some (step_avatar (t_view_direction p) a)\<rparr>) w"
  have "on_grid (step_avatar (t_view_direction p) a)"
    using d Some step_on_grid unfolding dark_def grid_ok_def by blast
  then have 1: "dark ?w1" using d by (auto simp: dark_def grid_ok_def)
  have "t_order os {} = []" using is_order_set [OF ord, of "{}"] by simp
  then have "send_move_packet c c c (t_view_client_time p) ?w1 = Inr w'"
    using M Some d dark_idle(1) [OF 1] by (auto simp: process_move_def Let_def rbind_eq_Inr dark_def)
  then show ?thesis using 1 by (rule dark_send_move)
qed

lemma dark_packet:
  assumes "dark w" and "user_place c" and "is_order (t_order os)" and "process_packet os c p w = Inr w'"
  shows "dark w'"
  using assms(4) dark_login [OF assms(1,2)] dark_move [OF assms(1-3)] assms(1)
  by (simp add: process_packet_def split: if_splits)

lemma dark_BehaveNPC:
  assumes d: "dark w" and c: "t_IsNPC c" and ord: "is_order (t_order os)" and M: "BehaveNPC os c w = Inr w'"
  shows "dark w'"
proof (cases "ts_avatar (clients w c)")
  case None
  then show ?thesis using M by (simp add: BehaveNPC_def)
next
  case (Some a)
  let ?w2 = "on_place c (\<lambda>s. s\<lparr>ts_avatar := Some (step_avatar (npc_direction (t_rand os (t_rands w))) a)\<rparr>)
    (w\<lparr>t_rands := Suc (t_rands w)\<rparr>)"
  have "on_grid (step_avatar (npc_direction (t_rand os (t_rands w))) a)"
    using d Some step_on_grid unfolding dark_def grid_ok_def by blast
  then have 2: "dark ?w2" using d by (auto simp: dark_def grid_ok_def)
  have "t_order os {} = []" using is_order_set [OF ord, of "{}"] by simp
  then have "w' = ?w2"
    using M Some dark_idle(2) [OF d] dark_idle(2) [OF 2] by (simp add: BehaveNPC_def draw_rand_def Let_def)
  then show ?thesis using 2 by simp
qed

lemma dark_accept:
  assumes d: "dark w" and A: "ProceedAccept os w = Inr w'"
  shows "dark w'"
proof -
  have g: "on_grid \<lparr>av_x = 4, av_y = 4\<rparr>"
    unfolding on_grid_def by (rule exI [of _ 4], rule exI [of _ 4]) (simp add: term_consts)
  have listens: "dark v'" if "t_Listen os v = Inr v'" "dark v" for v v'
    using that by (auto simp: t_Listen_def dark_emit shows_something_def split: if_splits)
  show ?thesis
  proof (cases "find (\<lambda>i. ts_status (clients w i) = ST_FREE) users")
    case None
    then show ?thesis using A d listens by (auto simp: ProceedAccept_def MakeNewbieID_def Let_def split: if_splits)
  next
    case (Some i)
    let ?w1 = "on_place i (\<lambda>s. s\<lparr>ts_status := ST_ACCEPTED\<rparr>) w"
    let ?w2 = "on_place i (\<lambda>s. s\<lparr>ts_avatar := Some \<lparr>av_x = 4, av_y = 4\<rparr>, ts_id := i, ts_socket := t_newbie w\<rparr>) ?w1"
    let ?w3 = "do_recv i (t_emit (TPort (t_newbie w) i) ?w2)"
    have "i \<in> set users" using Some by (auto simp: find_Some_iff)
    then have "i \<noteq> -1" using user_place_bounds set_users by fastforce
    moreover have "dark ?w2" using d g by (auto simp: dark_def grid_ok_def)
    then have "dark ?w3" by (simp add: do_recv_def Let_def dark_emit shows_something_def)
    then have "dark ((snd (MakeSocket os ?w3))\<lparr>t_newbie := s\<rparr>)" for s
      by (simp add: MakeSocket_def Let_def dark_def grid_ok_def shows_something_def)
    ultimately show ?thesis using A Some listens
      by (auto simp: ProceedAccept_def MakeNewbieID_def Let_def case_prod_beta split: if_splits)
  qed
qed

lemma dark_bytes:
  "dark w \<Longrightarrow> dark (on_place i (\<lambda>s. s\<lparr>ts_recvBytes := f s\<rparr>) w)"
  "dark w \<Longrightarrow> dark (on_place i (\<lambda>s. s\<lparr>ts_buf := g s\<rparr>) w)"
  by (auto simp: dark_def grid_ok_def)

lemma dark_loop:
  assumes "t_receive_loop fuel os i off w = Inr (off', w')" and "dark w" and "user_place i" and "is_order (t_order os)"
  shows "dark w'"
  using assms(1,2)
proof (induction fuel arbitrary: off w)
  case (Suc fuel)
  show ?case
  proof (cases "0 < ts_recvBytes (clients w i) \<and> int (unat (t_view_size (ts_buf (clients w i)))) \<le> ts_recvBytes (clients w i)")
    case True
    then obtain w1 where 1: "process_packet os i (ts_buf (clients w i)) w = Inr w1"
      and 2: "t_receive_loop fuel os i (off + unat (t_view_size (ts_buf (clients w i))))
        (on_place i (\<lambda>s. s\<lparr>ts_recvBytes := ts_recvBytes s - int (unat (t_view_size (ts_buf (clients w i))))\<rparr>) w1)
        = Inr (off', w')" using Suc.prems(1) by (auto simp: Let_def rbind_eq_Inr)
    have "dark w1" using dark_packet [OF Suc.prems(2) assms(3,4) 1] .
    then show ?thesis by (intro Suc.IH [OF 2] dark_bytes)
  next
    case False
    then have "w' = w" using Suc.prems(1) by (auto simp: Let_def split: if_splits)
    then show ?thesis using Suc.prems(2) by simp
  qed
qed simp

lemma dark_recv:
  assumes d: "dark w" and i: "user_place i" and ord: "is_order (t_order os)" and R: "ProceedRecv fuel os i n w = Inr w'"
  shows "dark w'"
proof (cases "n = 0")
  case True
  then show ?thesis using R dark_Disconnect [OF d] by (simp add: ProceedRecv_def)
next
  case False
  then obtain off w1 where 1: "t_receive_loop fuel os i 0
      (on_place i (\<lambda>s. s\<lparr>ts_recvBytes := ts_recvBytes s + int n\<rparr>) w) = Inr (off, w1)"
    and w': "w' = do_recv i (on_place i (keep_rest off) w1)" using R by (auto simp: ProceedRecv_def rbind_eq_Inr)
  have 2: "dark w1" using dark_loop [OF 1 dark_bytes(1) [OF d] i ord] .
  have "dark (on_place i (keep_rest off) w1)"
    by (rule dark_change [OF 2]) (use 2 in \<open>auto simp: keep_rest_def Let_def dark_def grid_ok_def split: if_splits\<close>)
  then show ?thesis unfolding w' by (simp add: do_recv_def Let_def dark_emit shows_something_def)
qed

text \<open>The state the threads begin with.\<close>

lemma fold_on_place:
  assumes "distinct xs"
  shows "fold (\<lambda>i. on_place i (f i)) xs w
    = w\<lparr>clients := (\<lambda>j. if j \<in> set xs then f j (clients w j) else clients w j)\<rparr>"
  using assms
proof (induction xs arbitrary: w)
  case (Cons x xs)
  then show ?case by (auto simp: on_place_def fun_eq_iff)
qed simp

definition started_session :: "pid \<Rightarrow> term_session" where
  "started_session i = (if 0 \<le> i \<and> i < 200000 then new_term_session\<lparr>ts_id := i, ts_avatar := Some \<lparr>av_x = 4, av_y = 4\<rparr>,
       ts_status := ST_INGAME, ts_nickname := npc_nickname (i + T_MAX_USER)\<rparr>
     else if 200000 \<le> i \<and> i < 210000 then new_term_session\<lparr>ts_id := i\<rparr> else new_term_session)"

lemma t_main_result:
  assumes "t_main b os = Inr w"
  shows "clients w = started_session" and "e \<in> set (t_log w) \<Longrightarrow> \<not> shows_something e"
    and "t_newbie w = t_socket os 0" and "t_newbie w \<noteq> NULL_SOCKET"
proof -
  let ?w1 = "t_BuildNPCs (t_BuildSessions tworld0)"
  have 1: "t_BuildSessions tworld0 = tworld0\<lparr>clients := (\<lambda>i. if 0 \<le> i \<and> i < 210000
      then new_term_session\<lparr>ts_id := i\<rparr> else new_term_session)\<rparr>"
    unfolding t_BuildSessions_def by (subst fold_on_place) (auto simp: tworld0_def term_consts)
  have 2: "?w1 = tworld0\<lparr>clients := started_session\<rparr>"
    unfolding t_BuildNPCs_def 1 by (subst fold_on_place) (auto simp: tworld0_def term_consts started_session_def fun_eq_iff)
  show "clients w = started_session" and "e \<in> set (t_log w) \<Longrightarrow> \<not> shows_something e"
    and "t_newbie w = t_socket os 0" and "t_newbie w \<noteq> NULL_SOCKET"
    using assms unfolding t_main_def t_Awake_def 2
    by (auto simp: t_Start_def MakeSocket_def t_Listen_def Let_def tworld0_def shows_something_def split: if_splits)
qed

lemma dark_start:
  assumes "t_main b os = Inr w"
  shows "dark w"
proof -
  have "on_grid \<lparr>av_x = 4, av_y = 4\<rparr>"
    unfolding on_grid_def by (rule exI [of _ 4], rule exI [of _ 4]) (simp add: term_consts)
  then show ?thesis
    using t_main_result(2) [OF assms] unfolding dark_def grid_ok_def t_main_result(1) [OF assms]
    by (auto simp: started_session_def user_place_def term_consts new_term_session_def split: if_splits)
qed

text \<open>
  What happens to the server: a completion, for a received one with the bytes that the system
  wrote behind those that were kept, or the turn of a creature.
\<close>

definition t_deliver :: "bytes \<Rightarrow> term_session \<Rightarrow> term_session" where
  "t_deliver data s = (let n = nat (ts_recvBytes s)
     in s\<lparr>ts_buf := take n (ts_buf s) @ data @ drop (n + length data) (ts_buf s)\<rparr>)"

inductive term_step :: "nat \<Rightarrow> term_os \<Rightarrow> tworld \<Rightarrow> tworld \<Rightarrow> bool" for fuel os where
  completes: "tc_operation c \<noteq> T_RECV \<or> \<not> tc_result c \<Longrightarrow> user_place (tc_key c) \<Longrightarrow>
    ConcurrentWorker fuel os c w = Inr w' \<Longrightarrow> term_step fuel os w w'"
| receives: "user_place i \<Longrightarrow> ProceedRecv fuel os i (length data) (on_place i (t_deliver data) w) = Inr w' \<Longrightarrow>
    term_step fuel os w w'"
| behaves: "0 \<le> i \<Longrightarrow> t_IsNPC i \<Longrightarrow> BehaveNPC os i w = Inr w' \<Longrightarrow> term_step fuel os w w'"

lemma dark_step:
  assumes d: "dark w" and ord: "is_order (t_order os)" and st: "term_step fuel os w w'"
  shows "dark w'"
  using st
proof (cases rule: term_step.cases)
  case (completes c)
  have "w' = w \<or> t_Disconnect (tc_key c) w = Inr w' \<or> ProceedAccept os w = Inr w'"
    using completes(1,3) by (cases "tc_operation c") (simp_all add: ConcurrentWorker_def ProceedSend_def split: if_splits)
  then show ?thesis using dark_Disconnect [OF d] dark_accept [OF d] d by blast
next
  case (receives i data)
  have "t_deliver data s = s\<lparr>ts_buf := ts_buf (t_deliver data s)\<rparr>" for s by (simp add: t_deliver_def Let_def)
  then have "dark (on_place i (t_deliver data) w)"
    using dark_bytes(2) [OF d, of i "\<lambda>s. ts_buf (t_deliver data s)"] by simp
  then show ?thesis using dark_recv [OF _ receives(1) ord receives(2)] by blast
next
  case (behaves i)
  then show ?thesis using dark_BehaveNPC [OF d _ ord] by blast
qed


lemma find_users:
  assumes "P ORDER_BEGIN_USER"
  shows "find P users = Some ORDER_BEGIN_USER"
proof -
  have "ORDER_BEGIN_USER \<le> ORDER_END_USER - 1" by (simp add: term_consts)
  then have "users = ORDER_BEGIN_USER # [ORDER_BEGIN_USER + 1..ORDER_END_USER - 1]"
    unfolding users_def by (rule upto_rec1)
  then show ?thesis using assms by (metis find.simps(2))
qed


end
