(* ===== verification/TermConnections.thy ===== *)
theory TermConnections
  imports TermRuns
begin

section \<open>Connections of the term project\<close>

subsection \<open>Receiving\<close>

text \<open>A packet handled \<open>n\<close> times, each time taking its size off the count of received bytes.\<close>

fun handled_again :: "nat \<Rightarrow> term_os \<Rightarrow> pid \<Rightarrow> bytes \<Rightarrow> tworld \<Rightarrow> tworld res" where
  "handled_again 0 os i p w = Inr w"
| "handled_again (Suc n) os i p w = rbind (process_packet os i p w) (\<lambda>w1.
     handled_again n os i p (on_place i (\<lambda>s. s\<lparr>ts_recvBytes := ts_recvBytes s - int (unat (t_view_size p))\<rparr>) w1))"

lemma packet_keeps_buffers:
  assumes "grid_ok w" and "process_packet os c p w = Inr w'"
  shows "grid_ok w'" and "same_buffers w w'"
  using term_buffers.after_process_packet [OF assms(2), of w] assms(1) by (simp_all add: same_buffers_def)

lemma receive_repeats:
  assumes "grid_ok w" and "ts_buf (clients w i) = p" and "0 < unat (t_view_size p)" and "r < unat (t_view_size p)"
    and "ts_recvBytes (clients w i) = int (n * unat (t_view_size p) + r)" and "n < fuel"
  shows "t_receive_loop fuel os i off w
    = rbind (handled_again n os i p w) (\<lambda>w'. Inr (off + n * unat (t_view_size p), w'))"
  using assms(1,2,5,6)
proof (induction n arbitrary: fuel off w)
  case 0
  then obtain f where "fuel = Suc f" by (cases fuel) auto
  then show ?case using 0 assms(4) by (simp add: Let_def del: of_nat_unat)
next
  case (Suc n)
  then obtain f where f: "fuel = Suc f" by (cases fuel) auto
  let ?s = "unat (t_view_size p)"
  have go: "0 < ts_recvBytes (clients w i)" "int ?s \<le> ts_recvBytes (clients w i)"
  proof -
    have "0 < Suc n * ?s + r" "?s \<le> Suc n * ?s + r" using assms(3) by simp_all
    then show "0 < ts_recvBytes (clients w i)" "int ?s \<le> ts_recvBytes (clients w i)"
      unfolding Suc.prems(3) by (simp_all only: of_nat_0_less_iff of_nat_le_iff)
  qed
  have step: "t_receive_loop f os i (off + ?s) (on_place i (\<lambda>s. s\<lparr>ts_recvBytes := ts_recvBytes s - int ?s\<rparr>) w1)
      = rbind (handled_again n os i p (on_place i (\<lambda>s. s\<lparr>ts_recvBytes := ts_recvBytes s - int ?s\<rparr>) w1))
        (\<lambda>w'. Inr (off + Suc n * ?s, w'))" if "process_packet os i p w = Inr w1" for w1
  proof -
    note k = packet_keeps_buffers [OF Suc.prems(1) that]
    let ?w2 = "on_place i (\<lambda>s. s\<lparr>ts_recvBytes := ts_recvBytes s - int ?s\<rparr>) w1"
    have "grid_ok ?w2" using k(1) by (simp add: grid_ok_def)
    moreover have "ts_buf (clients ?w2 i) = p" using k(2) Suc.prems(2) by (simp add: same_buffers_def)
    moreover have "ts_recvBytes (clients ?w2 i) = int (n * ?s + r)"
      using k(2) Suc.prems(3) by (simp add: same_buffers_def del: of_nat_unat)
    moreover have "n < f" using Suc.prems(4) f by simp
    ultimately show ?thesis using Suc.IH by (simp add: add.assoc)
  qed
  show ?case
    using go Suc.prems(2) f by (cases "process_packet os i p w") (simp_all add: step Let_def del: of_nat_unat)
qed

lemma on_place_same: "on_place i (\<lambda>s. s) w = w"
  by (simp add: on_place_def)

lemma receive_for_ever:
  assumes "ts_buf (clients w i) = p" and "t_view_size p = 0" and "t_view_type p \<noteq> Some T_CS_LOGIN"
    and "t_view_type p \<noteq> Some T_CS_MOVE" and "0 < ts_recvBytes (clients w i)"
  shows "t_receive_loop fuel os i off w = Inl NoReturn"
proof (induction fuel arbitrary: off)
  case (Suc fuel)
  have "process_packet os i p w = Inr w" using assms(3,4) by (simp add: process_packet_def)
  then show ?case using assms(1,2,5) Suc by (simp add: on_place_same)
qed simp

text \<open>C31: The loop over the received bytes reads the size and the packet from the beginning of the
  buffer each time, and goes on by that size. So the first packet of a buffer is handled once
  for every stretch of its length, the packets behind it are never looked at, and what
  remains is counted from there; a first packet of size 0 that asks for nothing is handled
  for ever. One turn more than there are stretches is enough for the loop to end.\<close>

theorem first_packet_handled_again:
  assumes "grid_ok w" and "ts_buf (clients w i) = p"
    and "ts_recvBytes (clients w i) = int (n * unat (t_view_size p) + r)"
    and "t_view_size p = 0 \<or> r < unat (t_view_size p) \<and> n < fuel"
  shows "if t_view_size p \<noteq> 0
    then t_receive_loop fuel os i 0 w
      = rbind (handled_again n os i p w) (\<lambda>w'. Inr (n * unat (t_view_size p), w'))
    else 0 < r \<and> t_view_type p \<noteq> Some T_CS_LOGIN \<and> t_view_type p \<noteq> Some T_CS_MOVE
      \<longrightarrow> t_receive_loop fuel os i 0 w = Inl NoReturn"
proof (cases "t_view_size p = 0")
  case True
  then show ?thesis using receive_for_ever [OF assms(2) True] assms(3) by simp
next
  case False
  then have "0 < unat (t_view_size p)" by (simp add: unat_gt_0)
  then show ?thesis using receive_repeats [OF assms(1,2) _ _ assms(3), of fuel os 0] False assms(4) by simp
qed

text \<open>A move to the right and one to the left, in one buffer.\<close>

definition two_moves :: bytes where
  "two_moves = replicate 8 0 @ [15, 2, 2, 0, 0, 0, 0] @ replicate 8 0 @ [15, 2, 1, 0, 0, 0, 0] @ replicate 170 0"

definition demo_two_moves :: tworld where
  "demo_two_moves = on_place 200000 (\<lambda>s. s\<lparr>ts_buf := two_moves, ts_recvBytes := 30\<rparr>) demo_term"

theorem first_packet_handled_again_witness:
  "t_receive_loop 3 demo_term_os 200000 0 demo_two_moves
    = rbind (handled_again 2 demo_term_os 200000 two_moves demo_two_moves) (\<lambda>w'. Inr (30, w'))
   \<and> t_view_direction two_moves = T_RIGHT"
proof -
  have v: "t_view_size two_moves = 15" "t_view_direction two_moves = T_RIGHT"
    by (simp_all add: two_moves_def t_view_size_def t_view_direction_def term_move_of_code_def byte_at_def nth_append)
  have "grid_ok demo_two_moves" using demo_term_ok by (auto simp: t_ok_def grid_ok_def demo_two_moves_def)
  then show ?thesis
    using first_packet_handled_again [of demo_two_moves 200000 two_moves 2 0 3 demo_term_os] v
    by (simp add: demo_two_moves_def)
qed

subsection \<open>A place that is taken again\<close>

lemma forget_client_keeps:
  shows "clients (fold (forget_client who) xs w) who = clients w who"
    and "ts_status (clients (fold (forget_client who) xs w) i) = ts_status (clients w i)"
    and "t_newbie (fold (forget_client who) xs w) = t_newbie w"
  by (induction xs arbitrary: w) (simp_all add: forget_client_def do_send_def)

lemma find_first_user:
  assumes "user_place who" and "P who" and "\<And>i. user_place i \<Longrightarrow> i < who \<Longrightarrow> \<not> P i"
  shows "find P users = Some who"
proof -
  have u: "users = [ORDER_BEGIN_USER..who - 1] @ who # [who + 1..ORDER_END_USER - 1]"
    unfolding users_def using assms(1) by (intro upto_split3) (simp_all add: user_place_def)
  have "find P (xs @ who # ys) = Some who" if "\<And>x. x \<in> set xs \<Longrightarrow> \<not> P x" for xs ys
    using that assms(2) by (induction xs) auto
  moreover have "\<not> P x" if "x \<in> set [ORDER_BEGIN_USER..who - 1]" for x
    using assms(3) [of x] that assms(1) by (simp add: user_place_def)
  ultimately show ?thesis unfolding u by blast
qed

text \<open>A disconnection closes the socket and frees the place, and clears nothing else of the
  session: the next player that connects takes the first free place with the view list and
  the count of unhandled bytes of the one that left. Its first receive goes behind those
  bytes.\<close>

theorem newcomer_inherits:
  assumes "user_place who" and "ts_status (clients w who) \<noteq> ST_FREE"
    and "\<And>i. user_place i \<Longrightarrow> i < who \<Longrightarrow> ts_status (clients w i) \<noteq> ST_FREE"
    and "t_newbie w \<noteq> NULL_SOCKET" and "\<And>n. t_accept os n"
  shows "\<exists>w1 w2. t_Disconnect who w = Inr w1 \<and> ts_status (clients w1 who) = ST_FREE
    \<and> TClose (ts_socket (clients w who)) \<in> set (t_log w1)
    \<and> ProceedAccept os w1 = Inr w2 \<and> ts_status (clients w2 who) = ST_ACCEPTED
    \<and> ts_id (clients w2 who) = who \<and> ts_socket (clients w2 who) = t_newbie w
    \<and> view_list (clients w2 who) = view_list (clients w who)
    \<and> ts_recvBytes (clients w2 who) = ts_recvBytes (clients w who)
    \<and> TRecv (t_newbie w) (ts_recvBytes (clients w who)) (int T_BUF_SIZE - ts_recvBytes (clients w who))
        \<in> set (t_log w2)"
proof -
  let ?f = "fold (forget_client who) users w"
  let ?w1 = "on_place who (\<lambda>s. s\<lparr>ts_status := ST_FREE\<rparr>) (t_emit (TClose (ts_socket (clients ?f who))) ?f)"
  have pl: "t_IsPlayer who" using user_place_bounds [OF assms(1)] by blast
  have D: "t_Disconnect who w = Inr ?w1" using pl assms(2) by (simp add: t_Disconnect_def Let_def)
  have f: "find (\<lambda>i. ts_status (clients ?w1 i) = ST_FREE) users = Some who"
    by (rule find_first_user [OF assms(1)]) (use assms(3) in \<open>simp_all add: forget_client_keeps\<close>)
  have "who \<noteq> -1" using user_place_bounds [OF assms(1)] by simp
  then obtain w2 where "ProceedAccept os ?w1 = Inr w2" "clients w2 who = (clients ?w1 who)\<lparr>ts_status := ST_ACCEPTED,
      ts_avatar := Some \<lparr>av_x = 4, av_y = 4\<rparr>, ts_id := who, ts_socket := t_newbie w\<rparr>"
    "TRecv (t_newbie w) (ts_recvBytes (clients ?w1 who)) (int T_BUF_SIZE - ts_recvBytes (clients ?w1 who)) \<in> set (t_log w2)"
    using f assms(4,5)
    by (simp add: ProceedAccept_def MakeNewbieID_def Let_def t_Listen_def MakeSocket_def do_recv_def forget_client_keeps)
  then show ?thesis using D by (intro exI [of _ ?w1] exI [of _ w2]) (simp add: forget_client_keeps)
qed

theorem newcomer_inherits_witness:
  "\<exists>w1 w2. t_Disconnect 200000 (on_place 200000 (\<lambda>s. s\<lparr>view_list := {200001}, ts_recvBytes := 3\<rparr>)
      (demo_term\<lparr>t_newbie := 9\<rparr>)) = Inr w1
    \<and> ProceedAccept demo_term_os w1 = Inr w2 \<and> ts_socket (clients w2 200000) = 9
    \<and> view_list (clients w2 200000) = {200001} \<and> ts_recvBytes (clients w2 200000) = 3"
proof -
  let ?w = "on_place 200000 (\<lambda>s. s\<lparr>view_list := {200001}, ts_recvBytes := 3\<rparr>) (demo_term\<lparr>t_newbie := 9\<rparr>)"
  have "user_place 200000" "ts_status (clients ?w 200000) \<noteq> ST_FREE" "t_newbie ?w = 9"
    "view_list (clients ?w 200000) = {200001}" "ts_recvBytes (clients ?w 200000) = 3"
    by (simp_all add: user_place_def term_consts demo_term_def demo_term_player_def)
  moreover have "ts_status (clients ?w i) \<noteq> ST_FREE" if "user_place i" "i < 200000" for i
    using that by (simp add: user_place_def term_consts)
  moreover have "t_accept demo_term_os n" for n by (simp add: demo_term_os_def)
  ultimately show ?thesis using newcomer_inherits [of 200000 ?w demo_term_os] by fastforce
qed

end
