(* ===== verification/TermClient.thy ===== *)
theory TermClient
  imports TermServer Packets
begin

section \<open>The client of the term project\<close>

text \<open>
  \<open>Old/TermProjectClient\<close>, which includes the packets of the server's \<open>protocol.h\<close>. Windows and
  sockets are SFML's: what a call of them gives is an argument, and what was asked of them is the
  list \<open>tc_log\<close>. Sessions and objects are shared between maps and variables, so they are named
  by their place in the lists of all that were made; a pointer is \<open>None\<close> when it is null.
\<close>

subsection \<open>Objects, sessions, the state\<close>

datatype sf_status = SfDone | SfNotReady | SfPartial | SfDisconnected | SfError

datatype sf_key = KeyLeft | KeyRight | KeyUp | KeyDown | KeyEscape | KeyOther

datatype sf_event = EvClosed | EvKeyPressed sf_key | EvOther

text \<open>A sprite keeps its file, its origin and the part of the texture it shows.\<close>

record sf_sprite =
  sp_path :: string
  sp_origin :: "rat \<times> rat"
  sp_rect :: "(int \<times> int \<times> int \<times> int) option"

record tc_object =
  ob_session :: "nat option"
  ob_sprite :: "sf_sprite option"
  ob_visible :: bool
  m_x :: rat
  m_y :: rat

text \<open>Of a \<open>Session\<close> the chat text and its time are left out, which nothing sets.\<close>

record tc_session =
  sn_id :: pid
  sn_character :: "nat option"
  sn_is_player :: bool
  sn_name :: bytes

datatype tc_effect =
  TcConnect
| TcSend bytes
| TcClear
| TcDraw sf_sprite rat rat
| TcDisplay

text \<open>
  The answers of the system: whether the window opens, whether the font loads, which files
  exist, how the connection goes, and - for the bytes that are sent from beyond the end of an
  object - what is in memory there, for each send.
\<close>

record tc_system =
  window_opens :: bool
  font_loads :: bool
  file_exists :: "string \<Rightarrow> bool"
  connect_status :: sf_status
  beyond :: "nat \<Rightarrow> nat \<Rightarrow> u8"
  packet_table :: u64
  derived_table :: u64

text \<open>\<open>Framework\<close>, its static \<open>wanted_size_min\<close>, and the sessions and objects that were made.\<close>

record tclient =
  tc_myID :: pid
  tc_mySession :: "nat option"
  tc_myAvatar :: "nat option"
  everyInstances :: "(pid \<times> nat) list"
  everyPlayers :: "pid \<rightharpoonup> nat option"
  everyNPCs :: "pid \<rightharpoonup> nat option"
  everySprites :: "string \<rightharpoonup> sf_sprite"
  view_x :: rat
  view_y :: rat
  tc_open :: bool
  recvBuffer :: bytes
  recvSize :: nat
  savedBuffer :: bytes
  savedSize :: nat
  wanted_size_min :: nat
  tc_sessions :: "tc_session list"
  tc_objects :: "tc_object list"
  tc_log :: "tc_effect list"

definition SAVED_SIZE :: nat where "SAVED_SIZE = 512"

definition new_Framework :: tclient where
  "new_Framework = \<lparr>tc_myID = 0, tc_mySession = None, tc_myAvatar = None, everyInstances = [],
     everyPlayers = Map.empty, everyNPCs = Map.empty, everySprites = Map.empty, view_x = 0, view_y = 0,
     tc_open = False, recvBuffer = replicate T_BUF_SIZE 0, recvSize = 0,
     savedBuffer = replicate SAVED_SIZE 0, savedSize = 0, wanted_size_min = 0,
     tc_sessions = [], tc_objects = [], tc_log = []\<rparr>"

definition tc_emit :: "tc_effect \<Rightarrow> tclient \<Rightarrow> tclient" where
  "tc_emit e c = c\<lparr>tc_log := tc_log c @ [e]\<rparr>"

definition on_object :: "nat \<Rightarrow> (tc_object \<Rightarrow> tc_object) \<Rightarrow> tclient \<Rightarrow> tclient" where
  "on_object a f c = c\<lparr>tc_objects := (tc_objects c)[a := f (tc_objects c ! a)]\<rparr>"

definition on_tc_session :: "nat \<Rightarrow> (tc_session \<Rightarrow> tc_session) \<Rightarrow> tclient \<Rightarrow> tclient" where
  "on_tc_session s f c = c\<lparr>tc_sessions := (tc_sessions c)[s := f (tc_sessions c ! s)]\<rparr>"

text \<open>A call through a shared pointer.\<close>

definition through :: "nat option \<Rightarrow> (nat \<Rightarrow> tclient \<Rightarrow> tclient) \<Rightarrow> tclient \<Rightarrow> tclient res" where
  "through p f c = (case p of None \<Rightarrow> Inl NullDeref | Some a \<Rightarrow> Inr (f a c))"

subsection \<open>Objects and sessions\<close>

definition show_object :: "nat \<Rightarrow> tclient \<Rightarrow> tclient" where
  "show_object a = on_object a (\<lambda>ob. ob\<lparr>ob_visible := True\<rparr>)"

definition hide_object :: "nat \<Rightarrow> tclient \<Rightarrow> tclient" where
  "hide_object a = on_object a (\<lambda>ob. ob\<lparr>ob_visible := False\<rparr>)"

definition jump_object :: "rat \<Rightarrow> rat \<Rightarrow> nat \<Rightarrow> tclient \<Rightarrow> tclient" where
  "jump_object x y a = on_object a (\<lambda>ob. ob\<lparr>m_x := x, m_y := y\<rparr>)"

definition make_object :: "nat option \<Rightarrow> sf_sprite \<Rightarrow> tclient \<Rightarrow> nat \<times> tclient" where
  "make_object s sp c = (length (tc_objects c), c\<lparr>tc_objects := tc_objects c
     @ [\<lparr>ob_session = s, ob_sprite = Some sp, ob_visible = True, m_x = 0, m_y = 0\<rparr>]\<rparr>)"

definition set_name :: "bytes \<Rightarrow> nat \<Rightarrow> tclient \<Rightarrow> tclient" where
  "set_name str s = on_tc_session s (\<lambda>sn. sn\<lparr>sn_name := str\<rparr>)"

definition set_character :: "nat \<Rightarrow> nat \<Rightarrow> tclient \<Rightarrow> tclient" where
  "set_character a s = on_tc_session s (\<lambda>sn. sn\<lparr>sn_character := Some a\<rparr>)"

text \<open>Drawing has no effect on a closed window.\<close>

definition tc_draw :: "tc_effect \<Rightarrow> tclient \<Rightarrow> tclient" where
  "tc_draw e c = (if tc_open c then tc_emit e c else c)"

definition RenderObject :: "nat \<Rightarrow> tclient \<Rightarrow> tclient" where
  "RenderObject a c = (let ob = tc_objects c ! a
     in if \<not> ob_visible ob then c
        else case ob_sprite ob of
          None \<Rightarrow> c
        | Some sp \<Rightarrow> tc_draw (TcDraw sp (fadd (fmul (fsub (m_x ob) (view_x c)) 65) 8)
            (fadd (fmul (fsub (m_y ob) (view_y c)) 65) 8)) c)"

definition CreateSession :: "pid \<Rightarrow> bool \<Rightarrow> tclient \<Rightarrow> nat \<times> tclient" where
  "CreateSession i is_player c = (length (tc_sessions c), c\<lparr>tc_sessions := tc_sessions c
     @ [\<lparr>sn_id = i, sn_character = None, sn_is_player = is_player, sn_name = []\<rparr>]\<rparr>)"

text \<open>
  Both make the session for \<open>myID\<close> and not for the identifier they are given; \<open>insert\<close> changes
  nothing when the key is there already, and then it is the old pointer that is returned.
\<close>

definition CreatePlayer :: "pid \<Rightarrow> tclient \<Rightarrow> nat option \<times> tclient" where
  "CreatePlayer i c = (let (s, c1) = CreateSession (tc_myID c) True c
     in case everyPlayers c1 (tc_myID c) of
       Some old \<Rightarrow> (old, c1)
     | None \<Rightarrow> (Some s, c1\<lparr>everyPlayers := (everyPlayers c1)(tc_myID c \<mapsto> Some s)\<rparr>))"

definition tc_CreateNPC :: "pid \<Rightarrow> tclient \<Rightarrow> nat option \<times> tclient" where
  "tc_CreateNPC i c = (let (s, c1) = CreateSession (tc_myID c) False c
     in case everyNPCs c1 (tc_myID c) of
       Some old \<Rightarrow> (old, c1)
     | None \<Rightarrow> (Some s, c1\<lparr>everyNPCs := (everyNPCs c1)(tc_myID c \<mapsto> Some s)\<rparr>))"

definition RemoveSession :: "pid \<Rightarrow> tclient \<Rightarrow> tclient" where
  "RemoveSession i c = c\<lparr>everyPlayers := (everyPlayers c)(i := None)\<rparr>"

subsection \<open>Sprites\<close>

definition CreateSprite :: "tc_system \<Rightarrow> string \<Rightarrow> rat \<Rightarrow> rat \<Rightarrow> (int \<times> int \<times> int \<times> int) option \<Rightarrow> sf_sprite res" where
  "CreateSprite sys path ox oy rect =
     (if \<not> file_exists sys path then Inl Thrown
      else Inr \<lparr>sp_path = path, sp_origin = (ox, oy), sp_rect = rect\<rparr>)"

definition AddSprite :: "string \<Rightarrow> sf_sprite \<Rightarrow> tclient \<Rightarrow> tclient" where
  "AddSprite name sp c = (case everySprites c name of
      Some _ \<Rightarrow> c
    | None \<Rightarrow> c\<lparr>everySprites := (everySprites c)(name \<mapsto> sp)\<rparr>)"

definition LoadSprite :: "tc_system \<Rightarrow> string \<Rightarrow> string \<Rightarrow> rat \<Rightarrow> rat \<Rightarrow> (int \<times> int \<times> int \<times> int) option
    \<Rightarrow> tclient \<Rightarrow> tclient res" where
  "LoadSprite sys name path ox oy rect c =
     rbind (CreateSprite sys path ox oy rect) (\<lambda>sp. Inr (AddSprite name sp c))"

definition GetSprite :: "string \<Rightarrow> tclient \<Rightarrow> sf_sprite res" where
  "GetSprite name c = (case everySprites c name of Some sp \<Rightarrow> Inr sp | None \<Rightarrow> Inl OutOfRange)"

subsection \<open>Sending\<close>

text \<open>The bytes of the two packets the client makes.\<close>

definition CS_LOGIN_PACKET :: "tc_system \<Rightarrow> bytes \<Rightarrow> bytes" where
  "CS_LOGIN_PACKET sys nickname = le_bytes 8 (unat (derived_table sys)) @ [30, 1]
     @ string_copy_safe T_NAME_SIZE nickname"

definition CS_MOVE_PACKET :: "tc_system \<Rightarrow> term_move \<Rightarrow> bytes" where
  "CS_MOVE_PACKET sys dir = le_bytes 8 (unat (derived_table sys)) @ [15, 2]
     @ [case dir of T_STAY \<Rightarrow> 0 | T_LEFT \<Rightarrow> 1 | T_RIGHT \<Rightarrow> 2 | T_UP \<Rightarrow> 3 | T_DOWN \<Rightarrow> 4] @ le_bytes 4 0"

text \<open>\<open>n\<close> bytes from an object on, and from what lies beyond it in memory.\<close>

definition SendBytes :: "tc_system \<Rightarrow> bytes \<Rightarrow> nat \<Rightarrow> tclient \<Rightarrow> tclient" where
  "SendBytes sys obj n c = tc_emit (TcSend (take n obj
     @ map (beyond sys (length (tc_log c))) [0..<n - length obj])) c"

definition SendPacket_ref :: "tc_system \<Rightarrow> bytes \<Rightarrow> tclient \<Rightarrow> tclient" where
  "SendPacket_ref sys packet c = SendBytes sys packet (unat (t_view_size packet)) c"

text \<open>A temporary is copied into a local \<open>Packet\<close>, whose own bytes are its table, size and type.\<close>

definition SendPacket_temporary :: "tc_system \<Rightarrow> bytes \<Rightarrow> tclient \<Rightarrow> tclient" where
  "SendPacket_temporary sys packet c =
     (let copied = le_bytes 8 (unat (packet_table sys)) @ [byte_at packet 8, byte_at packet 9]
      in SendBytes sys copied (unat (t_view_size packet)) c)"

subsection \<open>Packets\<close>

definition tc_view_pid :: "bytes \<Rightarrow> pid" where
  "tc_view_pid p = signed_of 8 (read_le p 10 8)"

definition tc_view_f32 :: "bytes \<Rightarrow> nat \<Rightarrow> rat" where
  "tc_view_f32 p i = f32_of_bits (read_le p i 4)"

text \<open>The buffer ends with zeros, as no packet is longer than 255 bytes.\<close>

definition tc_view_nickname :: "bytes \<Rightarrow> bytes" where
  "tc_view_nickname p = takeWhile (\<lambda>b. b \<noteq> 0) (drop 19 p)"

definition to_string :: "int \<Rightarrow> bytes" where
  "to_string i = (if i < 0 then 45 # decimal (nat (- i)) else decimal (nat i))"

text \<open>What is done to a session for which there was none: its object, at the place in the packet.\<close>

definition give_avatar :: "nat option \<Rightarrow> rat \<Rightarrow> rat \<Rightarrow> tclient \<Rightarrow> (nat \<times> tclient) res" where
  "give_avatar session x y c =
     rbind (GetSprite ''sPiece'' c) (\<lambda>sprite.
       let (a, c1) = make_object session sprite c;
           c2 = show_object a (jump_object x y a c1)
       in rbind (through session (set_character a) c2) (\<lambda>c3. Inr (a, c3)))"

definition on_login_ok :: "bytes \<Rightarrow> tclient \<Rightarrow> tclient res" where
  "on_login_ok p c =
     (let x = tc_view_f32 p 54; y = tc_view_f32 p 58; (session, c1) = CreatePlayer (tc_myID c) c
      in rbind (through session (set_name (80 # to_string (tc_myID c1))) c1) (\<lambda>c2.
         rbind (give_avatar session x y c2) (\<lambda>(a, c3).
           Inr (c3\<lparr>view_x := fsub x 4, view_y := fsub y 4, tc_myID := tc_view_pid p,
             tc_mySession := session, tc_myAvatar := Some a\<rparr>))))"

definition add_session :: "nat option \<times> tclient \<Rightarrow> bytes \<Rightarrow> tclient res" where
  "add_session sc p = (case sc of (session, c) \<Rightarrow>
     rbind (through session (set_name (tc_view_nickname p)) c) (\<lambda>c1.
       rbind (give_avatar session (tc_view_f32 p 43) (tc_view_f32 p 47) c1) (\<lambda>(a, c2). Inr c2)))"

text \<open>\<open>operator[]\<close> puts a null pointer under an identifier that was not there.\<close>

definition on_add_object :: "bytes \<Rightarrow> tclient \<Rightarrow> tclient res" where
  "on_add_object p c =
     (let i = tc_view_pid p
      in if t_IsPlayer i then
           if everyPlayers c i \<noteq> None then Inr c
           else add_session (CreatePlayer i (c\<lparr>everyPlayers := (everyPlayers c)(i \<mapsto> None)\<rparr>)) p
         else if t_IsNPC i then
           if everyNPCs c i \<noteq> None then Inr c
           else add_session (tc_CreateNPC i (c\<lparr>everyNPCs := (everyNPCs c)(i \<mapsto> None)\<rparr>)) p
         else Inr c)"

text \<open>The character of a session that a map holds.\<close>

definition character_of :: "nat option \<Rightarrow> tclient \<Rightarrow> nat option res" where
  "character_of s c = (case s of None \<Rightarrow> Inl NullDeref | Some s \<Rightarrow> Inr (sn_character (tc_sessions c ! s)))"

definition move_character :: "nat option option \<Rightarrow> bytes \<Rightarrow> tclient \<Rightarrow> tclient res" where
  "move_character it p c = (case it of
      None \<Rightarrow> Inr c
    | Some s \<Rightarrow> rbind (character_of s c) (\<lambda>ch. through ch (jump_object (tc_view_f32 p 18) (tc_view_f32 p 22)) c))"

definition on_move_object :: "bytes \<Rightarrow> tclient \<Rightarrow> tclient res" where
  "on_move_object p c =
     (let i = tc_view_pid p; x = tc_view_f32 p 18; y = tc_view_f32 p 22
      in if i = tc_myID c then
           rbind (through (tc_myAvatar c) (jump_object x y) c) (\<lambda>c1.
             Inr (c1\<lparr>view_x := fsub x 4, view_y := fsub y 4\<rparr>))
         else if t_IsPlayer i then move_character (everyPlayers c i) p c
         else move_character (everyNPCs c i) p c)"

definition hide_character :: "nat option \<Rightarrow> tclient \<Rightarrow> tclient res" where
  "hide_character s c = rbind (character_of s c) (\<lambda>ch. case ch of
      Some a \<Rightarrow> Inr (hide_object a c)
    | None \<Rightarrow> Inl Thrown)"

definition on_remove_object :: "bytes \<Rightarrow> tclient \<Rightarrow> tclient res" where
  "on_remove_object p c =
     (let i = tc_view_pid p
      in if i = tc_myID c then through (tc_myAvatar c) hide_object c
         else if t_IsPlayer i then (case everyPlayers c i of
             None \<Rightarrow> Inr c
           | Some s \<Rightarrow> rbind (hide_character s c) (\<lambda>c1. Inr (c1\<lparr>everyPlayers := (everyPlayers c1)(i := None)\<rparr>)))
         else (case everyNPCs c i of
             None \<Rightarrow> Inr c
           | Some s \<Rightarrow> rbind (hide_character s c) (\<lambda>c1. Inr (c1\<lparr>everyNPCs := (everyNPCs c1)(i := None)\<rparr>))))"

definition tc_ProcessPacket :: "bytes \<Rightarrow> tclient \<Rightarrow> tclient res" where
  "tc_ProcessPacket p c = (case t_view_type p of
      Some T_SC_LOGIN_OK \<Rightarrow> on_login_ok p c
    | Some T_SC_ADD_OBJECT \<Rightarrow> on_add_object p c
    | Some T_SC_MOVE_OBJECT \<Rightarrow> on_move_object p c
    | Some T_SC_REMOVE_OBJECT \<Rightarrow> on_remove_object p c
    | _ \<Rightarrow> Inr c)"

subsection \<open>Receiving\<close>

text \<open>
  The loop of \<open>ProcessStream\<close>, with \<open>recvSize\<close> bytes left from \<open>off\<close> on. The size of a packet is
  read where its ninth byte would be, however many bytes have come. The test of \<open>recvBuffer\<close>,
  which is an array, always passes.
\<close>

definition save_bytes :: "nat \<Rightarrow> nat \<Rightarrow> tclient \<Rightarrow> tclient" where
  "save_bytes off n c = c\<lparr>savedBuffer := take (savedSize c) (savedBuffer c) @ take n (drop off (recvBuffer c))
     @ drop (savedSize c + n) (savedBuffer c)\<rparr>"

fun stream_loop :: "nat \<Rightarrow> nat \<Rightarrow> tclient \<Rightarrow> tclient res" where
  "stream_loop 0 off c = Inl NoReturn"
| "stream_loop (Suc fuel) off c =
     (if recvSize c = 0 then Inr c
      else if wanted_size_min c = 0 \<and> length (recvBuffer c) \<le> off + 8 then Inl BufferOverrun
      else
        let want = (if wanted_size_min c = 0 then unat (t_view_size (drop off (recvBuffer c))) else wanted_size_min c);
            c1 = c\<lparr>wanted_size_min := want\<rparr>
        in if want \<le> recvSize c + savedSize c then
             let n = want - savedSize c
             in if want < savedSize c \<or> length (recvBuffer c) < off + n \<or> SAVED_SIZE < want then Inl BufferOverrun
                else rbind (tc_ProcessPacket (savedBuffer (save_bytes off n c1)) (save_bytes off n c1)) (\<lambda>c2.
                  stream_loop fuel (off + n) (c2\<lparr>recvSize := recvSize c2 - n, wanted_size_min := 0, savedSize := 0\<rparr>))
           else if length (recvBuffer c) < off + recvSize c \<or> SAVED_SIZE < savedSize c + recvSize c then Inl BufferOverrun
           else let c2 = save_bytes off (recvSize c) c1
             in Inr (c2\<lparr>savedSize := savedSize c2 + recvSize c2, recvSize := 0\<rparr>))"

declare stream_loop.simps(2) [simp del]

definition ProcessStream :: "nat \<Rightarrow> tclient \<Rightarrow> tclient res" where
  "ProcessStream fuel c = stream_loop fuel 0 c"

text \<open>One call of \<open>receive\<close> gives a status and what it wrote to the buffer.\<close>

definition TryReceive :: "bytes \<Rightarrow> tclient \<Rightarrow> tclient" where
  "TryReceive data c = c\<lparr>recvBuffer := data @ drop (length data) (recvBuffer c), recvSize := length data\<rparr>"

definition tc_Close :: "tclient \<Rightarrow> tclient" where
  "tc_Close c = c\<lparr>tc_open := False\<rparr>"

definition tc_Release :: "tclient \<Rightarrow> tclient" where
  "tc_Release c = (if tc_open c then c\<lparr>tc_open := False\<rparr> else c)"

definition CallbackNetwork :: "nat \<Rightarrow> sf_status \<times> bytes \<Rightarrow> tclient \<Rightarrow> tclient res" where
  "CallbackNetwork fuel rc c = (case rc of (result, data) \<Rightarrow>
     let c1 = TryReceive data c
     in case result of
       SfError \<Rightarrow> Inl Thrown
     | SfDisconnected \<Rightarrow> Inr (tc_Close c1)
     | SfNotReady \<Rightarrow> ProcessStream fuel c1
     | _ \<Rightarrow> Inr c1)"

subsection \<open>The window\<close>

definition tc_Render :: "tclient \<Rightarrow> tclient" where
  "tc_Render c =
     (let c1 = fold (\<lambda>(i, a). RenderObject a) (everyInstances c) (tc_draw TcClear c);
          c2 = (case tc_myAvatar c1 of Some a \<Rightarrow> RenderObject a c1 | None \<Rightarrow> c1)
      in tc_draw TcDisplay c2)"

definition move_of_key :: "sf_key \<Rightarrow> term_move" where
  "move_of_key k = (case k of KeyLeft \<Rightarrow> T_LEFT | KeyRight \<Rightarrow> T_RIGHT | KeyUp \<Rightarrow> T_UP | KeyDown \<Rightarrow> T_DOWN
     | _ \<Rightarrow> T_STAY)"

text \<open>The events of one turn; a closed window has no more of them.\<close>

fun poll_events :: "tc_system \<Rightarrow> sf_event list \<Rightarrow> tclient \<Rightarrow> tclient" where
  "poll_events sys [] c = c"
| "poll_events sys (e # es) c =
     (if \<not> tc_open c then c
      else case e of
        EvClosed \<Rightarrow> tc_Close c
      | EvKeyPressed k \<Rightarrow>
          let c1 = (if k = KeyEscape then tc_Close c else c);
              c2 = (if T_STAY \<noteq> move_of_key k then SendPacket_temporary sys (CS_MOVE_PACKET sys (move_of_key k)) c1
                else c1)
          in poll_events sys es c2
      | EvOther \<Rightarrow> poll_events sys es c)"

type_synonym tc_turn = "sf_event list \<times> sf_status \<times> bytes"

fun tc_Update :: "nat \<Rightarrow> tc_system \<Rightarrow> tc_turn list \<Rightarrow> tclient \<Rightarrow> tclient res" where
  "tc_Update fuel sys [] c = Inr c"
| "tc_Update fuel sys ((es, rc) # ts) c =
     (if \<not> tc_open c then Inr c
      else rbind (CallbackNetwork fuel rc (poll_events sys es c)) (\<lambda>c1.
        tc_Update fuel sys ts (tc_Render c1)))"

subsection \<open>The program\<close>

definition tc_Awake :: "tc_system \<Rightarrow> tclient \<Rightarrow> tclient res" where
  "tc_Awake sys c =
     (if \<not> window_opens sys then Inl Thrown
      else if \<not> font_loads sys then Inl Exited
      else Inr (c\<lparr>tc_open := True\<rparr>))"

definition tc_Start :: "tc_system \<Rightarrow> tclient \<Rightarrow> tclient res" where
  "tc_Start sys c =
     (let c1 = tc_emit TcConnect c
      in if SfDone \<noteq> connect_status sys then Inl Thrown
         else Inr (SendPacket_temporary sys (CS_LOGIN_PACKET sys [84, 69, 77, 80]) c1))"

text \<open>\<open>main\<close>, for the turns that happened; after the loop the window is closed and the program ends.\<close>

definition tc_main :: "nat \<Rightarrow> tc_system \<Rightarrow> tc_turn list \<Rightarrow> tclient res" where
  "tc_main fuel sys ts =
     rbind (tc_Awake sys new_Framework) (\<lambda>c1.
     rbind (LoadSprite sys ''sBoard'' ''chessmap.bmp'' 0 0 (Some (0, 0, 64, 64)) c1) (\<lambda>c2.
     rbind (LoadSprite sys ''sPieces'' ''chess2.png'' 0 0 (Some (128, 0, 64, 64)) c2) (\<lambda>c3.
     rbind (tc_Start sys c3) (\<lambda>c4.
     rbind (tc_Update fuel sys ts c4) (\<lambda>c5. Inr (if tc_open c5 then c5 else tc_Release c5))))))"

end
