(* ===== verification/TermClientProps.thy ===== *)
theory TermClientProps
  imports TermClient
begin

section \<open>What the client of the term project does\<close>

text \<open>
  The client assembles packets only when its socket has nothing for it, so it shows nothing. What
  it sends is cut down to the ten bytes every packet has, so that no key is told from another.
  And had it handled packets, the first player it were told of would end it at the next move.
\<close>

subsection \<open>Nothing is shown\<close>

text \<open>A client that has been told nothing.\<close>

definition told_nothing :: "tclient \<Rightarrow> bool" where
  "told_nothing c \<longleftrightarrow> everyPlayers c = Map.empty \<and> everyNPCs c = Map.empty \<and> everyInstances c = []
     \<and> tc_myAvatar c = None \<and> tc_sessions c = [] \<and> tc_objects c = []
     \<and> everySprites c ''sPiece'' = None \<and> (\<forall>sp x y. TcDraw sp x y \<notin> set (tc_log c))"

lemma told_nothing_simps [simp]:
  "told_nothing (tc_emit e c) \<longleftrightarrow> told_nothing c \<and> (\<forall>sp x y. e \<noteq> TcDraw sp x y)"
  "told_nothing (c\<lparr>tc_open := b\<rparr>) = told_nothing c"
  "told_nothing (TryReceive data c) = told_nothing c"
  "told_nothing (tc_Close c) = told_nothing c"
  "told_nothing (SendPacket_temporary sys p c) = told_nothing c"
  by (auto simp: told_nothing_def tc_emit_def TryReceive_def tc_Close_def SendPacket_temporary_def SendBytes_def
      Let_def)

lemma told_nothing_poll [simp]: "told_nothing (poll_events sys es c) = told_nothing c"
  by (induction sys es c rule: poll_events.induct) (simp_all add: Let_def split: sf_event.split)

lemma told_nothing_render: "told_nothing c \<Longrightarrow> told_nothing (tc_Render c)"
  by (simp add: tc_Render_def tc_draw_def Let_def told_nothing_def tc_emit_def)

text \<open>
  What SFML says of a socket that does not block: when it is not ready, nothing was received;
  and no more is received than was asked for.
\<close>

fun received_as_documented :: "tc_turn \<Rightarrow> bool" where
  "received_as_documented (es, st, data) \<longleftrightarrow> (st = SfNotReady \<longrightarrow> data = []) \<and> length data \<le> T_BUF_SIZE"

definition no_error :: "tc_turn \<Rightarrow> bool" where
  "no_error t \<longleftrightarrow> fst (snd t) \<noteq> SfError"

lemma network_told_nothing:
  assumes "told_nothing c" and "st \<noteq> SfError" and "st = SfNotReady \<longrightarrow> data = []"
  shows "\<exists>c'. CallbackNetwork (Suc fuel) (st, data) c = Inr c' \<and> told_nothing c'"
proof (cases "st = SfNotReady")
  case True
  then have "CallbackNetwork (Suc fuel) (st, data) c = Inr (TryReceive data c)"
    using assms(3) by (simp add: CallbackNetwork_def ProcessStream_def stream_loop.simps(2) TryReceive_def)
  then show ?thesis using assms(1) by simp
next
  case False
  then show ?thesis using assms(1,2) by (cases st) (simp_all add: CallbackNetwork_def)
qed

lemma update_told_nothing:
  assumes "told_nothing c" and "\<forall>t\<in>set ts. received_as_documented t" and "\<forall>t\<in>set ts. no_error t"
  shows "\<exists>c'. tc_Update (Suc fuel) sys ts c = Inr c' \<and> told_nothing c'"
  using assms
proof (induction "Suc fuel" sys ts c rule: tc_Update.induct)
  case (1 sys c)
  then show ?case by simp
next
  case (2 sys es rc ts c)
  obtain st data where rc: "rc = (st, data)" by (cases rc)
  obtain c1 where c1: "CallbackNetwork (Suc fuel) rc (poll_events sys es c) = Inr c1" "told_nothing c1"
    using network_told_nothing [of "poll_events sys es c" st data fuel] 2(2-4) rc by (auto simp: no_error_def)
  then show ?case
    using 2(1) [of c1] 2(2-4) told_nothing_render [OF c1(2)] by auto
qed

definition starts_up :: "tc_system \<Rightarrow> bool" where
  "starts_up sys \<longleftrightarrow> window_opens sys \<and> font_loads sys \<and> file_exists sys ''chessmap.bmp''
     \<and> file_exists sys ''chess2.png'' \<and> connect_status sys = SfDone"

text \<open>The client when it enters its loop.\<close>

definition tc_entered :: "tc_system \<Rightarrow> tclient" where
  "tc_entered sys = SendPacket_temporary sys (CS_LOGIN_PACKET sys [84, 69, 77, 80])
     (new_Framework\<lparr>tc_open := True, everySprites := [''sBoard'' \<mapsto>
       \<lparr>sp_path = ''chessmap.bmp'', sp_origin = (0, 0), sp_rect = Some (0, 0, 64, 64)\<rparr>, ''sPieces'' \<mapsto>
       \<lparr>sp_path = ''chess2.png'', sp_origin = (0, 0), sp_rect = Some (128, 0, 64, 64)\<rparr>],
       tc_log := [TcConnect]\<rparr>)"

lemma main_enters:
  assumes "starts_up sys"
  shows "tc_main fuel sys ts = tc_Update fuel sys ts (tc_entered sys)"
proof -
  have "tc_main fuel sys ts = rbind (tc_Update fuel sys ts (tc_entered sys))
      (\<lambda>c. Inr (if tc_open c then c else tc_Release c))"
    using assms by (simp add: tc_main_def starts_up_def tc_Awake_def LoadSprite_def CreateSprite_def AddSprite_def
        tc_Start_def tc_entered_def tc_emit_def new_Framework_def)
  also have "\<dots> = tc_Update fuel sys ts (tc_entered sys)"
    by (cases "tc_Update fuel sys ts (tc_entered sys)") (simp_all add: tc_Release_def)
  finally show ?thesis .
qed

lemma entered_told_nothing: "told_nothing (tc_entered sys)"
  by (simp add: tc_entered_def) (simp add: told_nothing_def new_Framework_def)

text \<open>C9: The client of the term project never shows anything: whatever the server sends, it runs
  on without an object, a session or an avatar, and draws no sprite. It assembles packets only when
  its socket is not ready, and drops what it gets when the socket is. Had it handled the answer to
  its sign-in, it would have ended there: the sprite it asks for was loaded under another name.\<close>

theorem term_client_shows_nothing:
  assumes "starts_up sys" and "\<forall>t\<in>set ts. received_as_documented t" and "\<forall>t\<in>set ts. no_error t" and "0 < fuel"
  shows "\<exists>c. tc_main fuel sys ts = Inr c \<and> everyPlayers c = Map.empty \<and> everyNPCs c = Map.empty
    \<and> tc_myAvatar c = None \<and> (\<forall>sp x y. TcDraw sp x y \<notin> set (tc_log c))
    \<and> (\<forall>p. t_view_type p = Some T_SC_LOGIN_OK \<longrightarrow> tc_ProcessPacket p c = Inl OutOfRange)"
proof -
  obtain f where f: "fuel = Suc f" using assms(4) by (cases fuel) auto
  obtain c where c: "tc_main fuel sys ts = Inr c" "told_nothing c"
    using update_told_nothing [OF entered_told_nothing assms(2,3), of f sys sys] main_enters [OF assms(1)] f by auto
  have "tc_ProcessPacket p c = Inl OutOfRange" if "t_view_type p = Some T_SC_LOGIN_OK" for p
    using c(2) that by (simp add: tc_ProcessPacket_def on_login_ok_def CreatePlayer_def CreateSession_def told_nothing_def
        through_def give_avatar_def GetSprite_def set_name_def on_tc_session_def Let_def)
  then show ?thesis using c by (auto simp: told_nothing_def)
qed

definition demo_sys :: tc_system where
  "demo_sys = \<lparr>window_opens = True, font_loads = True, file_exists = (\<lambda>_. True), connect_status = SfDone,
     beyond = (\<lambda>n i. word_of_nat (n + i)), packet_table = 4096, derived_table = 8192\<rparr>"

lemma demo_sys_starts: "starts_up demo_sys"
  by (simp add: starts_up_def demo_sys_def)

lemma term_client_shows_nothing_witness:
  "\<exists>c. tc_main 1 demo_sys [([EvKeyPressed KeyLeft], SfDone, replicate 62 8), ([], SfNotReady, [])] = Inr c
    \<and> everyPlayers c = Map.empty \<and> tc_myAvatar c = None"
  using term_client_shows_nothing [OF demo_sys_starts,
      of "[([EvKeyPressed KeyLeft], SfDone, replicate 62 8), ([], SfNotReady, [])]" 1]
  by (auto simp: no_error_def T_BUF_SIZE_def)

subsection \<open>What is sent\<close>

lemma view_of_move [simp]:
  "byte_at (CS_MOVE_PACKET sys d) 8 = 15" "byte_at (CS_MOVE_PACKET sys d) 9 = 2"
  by (simp_all add: CS_MOVE_PACKET_def byte_at_def nth_append)

lemma send_move_any: "SendPacket_temporary sys (CS_MOVE_PACKET sys d) = SendPacket_temporary sys (CS_MOVE_PACKET sys d')"
  by (simp add: SendPacket_temporary_def t_view_size_def fun_eq_iff)

text \<open>Another key in the place of each, an arrow in the place of an arrow.\<close>

definition swaps_arrows :: "(sf_key \<Rightarrow> sf_key) \<Rightarrow> bool" where
  "swaps_arrows f \<longleftrightarrow> (\<forall>k. if move_of_key k = T_STAY then f k = k else move_of_key (f k) \<noteq> T_STAY)"

fun pressed :: "(sf_key \<Rightarrow> sf_key) \<Rightarrow> sf_event \<Rightarrow> sf_event" where
  "pressed f (EvKeyPressed k) = EvKeyPressed (f k)"
| "pressed f e = e"

lemma poll_swapped:
  assumes "swaps_arrows f"
  shows "poll_events sys (map (pressed f) es) c = poll_events sys es c"
proof (induction es arbitrary: c)
  case Nil
  then show ?case by simp
next
  case (Cons e es)
  show ?case
  proof (cases e)
    case (EvKeyPressed k)
    have esc: "move_of_key KeyEscape = T_STAY" by (simp add: move_of_key_def)
    have k: "f k = KeyEscape \<longleftrightarrow> k = KeyEscape" "move_of_key (f k) = T_STAY \<longleftrightarrow> move_of_key k = T_STAY"
      using assms esc unfolding swaps_arrows_def by metis+
    have "SendPacket_temporary sys (CS_MOVE_PACKET sys (move_of_key (f k)))
        = SendPacket_temporary sys (CS_MOVE_PACKET sys (move_of_key k))" by (rule send_move_any)
    with Cons k show ?thesis unfolding EvKeyPressed by (auto simp: Let_def eq_commute [of T_STAY])
  qed (use Cons in simp_all)
qed

lemma update_swapped:
  assumes "swaps_arrows f"
  shows "tc_Update fuel sys (map (\<lambda>(es, rc). (map (pressed f) es, rc)) ts) c = tc_Update fuel sys ts c"
proof (induction fuel sys ts c rule: tc_Update.induct)
  case (1 fuel sys c)
  then show ?case by simp
next
  case (2 fuel sys es rc ts c)
  then show ?case
    by (cases "CallbackNetwork fuel rc (poll_events sys es c)") (simp_all add: poll_swapped [OF assms])
qed

text \<open>A sent packet whose body is what happened to lie in memory.\<close>

fun leftovers :: "tc_system \<Rightarrow> tc_effect \<Rightarrow> bool" where
  "leftovers sys (TcSend b) \<longleftrightarrow> (\<exists>n. drop 10 b = map (beyond sys n) [0..<length b - 10])
     \<and> (t_view_type b = Some T_CS_LOGIN \<and> length b = 30 \<or> t_view_type b = Some T_CS_MOVE \<and> length b = 15)"
| "leftovers sys e \<longleftrightarrow> True"

definition all_leftovers :: "tc_system \<Rightarrow> tclient \<Rightarrow> bool" where
  "all_leftovers sys c \<longleftrightarrow> (\<forall>e\<in>set (tc_log c). leftovers sys e)"

lemma sent_leftovers:
  assumes "t_view_size p = 30 \<and> byte_at p 9 = 1 \<or> t_view_size p = 15 \<and> byte_at p 9 = 2"
  shows "all_leftovers sys (SendPacket_temporary sys p c) = all_leftovers sys c"
proof -
  let ?o = "le_bytes 8 (unat (packet_table sys)) @ [byte_at p 8, byte_at p 9]" and ?n = "unat (t_view_size p)"
  let ?b = "?o @ map (beyond sys (length (tc_log c))) [0..<?n - 10]"
  have n: "?n = 30 \<and> byte_at p 9 = 1 \<or> ?n = 15 \<and> byte_at p 9 = 2" using assms by auto
  have "t_view_type ?b = term_type_of_code (byte_at p 9)" by (simp add: t_view_type_def byte_at_def nth_append)
  moreover have "term_type_of_code 1 = Some T_CS_LOGIN" "term_type_of_code 2 = Some T_CS_MOVE"
    by (simp_all add: term_type_of_code_def term_types_def)
  ultimately have "leftovers sys (TcSend ?b)" using n by auto
  moreover have "SendPacket_temporary sys p c = tc_emit (TcSend ?b) c"
    using n by (auto simp: SendPacket_temporary_def SendBytes_def Let_def)
  ultimately show ?thesis by (simp add: all_leftovers_def tc_emit_def)
qed

lemma process_log:
  assumes "tc_ProcessPacket p c = Inr c'"
  shows "tc_log c' = tc_log c"
proof -
  note ops = rbind_eq_Inr through_def give_avatar_def make_object_def show_object_def hide_object_def jump_object_def
    on_object_def set_name_def set_character_def on_tc_session_def CreateSession_def
  have "on_login_ok p c = Inr c' \<Longrightarrow> ?thesis"
    by (auto simp: on_login_ok_def CreatePlayer_def ops Let_def split: option.splits)
  moreover have "on_add_object p c = Inr c' \<Longrightarrow> ?thesis"
    by (auto simp: on_add_object_def add_session_def CreatePlayer_def tc_CreateNPC_def ops Let_def
        split: option.splits if_splits)
  moreover have "on_move_object p c = Inr c' \<Longrightarrow> ?thesis"
    by (auto simp: on_move_object_def move_character_def ops Let_def split: option.splits if_splits)
  moreover have "on_remove_object p c = Inr c' \<Longrightarrow> ?thesis"
    by (auto simp: on_remove_object_def hide_character_def ops Let_def split: option.splits if_splits)
  ultimately show ?thesis using assms
    by (auto simp: tc_ProcessPacket_def split: option.splits term_type.splits)
qed

lemma stream_log: "stream_loop fuel off c = Inr c' \<Longrightarrow> tc_log c' = tc_log c"
proof (induction fuel arbitrary: off c)
  case 0
  then show ?case by simp
next
  case (Suc fuel)
  show ?case
    using Suc.prems unfolding stream_loop.simps(2) Let_def
    by (simp only: rbind_eq_Inr split: if_splits)
       (auto simp: save_bytes_def dest!: Suc.IH process_log)
qed

lemma network_log:
  assumes "CallbackNetwork fuel rc c = Inr c'"
  shows "tc_log c' = tc_log c"
proof (cases rc)
  case (Pair st data)
  have "tc_log (TryReceive data c) = tc_log c" by (simp add: TryReceive_def)
  then show ?thesis
    using assms stream_log [of fuel 0 "TryReceive data c" c'] unfolding Pair
    by (cases st) (auto simp: CallbackNetwork_def ProcessStream_def tc_Close_def)
qed

lemma leftovers_simps [simp]:
  "all_leftovers sys (tc_Close c) = all_leftovers sys c"
  "all_leftovers sys (tc_emit e c) \<longleftrightarrow> leftovers sys e \<and> all_leftovers sys c"
  "all_leftovers sys (SendPacket_temporary sys (CS_MOVE_PACKET sys d) c) = all_leftovers sys c"
  using sent_leftovers [of "CS_MOVE_PACKET sys d" sys c]
  by (auto simp: all_leftovers_def tc_Close_def tc_emit_def t_view_size_def)

lemma poll_leftovers: "all_leftovers sys (poll_events sys es c) = all_leftovers sys c"
proof (induction es arbitrary: c)
  case Nil
  then show ?case by simp
next
  case (Cons e es)
  then show ?case by (cases e) (simp_all add: Let_def)
qed

lemma render_leftovers: "all_leftovers sys (tc_Render c) = all_leftovers sys c"
proof -
  have w: "all_leftovers sys (tc_draw e c) = all_leftovers sys c" if "leftovers sys e" for e c
    using that by (simp add: tc_draw_def)
  have d: "all_leftovers sys (RenderObject a c) = all_leftovers sys c" for a c
    by (cases "ob_sprite (tc_objects c ! a)"; cases "ob_visible (tc_objects c ! a)")
      (simp_all only: RenderObject_def Let_def option.case if_True if_False not_True_eq_False not_False_eq_True leftovers.simps w)
  have f: "all_leftovers sys (fold (\<lambda>(i, a). RenderObject a) xs c) = all_leftovers sys c" for xs c
    by (rule fold_invariant2 [where I = "\<lambda>c'. all_leftovers sys c' = all_leftovers sys c"])
      (simp_all add: d split_def)
  have o: "all_leftovers sys (case p of None \<Rightarrow> c | Some a \<Rightarrow> RenderObject a c) = all_leftovers sys c" for p c
    by (cases p) (simp_all add: d)
  show ?thesis by (simp add: tc_Render_def Let_def w f o)
qed

lemma update_leftovers:
  "tc_Update fuel sys ts c = Inr c' \<Longrightarrow> all_leftovers sys c \<Longrightarrow> all_leftovers sys c'"
proof (induction fuel sys ts c rule: tc_Update.induct)
  case (1 fuel sys c)
  then show ?case by simp
next
  case (2 fuel sys es rc ts c)
  show ?case
  proof (cases "tc_open c")
    case True
    then obtain c1 where c1: "CallbackNetwork fuel rc (poll_events sys es c) = Inr c1"
        "tc_Update fuel sys ts (tc_Render c1) = Inr c'"
      using 2(2) by (auto simp: rbind_eq_Inr)
    have "all_leftovers sys c1"
      using network_log [OF c1(1)] poll_leftovers [of sys es c] 2(3) by (simp add: all_leftovers_def)
    then show ?thesis using 2(1) [OF _ c1] True render_leftovers [of sys c1] by simp
  next
    case False
    then show ?thesis using 2(2,3) by simp
  qed
qed

lemma entered_leftovers: "all_leftovers sys (tc_entered sys)"
proof -
  have "t_view_size (CS_LOGIN_PACKET sys n) = 30 \<and> byte_at (CS_LOGIN_PACKET sys n) 9 = 1" for n
    by (simp add: CS_LOGIN_PACKET_def t_view_size_def byte_at_def nth_append)
  then show ?thesis unfolding tc_entered_def
    by (subst sent_leftovers) (simp_all add: all_leftovers_def)
qed



subsection \<open>What would happen to the first player it were told of\<close>

text \<open>An identifier with a null pointer keeps it.\<close>

definition holds_null :: "pid \<Rightarrow> tclient \<Rightarrow> bool" where
  "holds_null j c \<longleftrightarrow> (if t_IsPlayer j then everyPlayers c j else everyNPCs c j) = Some None"

lemma through_maps:
  assumes "through p f c = Inr c'" and "\<And>a c. everyPlayers (f a c) = everyPlayers c \<and> everyNPCs (f a c) = everyNPCs c"
  shows "everyPlayers c' = everyPlayers c \<and> everyNPCs c' = everyNPCs c"
  using assms by (auto simp: through_def split: option.splits)

lemma op_maps:
  "everyPlayers (set_name b s c) = everyPlayers c \<and> everyNPCs (set_name b s c) = everyNPCs c"
  "everyPlayers (set_character a s c) = everyPlayers c \<and> everyNPCs (set_character a s c) = everyNPCs c"
  "everyPlayers (jump_object x y a c) = everyPlayers c \<and> everyNPCs (jump_object x y a c) = everyNPCs c"
  "everyPlayers (show_object a c) = everyPlayers c \<and> everyNPCs (show_object a c) = everyNPCs c"
  "everyPlayers (hide_object a c) = everyPlayers c \<and> everyNPCs (hide_object a c) = everyNPCs c"
  by (simp_all add: set_name_def set_character_def jump_object_def show_object_def hide_object_def on_object_def
      on_tc_session_def)

lemma give_avatar_maps:
  assumes "give_avatar s x y c = Inr (a, c')"
  shows "everyPlayers c' = everyPlayers c \<and> everyNPCs c' = everyNPCs c"
  using assms by (auto simp: give_avatar_def make_object_def rbind_eq_Inr Let_def op_maps dest!: through_maps [OF _ op_maps(2)])

lemma add_session_maps:
  assumes "add_session (s, c) p = Inr c'"
  shows "everyPlayers c' = everyPlayers c \<and> everyNPCs c' = everyNPCs c"
  using assms by (auto simp: add_session_def rbind_eq_Inr dest!: through_maps [OF _ op_maps(1)] give_avatar_maps)

lemma created_maps:
  "everyPlayers (snd (CreatePlayer i c)) = (case everyPlayers c (tc_myID c) of
     None \<Rightarrow> (everyPlayers c)(tc_myID c \<mapsto> Some (length (tc_sessions c))) | Some _ \<Rightarrow> everyPlayers c)"
  "everyNPCs (snd (CreatePlayer i c)) = everyNPCs c"
  "everyNPCs (snd (tc_CreateNPC i c)) = (case everyNPCs c (tc_myID c) of
     None \<Rightarrow> (everyNPCs c)(tc_myID c \<mapsto> Some (length (tc_sessions c))) | Some _ \<Rightarrow> everyNPCs c)"
  "everyPlayers (snd (tc_CreateNPC i c)) = everyPlayers c"
  by (simp_all add: CreatePlayer_def tc_CreateNPC_def CreateSession_def split: option.split)

lemma null_stays:
  assumes "tc_ProcessPacket p c = Inr c'" and n: "holds_null j c"
  shows "holds_null j c'"
proof -
  have "on_login_ok p c = Inr c' \<Longrightarrow> ?thesis"
    using n created_maps [of "tc_myID c" c]
    by (cases "CreatePlayer (tc_myID c) c")
       (auto simp: on_login_ok_def holds_null_def rbind_eq_Inr Let_def dest!: through_maps [OF _ op_maps(1)] give_avatar_maps
        split: option.splits if_splits)
  moreover have "on_add_object p c = Inr c' \<Longrightarrow> ?thesis"
  proof -
    let ?i = "tc_view_pid p"
    let ?cp = "c\<lparr>everyPlayers := (everyPlayers c)(?i \<mapsto> None)\<rparr>" and ?cn = "c\<lparr>everyNPCs := (everyNPCs c)(?i \<mapsto> None)\<rparr>"
    assume a: "on_add_object p c = Inr c'"
    then consider "c' = c" | "t_IsPlayer ?i" "everyPlayers c ?i = None" "add_session (CreatePlayer ?i ?cp) p = Inr c'"
      | "\<not> t_IsPlayer ?i" "everyNPCs c ?i = None" "add_session (tc_CreateNPC ?i ?cn) p = Inr c'"
      by (auto simp: on_add_object_def Let_def split: if_splits)
    then show ?thesis
    proof cases
      case 1
      then show ?thesis using n by simp
    next
      case 2
      then show ?thesis
        using n add_session_maps [of "fst (CreatePlayer ?i ?cp)" "snd (CreatePlayer ?i ?cp)" p c'] created_maps(1,2) [of ?i ?cp]
        by (auto simp: holds_null_def split: option.splits if_splits)
    next
      case 3
      then show ?thesis
        using n add_session_maps [of "fst (tc_CreateNPC ?i ?cn)" "snd (tc_CreateNPC ?i ?cn)" p c'] created_maps(3,4) [of ?i ?cn]
        by (auto simp: holds_null_def split: option.splits if_splits)
    qed
  qed
  moreover have "on_move_object p c = Inr c' \<Longrightarrow> ?thesis"
    using n by (auto simp: on_move_object_def move_character_def holds_null_def rbind_eq_Inr Let_def
        dest!: through_maps [OF _ op_maps(3)] split: option.splits if_splits)
  moreover have "on_remove_object p c = Inr c' \<Longrightarrow> ?thesis"
    using n by (auto simp: on_remove_object_def hide_character_def character_of_def holds_null_def rbind_eq_Inr Let_def op_maps
        dest!: through_maps [OF _ op_maps(5)] split: option.splits if_splits)
  ultimately show ?thesis using assms
    by (auto simp: tc_ProcessPacket_def split: option.splits term_type.splits)
qed

lemma added_null:
  assumes "t_view_type p = Some T_SC_ADD_OBJECT" and "tc_view_pid p = j" and "j \<noteq> tc_myID c"
    and "(if t_IsPlayer j then everyPlayers c j else everyNPCs c j) = None" and "tc_ProcessPacket p c = Inr c'"
  shows "holds_null j c'"
proof -
  let ?cp = "c\<lparr>everyPlayers := (everyPlayers c)(j \<mapsto> None)\<rparr>" and ?cn = "c\<lparr>everyNPCs := (everyNPCs c)(j \<mapsto> None)\<rparr>"
  have a: "on_add_object p c = Inr c'" using assms(1,5) by (simp add: tc_ProcessPacket_def)
  have npc: "\<not> t_IsPlayer j \<Longrightarrow> t_IsNPC j" by (simp add: t_IsPlayer_def t_IsNPC_def)
  show ?thesis
  proof (cases "t_IsPlayer j")
    case True
    then have "add_session (CreatePlayer j ?cp) p = Inr c'" using a assms(2,4) by (simp add: on_add_object_def Let_def)
    then show ?thesis
      using True assms(3) add_session_maps [of "fst (CreatePlayer j ?cp)" "snd (CreatePlayer j ?cp)" p c']
        created_maps(1) [of j ?cp]
      by (auto simp: holds_null_def split: option.splits)
  next
    case False
    then have "add_session (tc_CreateNPC j ?cn) p = Inr c'" using a npc assms(2,4) by (simp add: on_add_object_def Let_def)
    then show ?thesis
      using False assms(3) add_session_maps [of "fst (tc_CreateNPC j ?cn)" "snd (tc_CreateNPC j ?cn)" p c']
        created_maps(3) [of j ?cn]
      by (auto simp: holds_null_def split: option.splits)
  qed
qed



end
