(* ===== verification/Peterson.thy ===== *)
theory Peterson
  imports Prelude
begin

section \<open>Peterson's lock\<close>

text \<open>
  \<open>Practices/Practice 08 - Mutexless synchronization/lockless sync.cpp\<close>: two threads \<open>PetersonWorker\<close> add
  to a sum between \<open>PetersonLock\<close> and \<open>PetersonUnlock\<close>. \<open>flag\<close> and \<open>victim\<close> are volatile: the
  compiler keeps the order of the accesses, and the processor (x86) lets a thread read before
  its own earlier writes have left its store buffer. The fence between the writes and the
  loop is commented out; the model has it as an argument.
\<close>

text \<open>Where a thread is: before each access of shared memory.\<close>

datatype lock_pc = Working | SettingVictim | AtFence | TestingFlag | TestingVictim | InSection
  | Unlocking | Finished

text \<open>The writes of a thread: to its own flag, and of itself to \<open>victim\<close>.\<close>

datatype lock_store = StoreFlag bool | StoreVictim

record lock_state =
  lk_flag :: "nat \<Rightarrow> bool"
  lk_victim :: nat
  lk_sum :: int
  lk_pc :: "nat \<Rightarrow> lock_pc"
  lk_buffer :: "nat \<Rightarrow> lock_store list"

definition lock_start :: lock_state where
  "lock_start = \<lparr>lk_flag = (\<lambda>_. False), lk_victim = 0, lk_sum = 0, lk_pc = (\<lambda>_. Working), lk_buffer = (\<lambda>_. [])\<rparr>"

definition store_now :: "nat \<Rightarrow> lock_store \<Rightarrow> lock_state \<Rightarrow> lock_state" where
  "store_now i st s = (case st of
      StoreFlag b \<Rightarrow> s\<lparr>lk_flag := (lk_flag s)(i := b)\<rparr>
    | StoreVictim \<Rightarrow> s\<lparr>lk_victim := i\<rparr>)"

definition issue :: "nat \<Rightarrow> lock_store list \<Rightarrow> lock_pc \<Rightarrow> lock_state \<Rightarrow> lock_state" where
  "issue i sts pc s = s\<lparr>lk_buffer := (lk_buffer s)(i := lk_buffer s i @ sts), lk_pc := (lk_pc s)(i := pc)\<rparr>"

text \<open>A thread sees its own write to \<open>victim\<close> before the others do.\<close>

definition read_victim :: "nat \<Rightarrow> lock_state \<Rightarrow> nat" where
  "read_victim i s = (if StoreVictim \<in> set (lk_buffer s i) then i else lk_victim s)"

text \<open>One access, by thread 0 or 1. The addition to the atomic \<open>sum\<close> empties the buffer first.\<close>

inductive lock_step :: "bool \<Rightarrow> (nat \<Rightarrow> int) \<Rightarrow> lock_state \<Rightarrow> lock_state \<Rightarrow> bool" for fence local_sum where
  set_flag: "i < 2 \<Longrightarrow> lk_pc s i = Working \<Longrightarrow>
    lock_step fence local_sum s (issue i [StoreFlag True] SettingVictim s)"
| set_victim: "i < 2 \<Longrightarrow> lk_pc s i = SettingVictim \<Longrightarrow>
    lock_step fence local_sum s (issue i [StoreVictim] AtFence s)"
| pass_fence: "i < 2 \<Longrightarrow> lk_pc s i = AtFence \<Longrightarrow> fence \<longrightarrow> lk_buffer s i = [] \<Longrightarrow>
    lock_step fence local_sum s (issue i [] TestingFlag s)"
| test_flag: "i < 2 \<Longrightarrow> lk_pc s i = TestingFlag \<Longrightarrow>
    lock_step fence local_sum s (issue i [] (if lk_flag s (1 - i) then TestingVictim else InSection) s)"
| test_victim: "i < 2 \<Longrightarrow> lk_pc s i = TestingVictim \<Longrightarrow>
    lock_step fence local_sum s (issue i [] (if read_victim i s = i then TestingFlag else InSection) s)"
| add_sum: "i < 2 \<Longrightarrow> lk_pc s i = InSection \<Longrightarrow> lk_buffer s i = [] \<Longrightarrow>
    lock_step fence local_sum s (issue i [] Unlocking (s\<lparr>lk_sum := lk_sum s + local_sum i\<rparr>))"
| unlock: "i < 2 \<Longrightarrow> lk_pc s i = Unlocking \<Longrightarrow>
    lock_step fence local_sum s (issue i [StoreFlag False] Finished s)"
| drain: "i < 2 \<Longrightarrow> lk_buffer s i = st # sts \<Longrightarrow>
    lock_step fence local_sum s (store_now i st (s\<lparr>lk_buffer := (lk_buffer s)(i := sts)\<rparr>))"

definition in_section :: "nat \<Rightarrow> lock_state \<Rightarrow> bool" where
  "in_section i s \<longleftrightarrow> lk_pc s i \<in> {InSection, Unlocking}"

text \<open>What a thread has written so far, by where it is.\<close>

definition writes_ok :: "lock_pc \<Rightarrow> lock_store list \<Rightarrow> bool \<Rightarrow> bool" where
  "writes_ok pc b f \<longleftrightarrow> (case pc of
      Working \<Rightarrow> b = [] \<and> \<not> f
    | SettingVictim \<Rightarrow> b = [StoreFlag True] \<and> \<not> f \<or> b = [] \<and> f
    | AtFence \<Rightarrow> b = [StoreFlag True, StoreVictim] \<and> \<not> f \<or> b = [StoreVictim] \<and> f \<or> b = [] \<and> f
    | Finished \<Rightarrow> b = [StoreFlag False] \<and> f \<or> b = [] \<and> \<not> f
    | _ \<Rightarrow> b = [] \<and> f)"

lemma writes_ok_simps [simp]:
  "writes_ok Working b f \<longleftrightarrow> b = [] \<and> \<not> f"
  "writes_ok SettingVictim b f \<longleftrightarrow> b = [StoreFlag True] \<and> \<not> f \<or> b = [] \<and> f"
  "writes_ok AtFence b f \<longleftrightarrow> b = [StoreFlag True, StoreVictim] \<and> \<not> f \<or> b = [StoreVictim] \<and> f \<or> b = [] \<and> f"
  "writes_ok Finished b f \<longleftrightarrow> b = [StoreFlag False] \<and> f \<or> b = [] \<and> \<not> f"
  "writes_ok TestingFlag b f \<longleftrightarrow> b = [] \<and> f" "writes_ok TestingVictim b f \<longleftrightarrow> b = [] \<and> f"
  "writes_ok InSection b f \<longleftrightarrow> b = [] \<and> f" "writes_ok Unlocking b f \<longleftrightarrow> b = [] \<and> f"
  by (simp_all add: writes_ok_def)

lemma writes_ok_drain:
  assumes "writes_ok pc (st # sts) f"
  obtains "pc = SettingVictim" "st = StoreFlag True" "sts = []"
  | "pc = AtFence" "st = StoreFlag True" "sts = [StoreVictim]"
  | "pc = AtFence" "st = StoreVictim" "sts = []" "f"
  | "pc = Finished" "st = StoreFlag False" "sts = []"
  using assms by (cases pc) auto

text \<open>The thread has told the other one that it waits.\<close>

definition yielded :: "nat \<Rightarrow> lock_state \<Rightarrow> bool" where
  "yielded i s \<longleftrightarrow> lk_pc s i = AtFence \<and> lk_buffer s i = []
     \<or> lk_pc s i \<in> {TestingFlag, TestingVictim, InSection, Unlocking}"

definition added :: "(nat \<Rightarrow> int) \<Rightarrow> nat \<Rightarrow> lock_state \<Rightarrow> int" where
  "added local_sum i s = (if lk_pc s i \<in> {Unlocking, Finished} then local_sum i else 0)"

definition lock_inv :: "(nat \<Rightarrow> int) \<Rightarrow> lock_state \<Rightarrow> bool" where
  "lock_inv local_sum s \<longleftrightarrow>
     (\<forall>i < 2. writes_ok (lk_pc s i) (lk_buffer s i) (lk_flag s i)) \<and> lk_victim s < 2
     \<and> (\<forall>i < 2. in_section i s \<and> yielded (1 - i) s \<longrightarrow> lk_victim s = 1 - i)
     \<and> lk_sum s = added local_sum 0 s + added local_sum 1 s"

lemma less_two: "(\<forall>i < (2 :: nat). P i) \<longleftrightarrow> P 0 \<and> P 1"
  by (auto simp: numeral_2_eq_2 less_Suc_eq)

text \<open>The same, by the thread that moves and the other one.\<close>

lemma lock_inv_pair:
  assumes "i < 2" and "j = 1 - i"
  shows "lock_inv l s \<longleftrightarrow> writes_ok (lk_pc s i) (lk_buffer s i) (lk_flag s i)
     \<and> writes_ok (lk_pc s j) (lk_buffer s j) (lk_flag s j) \<and> (lk_victim s = i \<or> lk_victim s = j)
     \<and> (in_section i s \<and> yielded j s \<longrightarrow> lk_victim s = j) \<and> (in_section j s \<and> yielded i s \<longrightarrow> lk_victim s = i)
     \<and> lk_sum s = added l i s + added l j s"
proof -
  have ij: "i = 0 \<and> j = 1 \<or> i = 1 \<and> j = 0" using assms by auto
  have v: "lk_victim s < 2 \<longleftrightarrow> lk_victim s = 0 \<or> lk_victim s = 1" by auto
  show ?thesis using ij
  proof
    assume "i = 0 \<and> j = 1"
    then have "i = 0" and "j = 1" by simp_all
    then show ?thesis unfolding lock_inv_def less_two v by simp
  next
    assume "i = 1 \<and> j = 0"
    then have "i = 1" and "j = 0" by simp_all
    then show ?thesis unfolding lock_inv_def less_two v by (simp add: add.commute conj_ac disj_commute)
  qed
qed

lemma lock_inv_start: "lock_inv l lock_start"
  by (simp add: lock_inv_def lock_start_def less_two in_section_def added_def)

lemma lock_inv_step:
  assumes inv: "lock_inv l s" and "lock_step True l s s'"
  shows "lock_inv l s'"
  using assms(2)
proof cases
  case (set_flag i)
  define j where "j = 1 - i"
  have "i \<noteq> j" using set_flag(2) unfolding j_def by arith
  then show ?thesis using inv set_flag(1,3) unfolding lock_inv_pair [OF set_flag(2) j_def]
    by (simp add: issue_def in_section_def yielded_def added_def)
next
  case (set_victim i)
  define j where "j = 1 - i"
  have "i \<noteq> j" using set_victim(2) unfolding j_def by arith
  then show ?thesis using inv set_victim(1,3) unfolding lock_inv_pair [OF set_victim(2) j_def]
    by (auto simp: issue_def in_section_def yielded_def added_def)
next
  case (pass_fence i)
  define j where "j = 1 - i"
  have "i \<noteq> j" using pass_fence(2) unfolding j_def by arith
  then show ?thesis using inv pass_fence(1,3,4) unfolding lock_inv_pair [OF pass_fence(2) j_def]
    by (simp add: issue_def in_section_def yielded_def added_def)
next
  case (test_flag i)
  define j where "j = 1 - i"
  have "i \<noteq> j" using test_flag(2) unfolding j_def by arith
  then show ?thesis using inv test_flag(1) [folded j_def] test_flag(3) unfolding lock_inv_pair [OF test_flag(2) j_def]
    by (cases "lk_pc s j") (auto simp: issue_def in_section_def yielded_def added_def)
next
  case (test_victim i)
  define j where "j = 1 - i"
  have "i \<noteq> j" using test_victim(2) unfolding j_def by arith
  then show ?thesis using inv test_victim(1,3) unfolding lock_inv_pair [OF test_victim(2) j_def]
    by (auto simp: issue_def in_section_def yielded_def added_def read_victim_def)
next
  case (add_sum i)
  define j where "j = 1 - i"
  have "i \<noteq> j" using add_sum(2) unfolding j_def by arith
  then show ?thesis using inv add_sum(1,3) unfolding lock_inv_pair [OF add_sum(2) j_def]
    by (auto simp: issue_def in_section_def yielded_def added_def)
next
  case (unlock i)
  define j where "j = 1 - i"
  have "i \<noteq> j" using unlock(2) unfolding j_def by arith
  then show ?thesis using inv unlock(1,3) unfolding lock_inv_pair [OF unlock(2) j_def]
    by (simp add: issue_def in_section_def yielded_def added_def)
next
  case (drain i st sts)
  define j where "j = 1 - i"
  have "i \<noteq> j" using drain(2) unfolding j_def by arith
  note facts = this inv [unfolded lock_inv_pair [OF drain(2) j_def]] drain(1,3)
  then have "writes_ok (lk_pc s i) (st # sts) (lk_flag s i)" by simp
  then show ?thesis unfolding lock_inv_pair [OF drain(2) j_def]
    by (cases rule: writes_ok_drain)
      (use facts in \<open>simp_all add: store_now_def in_section_def yielded_def added_def\<close>)
qed

lemma lock_inv_reached:
  assumes "reaches (lock_step True l) lock_start s"
  shows "lock_inv l s"
  using assms lock_inv_start lock_inv_step by (rule reaches_invariant)

lemma lock_inv_excludes:
  assumes "lock_inv l s"
  shows "\<not> (in_section 0 s \<and> in_section 1 s)"
proof
  assume both: "in_section 0 s \<and> in_section 1 s"
  then have "yielded 0 s" and "yielded 1 s" by (auto simp: in_section_def yielded_def)
  then show False using assms both by (auto simp: lock_inv_def less_two)
qed

text \<open>Without the fence both threads read the flag of the other before it is set.\<close>

definition both_waiting :: lock_state where
  "both_waiting = issue 1 [] TestingFlag (issue 0 [] TestingFlag (issue 1 [StoreVictim] AtFence
     (issue 0 [StoreVictim] AtFence (issue 1 [StoreFlag True] SettingVictim
       (issue 0 [StoreFlag True] SettingVictim lock_start)))))"

lemma both_waiting_reached: "reaches (lock_step False l) lock_start both_waiting"
proof -
  note go = reaches_step [where r = "lock_step False l"]
  show ?thesis unfolding both_waiting_def
    by (intro go [OF _ pass_fence] go [OF _ set_victim] go [OF _ set_flag] reaches_refl)
      (simp_all add: issue_def lock_start_def)
qed

lemma both_enter:
  defines "s \<equiv> issue 1 [] InSection (issue 0 [] InSection both_waiting)"
  shows "reaches (lock_step False l) lock_start s \<and> lk_pc s 0 = InSection \<and> lk_pc s 1 = InSection"
proof -
  have "lock_step False l both_waiting (issue 0 [] InSection both_waiting)"
    using test_flag [where i = 0 and s = both_waiting and fence = False and local_sum = l]
    by (simp add: both_waiting_def issue_def lock_start_def)
  moreover have "lock_step False l (issue 0 [] InSection both_waiting) s"
    using test_flag [where i = 1 and s = "issue 0 [] InSection both_waiting" and fence = False and local_sum = l]
    by (simp add: s_def both_waiting_def issue_def lock_start_def)
  ultimately have "reaches (lock_step False l) lock_start s"
    using reaches_step [where r = "lock_step False l"] both_waiting_reached [of l] by blast
  then show ?thesis by (simp add: s_def issue_def)
qed

text \<open>C30: Peterson's lock of the exercise keeps the two threads apart, in every interleaving of
their accesses and of the moments their store buffers empty, when the commented-out fence stands
between the writes to \<open>flag\<close> and \<open>victim\<close> and the waiting loop; when both threads have returned
the sum is the total of what they added. Without the fence, as the file has it, an interleaving
takes both threads into the section at once.\<close>

theorem peterson_needs_fence:
  "\<not> (\<exists>s. reaches (lock_step True l) lock_start s \<and> in_section 0 s \<and> in_section 1 s)
   \<and> \<not> (\<exists>s. reaches (lock_step True l) lock_start s \<and> lk_pc s 0 = Finished \<and> lk_pc s 1 = Finished
          \<and> lk_sum s \<noteq> l 0 + l 1)
   \<and> (\<exists>s. reaches (lock_step False l) lock_start s \<and> lk_pc s 0 = InSection \<and> lk_pc s 1 = InSection)"
proof (intro conjI notI)
  show False if "\<exists>s. reaches (lock_step True l) lock_start s \<and> in_section 0 s \<and> in_section 1 s"
    using that lock_inv_reached lock_inv_excludes by blast
  show False if "\<exists>s. reaches (lock_step True l) lock_start s \<and> lk_pc s 0 = Finished \<and> lk_pc s 1 = Finished
      \<and> lk_sum s \<noteq> l 0 + l 1"
    using that lock_inv_reached by (fastforce simp: lock_inv_def added_def)
  show "\<exists>s. reaches (lock_step False l) lock_start s \<and> lk_pc s 0 = InSection \<and> lk_pc s 1 = InSection"
    using both_enter by (rule exI)
qed

section \<open>The atomic workers\<close>

text \<open>
  What \<open>main\<close> runs: two threads \<open>AtomicWorker\<close> that add 1 to the atomic 32-bit \<open>sum\<close>, \<open>rounds\<close> times each
  (500000000 in the file). \<open>aw_left\<close> is what each thread still has to add.
\<close>

record atomic_state =
  aw_sum :: "32 word"
  aw_left :: "nat \<Rightarrow> nat"

definition atomic_start :: "nat \<Rightarrow> atomic_state" where
  "atomic_start rounds = \<lparr>aw_sum = 0, aw_left = (\<lambda>_. rounds)\<rparr>"

inductive atomic_step :: "atomic_state \<Rightarrow> atomic_state \<Rightarrow> bool" where
  atomic_add: "i < 2 \<Longrightarrow> aw_left s i = Suc n \<Longrightarrow>
    atomic_step s (s\<lparr>aw_sum := aw_sum s + 1, aw_left := (aw_left s)(i := n)\<rparr>)"

lemma atomic_total:
  assumes "reaches atomic_step (atomic_start rounds) s"
  shows "aw_sum s + of_nat (aw_left s 0) + of_nat (aw_left s 1) = of_nat (2 * rounds)"
  using assms
proof (rule reaches_invariant)
  show "aw_sum (atomic_start rounds) + of_nat (aw_left (atomic_start rounds) 0)
      + of_nat (aw_left (atomic_start rounds) 1) = of_nat (2 * rounds)"
    by (simp add: atomic_start_def)
next
  fix t u
  assume t: "aw_sum t + of_nat (aw_left t 0) + of_nat (aw_left t 1) = of_nat (2 * rounds)"
    and "atomic_step t u"
  from this(2) show "aw_sum u + of_nat (aw_left u 0) + of_nat (aw_left u 1) = of_nat (2 * rounds)"
  proof cases
    case (atomic_add i n)
    then have "i = 0 \<or> i = 1" by auto
    then show ?thesis using t atomic_add(1,3) by (auto simp: algebra_simps)
  qed
qed

lemma main_prints_a_billion:
  assumes "reaches atomic_step (atomic_start 500000000) s" and "aw_left s 0 = 0" and "aw_left s 1 = 0"
  shows "sint (aw_sum s) = 1000000000"
proof -
  have "aw_sum s = 1000000000" using atomic_total [OF assms(1)] assms(2,3) by simp
  then show ?thesis by simp
qed

end
