(* ===== verification/Watchers.thy ===== *)
theory Watchers
  imports Prelude
begin

unbundle bit_operations_syntax

section \<open>The watchers of a number\<close>

text \<open>
  \<open>WatcherWorker1\<close> and \<open>WatcherWorker2\<close> of \<open>lockless sync.cpp\<close>, which \<open>main\<close> can run on a number it
  places two bytes before the end of a line of the cache, and \<open>sync.cpp\<close>, where one thread sends
  a number to another. The processor reads and writes four bytes at once within a line, and in
  two halves across two lines, in either order.
\<close>

subsection \<open>The place of the number\<close>

definition bound_address :: "nat \<Rightarrow> nat" where
  "bound_address test_bound =
     (let addr = test_bound + 4 * 31; offset = addr mod 64; addr = addr - offset in addr - 2)"

definition straddles :: "nat \<Rightarrow> bool" where
  "straddles addr \<longleftrightarrow> addr div 64 \<noteq> (addr + 3) div 64"

lemma bound_straddles:
  "straddles (bound_address b) \<and> b \<le> bound_address b \<and> bound_address b + 4 \<le> b + 4 * 32"
proof -
  obtain q r where qr: "b + 124 = 64 * q + r" "r < 64"
    using mult_div_mod_eq [of 64 "b + 124"] mod_less_divisor [of 64 "b + 124"] by (metis zero_less_numeral)
  then have a: "bound_address b = 64 * q - 2" by (simp add: bound_address_def)
  obtain p where p: "q = Suc p" using qr by (cases q) auto
  have "bound_address b = 62 + 64 * p" using a p by simp
  then have "bound_address b div 64 = p" "(bound_address b + 3) div 64 = Suc p" by simp_all
  then show ?thesis using a p qr by (simp add: straddles_def)
qed

subsection \<open>The two threads\<close>

text \<open>\<open>True\<close> is the upper half of the number, which lies in the second line when there are two.\<close>

definition half :: "bool \<Rightarrow> 32 word \<Rightarrow> 16 word" where
  "half h v = (if h then ucast (drop_bit 16 v) else ucast v)"

definition whole_of :: "(bool \<Rightarrow> 16 word) \<Rightarrow> 32 word" where
  "whole_of m = (push_bit 16 (ucast (m True)) OR ucast (m False))"

datatype writer_pc = Looping | Storing bool | WriterOver

datatype reader_pc = Testing | Reading | HalfRead bool "16 word" | Seen "32 word" | Stopped

record watch_state =
  wt_bound :: "bool \<Rightarrow> 16 word"
  wt_done :: bool
  wt_error :: nat
  wt_j :: nat
  wt_new :: "32 word"
  wt_writer :: writer_pc
  wt_reader :: reader_pc

definition watch_start :: watch_state where
  "watch_start = \<lparr>wt_bound = (\<lambda>_. 0), wt_done = False, wt_error = 0, wt_j = 0, wt_new = 0, wt_writer = Looping,
     wt_reader = Testing\<rparr>"

definition next_value :: "watch_state \<Rightarrow> 32 word" where
  "next_value s = - (1 + whole_of (wt_bound s))"

text \<open>
  The writer reads what it wrote last, since no one else writes. A store that waits in the buffer
  of the processor is one that happens later.
\<close>

inductive watch_step :: "bool \<Rightarrow> watch_state \<Rightarrow> watch_state \<Rightarrow> bool" for split where
  write_whole: "wt_writer s = Looping \<Longrightarrow> wt_j s \<le> 25000000 \<Longrightarrow> \<not> split \<Longrightarrow>
    watch_step split s (s\<lparr>wt_bound := (\<lambda>h. half h (next_value s)), wt_j := Suc (wt_j s)\<rparr>)"
| write_first: "wt_writer s = Looping \<Longrightarrow> wt_j s \<le> 25000000 \<Longrightarrow> split \<Longrightarrow>
    watch_step split s (s\<lparr>wt_bound := (wt_bound s)(h := half h (next_value s)), wt_new := next_value s,
      wt_writer := Storing (\<not> h)\<rparr>)"
| write_rest: "wt_writer s = Storing h \<Longrightarrow>
    watch_step split s (s\<lparr>wt_bound := (wt_bound s)(h := half h (wt_new s)), wt_j := Suc (wt_j s),
      wt_writer := Looping\<rparr>)"
| write_done: "wt_writer s = Looping \<Longrightarrow> 25000000 < wt_j s \<Longrightarrow>
    watch_step split s (s\<lparr>wt_done := True, wt_writer := WriterOver\<rparr>)"
| test_done: "wt_reader s = Testing \<Longrightarrow>
    watch_step split s (s\<lparr>wt_reader := (if wt_done s then Stopped else Reading)\<rparr>)"
| read_whole: "wt_reader s = Reading \<Longrightarrow> \<not> split \<Longrightarrow>
    watch_step split s (s\<lparr>wt_reader := Seen (whole_of (wt_bound s))\<rparr>)"
| read_first: "wt_reader s = Reading \<Longrightarrow> split \<Longrightarrow>
    watch_step split s (s\<lparr>wt_reader := HalfRead h (wt_bound s h)\<rparr>)"
| read_rest: "wt_reader s = HalfRead h x \<Longrightarrow>
    watch_step split s (s\<lparr>wt_reader := Seen (whole_of ((wt_bound s)(h := x)))\<rparr>)"
| report: "wt_reader s = Seen v \<Longrightarrow>
    watch_step split s (s\<lparr>wt_error := (if v \<noteq> 0 \<and> v \<noteq> - 1 then Suc (wt_error s) else wt_error s),
      wt_reader := Testing\<rparr>)"

text \<open>The half the writer stores in its \<open>j\<close>th round, and the whole of two halves.\<close>

definition flipped :: "nat \<Rightarrow> 16 word" where
  "flipped j = (if even j then 0 else - 1)"

lemma low_ones [simp]: "ucast (- 1 :: 16 word) = (65535 :: 32 word)"
  by (simp add: unsigned_minus_1_eq_mask mask_eq_exp_minus_1)

lemma whole_of_halves:
  "whole_of (\<lambda>_. 0) = 0" "whole_of (\<lambda>_. - 1) = - 1"
  by (simp_all add: whole_of_def)

lemma half_ends [simp]: "half h 0 = 0" "half h (- 1) = - 1"
proof -
  show "half h (- 1) = - 1" by (cases h) (auto intro!: bit_eqI simp: half_def bit_simps)
qed (simp add: half_def)

lemma flip: "half h (- (1 + whole_of (\<lambda>_. flipped j))) = flipped (Suc j)"
  by (simp add: flipped_def whole_of_halves)

definition torn_values :: "32 word set" where
  "torn_values = {0, - 1, 0x0000FFFF, 0xFFFF0000}"

lemma whole_of_ends:
  assumes "\<forall>h. m h \<in> {0, - 1}"
  shows "whole_of m \<in> torn_values"
proof -
  have "m True = 0 \<or> m True = - 1" "m False = 0 \<or> m False = - 1" using assms by auto
  then show ?thesis by (auto simp: whole_of_def torn_values_def)
qed

text \<open>Between two rounds both halves are those of the last; within one, the first is new.\<close>

definition memory_ok :: "watch_state \<Rightarrow> bool" where
  "memory_ok s \<longleftrightarrow> (case wt_writer s of
      Looping \<Rightarrow> wt_bound s = (\<lambda>_. flipped (wt_j s)) \<and> wt_j s \<le> 25000001
    | Storing h \<Rightarrow> wt_bound s = (\<lambda>_. flipped (Suc (wt_j s)))(h := flipped (wt_j s))
        \<and> half h (wt_new s) = flipped (Suc (wt_j s)) \<and> wt_j s \<le> 25000000
    | WriterOver \<Rightarrow> wt_bound s = (\<lambda>_. flipped (wt_j s)) \<and> wt_j s = 25000001)"

definition watch_inv :: "bool \<Rightarrow> watch_state \<Rightarrow> bool" where
  "watch_inv split s \<longleftrightarrow> memory_ok s \<and> (wt_done s \<longleftrightarrow> wt_writer s = WriterOver)
     \<and> (case wt_reader s of HalfRead h x \<Rightarrow> split \<and> x \<in> {0, - 1} | Seen v \<Rightarrow> v \<in> torn_values \<and> (\<not> split \<longrightarrow> v \<in> {0, - 1})
        | _ \<Rightarrow> True)
     \<and> (\<not> split \<longrightarrow> wt_error s = 0 \<and> (\<forall>h. wt_writer s \<noteq> Storing h))"

lemma memory_ok_reader [simp]:
  "memory_ok (s\<lparr>wt_reader := r\<rparr>) = memory_ok s" "memory_ok (s\<lparr>wt_error := n\<rparr>) = memory_ok s"
  by (cases "wt_writer s"; simp add: memory_ok_def)+

lemma flipped_ends: "flipped j \<in> {0, - 1}"
  by (simp add: flipped_def)

lemma memory_ends:
  assumes "memory_ok s"
  shows "wt_bound s h \<in> {0, - 1}"
  using assms by (cases "wt_writer s") (auto simp: memory_ok_def flipped_def)

lemma watch_inv_step:
  assumes inv: "watch_inv split s" and "watch_step split s s'"
  shows "watch_inv split s'"
  using assms(2)
proof cases
  case write_whole
  then show ?thesis using inv flip by (simp add: watch_inv_def memory_ok_def next_value_def)
next
  case (write_first h)
  then have m: "wt_bound s = (\<lambda>_. flipped (wt_j s))" using inv by (simp add: watch_inv_def memory_ok_def)
  have "(wt_bound s)(h := half h (next_value s)) = (\<lambda>_. flipped (Suc (wt_j s)))(\<not> h := flipped (wt_j s))"
    unfolding next_value_def m flip by (auto simp: fun_eq_iff)
  moreover have "half (\<not> h) (next_value s) = flipped (Suc (wt_j s))" unfolding next_value_def m by (rule flip)
  ultimately show ?thesis using write_first inv by (simp add: watch_inv_def memory_ok_def)
next
  case (write_rest h)
  then show ?thesis using inv by (auto simp: watch_inv_def memory_ok_def fun_eq_iff)
next
  case write_done
  then show ?thesis using inv by (simp add: watch_inv_def memory_ok_def)
next
  case test_done
  then show ?thesis using inv by (cases "wt_done s") (simp_all add: watch_inv_def)
next
  case read_whole
  then have n: "wt_writer s \<noteq> Storing h" for h using inv by (simp add: watch_inv_def)
  have "wt_bound s = (\<lambda>_. flipped (wt_j s))"
  proof (cases "wt_writer s")
    case (Storing h)
    then show ?thesis using n [of h] by simp
  qed (use inv in \<open>simp_all add: watch_inv_def memory_ok_def\<close>)
  then have "whole_of (wt_bound s) \<in> {0, - 1}" by (simp add: flipped_def whole_of_halves)
  then show ?thesis using read_whole inv by (auto simp: watch_inv_def torn_values_def)
next
  case (read_first h)
  then show ?thesis using inv memory_ends [of s h] by (simp add: watch_inv_def)
next
  case (read_rest h x)
  then have "\<forall>k. ((wt_bound s)(h := x)) k \<in> {0, - 1}" using inv memory_ends [of s] by (simp add: watch_inv_def)
  then have "whole_of ((wt_bound s)(h := x)) \<in> torn_values" by (rule whole_of_ends)
  then show ?thesis using read_rest inv by (simp add: watch_inv_def)
next
  case (report v)
  then show ?thesis using inv by (auto simp: watch_inv_def)
qed

lemma watch_inv_reached:
  assumes "reaches (watch_step split) watch_start s"
  shows "watch_inv split s"
  using assms
proof (rule reaches_invariant)
  show "watch_inv split watch_start" by (simp add: watch_inv_def memory_ok_def watch_start_def flipped_def)
qed (rule watch_inv_step)

text \<open>The upper half is read before the lower one is stored.\<close>

lemma tears:
  assumes split
  shows "\<exists>s. reaches (watch_step split) watch_start s \<and> wt_reader s = Seen 0x0000FFFF"
proof -
  note go = reaches_step [where r = "watch_step split"]
  let ?s1 = "watch_start\<lparr>wt_bound := (wt_bound watch_start)(False := half False (next_value watch_start)),
    wt_new := next_value watch_start, wt_writer := Storing (\<not> False)\<rparr>"
  let ?s2 = "?s1\<lparr>wt_reader := (if wt_done ?s1 then Stopped else Reading)\<rparr>"
  let ?s3 = "?s2\<lparr>wt_reader := HalfRead True (wt_bound ?s2 True)\<rparr>"
  let ?s4 = "?s3\<lparr>wt_reader := Seen (whole_of ((wt_bound ?s3)(True := wt_bound ?s2 True)))\<rparr>"
  have "reaches (watch_step split) watch_start ?s4"
  proof (rule go [OF go [OF go [OF go [OF reaches_refl]]]])
    show "watch_step split watch_start ?s1" using assms by (intro write_first) (simp_all add: watch_start_def)
    show "watch_step split ?s1 ?s2" by (intro test_done) (simp add: watch_start_def)
    show "watch_step split ?s2 ?s3" using assms by (intro read_first) (simp_all add: watch_start_def)
    show "watch_step split ?s3 ?s4" by (intro read_rest) (simp add: watch_start_def)
  qed
  moreover have "whole_of (\<lambda>_. 0) = 0" by (rule whole_of_halves)
  then have "wt_reader ?s4 = Seen 0x0000FFFF"
    by (simp add: watch_start_def next_value_def whole_of_def)
  ultimately show ?thesis by blast
qed

text \<open>C37: The number of \<open>main\<close> tears, and only because of its place: it lies within the array of
  integers whatever the address of that is, and across two lines of the cache; there the watching
  thread can see a number that was never written, but none except 0, -1 and those made of one
  half of each. Within a line it counts no error. Either way the number is -1 at the end.\<close>

theorem number_tears_across_lines:
  assumes "reaches (watch_step (straddles addr)) watch_start s"
  shows "straddles (bound_address test_bound) \<and> test_bound \<le> bound_address test_bound
      \<and> bound_address test_bound + 4 \<le> test_bound + 4 * 32
      \<and> (\<exists>t. reaches (watch_step (straddles (bound_address test_bound))) watch_start t \<and> wt_reader t = Seen 0x0000FFFF)
      \<and> (\<forall>v. wt_reader s = Seen v \<longrightarrow> v \<in> {0, - 1, 0x0000FFFF, 0xFFFF0000})
      \<and> (\<not> straddles addr \<longrightarrow> wt_error s = 0)
      \<and> (wt_done s \<longrightarrow> whole_of (wt_bound s) = - 1)"
proof -
  note inv = watch_inv_reached [OF assms]
  have "wt_done s \<longrightarrow> whole_of (wt_bound s) = - 1"
    using inv by (auto simp: watch_inv_def memory_ok_def flipped_def whole_of_halves)
  moreover have "\<forall>v. wt_reader s = Seen v \<longrightarrow> v \<in> {0, - 1, 0x0000FFFF, 0xFFFF0000}"
    using inv by (auto simp: watch_inv_def torn_values_def)
  ultimately show ?thesis using inv bound_straddles [of test_bound] tears by (simp add: watch_inv_def)
qed

lemma number_tears_across_lines_witness:
  "\<exists>s. reaches (watch_step (straddles 62)) watch_start s \<and> wt_reader s = Seen 0x0000FFFF
    \<and> bound_address 1000 = 1086 \<and> straddles (bound_address 1000)"
proof -
  have "straddles 62" by (simp add: straddles_def)
  then obtain s where "reaches (watch_step (straddles 62)) watch_start s" "wt_reader s = Seen 0x0000FFFF"
    using tears by blast
  moreover have "bound_address 1000 = 1086" by (simp add: bound_address_def)
  ultimately show ?thesis using number_tears_across_lines [of 62 s 1000] by blast
qed

section \<open>A number sent through memory\<close>

text \<open>
  \<open>sync.cpp\<close>: \<open>Send\<close> writes \<open>s_data\<close> and then \<open>ready\<close>, both volatile, and \<open>Receive\<close> reads them in the other
  order. The writes wait in the store buffer of the sender and leave it in order.
\<close>

datatype send_store = StoreData int | StoreReady

datatype receive_pc = Spinning | ReadingData | Received int

record sync_state =
  s_data :: int
  sy_ready :: bool
  sy_buffer :: "send_store list"
  sy_send :: nat
  sy_receive :: receive_pc

definition sync_start :: sync_state where
  "sync_start = \<lparr>s_data = 0, sy_ready = False, sy_buffer = [], sy_send = 0, sy_receive = Spinning\<rparr>"

inductive sync_step :: "sync_state \<Rightarrow> sync_state \<Rightarrow> bool" where
  send_data: "sy_send s = 0 \<Longrightarrow> sync_step s (s\<lparr>sy_buffer := sy_buffer s @ [StoreData 999], sy_send := 1\<rparr>)"
| send_ready: "sy_send s = 1 \<Longrightarrow> sync_step s (s\<lparr>sy_buffer := sy_buffer s @ [StoreReady], sy_send := 2\<rparr>)"
| drain_data: "sy_buffer s = StoreData v # sts \<Longrightarrow> sync_step s (s\<lparr>s_data := v, sy_buffer := sts\<rparr>)"
| drain_ready: "sy_buffer s = StoreReady # sts \<Longrightarrow> sync_step s (s\<lparr>sy_ready := True, sy_buffer := sts\<rparr>)"
| spin: "sy_receive s = Spinning \<Longrightarrow>
    sync_step s (s\<lparr>sy_receive := (if sy_ready s then ReadingData else Spinning)\<rparr>)"
| receive: "sy_receive s = ReadingData \<Longrightarrow> sync_step s (s\<lparr>sy_receive := Received (s_data s)\<rparr>)"

text \<open>The stores that are still to reach the memory, those not made yet included.\<close>

definition stores_left :: "sync_state \<Rightarrow> send_store list" where
  "stores_left s = sy_buffer s @ drop (sy_send s) [StoreData 999, StoreReady]"

definition sync_inv :: "sync_state \<Rightarrow> bool" where
  "sync_inv s \<longleftrightarrow> sy_send s \<le> 2
     \<and> (stores_left s = [StoreData 999, StoreReady] \<and> \<not> sy_ready s
       \<or> stores_left s = [StoreReady] \<and> s_data s = 999 \<and> \<not> sy_ready s
       \<or> stores_left s = [] \<and> s_data s = 999 \<and> sy_ready s)
     \<and> (case sy_receive s of Spinning \<Rightarrow> True | ReadingData \<Rightarrow> sy_ready s | Received v \<Rightarrow> sy_ready s \<and> v = 999)"

lemma sync_inv_step:
  assumes "sync_inv s" and "sync_step s s'"
  shows "sync_inv s'"
  using assms(2)
proof cases
  case send_data
  then show ?thesis using assms(1) by (cases "sy_receive s") (simp_all add: sync_inv_def stores_left_def)
next
  case send_ready
  then show ?thesis using assms(1) by (cases "sy_receive s") (auto simp: sync_inv_def stores_left_def)
next
  case (drain_data v sts)
  then show ?thesis using assms(1) by (cases "sy_receive s") (auto simp: sync_inv_def stores_left_def)
next
  case (drain_ready sts)
  then show ?thesis using assms(1) by (cases "sy_receive s") (auto simp: sync_inv_def stores_left_def)
next
  case spin
  then show ?thesis using assms(1) by (auto simp: sync_inv_def stores_left_def)
next
  case receive
  then show ?thesis using assms(1) by (auto simp: sync_inv_def stores_left_def)
qed

lemma sync_inv_reached: "reaches sync_step sync_start s \<Longrightarrow> sync_inv s"
proof (erule reaches_invariant)
  show "sync_inv sync_start" by (simp add: sync_inv_def sync_start_def stores_left_def)
qed (rule sync_inv_step)

text \<open>What is left to do before the number is received.\<close>

definition to_do :: "sync_state \<Rightarrow> nat" where
  "to_do s = 2 * (2 - sy_send s) + length (sy_buffer s)
     + (case sy_receive s of Spinning \<Rightarrow> 2 | ReadingData \<Rightarrow> 1 | Received v \<Rightarrow> 0)"

lemma sync_progress:
  assumes "sync_inv s" and "\<forall>v. sy_receive s \<noteq> Received v"
  shows "\<exists>s'. sync_step s s' \<and> to_do s' < to_do s"
proof -
  have "sy_send s \<le> 2" using assms(1) by (simp add: sync_inv_def)
  then consider "sy_send s = 0" | "sy_send s = 1" | "sy_send s = 2" "sy_buffer s \<noteq> []" | "sy_send s = 2" "sy_buffer s = []"
    by fastforce
  then show ?thesis
  proof cases
    case 1
    show ?thesis by (rule exI, rule conjI [OF send_data [OF 1]]) (simp add: 1 to_do_def)
  next
    case 2
    show ?thesis by (rule exI, rule conjI [OF send_ready [OF 2]]) (simp add: 2 to_do_def)
  next
    case 3
    then obtain st sts where b: "sy_buffer s = st # sts" by (cases "sy_buffer s") auto
    show ?thesis
    proof (cases st)
      case (StoreData v)
      show ?thesis by (rule exI, rule conjI [OF drain_data [OF b [unfolded StoreData]]]) (simp add: b to_do_def)
    next
      case StoreReady
      show ?thesis by (rule exI, rule conjI [OF drain_ready [OF b [unfolded StoreReady]]]) (simp add: b to_do_def)
    qed
  next
    case 4
    then have r: "sy_ready s" using assms(1) by (simp add: sync_inv_def stores_left_def)
    show ?thesis
    proof (cases "sy_receive s")
      case Spinning
      show ?thesis by (rule exI, rule conjI [OF spin [OF Spinning]]) (simp add: Spinning r to_do_def)
    next
      case ReadingData
      show ?thesis by (rule exI, rule conjI [OF receive [OF ReadingData]]) (simp add: ReadingData to_do_def)
    qed (use assms(2) in simp)
  qed
qed

text \<open>The number arrives: whatever \<open>Receive\<close> reads after it has seen \<open>ready\<close> is 999, never the 0 of the
  beginning, though both writes wait in the store buffer; and from wherever the two threads
  are, it can still receive it: no step is a step into a trap.\<close>

theorem number_is_received:
  assumes "reaches sync_step sync_start s"
  shows "(\<forall>v. sy_receive s = Received v \<longrightarrow> v = 999)
    \<and> (\<exists>t. reaches sync_step s t \<and> sy_receive t = Received 999)"
proof -
  have safe: "v = 999" if "sync_inv u" "sy_receive u = Received v" for u v using that by (simp add: sync_inv_def)
  have "\<exists>t. reaches sync_step s t \<and> sy_receive t = Received 999" if "reaches sync_step s u" "sync_inv u" for u
    using that
  proof (induction "to_do u" arbitrary: u rule: less_induct)
    case less
    show ?case
    proof (cases "\<exists>v. sy_receive u = Received v")
      case True
      then show ?thesis using less.prems safe by blast
    next
      case False
      then obtain u' where u': "sync_step u u'" "to_do u' < to_do u" using sync_progress [OF less.prems(2)] by blast
      show ?thesis using less.hyps [OF u'(2) reaches_step [OF less.prems(1) u'(1)] sync_inv_step [OF less.prems(2) u'(1)]] .
    qed
  qed
  moreover have i: "sync_inv s" by (rule sync_inv_reached [OF assms])
  ultimately have "\<exists>t. reaches sync_step s t \<and> sy_receive t = Received 999" using reaches_refl by metis
  then show ?thesis using safe [OF i] by simp
qed

lemma number_is_received_witness:
  "\<exists>t. reaches sync_step sync_start t \<and> sy_receive t = Received 999"
  using number_is_received [OF reaches_refl] by blast

end
