(* ===== verification/Adders.thy ===== *)
theory Adders
  imports Prelude
begin

section \<open>Sums under a lock\<close>

text \<open>
  \<open>Practices/Practice 07 - Multithread\<close>: \<open>exampel.cpp\<close>, where 16, 8, 4, 2 and 1 threads each add up their
  share and then add it to the sum under a lock, and \<open>multithread.cpp\<close>, where four threads each make
  all their additions under the lock. An addition to a volatile variable is a read and a write;
  only the lock keeps the threads apart.
\<close>

subsection \<open>The threads\<close>

text \<open>Where a thread is, with the additions it has still to begin, and what it has read.\<close>

datatype add_pc = AtLock | Adding nat | Loaded nat int | Over

record add_state =
  ad_sum :: int
  ad_lock :: "nat option"
  ad_pc :: "nat \<Rightarrow> add_pc"

definition add_start :: add_state where
  "add_start = \<lparr>ad_sum = 0, ad_lock = None, ad_pc = (\<lambda>_. AtLock)\<rparr>"

inductive add_step :: "nat \<Rightarrow> nat \<Rightarrow> int \<Rightarrow> add_state \<Rightarrow> add_state \<Rightarrow> bool" for threads rounds amount where
  take_lock: "i < threads \<Longrightarrow> ad_pc s i = AtLock \<Longrightarrow> ad_lock s = None \<Longrightarrow>
    add_step threads rounds amount s (s\<lparr>ad_lock := Some i, ad_pc := (ad_pc s)(i := Adding rounds)\<rparr>)"
| load: "i < threads \<Longrightarrow> ad_pc s i = Adding (Suc n) \<Longrightarrow>
    add_step threads rounds amount s (s\<lparr>ad_pc := (ad_pc s)(i := Loaded n (ad_sum s))\<rparr>)"
| add_store: "i < threads \<Longrightarrow> ad_pc s i = Loaded n v \<Longrightarrow>
    add_step threads rounds amount s (s\<lparr>ad_sum := v + amount, ad_pc := (ad_pc s)(i := Adding n)\<rparr>)"
| give_lock: "i < threads \<Longrightarrow> ad_pc s i = Adding 0 \<Longrightarrow>
    add_step threads rounds amount s (s\<lparr>ad_lock := None, ad_pc := (ad_pc s)(i := Over)\<rparr>)"

text \<open>\<open>exampel.cpp\<close>: a thread's share, and the numbers of threads it tries.\<close>

definition local_sum :: "nat \<Rightarrow> int" where
  "local_sum num_threads = foldl (\<lambda>local_sum i. local_sum + 2) 0 [0..<50000000 div num_threads]"

function halvings :: "nat \<Rightarrow> nat list" where
  "halvings i = (if 0 < i then i # halvings (i div 2) else [])"
  by auto
termination by (relation "measure id") auto

declare halvings.simps [simp del]

text \<open>\<open>multithread.cpp\<close>: all additions by one thread.\<close>

definition SingleAddWorker :: "int \<Rightarrow> int" where
  "SingleAddWorker Massive_Number = foldl (\<lambda>m i. m + 2) Massive_Number [0..<50000000]"

definition MassiveAddWorker_rounds :: nat where "MassiveAddWorker_rounds = 12500000"

text \<open>The threads of one run: each adds its share once, or four of them add 2 in every round.\<close>

definition thread_func :: "nat \<Rightarrow> add_state \<Rightarrow> add_state \<Rightarrow> bool" where
  "thread_func num_threads = add_step num_threads 1 (local_sum num_threads)"

definition SafeAddWorker :: "add_state \<Rightarrow> add_state \<Rightarrow> bool" where
  "SafeAddWorker = add_step 4 MassiveAddWorker_rounds 2"

subsection \<open>What the threads keep\<close>

definition rounds_done :: "nat \<Rightarrow> add_pc \<Rightarrow> int" where
  "rounds_done rounds p = (case p of AtLock \<Rightarrow> 0 | Adding n \<Rightarrow> int rounds - int n
     | Loaded n v \<Rightarrow> int rounds - int n - 1 | Over \<Rightarrow> int rounds)"

definition pc_ok :: "nat \<Rightarrow> add_state \<Rightarrow> nat \<Rightarrow> bool" where
  "pc_ok rounds s i \<longleftrightarrow> (case ad_pc s i of
      Adding n \<Rightarrow> ad_lock s = Some i \<and> n \<le> rounds
    | Loaded n v \<Rightarrow> ad_lock s = Some i \<and> n < rounds \<and> v = ad_sum s
    | _ \<Rightarrow> ad_lock s \<noteq> Some i)"

definition add_inv :: "nat \<Rightarrow> nat \<Rightarrow> int \<Rightarrow> add_state \<Rightarrow> bool" where
  "add_inv threads rounds amount s \<longleftrightarrow> (\<forall>i < threads. pc_ok rounds s i) \<and> (\<forall>i. ad_lock s = Some i \<longrightarrow> i < threads)
     \<and> ad_sum s = (\<Sum>i < threads. amount * rounds_done rounds (ad_pc s i))"

lemma sum_at:
  fixes f :: "'a \<Rightarrow> int" and threads :: nat
  assumes "i < threads"
  shows "(\<Sum>j < threads. f ((p(i := x)) j)) = (\<Sum>j < threads. f (p j)) - f (p i) + f x"
proof -
  have "(\<Sum>j < threads. f ((p(i := x)) j)) = f x + (\<Sum>j \<in> {..<threads} - {i}. f (p j))"
    using assms by (subst sum.remove [of _ i]) auto
  moreover have "(\<Sum>j < threads. f (p j)) = f (p i) + (\<Sum>j \<in> {..<threads} - {i}. f (p j))"
    using assms by (subst sum.remove [of _ i]) auto
  ultimately show ?thesis by simp
qed

text \<open>The thread that moves, and the others, which do not have the lock.\<close>

lemma add_invI:
  assumes inv: "add_inv threads rounds amount s" and i: "i < threads" and pc: "ad_pc s' = (ad_pc s)(i := x)"
    and own: "pc_ok rounds s' i" and lock: "ad_lock s' \<in> {None, Some i}" and held: "ad_lock s \<in> {None, Some i}"
    and sum: "ad_sum s' = ad_sum s + amount * (rounds_done rounds x - rounds_done rounds (ad_pc s i))"
  shows "add_inv threads rounds amount s'"
proof -
  have "pc_ok rounds s' j" if j: "j < threads" "j \<noteq> i" for j
  proof -
    have "pc_ok rounds s j" using inv j by (simp add: add_inv_def)
    then show ?thesis using j held lock pc by (cases "ad_pc s j") (auto simp: pc_ok_def)
  qed
  then have "\<forall>j < threads. pc_ok rounds s' j" using own by auto
  moreover have "ad_sum s' = (\<Sum>j < threads. amount * rounds_done rounds (ad_pc s' j))"
    using inv sum_at [OF i, of "\<lambda>p. amount * rounds_done rounds p" "ad_pc s" x] sum
    by (simp add: pc add_inv_def right_diff_distrib)
  ultimately show ?thesis using lock i by (auto simp: add_inv_def)
qed

lemma pc_ok_at: "add_inv threads rounds amount s \<Longrightarrow> i < threads \<Longrightarrow> pc_ok rounds s i"
  by (simp add: add_inv_def)

lemma add_inv_step:
  assumes inv: "add_inv threads rounds amount s" and "add_step threads rounds amount s s'"
  shows "add_inv threads rounds amount s'"
  using assms(2)
proof cases
  case (take_lock i)
  then show ?thesis
    by (intro add_invI [OF inv, where i = i and x = "Adding rounds"]) (simp_all add: pc_ok_def rounds_done_def)
next
  case (load i n)
  then show ?thesis using pc_ok_at [OF inv load(2)]
    by (intro add_invI [OF inv, where i = i and x = "Loaded n (ad_sum s)"]) (simp_all add: pc_ok_def rounds_done_def)
next
  case (add_store i n v)
  then show ?thesis using pc_ok_at [OF inv add_store(2)]
    by (intro add_invI [OF inv, where i = i and x = "Adding n"]) (simp_all add: pc_ok_def rounds_done_def)
next
  case (give_lock i)
  then show ?thesis using pc_ok_at [OF inv give_lock(2)]
    by (intro add_invI [OF inv, where i = i and x = Over]) (simp_all add: pc_ok_def rounds_done_def)
qed

lemma add_inv_reached:
  assumes "reaches (add_step threads rounds amount) add_start s"
  shows "add_inv threads rounds amount s"
  using assms
proof (rule reaches_invariant)
  show "add_inv threads rounds amount add_start"
    by (simp add: add_inv_def add_start_def pc_ok_def rounds_done_def)
qed (rule add_inv_step)

subsection \<open>All threads come to an end\<close>

definition work_left :: "nat \<Rightarrow> add_pc \<Rightarrow> int" where
  "work_left rounds p = (case p of AtLock \<Rightarrow> 2 * int rounds + 2 | Adding n \<Rightarrow> 2 * int n + 1 | Loaded n v \<Rightarrow> 2 * int n + 2
     | Over \<Rightarrow> 0)"

definition all_work :: "nat \<Rightarrow> nat \<Rightarrow> add_state \<Rightarrow> int" where
  "all_work threads rounds s = (\<Sum>i < threads. work_left rounds (ad_pc s i))"

lemma all_work_nonneg: "0 \<le> all_work threads rounds s"
  unfolding all_work_def by (intro sum_nonneg) (simp add: work_left_def split: add_pc.split)

lemma add_step_works:
  assumes "add_step threads rounds amount s s'"
  shows "all_work threads rounds s' < all_work threads rounds s"
proof -
  have d: "(\<Sum>j < threads. work_left rounds (((ad_pc s)(i := x)) j)) < (\<Sum>j < threads. work_left rounds (ad_pc s j))"
    if "i < threads" "work_left rounds x < work_left rounds (ad_pc s i)" for i x
    using that sum_at [OF that(1), of "work_left rounds" "ad_pc s" x] by simp
  show ?thesis
    using assms by cases (simp_all add: all_work_def del: fun_upd_apply, (rule d; simp add: work_left_def)+)
qed

lemma add_step_exists:
  assumes inv: "add_inv threads rounds amount s" and "\<exists>i < threads. ad_pc s i \<noteq> Over"
  shows "\<exists>s'. add_step threads rounds amount s s'"
proof -
  have go: "\<exists>s'. add_step threads rounds amount s s'" if i: "i < threads" "ad_pc s i \<noteq> AtLock" "ad_pc s i \<noteq> Over" for i
  proof (cases "ad_pc s i")
    case (Adding n)
    then show ?thesis using load [OF i(1)] give_lock [OF i(1)] by (cases n) blast+
  next
    case (Loaded n v)
    then show ?thesis using add_store [OF i(1)] by blast
  qed (use i in auto)
  show ?thesis
  proof (cases "ad_lock s")
    case None
    obtain i where i: "i < threads" "ad_pc s i \<noteq> Over" using assms(2) by blast
    then show ?thesis using go take_lock [OF i(1) _ None] by blast
  next
    case (Some i)
    then have "i < threads" using inv by (simp add: add_inv_def)
    moreover have "ad_pc s i \<noteq> AtLock \<and> ad_pc s i \<noteq> Over"
      using pc_ok_at [OF inv \<open>i < threads\<close>] Some by (auto simp: pc_ok_def)
    ultimately show ?thesis using go by blast
  qed
qed

lemma all_over:
  assumes "reaches (add_step threads rounds amount) add_start s"
  shows "\<exists>t. reaches (add_step threads rounds amount) add_start t \<and> (\<forall>i < threads. ad_pc t i = Over)"
  using assms
proof (induction "nat (all_work threads rounds s)" arbitrary: s rule: less_induct)
  case less
  show ?case
  proof (cases "\<forall>i < threads. ad_pc s i = Over")
    case True
    then show ?thesis using less.prems by blast
  next
    case False
    then obtain s' where s': "add_step threads rounds amount s s'"
      using add_step_exists [OF add_inv_reached [OF less.prems]] by blast
    then have "nat (all_work threads rounds s') < nat (all_work threads rounds s)"
      using add_step_works [OF s'] all_work_nonneg [of threads rounds s'] by simp
    then show ?thesis using less.hyps reaches_step [OF less.prems s'] by blast
  qed
qed

lemma sum_at_end:
  assumes "reaches (add_step threads rounds amount) add_start s" and "\<forall>i < threads. ad_pc s i = Over"
  shows "ad_sum s = int threads * (amount * int rounds)"
  using add_inv_reached [OF assms(1)] assms(2) by (simp add: add_inv_def rounds_done_def)

lemma loop_sum: "foldl (\<lambda>m i. m + 2) (x :: int) [a..<b] = x + 2 * int (b - a)"
  by (induction b) auto

lemma halvings_16: "set (halvings 16) = {16, 8, 4, 2, 1}"
  by (simp add: halvings.simps [of 16] halvings.simps [of 8] halvings.simps [of 4] halvings.simps [of 2]
      halvings.simps [of "Suc 0"] halvings.simps [of 0])

lemma run_good:
  assumes "reaches (add_step threads rounds amount) add_start s"
  shows "(\<forall>i < threads. ad_pc s i = Over) \<and> ad_sum s = int threads * (amount * int rounds)
    \<or> (\<exists>s'. add_step threads rounds amount s s')
      \<and> (\<forall>s'. add_step threads rounds amount s s' \<longrightarrow> all_work threads rounds s' < all_work threads rounds s)"
  using sum_at_end [OF assms] add_step_exists [OF add_inv_reached [OF assms]] add_step_works by blast

text \<open>C38: The lock loses no addition and blocks no thread: however the threads of the two exercises are
  interleaved, as long as one is not over a step is possible, every step leaves less to do,
  and when all are over the sum is 100000000 for each number of threads that is tried, and that
  of the one thread alone.\<close>

theorem threads_add_up:
  assumes "n \<in> set (halvings 16)" and "reaches (thread_func n) add_start s"
    and "reaches SafeAddWorker add_start t"
  shows "((\<forall>i < n. ad_pc s i = Over) \<and> ad_sum s = 100000000
      \<or> (\<exists>s'. thread_func n s s') \<and> (\<forall>s'. thread_func n s s' \<longrightarrow> all_work n 1 s' < all_work n 1 s))
    \<and> ((\<forall>i < 4. ad_pc t i = Over) \<and> ad_sum t = SingleAddWorker 0
      \<or> (\<exists>t'. SafeAddWorker t t')
        \<and> (\<forall>t'. SafeAddWorker t t' \<longrightarrow>
          all_work 4 MassiveAddWorker_rounds t' < all_work 4 MassiveAddWorker_rounds t))"
proof (rule conjI)
  have "int n * local_sum n = 100000000" using assms(1) by (auto simp: halvings_16 local_sum_def loop_sum)
  then show "(\<forall>i < n. ad_pc s i = Over) \<and> ad_sum s = 100000000
      \<or> (\<exists>s'. thread_func n s s') \<and> (\<forall>s'. thread_func n s s' \<longrightarrow> all_work n 1 s' < all_work n 1 s)"
    using run_good [OF assms(2) [unfolded thread_func_def]] by (simp add: thread_func_def)
  have "int 4 * (2 * int MassiveAddWorker_rounds) = SingleAddWorker 0"
    by (simp add: SingleAddWorker_def loop_sum MassiveAddWorker_rounds_def)
  then show "(\<forall>i < 4. ad_pc t i = Over) \<and> ad_sum t = SingleAddWorker 0
      \<or> (\<exists>t'. SafeAddWorker t t')
        \<and> (\<forall>t'. SafeAddWorker t t' \<longrightarrow>
          all_work 4 MassiveAddWorker_rounds t' < all_work 4 MassiveAddWorker_rounds t)"
    using run_good [OF assms(3) [unfolded SafeAddWorker_def]] by (simp add: SafeAddWorker_def)
qed

lemma over_stuck: "\<forall>i < threads. ad_pc s i = Over \<Longrightarrow> \<not> add_step threads rounds amount s s'"
  by (auto elim!: add_step.cases)

lemma threads_add_up_witness:
  "\<exists>s t. reaches (thread_func 16) add_start s \<and> ad_sum s = 100000000
    \<and> reaches SafeAddWorker add_start t \<and> ad_sum t = SingleAddWorker 0"
proof -
  obtain s where s: "reaches (thread_func 16) add_start s" "\<forall>i < 16. ad_pc s i = Over"
    unfolding thread_func_def using all_over [OF reaches_refl] by blast
  obtain t where t: "reaches SafeAddWorker add_start t" "\<forall>i < 4. ad_pc t i = Over"
    unfolding SafeAddWorker_def using all_over [OF reaches_refl] by blast
  have "16 \<in> set (halvings 16)" by (simp add: halvings_16)
  from threads_add_up [OF this s(1) t(1)] show ?thesis
    using over_stuck [OF s(2)] over_stuck [OF t(2)] s(1) t(1) unfolding thread_func_def SafeAddWorker_def by blast
qed

end
