(* ===== verification/BoardServer.thy ===== *)
theory BoardServer
  imports World ClientScenes
begin

section \<open>The server of the board\<close>

text \<open>
  \<open>Homeworks/Case03 - Server\<close>: players walk their pieces on one board of 8 x 8 cells, and every player
  is told of every piece. One thread takes completions from a port. The mutex, which that thread
  only tries to take, is left out. An identifier is the integer below 2 ^ 32 that it is.
\<close>

subsection \<open>Packets\<close>

definition BOARD_MAX :: nat where "BOARD_MAX = 10"
definition BOARD_ORDER_BEGIN :: pid where "BOARD_ORDER_BEGIN = 10000"
definition BOARD_BUFFSIZE :: nat where "BOARD_BUFFSIZE = 512"
definition BOARD_CELLS :: int where "BOARD_CELLS = 8"
definition BOARD_SERVER_KEY :: pid where "BOARD_SERVER_KEY = 100"

lemmas board_consts [simp] = BOARD_MAX_def BOARD_ORDER_BEGIN_def BOARD_BUFFSIZE_def BOARD_CELLS_def BOARD_SERVER_KEY_def

definition B_CS_SIGNIN :: u8 where "B_CS_SIGNIN = 1"
definition B_CS_SIGNOUT :: u8 where "B_CS_SIGNOUT = 2"
definition B_CS_KEY :: u8 where "B_CS_KEY = 3"
definition B_SC_SIGNUP :: u8 where "B_SC_SIGNUP = 4"
definition B_SC_CREATE_CHARACTER :: u8 where "B_SC_CREATE_CHARACTER = 5"
definition B_SC_MOVE_CHARACTER :: u8 where "B_SC_MOVE_CHARACTER = 6"
definition B_SC_SIGNOUT :: u8 where "B_SC_SIGNOUT = 7"

lemmas board_types [simp] = B_CS_SIGNIN_def B_CS_SIGNOUT_def B_CS_KEY_def B_SC_SIGNUP_def
  B_SC_CREATE_CHARACTER_def B_SC_MOVE_CHARACTER_def B_SC_SIGNOUT_def

text \<open>\<open>Packet\<close>: size, type and identifier, packed.\<close>

definition board_packet :: "nat \<Rightarrow> u8 \<Rightarrow> pid \<Rightarrow> bytes" where
  "board_packet sz type i = le_bytes 2 sz @ [type] @ le_bytes 4 (nat i)"

text \<open>What the server tells, as objects in memory; \<open>board_size\<close> is the \<open>Size\<close> of each.\<close>

datatype board_msg =
  MsgSignUp pid nat nat
| MsgCreate pid int int
| MsgMove pid int int
| MsgSignOut pid nat

fun board_size :: "board_msg \<Rightarrow> nat" where
  "board_size (MsgSignUp i u m) = 15"
| "board_size (MsgCreate i x y) = 9"
| "board_size (MsgMove i x y) = 9"
| "board_size (MsgSignOut i u) = 7"

fun board_object :: "board_msg \<Rightarrow> bytes" where
  "board_object (MsgSignUp i u m) = board_packet 15 B_SC_SIGNUP i @ le_bytes 4 u @ le_bytes 4 m"
| "board_object (MsgCreate i x y) = board_packet 9 B_SC_CREATE_CHARACTER i @ [word_of_int x, word_of_int y]"
| "board_object (MsgMove i x y) = board_packet 9 B_SC_MOVE_CHARACTER i @ [word_of_int x, word_of_int y]"
| "board_object (MsgSignOut i u) = board_packet 7 B_SC_SIGNOUT i @ le_bytes 4 u"

definition board_wire :: "board_msg \<Rightarrow> bytes" where
  "board_wire m = take (board_size m) (board_object m)"

text \<open>What the client sends; the key is a \<open>WPARAM\<close> of eight bytes.\<close>

definition BoardSignIn :: "bytes \<Rightarrow> bytes option" where
  "BoardSignIn nick = map_option (\<lambda>n. board_packet 37 B_CS_SIGNIN 0 @ n) (strcpy_s 30 nick)"

definition BoardSignOut :: "pid \<Rightarrow> bytes" where
  "BoardSignOut i = board_packet 7 B_CS_SIGNOUT i"

definition BoardKeyInput :: "pid \<Rightarrow> nat \<Rightarrow> bytes" where
  "BoardKeyInput i key = board_packet 15 B_CS_KEY i @ le_bytes 8 key"

subsection \<open>The state\<close>

text \<open>\<open>bs_start\<close> is where \<open>recvBuffer.buf\<close> points to in \<open>recvCBuffer\<close>.\<close>

record board_session =
  bs_socket :: socket
  bs_nickname :: bytes
  bs_instance :: "(int \<times> int) option"
  bs_memory :: bytes
  bs_start :: nat
  bs_recvBytes :: nat

definition BoardSession :: "socket \<Rightarrow> board_session" where
  "BoardSession sock = \<lparr>bs_socket = sock, bs_nickname = replicate 30 0, bs_instance = None,
     bs_memory = replicate BOARD_BUFFSIZE 0, bs_start = 0, bs_recvBytes = 0\<rparr>"

datatype board_effect =
  BSend socket board_msg
| BRecv socket nat nat
| BClose socket
| BPort socket pid
| BSocket socket
| BAccept socket

record board_os =
  bo_send :: "nat \<Rightarrow> io_result"
  bo_recv :: "nat \<Rightarrow> io_result"
  bo_port :: "nat \<Rightarrow> bool"
  bo_socket :: "nat \<Rightarrow> socket"
  bo_order :: "pid set \<Rightarrow> pid list"

text \<open>
  \<open>bw_object\<close> holds the sessions by identifier and \<open>bw_Clients\<close> those the map \<open>Clients\<close> shares: a
  session that was taken out of it lives on until the handler that uses it returns.
\<close>

record board_world =
  bw_object :: "pid \<Rightarrow> board_session"
  bw_Clients :: "pid set"
  bw_clientsID :: "pid list"
  bw_order :: pid
  bw_number :: u32
  bw_pool :: "socket list"
  bw_newbie :: socket
  bw_log :: "board_effect list"

definition BoardFramework :: board_world where
  "BoardFramework = \<lparr>bw_object = (\<lambda>_. BoardSession NULL_SOCKET), bw_Clients = {}, bw_clientsID = [],
     bw_order = BOARD_ORDER_BEGIN, bw_number = 0, bw_pool = [], bw_newbie = NULL_SOCKET, bw_log = []\<rparr>"

definition b_on_object :: "pid \<Rightarrow> (board_session \<Rightarrow> board_session) \<Rightarrow> board_world \<Rightarrow> board_world" where
  "b_on_object i f w = w\<lparr>bw_object := (bw_object w)(i := f (bw_object w i))\<rparr>"

definition b_emit :: "board_effect \<Rightarrow> board_world \<Rightarrow> board_world" where
  "b_emit e w = w\<lparr>bw_log := bw_log w @ [e]\<rparr>"

definition b_now :: "board_world \<Rightarrow> nat" where
  "b_now w = length (bw_log w)"

subsection \<open>Leaving\<close>

definition b_CreateSocket :: "board_os \<Rightarrow> board_world \<Rightarrow> socket \<times> board_world" where
  "b_CreateSocket os w = (bo_socket os (b_now w), b_emit (BSocket (bo_socket os (b_now w))) w)"

definition b_AddCandidateSocketToPool :: "board_os \<Rightarrow> board_world \<Rightarrow> board_world" where
  "b_AddCandidateSocketToPool os w = (let (s, w) = b_CreateSocket os w in w\<lparr>bw_pool := bw_pool w @ [s]\<rparr>)"

definition b_ForeachClient :: "board_os \<Rightarrow> (pid \<Rightarrow> board_world \<Rightarrow> board_world res) \<Rightarrow> board_world \<Rightarrow> board_world res" where
  "b_ForeachClient os f w = foldR f (bo_order os (bw_Clients w)) w"

definition board_send :: "board_os \<Rightarrow> pid \<Rightarrow> board_msg \<Rightarrow> board_world \<Rightarrow> io_result \<times> board_world" where
  "board_send os i m w = (bo_send os (b_now w), b_emit (BSend (bs_socket (bw_object w i)) m) w)"

text \<open>
  A send to the session the loop over \<open>Clients\<close> stands at. When it fails the session disconnects
  itself, which erases the element under the iterator of that loop.
\<close>

definition send_in_loop :: "board_os \<Rightarrow> pid \<Rightarrow> board_msg \<Rightarrow> board_world \<Rightarrow> board_world res" where
  "send_in_loop os i m w = (case board_send os i m w of
      (IoError, w) \<Rightarrow> Inl EndIterator | (_, w) \<Rightarrow> Inr w)"

definition b_GetClientsNumber :: "board_world \<Rightarrow> nat" where
  "b_GetClientsNumber w = unat (bw_number w)"

definition b_BroadcastSignOut :: "board_os \<Rightarrow> pid \<Rightarrow> board_world \<Rightarrow> board_world res" where
  "b_BroadcastSignOut os who = b_ForeachClient os (\<lambda>other w.
     if other \<noteq> who then send_in_loop os other (MsgSignOut who (b_GetClientsNumber w)) w else Inr w)"

text \<open>\<open>final\<close>: whether the map holds the last pointer to the session, which erasing it then destroys.\<close>

definition b_RemoveClient :: "bool \<Rightarrow> pid \<Rightarrow> board_world \<Rightarrow> board_world" where
  "b_RemoveClient final rid w =
     (let w = w\<lparr>bw_clientsID := remove1 rid (bw_clientsID w)\<rparr>
      in if rid \<in> bw_Clients w then
           (let w = (if final then b_emit (BClose (bs_socket (bw_object w rid))) w else w)
            in w\<lparr>bw_Clients := bw_Clients w - {rid}, bw_number := bw_number w - 1\<rparr>)
         else w)"

definition b_Disconnect :: "board_os \<Rightarrow> bool \<Rightarrow> pid \<Rightarrow> board_world \<Rightarrow> board_world res" where
  "b_Disconnect os final who w =
     rbind (b_BroadcastSignOut os who (b_RemoveClient final who w)) (\<lambda>w. Inr (b_AddCandidateSocketToPool os w))"

subsection \<open>Telling everyone\<close>

definition b_BroadcastSignUp :: "board_os \<Rightarrow> pid \<Rightarrow> board_world \<Rightarrow> board_world res" where
  "b_BroadcastSignUp os who = b_ForeachClient os (\<lambda>other w.
     send_in_loop os other (MsgSignUp who (b_GetClientsNumber w) BOARD_MAX) w)"

definition b_BroadcastCreateCharacter :: "board_os \<Rightarrow> pid \<Rightarrow> int \<Rightarrow> int \<Rightarrow> board_world \<Rightarrow> board_world res" where
  "b_BroadcastCreateCharacter os who cx cy w =
     (if who \<in> bw_Clients w then b_ForeachClient os (\<lambda>other. send_in_loop os other (MsgCreate who cx cy)) w else Inr w)"

definition b_BroadcastMoveCharacter :: "board_os \<Rightarrow> pid \<Rightarrow> int \<Rightarrow> int \<Rightarrow> board_world \<Rightarrow> board_world res" where
  "b_BroadcastMoveCharacter os who nx ny w =
     (if who \<in> bw_Clients w then b_ForeachClient os (\<lambda>other. send_in_loop os other (MsgMove who nx ny)) w else Inr w)"

text \<open>A send to the session whose packet is being handled.\<close>

definition send_to_self :: "board_os \<Rightarrow> pid \<Rightarrow> board_msg \<Rightarrow> board_world \<Rightarrow> board_world res" where
  "send_to_self os i m w = (case board_send os i m w of
      (IoError, w) \<Rightarrow> b_Disconnect os False i w | (_, w) \<Rightarrow> Inr w)"

definition b_SendWorldDataTo :: "board_os \<Rightarrow> pid \<Rightarrow> board_world \<Rightarrow> board_world res" where
  "b_SendWorldDataTo os target = b_ForeachClient os (\<lambda>other w.
     if other \<noteq> target then
       rbind (send_to_self os target (MsgSignUp other (b_GetClientsNumber w) BOARD_MAX) w) (\<lambda>w.
         case bs_instance (bw_object w other) of
           None \<Rightarrow> Inr w
         | Some (x, y) \<Rightarrow> send_to_self os target (MsgCreate other x y) w)
     else Inr w)"

subsection \<open>A session\<close>

text \<open>The answer tells whether \<open>RecvStream\<close> returns other than \<open>SOCKET_ERROR\<close>.\<close>

definition b_RecvStream :: "board_os \<Rightarrow> pid \<Rightarrow> nat \<Rightarrow> board_world \<Rightarrow> (bool \<times> board_world) res" where
  "b_RecvStream os i begin_bytes w =
     (let w = b_on_object i (\<lambda>s. s\<lparr>bs_start := begin_bytes\<rparr>) w;
          r = bo_recv os (b_now w);
          w = b_emit (BRecv (bs_socket (bw_object w i)) begin_bytes (BOARD_BUFFSIZE - begin_bytes)) w
      in case r of
           IoDone \<Rightarrow> Inr (True, w)
         | IoPending \<Rightarrow> Inr (False, w)
         | IoError \<Rightarrow> rbind (b_Disconnect os False i w) (\<lambda>w. Inr (True, w)))"

text \<open>The four moves of a piece, and whether it moved.\<close>

definition b_TryMove :: "nat \<Rightarrow> int \<times> int \<Rightarrow> bool \<times> int \<times> int" where
  "b_TryMove input p = (case p of (x, y) \<Rightarrow>
      if input = VK_LEFT then if 0 < x then (True, x - 1, y) else (False, x, y)
      else if input = VK_RIGHT then if x < BOARD_CELLS - 1 then (True, x + 1, y) else (False, x, y)
      else if input = VK_UP then if 0 < y then (True, x, y - 1) else (False, x, y)
      else if input = VK_DOWN then if y < BOARD_CELLS - 1 then (True, x, y + 1) else (False, x, y)
      else (False, x, y))"

definition b_MoveStream :: "nat \<Rightarrow> board_session \<Rightarrow> board_session res" where
  "b_MoveStream position s =
     (if bs_start s \<noteq> 0 \<or> BOARD_BUFFSIZE < position then Inl BufferOverrun
      else Inr (s\<lparr>bs_memory := drop position (bs_memory s) @ replicate position 0\<rparr>))"

definition b_consume :: "pid \<Rightarrow> nat \<Rightarrow> board_world \<Rightarrow> board_world res" where
  "b_consume i sz_want w =
     (let w = b_on_object i (\<lambda>s. s\<lparr>bs_recvBytes := bs_recvBytes s - sz_want\<rparr>) w
      in if 0 < bs_recvBytes (bw_object w i) then
           rbind (b_MoveStream sz_want (bw_object w i)) (\<lambda>s. Inr (b_on_object i (\<lambda>_. s) w))
         else Inr w)"

definition b_sign_in :: "board_os \<Rightarrow> pid \<Rightarrow> bytes \<Rightarrow> board_world \<Rightarrow> board_world res" where
  "b_sign_in os i buf w = (case strcpy_s 30 (drop 7 buf) of
      None \<Rightarrow> Inl Exited
    | Some nick \<Rightarrow>
        rbind (b_BroadcastSignUp os i (b_on_object i (\<lambda>s. s\<lparr>bs_nickname := nick, bs_instance := Some (3, 3)\<rparr>) w)) (\<lambda>w.
        rbind (b_BroadcastCreateCharacter os i 3 3 w) (b_SendWorldDataTo os i)))"

definition b_key :: "board_os \<Rightarrow> pid \<Rightarrow> pid \<Rightarrow> bytes \<Rightarrow> board_world \<Rightarrow> board_world res" where
  "b_key os i pid buf w = (case bs_instance (bw_object w i) of
      Some p \<Rightarrow>
        if pid = i then
          (let (moved, q) = b_TryMove (read_le buf 7 8) p;
               w = b_on_object i (\<lambda>s. s\<lparr>bs_instance := Some q\<rparr>) w
           in if moved then b_BroadcastMoveCharacter os i (fst q) (snd q) w else Inr w)
        else Inr w
    | None \<Rightarrow> Inr w)"

text \<open>
  The loop over what was received: whether it goes on to receive. A packet that is not there as a
  whole is left where it is, and the loop looks at it again.
\<close>

fun b_loop :: "nat \<Rightarrow> board_os \<Rightarrow> pid \<Rightarrow> board_world \<Rightarrow> (bool \<times> board_world) res" where
  "b_loop 0 os i w = Inl NoReturn"
| "b_loop (Suc n) os i w =
     (let s = bw_object w i; buf = drop (bs_start s) (bs_memory s);
          sz_want = read_le buf 0 2; type = byte_at buf 2; pid = int (read_le buf 3 4)
      in if bs_recvBytes s < 7 then Inr (True, w)
         else if type = B_CS_SIGNIN then
           (if sz_want \<le> bs_recvBytes s then
              rbind (b_sign_in os i buf w) (\<lambda>w. rbind (b_consume i sz_want w) (b_loop n os i))
            else b_loop n os i w)
         else if type = B_CS_SIGNOUT then
           (if sz_want \<le> bs_recvBytes s then
              if pid = i then rbind (b_Disconnect os False i w) (\<lambda>w. Inr (False, w))
              else rbind (b_consume i sz_want w) (b_loop n os i)
            else b_loop n os i w)
         else if type = B_CS_KEY then
           (if sz_want \<le> bs_recvBytes s then
              rbind (b_key os i pid buf w) (\<lambda>w. rbind (b_consume i sz_want w) (b_loop n os i))
            else b_loop n os i w)
         else Inr (False, b_on_object i (\<lambda>s. s\<lparr>bs_recvBytes := 0, bs_memory := replicate BOARD_BUFFSIZE 0\<rparr>) w))"

declare b_loop.simps(2) [simp del]

definition b_ProceedReceived :: "nat \<Rightarrow> board_os \<Rightarrow> pid \<Rightarrow> nat \<Rightarrow> board_world \<Rightarrow> board_world res" where
  "b_ProceedReceived fuel os i byte w =
     rbind (b_loop fuel os i (b_on_object i (\<lambda>s. s\<lparr>bs_recvBytes := bs_recvBytes s + byte\<rparr>) w)) (\<lambda>(again, w).
       if again then rbind (b_RecvStream os i (bs_recvBytes (bw_object w i)) w) (\<lambda>(_, w). Inr w) else Inr w)"

definition b_ProceedSent :: "board_os \<Rightarrow> pid \<Rightarrow> nat \<Rightarrow> bool \<Rightarrow> board_world \<Rightarrow> board_world res" where
  "b_ProceedSent os i byte pending w = (if byte = 0 \<and> \<not> pending then b_Disconnect os False i w else Inr w)"

subsection \<open>The framework\<close>

text \<open>The bytes the system puts where \<open>WSARecv\<close> was told to.\<close>

definition b_deliver :: "bytes \<Rightarrow> board_session \<Rightarrow> board_session" where
  "b_deliver data s = s\<lparr>bs_memory := take (bs_start s) (bs_memory s) @ data
     @ drop (bs_start s + length data) (bs_memory s)\<rparr>"

text \<open>
  The record of an operation whose session is gone is deleted: that of a send is on the heap, that of
  a receive was a part of the session. The session is destroyed at the end when it was taken out of the
  map meanwhile.
\<close>

definition b_ProceedPacket :: "bool \<Rightarrow> (pid \<Rightarrow> board_world \<Rightarrow> board_world res) \<Rightarrow> pid \<Rightarrow> board_world \<Rightarrow> board_world res" where
  "b_ProceedPacket on_heap proceed key w =
     (if key \<notin> bw_Clients w then if on_heap then Inr w else Inl BadFree
      else rbind (proceed key w) (\<lambda>w.
        Inr (if key \<in> bw_Clients w then w else b_emit (BClose (bs_socket (bw_object w key))) w)))"

definition b_Accept :: "board_world \<Rightarrow> board_world" where
  "b_Accept w = b_emit (BAccept (bw_newbie w)) w"

definition b_CreateAndAssignClient :: "board_os \<Rightarrow> socket \<Rightarrow> board_world \<Rightarrow> (bool \<times> board_world) res" where
  "b_CreateAndAssignClient os nsocket w =
     (let nid = bw_order w; io = bo_port os (b_now w);
          w = b_emit (BPort nsocket nid) (b_on_object nid (\<lambda>_. BoardSession nsocket) w)
      in if \<not> io then Inr (False, b_emit (BClose nsocket) w)
         else rbind (b_RecvStream os nid 0 (w\<lparr>bw_order := (nid + 1) mod 2 ^ 32\<rparr>)) (\<lambda>(ok, w).
           if \<not> ok then Inr (False, b_emit (BClose nsocket) w)
           else Inr (True, w\<lparr>bw_clientsID := bw_clientsID w @ [nid], bw_Clients := insert nid (bw_Clients w),
             bw_number := bw_number w + 1\<rparr>)))"

definition b_ProceedAccept :: "board_os \<Rightarrow> board_world \<Rightarrow> board_world res" where
  "b_ProceedAccept os w =
     rbind (if bw_pool w = [] then Inr w
       else rbind (b_CreateAndAssignClient os (bw_newbie w) w) (\<lambda>(ok, w).
         let w = (if ok then w else b_emit (BClose (bw_newbie w)) w); (s, w) = b_CreateSocket os w
         in Inr (w\<lparr>bw_newbie := s\<rparr>))) (\<lambda>w.
       Inr (if bw_pool w = [] then w else b_Accept w))"

text \<open>
  What the port gives: a connection, bytes that came for a session, bytes that went, or the failure
  of an operation of a session, where it is not that the operation is pending.
\<close>

datatype board_event =
  BKnock
| BGot pid bytes
| BSent pid nat bool
| BBroken pid

definition b_Update :: "nat \<Rightarrow> board_os \<Rightarrow> board_event \<Rightarrow> board_world \<Rightarrow> board_world res" where
  "b_Update fuel os e w = (case e of
      BKnock \<Rightarrow> b_ProceedAccept os w
    | BGot key data \<Rightarrow> b_ProceedPacket False (\<lambda>i w. b_ProceedReceived fuel os i (length data) (b_on_object i (b_deliver data) w)) key w
    | BSent key byte pending \<Rightarrow> b_ProceedPacket True (\<lambda>i. b_ProceedSent os i byte pending) key w
    | BBroken key \<Rightarrow> if key \<noteq> BOARD_SERVER_KEY then b_Disconnect os True key w else Inr w)"

text \<open>
  \<open>Init\<close> and \<open>Start\<close>. \<open>main\<close> starts whether or not \<open>Init\<close> came to its end; each call is told to succeed or
  not, and the sockets of the pool are made, and set up, one after the other.
\<close>

record board_boot =
  bb_ready :: bool
  bb_made :: "nat \<Rightarrow> bool"
  bb_set :: "nat \<Rightarrow> bool"
  bb_reuse :: bool
  bb_listen :: bool

fun fill_pool :: "board_boot \<Rightarrow> board_os \<Rightarrow> nat \<Rightarrow> board_world \<Rightarrow> board_world" where
  "fill_pool b os 0 w = w"
| "fill_pool b os (Suc n) w =
     (let i = BOARD_MAX - Suc n
      in if \<not> bb_made b i then w
         else let (s, w) = b_CreateSocket os w
           in if \<not> bb_set b i then w else fill_pool b os n (w\<lparr>bw_pool := bw_pool w @ [s]\<rparr>))"

definition b_Init :: "board_boot \<Rightarrow> board_os \<Rightarrow> board_world \<Rightarrow> board_world" where
  "b_Init b os w = (if bb_ready b then fill_pool b os BOARD_MAX w else w)"

text \<open>The state the endless loop over \<open>Update\<close> begins with; \<open>None\<close> when it is not reached.\<close>

definition b_Start :: "board_boot \<Rightarrow> board_os \<Rightarrow> board_world \<Rightarrow> board_world option" where
  "b_Start b os w =
     (if \<not> bb_reuse b \<or> \<not> bb_listen b then None
      else let (s, w) = b_CreateSocket os w in Some (b_Accept (w\<lparr>bw_newbie := s\<rparr>)))"

definition b_main :: "board_boot \<Rightarrow> board_os \<Rightarrow> board_world option" where
  "b_main b os = b_Start b os (b_Init b os BoardFramework)"

end
