(* ===== verification/BoardClient.thy ===== *)
theory BoardClient
  imports BoardServer
begin

section \<open>The client of the board\<close>

text \<open>
  \<open>Homeworks/Case03 - Client\<close>: its framework, what it sends, how it takes what the server tells, and
  what it draws. A pointer to a local session is its place in the order of creation.
\<close>

subsection \<open>The state\<close>

datatype board_status = BoardBegin | BoardConnect | BoardGame

record board_character =
  bc_owner :: pid
  bc_x :: u8
  bc_y :: u8

record local_session =
  ls_ID :: pid
  ls_Instance :: "board_character option"

datatype board_call =
  BcRecv nat nat
| BcSend bytes
| BcConnect bytes
| BcInvalidate bool

record board_client =
  bc_Status :: board_status
  bc_ID :: pid
  bc_green :: bool
  bc_serverIP :: bytes
  bc_heap :: "local_session list"
  bc_Clients :: "nat list"
  bc_ClientsDict :: "pid \<rightharpoonup> nat"
  bc_clientNumber :: nat
  bc_clientMaxNumber :: nat
  bc_Lastkey :: nat
  bc_memory :: bytes
  bc_start :: nat
  bc_recvBytes :: nat
  bc_calls :: "board_call list"

definition ClientFramework :: board_client where
  "ClientFramework = \<lparr>bc_Status = BoardBegin, bc_ID = 2 ^ 32 - 1, bc_green = False,
     bc_serverIP = [49, 50, 55, 46, 48, 46, 48, 46, 49], bc_heap = [], bc_Clients = [],
     bc_ClientsDict = Map.empty, bc_clientNumber = 0, bc_clientMaxNumber = 0, bc_Lastkey = 2 ^ 64 - 1,
     bc_memory = replicate BOARD_BUFFSIZE 0, bc_start = 0, bc_recvBytes = 0, bc_calls = []\<rparr>"

definition bc_call :: "board_call \<Rightarrow> board_client \<Rightarrow> board_client" where
  "bc_call e c = c\<lparr>bc_calls := bc_calls c @ [e]\<rparr>"

subsection \<open>What it sends\<close>

definition bc_Recv :: "nat \<Rightarrow> board_client \<Rightarrow> board_client" where
  "bc_Recv begin_bytes c = bc_call (BcRecv begin_bytes (BOARD_BUFFSIZE - begin_bytes)) (c\<lparr>bc_start := begin_bytes\<rparr>)"

definition bc_SendSignInMsg :: "board_client \<Rightarrow> board_client res" where
  "bc_SendSignInMsg c = (case BoardSignIn [85, 115, 101, 114, 110, 97, 109, 101] of
      None \<Rightarrow> Inl Exited | Some d \<Rightarrow> Inr (bc_call (BcSend d) c))"

definition bc_SendSignOutMsg :: "board_client \<Rightarrow> board_client" where
  "bc_SendSignOutMsg c = bc_call (BcSend (BoardSignOut (bc_ID c))) c"

definition bc_SendSignKeyMsg :: "board_client \<Rightarrow> board_client" where
  "bc_SendSignKeyMsg c =
     (if bc_Lastkey c \<noteq> 0 then bc_call (BcSend (BoardKeyInput (bc_ID c) (bc_Lastkey c))) c else c)"

subsection \<open>Its window\<close>

text \<open>\<open>reached\<close>: whether \<open>WSAConnect\<close> succeeds; \<open>ErrorAbort\<close> ends the program otherwise.\<close>

definition bc_Connect :: "bool \<Rightarrow> board_client \<Rightarrow> board_client res" where
  "bc_Connect reached c =
     (let c = bc_call (BcConnect (bc_serverIP c)) (c\<lparr>bc_Status := BoardConnect\<rparr>)
      in if reached then bc_SendSignInMsg (bc_Recv 0 c) else Inl Exited)"

definition bc_InputIpChar :: "bool \<Rightarrow> nat \<Rightarrow> board_client \<Rightarrow> board_client res" where
  "bc_InputIpChar reached key c =
     rbind (if key = VK_RETURN then bc_Connect reached c
       else if key = VK_BACK then
         Inr (if 0 < length (bc_serverIP c) then c\<lparr>bc_serverIP := butlast (bc_serverIP c)\<rparr> else c)
       else if 48 \<le> key \<and> key \<le> 57 then
         Inr (if length (bc_serverIP c) < 16 then c\<lparr>bc_serverIP := bc_serverIP c @ [word_of_nat key]\<rparr> else c)
       else if key = VK_OEM_PERIOD then
         Inr (if length (bc_serverIP c) < 16 then c\<lparr>bc_serverIP := bc_serverIP c @ [46]\<rparr> else c)
       else Inr c) (\<lambda>c. Inr (bc_call (BcInvalidate True) c))"

definition bc_InputKey :: "nat \<Rightarrow> board_client \<Rightarrow> board_client" where
  "bc_InputKey key c = bc_SendSignKeyMsg (c\<lparr>bc_Lastkey := key\<rparr>)"

definition bc_InputEvent :: "bool \<Rightarrow> nat \<Rightarrow> board_client \<Rightarrow> board_client res" where
  "bc_InputEvent reached key c = (case bc_Status c of
      BoardBegin \<Rightarrow> bc_InputIpChar reached key c
    | BoardConnect \<Rightarrow> Inr c
    | BoardGame \<Rightarrow> Inr (bc_InputKey key c))"

subsection \<open>Whom it knows\<close>

definition bc_AddClient :: "pid \<Rightarrow> board_client \<Rightarrow> board_client" where
  "bc_AddClient i c =
     (let p = length (bc_heap c)
      in c\<lparr>bc_heap := bc_heap c @ [\<lparr>ls_ID = i, ls_Instance = None\<rparr>],
           bc_Clients := bc_Clients c @ [p],
           bc_ClientsDict := (case bc_ClientsDict c i of None \<Rightarrow> (bc_ClientsDict c)(i \<mapsto> p)
             | Some _ \<Rightarrow> bc_ClientsDict c)\<rparr>)"

definition bc_GetClient :: "pid \<Rightarrow> board_client \<Rightarrow> nat res" where
  "bc_GetClient i c = (case bc_ClientsDict c i of None \<Rightarrow> Inl OutOfRange | Some p \<Rightarrow> Inr p)"

definition bc_RemoveClient :: "pid \<Rightarrow> board_client \<Rightarrow> board_client res" where
  "bc_RemoveClient i c = (case bc_ClientsDict c i of
      None \<Rightarrow> Inl EndIterator
    | Some p \<Rightarrow> Inr (c\<lparr>bc_ClientsDict := (bc_ClientsDict c)(i := None), bc_Clients := remove1 p (bc_Clients c)\<rparr>))"

subsection \<open>What the server tells\<close>

definition bc_SignUp :: "pid \<Rightarrow> board_client \<Rightarrow> board_client res" where
  "bc_SignUp i c =
     (let c = (if bc_Status c = BoardConnect
               then bc_call (BcInvalidate True) (c\<lparr>bc_Status := BoardGame, bc_green := True, bc_ID := i\<rparr>) else c);
          c = bc_AddClient i c
      in Inr (c\<lparr>bc_clientNumber := read_le (bc_memory c) 7 4, bc_clientMaxNumber := read_le (bc_memory c) 11 4\<rparr>))"

definition bc_SignOut :: "pid \<Rightarrow> board_client \<Rightarrow> board_client res" where
  "bc_SignOut i c =
     (if i = 0 then Inr c
      else rbind (bc_RemoveClient i (c\<lparr>bc_clientNumber := read_le (bc_memory c) 7 4\<rparr>)) (\<lambda>c.
        Inr (bc_call (BcInvalidate False)
          (if i = bc_ID c then c\<lparr>bc_Status := BoardBegin, bc_green := False\<rparr> else c))))"

definition bc_CreateCharacter :: "pid \<Rightarrow> board_client \<Rightarrow> board_client res" where
  "bc_CreateCharacter i c =
     rbind (bc_GetClient i c) (\<lambda>p.
       Inr (bc_call (BcInvalidate False) (c\<lparr>bc_heap := (bc_heap c)[p := (bc_heap c ! p)\<lparr>ls_Instance :=
         Some \<lparr>bc_owner = i, bc_x = byte_at (bc_memory c) 7, bc_y = byte_at (bc_memory c) 8\<rparr>\<rparr>]\<rparr>)))"

definition bc_MoveCharacter :: "pid \<Rightarrow> board_client \<Rightarrow> board_client res" where
  "bc_MoveCharacter i c =
     rbind (bc_GetClient i c) (\<lambda>p. case ls_Instance (bc_heap c ! p) of
         None \<Rightarrow> Inl NullDeref
       | Some ch \<Rightarrow> Inr (bc_call (BcInvalidate False) (c\<lparr>bc_heap := (bc_heap c)[p := (bc_heap c ! p)\<lparr>ls_Instance :=
           Some (ch\<lparr>bc_x := byte_at (bc_memory c) 7, bc_y := byte_at (bc_memory c) 8\<rparr>)\<rparr>]\<rparr>)))"

definition bc_packet :: "board_client \<Rightarrow> board_client res" where
  "bc_packet c =
     (let type = byte_at (bc_memory c) 2; i = int (read_le (bc_memory c) 3 4)
      in if type = B_SC_SIGNUP then bc_SignUp i c
         else if type = B_SC_SIGNOUT then bc_SignOut i c
         else if type = B_SC_CREATE_CHARACTER then bc_CreateCharacter i c
         else if type = B_SC_MOVE_CHARACTER then bc_MoveCharacter i c
         else Inr c)"

text \<open>
  After a packet the buffer is moved by all the bytes that were received, not by those of the packet;
  a packet that is not there as a whole is looked at again at once.
\<close>

definition bc_shift :: "nat \<Rightarrow> bytes \<Rightarrow> bytes" where
  "bc_shift n m = take (BOARD_BUFFSIZE - n) (drop n m) @ drop (BOARD_BUFFSIZE - n) m"

fun bc_loop :: "nat \<Rightarrow> board_client \<Rightarrow> board_client res" where
  "bc_loop 0 c = Inl NoReturn"
| "bc_loop (Suc n) c =
     (if bc_recvBytes c < 7 then Inr c
      else let sz_want = read_le (bc_memory c) 0 2
        in if sz_want \<le> bc_recvBytes c then
             rbind (bc_packet c) (\<lambda>c. bc_loop n (c\<lparr>bc_memory := bc_shift (bc_recvBytes c) (bc_memory c),
               bc_recvBytes := bc_recvBytes c - sz_want\<rparr>))
           else bc_loop n c)"

declare bc_loop.simps(2) [simp del]

definition bc_ProceedRecv :: "nat \<Rightarrow> nat \<Rightarrow> board_client \<Rightarrow> board_client res" where
  "bc_ProceedRecv fuel byte c =
     rbind (bc_loop fuel (c\<lparr>bc_recvBytes := bc_recvBytes c + byte\<rparr>)) (\<lambda>c. Inr (bc_Recv (bc_recvBytes c) c))"

text \<open>The bytes the system puts where \<open>WSARecv\<close> was told to, and \<open>CallbackRecv\<close>.\<close>

definition bc_receive :: "nat \<Rightarrow> bytes \<Rightarrow> board_client \<Rightarrow> board_client res" where
  "bc_receive fuel data c =
     bc_ProceedRecv fuel (length data) (c\<lparr>bc_memory := take (bc_start c) (bc_memory c) @ data
       @ drop (bc_start c + length data) (bc_memory c)\<rparr>)"

subsection \<open>What it draws\<close>

text \<open>The cells of the board, each at its place and whether it is black.\<close>

fun board_squares :: "nat list \<Rightarrow> bool \<Rightarrow> (int \<times> int \<times> bool) list" where
  "board_squares [] fill_flag = []"
| "board_squares (i # is) fill_flag =
     (let sort_ratio = i div 8; x = (int i - int sort_ratio * 8) * 64; y = int sort_ratio * 64
      in (x, y, fill_flag) # board_squares is (if 7 * 64 \<noteq> x then \<not> fill_flag else fill_flag))"

definition bc_board :: "(int \<times> int \<times> bool) list" where
  "bc_board = board_squares [0..<64] False"

datatype board_drawing =
  DrawAddress bytes
| DrawConnecting
| DrawID pid
| DrawBoard int int
| DrawPiece int int int int
| DrawName int int pid

definition BOARD_X :: int where "BOARD_X = 144"
definition BOARD_Y :: int where "BOARD_Y = 34"

definition bc_RenderCharacter :: "board_character \<Rightarrow> board_drawing list" where
  "bc_RenderCharacter ch =
     (let dx = BOARD_X + uint (bc_x ch) * 64 + 32; dy = BOARD_Y + uint (bc_y ch) * 64 + 32
      in [DrawPiece (dx - 16) (dy - 16) (dx + 16) (dy + 16), DrawName dx dy (bc_owner ch)])"

definition bc_Render :: "board_client \<Rightarrow> board_drawing list" where
  "bc_Render c = (case bc_Status c of
      BoardBegin \<Rightarrow> [DrawAddress (bc_serverIP c)]
    | BoardConnect \<Rightarrow> [DrawConnecting]
    | BoardGame \<Rightarrow> [DrawID (bc_ID c), DrawBoard BOARD_X BOARD_Y]
        @ concat (map (\<lambda>p. case ls_Instance (bc_heap c ! p) of
            None \<Rightarrow> [] | Some ch \<Rightarrow> bc_RenderCharacter ch) (bc_Clients c)))"

end
