(* ===== verification/BoardView.thy ===== *)
theory BoardView
  imports BoardClient
begin

section \<open>What a player sees of the board\<close>

text \<open>
  What the client keeps of the other players, seen without its pointers: whom it knows, and where their
  pieces stand. Each packet, received alone, changes it as the packet says.
\<close>

subsection \<open>The view\<close>

type_synonym board_view = "board_status \<times> pid \<times> (pid \<rightharpoonup> (int \<times> int) option)"

definition bc_place :: "local_session \<Rightarrow> (int \<times> int) option" where
  "bc_place l = map_option (\<lambda>ch. (uint (bc_x ch), uint (bc_y ch))) (ls_Instance l)"

definition bc_view :: "board_client \<Rightarrow> board_view" where
  "bc_view c = (bc_Status c, bc_ID c, \<lambda>i. map_option (\<lambda>p. bc_place (bc_heap c ! p)) (bc_ClientsDict c i))"

fun hears :: "board_msg \<Rightarrow> board_view \<Rightarrow> board_view option" where
  "hears (MsgSignUp i u m) (st, mine, kn) =
     (let kn = (if kn i = None then kn(i \<mapsto> None) else kn)
      in Some (if st = BoardConnect then (BoardGame, i, kn) else (st, mine, kn)))"
| "hears (MsgCreate i x y) (st, mine, kn) =
     (if kn i = None then None else Some (st, mine, kn(i \<mapsto> Some (x, y))))"
| "hears (MsgMove i x y) (st, mine, kn) =
     (case kn i of Some (Some q) \<Rightarrow> Some (st, mine, kn(i \<mapsto> Some (x, y))) | _ \<Rightarrow> None)"
| "hears (MsgSignOut i u) (st, mine, kn) =
     (if i = 0 then Some (st, mine, kn)
      else if kn i = None then None
      else Some (if i = mine then BoardBegin else st, mine, kn(i := None)))"

text \<open>The pointers of the client are in order, and it waits at the beginning of its buffer.\<close>

definition bc_tidy :: "board_client \<Rightarrow> bool" where
  "bc_tidy c \<longleftrightarrow> distinct (bc_Clients c)
     \<and> (\<forall>i p. bc_ClientsDict c i = Some p \<longrightarrow> p \<in> set (bc_Clients c) \<and> ls_ID (bc_heap c ! p) = i)
     \<and> (\<forall>p \<in> set (bc_Clients c). p < length (bc_heap c)
         \<and> (\<forall>ch. ls_Instance (bc_heap c ! p) = Some ch \<longrightarrow>
              bc_owner ch = ls_ID (bc_heap c ! p) \<and> bc_ClientsDict c (ls_ID (bc_heap c ! p)) = Some p))"

definition bc_waits :: "board_client \<Rightarrow> bool" where
  "bc_waits c \<longleftrightarrow> bc_start c = 0 \<and> bc_recvBytes c = 0 \<and> length (bc_memory c) = BOARD_BUFFSIZE"

text \<open>The numbers of a message fit its fields.\<close>

fun msg_fits :: "board_msg \<Rightarrow> bool" where
  "msg_fits (MsgSignUp i u m) \<longleftrightarrow> 0 \<le> i \<and> i < 2 ^ 32"
| "msg_fits (MsgCreate i x y) \<longleftrightarrow> 0 \<le> i \<and> i < 2 ^ 32 \<and> 0 \<le> x \<and> x < 256 \<and> 0 \<le> y \<and> y < 256"
| "msg_fits (MsgMove i x y) \<longleftrightarrow> 0 \<le> i \<and> i < 2 ^ 32 \<and> 0 \<le> x \<and> x < 256 \<and> 0 \<le> y \<and> y < 256"
| "msg_fits (MsgSignOut i u) \<longleftrightarrow> 0 \<le> i \<and> i < 2 ^ 32"

subsection \<open>Packets\<close>

lemma length_board_packet [simp]: "length (board_packet n t i) = 7"
  by (simp add: board_packet_def)

lemma length_board_wire [simp]: "length (board_wire m) = board_size m"
  by (cases m) (simp_all add: board_wire_def)

lemma board_size_bounds: "7 \<le> board_size m" "board_size m \<le> 15"
  by (cases m; simp)+

lemma board_packet_reads:
  assumes "n < 65536" and "0 \<le> i" and "i < 2 ^ 32"
  shows "read_le (board_packet n t i @ z) 0 2 = n" and "byte_at (board_packet n t i @ z) 2 = t"
    and "int (read_le (board_packet n t i @ z) 3 4) = i"
proof -
  have "nat i < 256 ^ 4" using assms by simp
  then show "read_le (board_packet n t i @ z) 0 2 = n" "byte_at (board_packet n t i @ z) 2 = t"
    "int (read_le (board_packet n t i @ z) 3 4) = i"
    using assms by (simp_all add: board_packet_def field_reads del: le_bytes.simps)
qed

lemma board_packet_tail: "7 \<le> k \<Longrightarrow> byte_at (board_packet n t i @ z) k = byte_at z (k - 7)"
  by (simp add: byte_at_skip)

fun msg_type :: "board_msg \<Rightarrow> u8" where
  "msg_type (MsgSignUp i u m) = B_SC_SIGNUP"
| "msg_type (MsgCreate i x y) = B_SC_CREATE_CHARACTER"
| "msg_type (MsgMove i x y) = B_SC_MOVE_CHARACTER"
| "msg_type (MsgSignOut i u) = B_SC_SIGNOUT"

fun msg_owner :: "board_msg \<Rightarrow> pid" where
  "msg_owner (MsgSignUp i u m) = i"
| "msg_owner (MsgCreate i x y) = i"
| "msg_owner (MsgMove i x y) = i"
| "msg_owner (MsgSignOut i u) = i"

lemma board_wire_packet: "\<exists>t. board_wire m = board_packet (board_size m) (msg_type m) (msg_owner m) @ t"
  by (cases m) (auto simp: board_wire_def)

lemma board_wire_reads:
  assumes "msg_fits m"
  shows "read_le (board_wire m @ z) 0 2 = board_size m" and "byte_at (board_wire m @ z) 2 = msg_type m"
    and "int (read_le (board_wire m @ z) 3 4) = msg_owner m"
proof -
  obtain t where t: "board_wire m = board_packet (board_size m) (msg_type m) (msg_owner m) @ t"
    using board_wire_packet by blast
  have "0 \<le> msg_owner m" "msg_owner m < 2 ^ 32" using assms by (cases m; simp)+
  moreover have "board_size m < 65536" using board_size_bounds(2) [of m] by linarith
  ultimately show "read_le (board_wire m @ z) 0 2 = board_size m" "byte_at (board_wire m @ z) 2 = msg_type m"
    "int (read_le (board_wire m @ z) 3 4) = msg_owner m"
    by (simp_all add: t board_packet_reads)
qed

lemma board_wire_place:
  assumes "0 \<le> x" "x < 256" "0 \<le> y" "y < 256"
  shows "uint (byte_at (board_wire (MsgCreate i x y) @ z) 7) = x" and "uint (byte_at (board_wire (MsgCreate i x y) @ z) 8) = y"
    and "uint (byte_at (board_wire (MsgMove i x y) @ z) 7) = x" and "uint (byte_at (board_wire (MsgMove i x y) @ z) 8) = y"
  using assms by (simp_all add: board_wire_def board_packet_tail byte_at_def nth_append uint_word_of_int)

subsection \<open>One packet\<close>

lemma bc_view_frame [simp]:
  "bc_view (bc_call e c) = bc_view c" "bc_tidy (bc_call e c) = bc_tidy c"
  "bc_view (c\<lparr>bc_clientNumber := n\<rparr>) = bc_view c" "bc_tidy (c\<lparr>bc_clientNumber := n\<rparr>) = bc_tidy c"
  "bc_view (c\<lparr>bc_clientMaxNumber := n\<rparr>) = bc_view c" "bc_tidy (c\<lparr>bc_clientMaxNumber := n\<rparr>) = bc_tidy c"
  "bc_view (c\<lparr>bc_memory := b\<rparr>) = bc_view c" "bc_tidy (c\<lparr>bc_memory := b\<rparr>) = bc_tidy c"
  "bc_view (c\<lparr>bc_recvBytes := n\<rparr>) = bc_view c" "bc_tidy (c\<lparr>bc_recvBytes := n\<rparr>) = bc_tidy c"
  "bc_view (c\<lparr>bc_start := n\<rparr>) = bc_view c" "bc_tidy (c\<lparr>bc_start := n\<rparr>) = bc_tidy c"
  "bc_tidy (c\<lparr>bc_Status := st\<rparr>) = bc_tidy c" "bc_tidy (c\<lparr>bc_ID := i\<rparr>) = bc_tidy c"
  "bc_tidy (c\<lparr>bc_green := b'\<rparr>) = bc_tidy c" "bc_view (c\<lparr>bc_green := b'\<rparr>) = bc_view c"
  by (simp_all add: bc_view_def bc_tidy_def bc_call_def)

text \<open>What \<open>bc_packet\<close> leaves as it is.\<close>

definition bc_same_buffer :: "board_client \<Rightarrow> board_client \<Rightarrow> bool" where
  "bc_same_buffer c c' \<longleftrightarrow> bc_memory c' = bc_memory c \<and> bc_recvBytes c' = bc_recvBytes c \<and> bc_start c' = bc_start c"

lemma bc_tidy_D:
  assumes "bc_tidy c" and "bc_ClientsDict c i = Some p"
  shows "p < length (bc_heap c)" and "p \<in> set (bc_Clients c)" and "ls_ID (bc_heap c ! p) = i"
  using assms by (auto simp: bc_tidy_def)

lemma bc_tidy_owner:
  assumes "bc_tidy c" and "p \<in> set (bc_Clients c)"
  shows "p < length (bc_heap c)"
    and "ls_Instance (bc_heap c ! p) = Some ch \<Longrightarrow> bc_owner ch = ls_ID (bc_heap c ! p) \<and> bc_ClientsDict c (ls_ID (bc_heap c ! p)) = Some p"
  using assms unfolding bc_tidy_def by blast+

lemma bc_AddClient_tidy:
  assumes "bc_tidy c"
  shows "bc_tidy (bc_AddClient i c)"
proof -
  define c' where "c' = bc_AddClient i c"
  let ?n = "length (bc_heap c)"
  have heap: "bc_heap c' ! p = bc_heap c ! p" if "p < ?n" for p
    using that by (simp add: c'_def bc_AddClient_def Let_def nth_append)
  have new: "bc_heap c' ! ?n = \<lparr>ls_ID = i, ls_Instance = None\<rparr>" "length (bc_heap c') = Suc ?n"
    "bc_Clients c' = bc_Clients c @ [?n]"
    by (simp_all add: c'_def bc_AddClient_def Let_def)
  have dict: "bc_ClientsDict c' j = (if j = i \<and> bc_ClientsDict c i = None then Some ?n else bc_ClientsDict c j)" for j
    by (simp add: c'_def bc_AddClient_def Let_def split: option.split)
  have "distinct (bc_Clients c')"
    using assms bc_tidy_owner(1) [OF assms] by (auto simp: new bc_tidy_def)
  moreover have "p \<in> set (bc_Clients c') \<and> ls_ID (bc_heap c' ! p) = j" if "bc_ClientsDict c' j = Some p" for j p
  proof (cases "j = i \<and> bc_ClientsDict c i = None")
    case True
    then show ?thesis using that new by (auto simp: dict)
  next
    case False
    then have "bc_ClientsDict c j = Some p" using that by (auto simp: dict split: if_splits)
    then show ?thesis using bc_tidy_D [OF assms] by (simp add: heap new)
  qed
  moreover have "p < length (bc_heap c') \<and> (\<forall>ch. ls_Instance (bc_heap c' ! p) = Some ch \<longrightarrow>
      bc_owner ch = ls_ID (bc_heap c' ! p) \<and> bc_ClientsDict c' (ls_ID (bc_heap c' ! p)) = Some p)"
    if "p \<in> set (bc_Clients c')" for p
  proof (cases "p = ?n")
    case True
    then show ?thesis using new by simp
  next
    case False
    then have "p \<in> set (bc_Clients c)" using that by (simp add: new)
    then have "p < ?n" "\<And>ch. ls_Instance (bc_heap c ! p) = Some ch \<Longrightarrow>
        bc_owner ch = ls_ID (bc_heap c ! p) \<and> bc_ClientsDict c (ls_ID (bc_heap c ! p)) = Some p"
      using bc_tidy_owner [OF assms] by auto
    then show ?thesis by (fastforce simp: heap new dict)
  qed
  ultimately show ?thesis unfolding c'_def [symmetric] bc_tidy_def by blast
qed

lemma bc_AddClient_view:
  assumes "bc_tidy c"
  shows "bc_view (bc_AddClient i c) = (bc_Status c, bc_ID c,
    let kn = snd (snd (bc_view c)) in if kn i = None then kn(i \<mapsto> None) else kn)"
proof -
  let ?n = "length (bc_heap c)"
  have "map_option (\<lambda>p. bc_place ((bc_heap c @ [l]) ! p)) (bc_ClientsDict c j)
      = map_option (\<lambda>p. bc_place (bc_heap c ! p)) (bc_ClientsDict c j)" for j l
    using bc_tidy_D(1) [OF assms] by (cases "bc_ClientsDict c j") (simp_all add: nth_append)
  then show ?thesis
    by (cases "bc_ClientsDict c i")
      (simp_all add: bc_view_def bc_AddClient_def Let_def fun_eq_iff bc_place_def [of "\<lparr>ls_ID = i, ls_Instance = None\<rparr>"])
qed

lemma bc_put_tidy:
  assumes "bc_tidy c" and "bc_ClientsDict c i = Some p" and "bc_owner ch = i"
  shows "bc_tidy (c\<lparr>bc_heap := (bc_heap c)[p := (bc_heap c ! p)\<lparr>ls_Instance := Some ch\<rparr>]\<rparr>)"
    (is "bc_tidy ?c")
proof -
  let ?h = "(bc_heap c)[p := (bc_heap c ! p)\<lparr>ls_Instance := Some ch\<rparr>]"
  note p = bc_tidy_D [OF assms(1,2)]
  have id: "ls_ID (?h ! q) = ls_ID (bc_heap c ! q)" for q
    using p(1) by (cases "q = p") simp_all
  have "bc_owner ch' = ls_ID (?h ! q) \<and> bc_ClientsDict c (ls_ID (?h ! q)) = Some q"
    if "q \<in> set (bc_Clients c)" "ls_Instance (?h ! q) = Some ch'" for q ch'
  proof (cases "q = p")
    case True
    then show ?thesis using that(2) assms(2,3) p by simp
  next
    case False
    then show ?thesis using that bc_tidy_owner(2) [OF assms(1) that(1)] by (simp add: id)
  qed
  moreover have "q < length ?h" if "q \<in> set (bc_Clients c)" for q
    using bc_tidy_owner(1) [OF assms(1) that] by simp
  moreover have "q \<in> set (bc_Clients c) \<and> ls_ID (?h ! q) = j" if "bc_ClientsDict c j = Some q" for j q
    using bc_tidy_D(2,3) [OF assms(1) that] by (simp add: id)
  moreover have "distinct (bc_Clients c)" using assms(1) by (simp add: bc_tidy_def)
  moreover have "bc_Clients ?c = bc_Clients c" "bc_ClientsDict ?c = bc_ClientsDict c" "bc_heap ?c = ?h" by simp_all
  ultimately show ?thesis unfolding bc_tidy_def by (simp only: HOL.simp_thms) blast
qed

lemma bc_put_view:
  assumes "bc_tidy c" and "bc_ClientsDict c i = Some p"
  shows "bc_view (c\<lparr>bc_heap := (bc_heap c)[p := (bc_heap c ! p)\<lparr>ls_Instance := Some ch\<rparr>]\<rparr>)
    = (bc_Status c, bc_ID c, (snd (snd (bc_view c)))(i \<mapsto> Some (uint (bc_x ch), uint (bc_y ch))))"
proof -
  let ?h = "(bc_heap c)[p := (bc_heap c ! p)\<lparr>ls_Instance := Some ch\<rparr>]"
  have "map_option (\<lambda>p. bc_place (?h ! p)) (bc_ClientsDict c j)
      = map_option (\<lambda>p. bc_place (bc_heap c ! p)) (bc_ClientsDict c j)" if "j \<noteq> i" for j
  proof (cases "bc_ClientsDict c j")
    case (Some q)
    then have "q \<noteq> p" using bc_tidy_D(3) [OF assms] bc_tidy_D(3) [OF assms(1) Some] that by auto
    then show ?thesis using Some by simp
  qed simp
  then show ?thesis
    using assms(2) bc_tidy_D(1) [OF assms] by (simp add: bc_view_def fun_eq_iff) (simp add: bc_place_def)
qed

lemma bc_drop_tidy:
  assumes "bc_tidy c" and "bc_ClientsDict c i = Some p"
  shows "bc_tidy (c\<lparr>bc_ClientsDict := (bc_ClientsDict c)(i := None), bc_Clients := remove1 p (bc_Clients c)\<rparr>)"
    (is "bc_tidy ?c")
proof -
  have d: "distinct (bc_Clients c)" using assms(1) by (simp add: bc_tidy_def)
  have other: "q \<noteq> p" if "bc_ClientsDict c j = Some q" "j \<noteq> i" for j q
    using bc_tidy_D(3) [OF assms] bc_tidy_D(3) [OF assms(1) that(1)] that(2) by auto
  have "q \<in> set (remove1 p (bc_Clients c)) \<and> ls_ID (bc_heap c ! q) = j"
    if "((bc_ClientsDict c)(i := None)) j = Some q" for j q
    using that other [of j q] d bc_tidy_D(2,3) [OF assms(1), of j q] by (auto split: if_splits)
  moreover have "q < length (bc_heap c) \<and> (\<forall>ch. ls_Instance (bc_heap c ! q) = Some ch \<longrightarrow>
      bc_owner ch = ls_ID (bc_heap c ! q) \<and> ((bc_ClientsDict c)(i := None)) (ls_ID (bc_heap c ! q)) = Some q)"
    if "q \<in> set (remove1 p (bc_Clients c))" for q
  proof -
    have "q \<in> set (bc_Clients c)" "q \<noteq> p" using that d by auto
    then show ?thesis using bc_tidy_owner [OF assms(1), of q] assms(2) by fastforce
  qed
  moreover have "distinct (remove1 p (bc_Clients c))" using d by simp
  moreover have "bc_Clients ?c = remove1 p (bc_Clients c)" "bc_ClientsDict ?c = (bc_ClientsDict c)(i := None)"
    "bc_heap ?c = bc_heap c" by simp_all
  ultimately show ?thesis unfolding bc_tidy_def by (simp only: HOL.simp_thms) blast
qed

text \<open>The packet in the buffer is taken as its message is heard.\<close>

lemma bc_view_drop:
  assumes "bc_ClientsDict c i = Some p"
  shows "bc_view (c\<lparr>bc_ClientsDict := (bc_ClientsDict c)(i := None), bc_Clients := remove1 p (bc_Clients c)\<rparr>)
    = (bc_Status c, bc_ID c, (snd (snd (bc_view c)))(i := None))"
  by (simp add: bc_view_def fun_eq_iff)

lemma bc_SignUp_hears:
  assumes "bc_tidy c"
  shows "\<exists>c'. bc_SignUp i c = Inr c' \<and> bc_tidy c' \<and> hears (MsgSignUp i u m) (bc_view c) = Some (bc_view c') \<and> bc_same_buffer c c'"
proof -
  define d where "d = (if bc_Status c = BoardConnect
    then bc_call (BcInvalidate True) (c\<lparr>bc_Status := BoardGame, bc_green := True, bc_ID := i\<rparr>) else c)"
  have d: "bc_tidy d" using assms by (simp add: d_def)
  have "hears (MsgSignUp i u m) (bc_view c) = Some (bc_view (bc_AddClient i d))"
    unfolding bc_AddClient_view [OF d] by (simp add: d_def bc_view_def bc_call_def Let_def)
  moreover have "bc_same_buffer c (bc_AddClient i d)"
    by (simp add: bc_same_buffer_def bc_AddClient_def Let_def d_def bc_call_def)
  ultimately show ?thesis
    using bc_AddClient_tidy [OF d] by (simp add: bc_SignUp_def d_def [symmetric] Let_def bc_same_buffer_def)
qed

lemma bc_Create_hears:
  assumes "bc_tidy c" and "bc_ClientsDict c i = Some p"
    and "uint (byte_at (bc_memory c) 7) = x" and "uint (byte_at (bc_memory c) 8) = y"
  shows "\<exists>c'. bc_CreateCharacter i c = Inr c' \<and> bc_tidy c' \<and> hears (MsgCreate i x y) (bc_view c) = Some (bc_view c') \<and> bc_same_buffer c c'"
  using assms bc_put_tidy [OF assms(1,2)] bc_put_view [OF assms(1,2)]
  by (simp add: bc_CreateCharacter_def bc_GetClient_def bc_same_buffer_def)
    (simp add: bc_view_def bc_call_def)

lemma bc_Move_hears:
  assumes "bc_tidy c" and "bc_ClientsDict c i = Some p" and "ls_Instance (bc_heap c ! p) = Some ch"
    and "uint (byte_at (bc_memory c) 7) = x" and "uint (byte_at (bc_memory c) 8) = y"
  shows "\<exists>c'. bc_MoveCharacter i c = Inr c' \<and> bc_tidy c' \<and> hears (MsgMove i x y) (bc_view c) = Some (bc_view c') \<and> bc_same_buffer c c'"
proof -
  have "bc_owner ch = i"
    using bc_tidy_D [OF assms(1,2)] bc_tidy_owner(2) [OF assms(1) _ assms(3)] by simp
  then show ?thesis
    using assms bc_put_tidy [OF assms(1,2)] bc_put_view [OF assms(1,2)]
    by (simp add: bc_MoveCharacter_def bc_GetClient_def bc_same_buffer_def)
      (simp add: bc_view_def bc_call_def bc_place_def)
qed

lemma bc_SignOut_hears:
  assumes "bc_tidy c" and "i = 0 \<or> bc_ClientsDict c i = Some p"
  shows "\<exists>c'. bc_SignOut i c = Inr c' \<and> bc_tidy c' \<and> hears (MsgSignOut i u) (bc_view c) = Some (bc_view c') \<and> bc_same_buffer c c'"
proof (cases "i = 0")
  case True
  then show ?thesis using assms(1) by (simp add: bc_SignOut_def bc_same_buffer_def bc_view_def)
next
  case False
  then have p: "bc_ClientsDict c i = Some p" using assms(2) by simp
  define d where "d = c\<lparr>bc_clientNumber := read_le (bc_memory c) 7 4\<rparr>"
  define e where "e = d\<lparr>bc_ClientsDict := (bc_ClientsDict d)(i := None), bc_Clients := remove1 p (bc_Clients d)\<rparr>"
  define c' where "c' = bc_call (BcInvalidate False) (if i = bc_ID e then e\<lparr>bc_Status := BoardBegin, bc_green := False\<rparr> else e)"
  have d: "bc_tidy d" "bc_ClientsDict d i = Some p" "bc_view d = bc_view c" using assms(1) p by (simp_all add: d_def)
  have e: "bc_tidy e" "bc_view e = (bc_Status d, bc_ID d, (snd (snd (bc_view d)))(i := None))"
    using bc_drop_tidy [OF d(1,2)] bc_view_drop [OF d(2)] by (simp_all add: e_def)
  have "bc_SignOut i c = Inr c'"
    using False d(2) by (simp add: bc_SignOut_def bc_RemoveClient_def d_def [symmetric] e_def [symmetric] c'_def)
  moreover have "bc_tidy c'" using e(1) by (simp add: c'_def)
  moreover have "bc_same_buffer c c'" by (simp add: bc_same_buffer_def c'_def e_def d_def bc_call_def)
  moreover have "bc_view c' = (if i = bc_ID c then BoardBegin else bc_Status c, bc_ID c, (snd (snd (bc_view c)))(i := None))"
    using e(2) d(3) by (auto simp: c'_def bc_view_def bc_call_def)
  moreover have "hears (MsgSignOut i u) (bc_view c)
      = Some (if i = bc_ID c then BoardBegin else bc_Status c, bc_ID c, (snd (snd (bc_view c)))(i := None))"
    using False p by (simp add: bc_view_def)
  ultimately show ?thesis by simp
qed

lemma bc_packet_hears:
  assumes "bc_tidy c" and "msg_fits m" and "bc_memory c = board_wire m @ z" and "hears m (bc_view c) = Some v"
  shows "\<exists>c'. bc_packet c = Inr c' \<and> bc_tidy c' \<and> bc_view c' = v \<and> bc_same_buffer c c'"
proof -
  note r = board_wire_reads(2,3) [OF assms(2), of z, folded assms(3)]
  show ?thesis
  proof (cases m)
    case (MsgSignUp i u k)
    then have "bc_packet c = bc_SignUp i c" using r by (simp add: bc_packet_def Let_def)
    then show ?thesis using MsgSignUp bc_SignUp_hears [OF assms(1), of i u k] assms(4) by auto
  next
    case (MsgCreate i x y)
    then have "bc_packet c = bc_CreateCharacter i c" using r by (simp add: bc_packet_def Let_def)
    moreover obtain p where p: "bc_ClientsDict c i = Some p"
      using assms(4) MsgCreate by (cases "bc_ClientsDict c i") (simp_all add: bc_view_def)
    have "uint (byte_at (bc_memory c) 7) = x" "uint (byte_at (bc_memory c) 8) = y"
      using MsgCreate assms(2,3) board_wire_place(1,2) [of x y i z] by simp_all
    from bc_Create_hears [OF assms(1) p this] assms(4) MsgCreate
    have "\<exists>c'. bc_CreateCharacter i c = Inr c' \<and> bc_tidy c' \<and> bc_view c' = v \<and> bc_same_buffer c c'" by auto
    ultimately show ?thesis by simp
  next
    case (MsgMove i x y)
    then have "bc_packet c = bc_MoveCharacter i c" using r by (simp add: bc_packet_def Let_def)
    moreover obtain p ch where p: "bc_ClientsDict c i = Some p" "ls_Instance (bc_heap c ! p) = Some ch"
      using assms(4) MsgMove by (cases "bc_ClientsDict c i") (auto simp: bc_view_def bc_place_def split: option.splits)
    have "uint (byte_at (bc_memory c) 7) = x" "uint (byte_at (bc_memory c) 8) = y"
      using MsgMove assms(2,3) board_wire_place(3,4) [of x y i z] by simp_all
    from bc_Move_hears [OF assms(1) p this] assms(4) MsgMove
    have "\<exists>c'. bc_MoveCharacter i c = Inr c' \<and> bc_tidy c' \<and> bc_view c' = v \<and> bc_same_buffer c c'" by auto
    ultimately show ?thesis by simp
  next
    case (MsgSignOut i u)
    then have "bc_packet c = bc_SignOut i c" using r by (simp add: bc_packet_def Let_def)
    moreover obtain p where p: "i = 0 \<or> bc_ClientsDict c i = Some p"
      using assms(4) MsgSignOut by (cases "bc_ClientsDict c i") (auto simp: bc_view_def split: if_splits)
    from bc_SignOut_hears [OF assms(1) p, of u] assms(4) MsgSignOut
    have "\<exists>c'. bc_SignOut i c = Inr c' \<and> bc_tidy c' \<and> bc_view c' = v \<and> bc_same_buffer c c'" by auto
    ultimately show ?thesis by simp
  qed
qed

subsection \<open>Receiving\<close>

lemma bc_receive_hears:
  assumes "bc_tidy c" and "bc_waits c" and "msg_fits m" and "hears m (bc_view c) = Some v"
  shows "\<exists>c'. bc_receive (Suc (Suc n)) (board_wire m) c = Inr c' \<and> bc_tidy c' \<and> bc_waits c' \<and> bc_view c' = v"
proof -
  define d where "d = c\<lparr>bc_memory := board_wire m @ drop (board_size m) (bc_memory c), bc_recvBytes := board_size m\<rparr>"
  have w: "bc_start c = 0" "bc_recvBytes c = 0" "length (bc_memory c) = 512"
    using assms(2) by (simp_all add: bc_waits_def)
  have "bc_tidy d" "hears m (bc_view d) = Some v" using assms(1,4) by (simp_all add: d_def)
  moreover have "bc_memory d = board_wire m @ drop (board_size m) (bc_memory c)" by (simp add: d_def)
  ultimately obtain c' where c': "bc_packet d = Inr c'" "bc_tidy c'" "bc_view c' = v" "bc_same_buffer d c'"
    using bc_packet_hears [of d m _ v] assms(3) by blast
  have len: "length (bc_memory d) = 512" "\<not> board_size m < 7"
    using w board_size_bounds [of m] by (simp_all add: d_def)
  have "bc_loop (Suc (Suc n)) d = Inr (c'\<lparr>bc_memory := bc_shift (board_size m) (bc_memory c'), bc_recvBytes := 0\<rparr>)"
    using c'(1,4) len(2) board_wire_reads(1) [OF assms(3)]
    by (simp add: bc_loop.simps(2) Let_def bc_same_buffer_def) (simp add: d_def)
  moreover have "bc_receive (Suc (Suc n)) (board_wire m) c = rbind (bc_loop (Suc (Suc n)) d) (\<lambda>c. Inr (bc_Recv (bc_recvBytes c) c))"
    using w by (simp add: bc_receive_def bc_ProceedRecv_def d_def)
  moreover have "length (bc_memory c') = 512" using c'(4) len(1) by (simp add: bc_same_buffer_def)
  ultimately show ?thesis
    using c'(2,3) by (simp add: bc_Recv_def bc_waits_def bc_shift_def) (simp add: bc_call_def)
qed

text \<open>One packet after the other, each received alone.\<close>

fun bc_feed :: "nat \<Rightarrow> board_msg list \<Rightarrow> board_client \<Rightarrow> board_client res" where
  "bc_feed fuel [] c = Inr c"
| "bc_feed fuel (m # ms) c = rbind (bc_receive fuel (board_wire m) c) (bc_feed fuel ms)"

fun hears_all :: "board_msg list \<Rightarrow> board_view \<Rightarrow> board_view option" where
  "hears_all [] v = Some v"
| "hears_all (m # ms) v = Option.bind (hears m v) (hears_all ms)"

lemma hears_all_append: "hears_all (ms @ ms') v = Option.bind (hears_all ms v) (hears_all ms')"
  by (induction ms arbitrary: v) (auto simp: Option.bind_assoc split: bind_splits)

lemma bc_feed_hears:
  assumes "bc_tidy c" and "bc_waits c" and "list_all msg_fits ms" and "hears_all ms (bc_view c) = Some v"
  shows "\<exists>c'. bc_feed (Suc (Suc n)) ms c = Inr c' \<and> bc_tidy c' \<and> bc_waits c' \<and> bc_view c' = v"
  using assms
proof (induction ms arbitrary: c)
  case Nil
  then show ?case by simp
next
  case (Cons m ms)
  then obtain v' where v': "hears m (bc_view c) = Some v'" "hears_all ms v' = Some v"
    by (cases "hears m (bc_view c)") auto
  with Cons.prems obtain d where "bc_receive (Suc (Suc n)) (board_wire m) c = Inr d" "bc_tidy d" "bc_waits d" "bc_view d = v'"
    using bc_receive_hears [of c m v' n] by auto
  with Cons.IH [of d] Cons.prems(3) v'(2) show ?case by simp
qed

subsection \<open>The screen\<close>

text \<open>The pieces on the screen are those of the players it knows the place of.\<close>

definition piece_at :: "pid \<Rightarrow> int \<Rightarrow> int \<Rightarrow> board_drawing set" where
  "piece_at i x y = {DrawPiece (BOARD_X + 64 * x + 16) (BOARD_Y + 64 * y + 16) (BOARD_X + 64 * x + 48) (BOARD_Y + 64 * y + 48),
     DrawName (BOARD_X + 64 * x + 32) (BOARD_Y + 64 * y + 32) i}"

lemma bc_Render_Game:
  assumes "bc_tidy c" and "bc_view c = (BoardGame, i, kn)"
  shows "set (bc_Render c) = {DrawID i, DrawBoard BOARD_X BOARD_Y} \<union> \<Union> {piece_at j x y | j x y. kn j = Some (Some (x, y))}"
proof -
  have v: "bc_Status c = BoardGame" "bc_ID c = i" "kn = (\<lambda>i. map_option (\<lambda>p. bc_place (bc_heap c ! p)) (bc_ClientsDict c i))"
    using assms(2) by (simp_all add: bc_view_def)
  have draws: "set (bc_RenderCharacter ch) = piece_at (bc_owner ch) (uint (bc_x ch)) (uint (bc_y ch))" for ch
    by (auto simp: bc_RenderCharacter_def piece_at_def Let_def algebra_simps)
  have "(\<exists>p \<in> set (bc_Clients c). \<exists>ch. ls_Instance (bc_heap c ! p) = Some ch \<and> d \<in> set (bc_RenderCharacter ch))
      \<longleftrightarrow> (\<exists>j x y. kn j = Some (Some (x, y)) \<and> d \<in> piece_at j x y)" (is "?L \<longleftrightarrow> ?R") for d
  proof
    assume ?L
    then obtain p ch where p: "p \<in> set (bc_Clients c)" "ls_Instance (bc_heap c ! p) = Some ch" "d \<in> set (bc_RenderCharacter ch)"
      by blast
    then have "bc_ClientsDict c (bc_owner ch) = Some p" using bc_tidy_owner(2) [OF assms(1) p(1,2)] by simp
    then have "kn (bc_owner ch) = Some (Some (uint (bc_x ch), uint (bc_y ch)))" using p(2) by (simp add: v bc_place_def)
    then show ?R using p(3) draws by blast
  next
    assume ?R
    then obtain j x y where j: "kn j = Some (Some (x, y))" "d \<in> piece_at j x y" by blast
    then obtain p where p: "bc_ClientsDict c j = Some p" "bc_place (bc_heap c ! p) = Some (x, y)"
      by (auto simp: v)
    then obtain ch where ch: "ls_Instance (bc_heap c ! p) = Some ch" "x = uint (bc_x ch)" "y = uint (bc_y ch)"
      by (auto simp: bc_place_def)
    have pc: "p \<in> set (bc_Clients c)" using bc_tidy_D(2) [OF assms(1) p(1)] .
    have "bc_owner ch = j"
      using bc_tidy_owner(2) [OF assms(1) pc ch(1)] bc_tidy_D(3) [OF assms(1) p(1)] by simp
    with pc show ?L using ch j(2) draws by auto
  qed
  moreover have "set (concat (map (\<lambda>p. case ls_Instance (bc_heap c ! p) of None \<Rightarrow> [] | Some ch \<Rightarrow> bc_RenderCharacter ch) (bc_Clients c)))
      = {d. \<exists>p \<in> set (bc_Clients c). \<exists>ch. ls_Instance (bc_heap c ! p) = Some ch \<and> d \<in> set (bc_RenderCharacter ch)}"
    by (force split: option.splits)
  moreover have "\<Union> {piece_at j x y | j x y. kn j = Some (Some (x, y))} = {d. \<exists>j x y. kn j = Some (Some (x, y)) \<and> d \<in> piece_at j x y}"
    by blast
  ultimately show ?thesis by (simp add: bc_Render_def v(1,2))
qed

end
