(* ===== verification/BoardPlay.thy ===== *)
theory BoardPlay
  imports BoardView
begin

section \<open>The board and its players\<close>

text \<open>
  The server and its clients at work: every command changes the board by the rules of the game, and every
  player that has signed in sees that board. The runs are those in which packets arrive whole and the first
  thing the server tells a player is that he has signed in.
\<close>

subsection \<open>What is told\<close>

definition b_emits :: "board_effect list \<Rightarrow> board_world \<Rightarrow> board_world" where
  "b_emits L w = w\<lparr>bw_log := bw_log w @ L\<rparr>"

abbreviation b_socket :: "board_world \<Rightarrow> pid \<Rightarrow> socket" where
  "b_socket w i \<equiv> bs_socket (bw_object w i)"

definition board_told :: "socket \<Rightarrow> board_effect list \<Rightarrow> board_msg list" where
  "board_told s L = concat (map (\<lambda>e. case e of BSend s' m \<Rightarrow> if s' = s then [m] else [] | _ \<Rightarrow> []) L)"

lemma board_told_simps [simp]:
  "board_told s [] = []"
  "board_told s (BSend s' m # L) = (if s' = s then m # board_told s L else board_told s L)"
  "board_told s (BRecv s' a b # L) = board_told s L"
  "board_told s (BClose s' # L) = board_told s L"
  "board_told s (BPort s' i # L) = board_told s L"
  "board_told s (BSocket s' # L) = board_told s L"
  "board_told s (BAccept s' # L) = board_told s L"
  "board_told s (L @ L') = board_told s L @ board_told s L'"
  by (simp_all add: board_told_def)

definition bo_works :: "board_os \<Rightarrow> bool" where
  "bo_works os \<longleftrightarrow> is_order (bo_order os) \<and> (\<forall>n. bo_send os n \<noteq> IoError) \<and> (\<forall>n. bo_recv os n \<noteq> IoError)"

lemma b_emits_frame [simp]:
  "bw_object (b_emits L w) = bw_object w" "bw_Clients (b_emits L w) = bw_Clients w"
  "bw_number (b_emits L w) = bw_number w" "bw_order (b_emits L w) = bw_order w"
  "bw_newbie (b_emits L w) = bw_newbie w" "bw_log (b_emits L w) = bw_log w @ L"
  "bw_pool (b_emits L w) = bw_pool w" "bw_clientsID (b_emits L w) = bw_clientsID w"
  "b_emits L' (b_emits L w) = b_emits (L @ L') w" "b_emits [] w = w"
  by (simp_all add: b_emits_def)

lemma b_emit_emits: "b_emit e w = b_emits [e] w"
  by (simp add: b_emit_def b_emits_def)

lemma b_GetClientsNumber_emits [simp]: "b_GetClientsNumber (b_emits L w) = b_GetClientsNumber w"
  by (simp add: b_GetClientsNumber_def)

lemma send_in_loop_works:
  "bo_works os \<Longrightarrow> send_in_loop os i m w = Inr (b_emits [BSend (b_socket w i) m] w)"
  by (auto simp: send_in_loop_def board_send_def bo_works_def b_emit_emits split: io_result.splits)

lemma send_to_self_works:
  "bo_works os \<Longrightarrow> send_to_self os i m w = Inr (b_emits [BSend (b_socket w i) m] w)"
  by (auto simp: send_to_self_def board_send_def bo_works_def b_emit_emits split: io_result.splits)

lemma foldR_emits:
  assumes "\<And>x L. x \<in> set xs \<Longrightarrow> f x (b_emits L w) = Inr (b_emits (L @ g x) w)"
  shows "foldR f xs (b_emits L w) = Inr (b_emits (L @ concat (map g xs)) w)"
  using assms by (induction xs arbitrary: L) simp_all

lemma ForeachClient_emits:
  assumes "bo_works os" and "finite (bw_Clients w)"
    and "\<And>x L. x \<in> bw_Clients w \<Longrightarrow> f x (b_emits L w) = Inr (b_emits (L @ g x) w)"
  shows "b_ForeachClient os f w = Inr (b_emits (concat (map g (bo_order os (bw_Clients w)))) w)"
proof -
  have "set (bo_order os (bw_Clients w)) = bw_Clients w"
    using assms(1,2) is_order_set by (auto simp: bo_works_def)
  then show ?thesis
    using foldR_emits [of "bo_order os (bw_Clients w)" f w g "[]"] assms(3)
    by (simp add: b_ForeachClient_def)
qed

text \<open>A broadcast, and what a newcomer is told of the others.\<close>

definition board_cast :: "board_os \<Rightarrow> board_msg \<Rightarrow> board_world \<Rightarrow> board_effect list" where
  "board_cast os m w = concat (map (\<lambda>i. [BSend (b_socket w i) m]) (bo_order os (bw_Clients w)))"

definition world_data :: "pid \<Rightarrow> board_world \<Rightarrow> pid \<Rightarrow> board_msg list" where
  "world_data i w j = (if j = i then [] else MsgSignUp j (b_GetClientsNumber w) BOARD_MAX
     # (case bs_instance (bw_object w j) of None \<Rightarrow> [] | Some (x, y) \<Rightarrow> [MsgCreate j x y]))"

lemma broadcasts_work:
  assumes "bo_works os" and "finite (bw_Clients w)"
  shows "b_BroadcastSignUp os i w = Inr (b_emits (board_cast os (MsgSignUp i (b_GetClientsNumber w) BOARD_MAX) w) w)"
    and "i \<in> bw_Clients w \<Longrightarrow> b_BroadcastCreateCharacter os i x y w = Inr (b_emits (board_cast os (MsgCreate i x y) w) w)"
    and "i \<in> bw_Clients w \<Longrightarrow> b_BroadcastMoveCharacter os i x y w = Inr (b_emits (board_cast os (MsgMove i x y) w) w)"
    and "i \<notin> bw_Clients w \<Longrightarrow> b_BroadcastSignOut os i w = Inr (b_emits (board_cast os (MsgSignOut i (b_GetClientsNumber w)) w) w)"
proof -
  note each = ForeachClient_emits [OF assms] and send = send_in_loop_works [OF assms(1)]
  show "b_BroadcastSignUp os i w = Inr (b_emits (board_cast os (MsgSignUp i (b_GetClientsNumber w) BOARD_MAX) w) w)"
    unfolding b_BroadcastSignUp_def board_cast_def by (rule each) (simp add: send)
  show "b_BroadcastCreateCharacter os i x y w = Inr (b_emits (board_cast os (MsgCreate i x y) w) w)" if "i \<in> bw_Clients w"
    unfolding b_BroadcastCreateCharacter_def board_cast_def if_P [OF that] by (rule each) (simp add: send)
  show "b_BroadcastMoveCharacter os i x y w = Inr (b_emits (board_cast os (MsgMove i x y) w) w)" if "i \<in> bw_Clients w"
    unfolding b_BroadcastMoveCharacter_def board_cast_def if_P [OF that] by (rule each) (simp add: send)
  show "b_BroadcastSignOut os i w = Inr (b_emits (board_cast os (MsgSignOut i (b_GetClientsNumber w)) w) w)" if "i \<notin> bw_Clients w"
    unfolding b_BroadcastSignOut_def board_cast_def by (rule each) (use that in \<open>auto simp: send\<close>)
qed

lemma SendWorldDataTo_works:
  assumes "bo_works os" and "finite (bw_Clients w)"
  shows "b_SendWorldDataTo os i w = Inr (b_emits (concat (map (\<lambda>j. map (BSend (b_socket w i)) (world_data i w j))
    (bo_order os (bw_Clients w)))) w)"
  using assms unfolding b_SendWorldDataTo_def
  by (intro ForeachClient_emits) (auto simp: send_to_self_works world_data_def split: option.splits)

lemma board_told_cast:
  assumes "is_order enum" and "finite S" and "inj_on (b_socket w) S" and "i \<in> S"
  shows "board_told (b_socket w i) (concat (map (\<lambda>j. [BSend (b_socket w j) m]) (enum S))) = [m]"
proof -
  have "board_told (b_socket w i) (concat (map (\<lambda>j. [BSend (b_socket w j) m]) xs)) = (if i \<in> set xs then [m] else [])"
    if "distinct xs" "set xs \<subseteq> S" for xs
    using that assms(3,4) by (induction xs) (auto simp: inj_on_def)
  then show ?thesis using assms is_order_set [OF assms(1,2)] is_order_distinct [OF assms(1,2)] by simp
qed

lemma board_told_data: "board_told s (concat (map (\<lambda>j. map (BSend s) (h j)) xs)) = concat (map h xs)"
proof -
  have "board_told s (map (BSend s) ms) = ms" for ms by (induction ms) simp_all
  then show ?thesis by (induction xs) simp_all
qed

lemma board_told_other:
  assumes "s' \<noteq> s"
  shows "board_told s (concat (map (\<lambda>j. map (BSend s') (h j)) xs)) = []"
proof -
  have "board_told s (map (BSend s') ms) = []" for ms using assms by (induction ms) simp_all
  then show ?thesis by (induction xs) simp_all
qed

subsection \<open>The rules\<close>

datatype board_cmd = CmdSignIn bytes | CmdKey nat | CmdSignOut

fun cmd_bytes :: "pid \<Rightarrow> board_cmd \<Rightarrow> bytes" where
  "cmd_bytes i (CmdSignIn nick) = the (BoardSignIn nick)"
| "cmd_bytes i (CmdKey key) = BoardKeyInput i key"
| "cmd_bytes i CmdSignOut = BoardSignOut i"

fun cmd_ok :: "board_cmd \<Rightarrow> bool" where
  "cmd_ok (CmdSignIn nick) \<longleftrightarrow> length nick < 30 \<and> 0 \<notin> set nick"
| "cmd_ok (CmdKey key) \<longleftrightarrow> key < 2 ^ 64"
| "cmd_ok CmdSignOut \<longleftrightarrow> True"

text \<open>A piece goes one cell and stays on the board.\<close>

definition board_clamp :: "int \<Rightarrow> int" where "board_clamp x = max 0 (min 7 x)"

definition board_neighbour :: "nat \<Rightarrow> int \<times> int \<Rightarrow> int \<times> int" where
  "board_neighbour key p = (case p of (x, y) \<Rightarrow>
     if key = VK_LEFT then (board_clamp (x - 1), y) else if key = VK_RIGHT then (board_clamp (x + 1), y)
     else if key = VK_UP then (x, board_clamp (y - 1)) else if key = VK_DOWN then (x, board_clamp (y + 1))
     else (x, y))"

fun board_rules :: "pid \<Rightarrow> board_cmd list \<Rightarrow> (pid \<rightharpoonup> int \<times> int) \<Rightarrow> (pid \<rightharpoonup> int \<times> int)" where
  "board_rules i [] B = B"
| "board_rules i (CmdSignIn nick # cs) B = board_rules i cs (B(i \<mapsto> (3, 3)))"
| "board_rules i (CmdKey key # cs) B = board_rules i cs
     (case B i of None \<Rightarrow> B | Some p \<Rightarrow> B(i \<mapsto> board_neighbour key p))"
| "board_rules i (CmdSignOut # cs) B = B(i := None)"

definition on_board :: "int \<times> int \<Rightarrow> bool" where
  "on_board p \<longleftrightarrow> 0 \<le> fst p \<and> fst p < 8 \<and> 0 \<le> snd p \<and> snd p < 8"

lemma on_board_neighbour: "on_board p \<Longrightarrow> on_board (board_neighbour key p)"
  by (cases p) (auto simp: on_board_def board_neighbour_def board_clamp_def)

lemma b_TryMove_neighbour:
  "on_board p \<Longrightarrow> b_TryMove key p = (board_neighbour key p \<noteq> p, board_neighbour key p)"
  by (cases p) (auto simp: on_board_def board_neighbour_def board_clamp_def b_TryMove_def)

definition board_of :: "board_world \<Rightarrow> (pid \<rightharpoonup> int \<times> int)" where
  "board_of w i = (if i \<in> bw_Clients w then bs_instance (bw_object w i) else None)"

subsection \<open>What a player makes of it\<close>

text \<open>A player that was told \<open>ms\<close> since it connected is in the game as \<open>i\<close> and has the board \<open>B\<close>.\<close>

definition board_fresh :: board_view where
  "board_fresh = (BoardConnect, 2 ^ 32 - 1, Map.empty)"

definition follows_board :: "pid \<Rightarrow> board_msg list \<Rightarrow> (pid \<rightharpoonup> int \<times> int) \<Rightarrow> bool" where
  "follows_board i ms B \<longleftrightarrow> list_all msg_fits ms
     \<and> (\<exists>kn. hears_all ms board_fresh = Some (BoardGame, i, kn) \<and> (\<forall>j. Option.bind (kn j) (\<lambda>q. q) = B j))"

lemma follows_boardE:
  assumes "follows_board i ms B"
  obtains kn where "hears_all ms board_fresh = Some (BoardGame, i, kn)" and "\<And>j. Option.bind (kn j) (\<lambda>q. q) = B j"
  using assms by (auto simp: follows_board_def)

lemma follows_boardI:
  assumes "follows_board i ms B" and "list_all msg_fits ms'"
    and "hears_all ms board_fresh = Some (BoardGame, i, kn)" and "hears_all ms' (BoardGame, i, kn) = Some (BoardGame, i, kn')"
    and "\<And>j. Option.bind (kn' j) (\<lambda>q. q) = B' j"
  shows "follows_board i (ms @ ms') B'"
  using assms by (auto simp: follows_board_def hears_all_append)

abbreviation fits_pid :: "pid \<Rightarrow> bool" where
  "fits_pid j \<equiv> 0 < j \<and> j < 2 ^ 32"

lemma follows_known:
  assumes "follows_board i ms B" and "fits_pid j"
  shows "follows_board i (ms @ [MsgSignUp j u m]) B"
proof -
  obtain kn where kn: "hears_all ms board_fresh = Some (BoardGame, i, kn)" "\<And>j. Option.bind (kn j) (\<lambda>q. q) = B j"
    using assms(1) by (rule follows_boardE) blast
  show ?thesis
  proof (rule follows_boardI [OF assms(1) _ kn(1)])
    show "list_all msg_fits [MsgSignUp j u m]" using assms(2) by simp
    show "hears_all [MsgSignUp j u m] (BoardGame, i, kn) = Some (BoardGame, i, if kn j = None then kn(j \<mapsto> None) else kn)"
      by (simp add: Let_def)
    show "Option.bind ((if kn j = None then kn(j \<mapsto> None) else kn) k) (\<lambda>q. q) = B k" for k
      using kn(2) [of k] by (auto simp: Let_def)
  qed
qed

lemma follows_enter:
  assumes "follows_board i ms B" and "fits_pid j" and "on_board (x, y)"
  shows "follows_board i (ms @ [MsgSignUp j u m, MsgCreate j x y]) (B(j \<mapsto> (x, y)))"
proof -
  obtain kn where kn: "hears_all ms board_fresh = Some (BoardGame, i, kn)" "\<And>j. Option.bind (kn j) (\<lambda>q. q) = B j"
    using assms(1) by (rule follows_boardE) blast
  show ?thesis
  proof (rule follows_boardI [OF assms(1) _ kn(1)])
    show "list_all msg_fits [MsgSignUp j u m, MsgCreate j x y]" using assms(2,3) by (simp add: on_board_def)
    show "hears_all [MsgSignUp j u m, MsgCreate j x y] (BoardGame, i, kn) = Some (BoardGame, i, kn(j \<mapsto> Some (x, y)))"
      by (auto simp: Let_def)
    show "Option.bind ((kn(j \<mapsto> Some (x, y))) k) (\<lambda>q. q) = (B(j \<mapsto> (x, y))) k" for k
      using kn(2) [of k] by simp
  qed
qed

lemma follows_move:
  assumes "follows_board i ms B" and "B j \<noteq> None" and "fits_pid j" and "on_board (x, y)"
  shows "follows_board i (ms @ [MsgMove j x y]) (B(j \<mapsto> (x, y)))"
proof -
  obtain kn where kn: "hears_all ms board_fresh = Some (BoardGame, i, kn)" "\<And>j. Option.bind (kn j) (\<lambda>q. q) = B j"
    using assms(1) by (rule follows_boardE) blast
  obtain q where q: "kn j = Some (Some q)" using kn(2) [of j] assms(2) by (cases "kn j") auto
  show ?thesis
  proof (rule follows_boardI [OF assms(1) _ kn(1)])
    show "list_all msg_fits [MsgMove j x y]" using assms(3,4) by (simp add: on_board_def)
    show "hears_all [MsgMove j x y] (BoardGame, i, kn) = Some (BoardGame, i, kn(j \<mapsto> Some (x, y)))"
      by (simp add: q)
    show "Option.bind ((kn(j \<mapsto> Some (x, y))) k) (\<lambda>q. q) = (B(j \<mapsto> (x, y))) k" for k
      using kn(2) [of k] by simp
  qed
qed

lemma follows_leave:
  assumes "follows_board i ms B" and "B j \<noteq> None" and "fits_pid j" and "j \<noteq> i"
  shows "follows_board i (ms @ [MsgSignOut j u]) (B(j := None))"
proof -
  obtain kn where kn: "hears_all ms board_fresh = Some (BoardGame, i, kn)" "\<And>j. Option.bind (kn j) (\<lambda>q. q) = B j"
    using assms(1) by (rule follows_boardE) blast
  have "kn j \<noteq> None" using kn(2) [of j] assms(2) by (cases "kn j") auto
  show ?thesis
  proof (rule follows_boardI [OF assms(1) _ kn(1)])
    show "list_all msg_fits [MsgSignOut j u]" using assms(3) by simp
    show "hears_all [MsgSignOut j u] (BoardGame, i, kn) = Some (BoardGame, i, kn(j := None))"
      using assms(3,4) \<open>kn j \<noteq> None\<close> by auto
    show "Option.bind ((kn(j := None)) k) (\<lambda>q. q) = (B(j := None)) k" for k
      using kn(2) [of k] by simp
  qed
qed

lemma follows_data:
  assumes "follows_board i ms B" and "\<And>j. j \<in> set xs \<Longrightarrow> fits_pid j"
    and "\<And>j p. j \<in> set xs \<Longrightarrow> bs_instance (bw_object w j) = Some p \<Longrightarrow> on_board p"
  shows "follows_board i (ms @ concat (map (world_data i w) xs))
    (\<lambda>j. if j \<in> set xs \<and> j \<noteq> i \<and> bs_instance (bw_object w j) \<noteq> None then bs_instance (bw_object w j) else B j)"
  using assms
proof (induction xs rule: rev_induct)
  case Nil
  then show ?case by simp
next
  case (snoc k xs)
  let ?I = "\<lambda>j. bs_instance (bw_object w j)"
  let ?B = "\<lambda>j. if j \<in> set xs \<and> j \<noteq> i \<and> ?I j \<noteq> None then ?I j else B j"
  let ?B' = "\<lambda>j. if j \<in> set (xs @ [k]) \<and> j \<noteq> i \<and> ?I j \<noteq> None then ?I j else B j"
  have h: "follows_board i (ms @ concat (map (world_data i w) xs)) ?B"
  proof (rule snoc.IH)
    show "follows_board i ms B" by fact
    show "fits_pid j" if "j \<in> set xs" for j using snoc.prems(2) [of j] that by simp
    show "on_board p" if "j \<in> set xs" "?I j = Some p" for j p using snoc.prems(3) [of j p] that by simp
  qed
  have k: "fits_pid k" using snoc.prems(2) by simp
  have "follows_board i ((ms @ concat (map (world_data i w) xs)) @ world_data i w k) ?B'"
  proof (cases "k = i \<or> ?I k = None")
    case True
    then have B: "?B' = ?B" by (auto simp: fun_eq_iff)
    have "k = i \<and> world_data i w k = [] \<or> (\<exists>u m. world_data i w k = [MsgSignUp k u m])"
      using True by (auto simp: world_data_def)
    then show ?thesis unfolding B using h follows_known [OF h k] by (elim disjE conjE exE) (simp_all only: append_Nil2)
  next
    case False
    then obtain x y where xy: "?I k = Some (x, y)" by auto
    then have xy_on: "on_board (x, y)" using snoc.prems(3) [of k "(x, y)"] by simp
    have B: "?B(k \<mapsto> (x, y)) = ?B'" using False xy by (auto simp: fun_eq_iff)
    obtain u m where "world_data i w k = [MsgSignUp k u m, MsgCreate k x y]"
      using False xy by (simp add: world_data_def)
    then show ?thesis using follows_enter [OF h k xy_on, of u m] unfolding B by (simp only:)
  qed
  then show ?case by (simp only: map_append concat_append list.map concat.simps append_Nil2 append_assoc)
qed

lemma follows_first:
  assumes "fits_pid i"
  shows "follows_board i [MsgSignUp i u m, MsgCreate i 3 3] [i \<mapsto> (3, 3)]"
  using assms by (auto simp: follows_board_def board_fresh_def Let_def)

subsection \<open>The players at the server\<close>

definition seated :: "board_world \<Rightarrow> bool" where
  "seated w \<longleftrightarrow> finite (bw_Clients w) \<and> inj_on (b_socket w) (bw_Clients w) \<and> (\<forall>i \<in> bw_Clients w. fits_pid i)
     \<and> (\<forall>i p. board_of w i = Some p \<longrightarrow> on_board p)
     \<and> (\<forall>i. board_of w i \<noteq> None \<longrightarrow> follows_board i (board_told (b_socket w i) (bw_log w)) (board_of w))"

definition idle_session :: "board_session \<Rightarrow> bool" where
  "idle_session s \<longleftrightarrow> bs_start s = 0 \<and> bs_recvBytes s = 0 \<and> length (bs_memory s) = BOARD_BUFFSIZE"

lemma seatedD:
  assumes "seated w"
  shows "finite (bw_Clients w)" and "inj_on (b_socket w) (bw_Clients w)" and "i \<in> bw_Clients w \<Longrightarrow> fits_pid i"
    and "board_of w i = Some p \<Longrightarrow> on_board p"
    and "board_of w i \<noteq> None \<Longrightarrow> follows_board i (board_told (b_socket w i) (bw_log w)) (board_of w)"
  using assms unfolding seated_def by blast+

text \<open>Everything about the players but the log stays as it was, and the log grows by what nobody hears.\<close>

lemma board_of_emits [simp]: "board_of (b_emits L w) = board_of w"
  by (simp add: board_of_def fun_eq_iff)

lemma seated_silent:
  assumes "seated w" and "\<And>s. board_told s L = []"
  shows "seated (b_emits L w)"
  using assms by (simp add: seated_def)

text \<open>The sessions of a state where one of them changed in its name, its place or its buffer.\<close>

definition same_seats :: "pid \<Rightarrow> board_world \<Rightarrow> board_world \<Rightarrow> bool" where
  "same_seats i w w' \<longleftrightarrow> bw_Clients w' = bw_Clients w \<and> (\<forall>j. b_socket w' j = b_socket w j)
     \<and> (\<forall>j. j \<noteq> i \<longrightarrow> bw_object w' j = bw_object w j)"

definition same_bytes :: "pid \<Rightarrow> board_world \<Rightarrow> board_world \<Rightarrow> bool" where
  "same_bytes i w w' \<longleftrightarrow> bs_memory (bw_object w' i) = bs_memory (bw_object w i)
     \<and> bs_start (bw_object w' i) = bs_start (bw_object w i) \<and> bs_recvBytes (bw_object w' i) = bs_recvBytes (bw_object w i)"

lemma same_seats_trans: "same_seats i w w' \<Longrightarrow> same_seats i w' w'' \<Longrightarrow> same_seats i w w''"
  by (simp add: same_seats_def)

lemma same_seats_board:
  assumes "same_seats i w w'" and "i \<in> bw_Clients w"
  shows "board_of w' = (board_of w)(i := bs_instance (bw_object w' i))"
  using assms by (simp add: same_seats_def board_of_def fun_eq_iff)

text \<open>A new log and a new board, where every player that is in the game was told the difference.\<close>

lemma seatedI:
  assumes "seated w" and "same_seats i w w'" and "i \<in> bw_Clients w" and "on_board p" and "bs_instance (bw_object w' i) = Some p"
    and "\<And>j. j \<noteq> i \<Longrightarrow> board_of w j \<noteq> None \<Longrightarrow>
      follows_board j (board_told (b_socket w j) (bw_log w)) (board_of w) \<Longrightarrow>
      follows_board j (board_told (b_socket w j) (bw_log w')) ((board_of w)(i \<mapsto> p))"
    and "follows_board i (board_told (b_socket w i) (bw_log w')) ((board_of w)(i \<mapsto> p))"
  shows "seated w'"
proof -
  have B: "board_of w' = (board_of w)(i \<mapsto> p)" using same_seats_board [OF assms(2,3)] assms(5) by simp
  have same: "bw_Clients w' = bw_Clients w" "\<And>j. b_socket w' j = b_socket w j"
    using assms(2) by (simp_all add: same_seats_def)
  have sock: "(\<lambda>j. b_socket w' j) = b_socket w" using same(2) by (simp add: fun_eq_iff)
  have "on_board q" if "board_of w' j = Some q" for j q
    using that seatedD(4) [OF assms(1), of j q] assms(4) by (cases "j = i") (auto simp: B)
  moreover have "follows_board j (board_told (b_socket w' j) (bw_log w')) (board_of w')" if "board_of w' j \<noteq> None" for j
  proof (cases "j = i")
    case True
    then show ?thesis using assms(7) by (simp add: B same)
  next
    case False
    then have "board_of w j \<noteq> None" using that by (simp add: B)
    then show ?thesis using assms(6) [OF False] seatedD(5) [OF assms(1)] by (simp add: B same)
  qed
  ultimately show ?thesis
    using seatedD(1-3) [OF assms(1)] unfolding seated_def same(1) sock by blast
qed

lemma told_cast:
  assumes "bo_works os" and "seated w" and "j \<in> bw_Clients w" and "same_seats i w w'"
  shows "board_told (b_socket w j) (board_cast os m w') = [m]"
proof -
  have same: "bw_Clients w' = bw_Clients w" "\<And>j. b_socket w' j = b_socket w j"
    using assms(4) by (simp_all add: same_seats_def)
  show ?thesis
    using board_told_cast [of "bo_order os" "bw_Clients w" w j m] assms(1,3) seatedD(1,2) [OF assms(2)]
    by (simp add: board_cast_def same bo_works_def)
qed

subsection \<open>The commands\<close>

lemma board_cast_emits [simp]: "board_cast os m (b_emits L w) = board_cast os m w"
  by (simp add: board_cast_def)

lemma world_data_emits [simp]: "world_data i (b_emits L w) = world_data i w"
  by (simp add: world_data_def fun_eq_iff)

lemma on_object_frame [simp]:
  "bw_Clients (b_on_object i f w) = bw_Clients w" "bw_log (b_on_object i f w) = bw_log w"
  "bw_object (b_on_object i f w) j = (if j = i then f (bw_object w i) else bw_object w j)"
  by (simp_all add: b_on_object_def)

lemma sign_in_works:
  assumes "bo_works os" and "seated w" and "i \<in> bw_Clients w" and "strcpy_s 30 (drop 7 buf) = Some nk"
    and "board_of w i \<noteq> None \<or> board_told (b_socket w i) (bw_log w) = []"
  shows "\<exists>w'. b_sign_in os i buf w = Inr w' \<and> seated w' \<and> same_seats i w w' \<and> same_bytes i w w'
    \<and> board_of w' = (board_of w)(i \<mapsto> (3, 3))"
proof -
  define w1 where "w1 = b_on_object i (\<lambda>s. s\<lparr>bs_nickname := nk, bs_instance := Some (3, 3)\<rparr>) w"
  let ?n = "b_GetClientsNumber w1" and ?xs = "bo_order os (bw_Clients w)"
  define L where "L = board_cast os (MsgSignUp i ?n BOARD_MAX) w1 @ board_cast os (MsgCreate i 3 3) w1"
  define L3 where "L3 = concat (map (\<lambda>j. map (BSend (b_socket w i)) (world_data i w1 j)) ?xs)"
  define w' where "w' = b_emits (L @ L3) w1"
  note s = seatedD [OF assms(2)]
  have w1: "same_seats i w w1" "same_bytes i w w1" "bw_log w1 = bw_log w" "bs_instance (bw_object w1 i) = Some (3, 3)"
    by (simp_all add: same_seats_def same_bytes_def w1_def)
  have cl: "bw_Clients w1 = bw_Clients w" "b_socket w1 i = b_socket w i" using w1(1) by (simp_all add: same_seats_def)
  have xs: "set ?xs = bw_Clients w" using assms(1) s(1) is_order_set by (auto simp: bo_works_def)
  have fin: "finite (bw_Clients w1)" using s(1) cl by simp
  have "b_sign_in os i buf w = Inr w'"
    using broadcasts_work(1,2) [OF assms(1)] SendWorldDataTo_works [OF assms(1)] assms(3,4) fin cl
    by (simp add: b_sign_in_def w1_def [symmetric] w'_def L_def L3_def)
  moreover have seats: "same_seats i w w'" "same_bytes i w w'" "bs_instance (bw_object w' i) = Some (3, 3)"
    using w1 by (simp_all add: same_seats_def same_bytes_def w'_def)
  moreover have "seated w'"
  proof (rule seatedI [OF assms(2) seats(1) assms(3) _ seats(3)])
    show "on_board (3, 3)" by (simp add: on_board_def)
    fix j assume j: "j \<noteq> i" "board_of w j \<noteq> None"
      "follows_board j (board_told (b_socket w j) (bw_log w)) (board_of w)"
    then have c: "j \<in> bw_Clients w" by (auto simp: board_of_def split: if_splits)
    have "b_socket w i \<noteq> b_socket w j" using s(2) c assms(3) j(1) by (auto simp: inj_on_def)
    then have "board_told (b_socket w j) (bw_log w') = board_told (b_socket w j) (bw_log w) @ [MsgSignUp i ?n BOARD_MAX, MsgCreate i 3 3]"
      using told_cast [OF assms(1,2) c w1(1)] board_told_other
      by (simp add: w'_def L_def L3_def w1(3))
    then show "follows_board j (board_told (b_socket w j) (bw_log w')) ((board_of w)(i \<mapsto> (3, 3)))"
      using follows_enter [OF j(3) s(3) [OF assms(3)]] by (simp add: on_board_def)
  next
    define ms where "ms = board_told (b_socket w i) (bw_log w) @ [MsgSignUp i ?n BOARD_MAX, MsgCreate i 3 3]"
    have told: "board_told (b_socket w i) (bw_log w') = ms @ concat (map (world_data i w1) ?xs)"
      using told_cast [OF assms(1,2,3) w1(1)] board_told_data
      by (simp add: w'_def L_def L3_def w1(3) ms_def)
    obtain B where B: "follows_board i ms B"
      "\<And>j. B j = ((board_of w)(i \<mapsto> (3, 3))) j \<or> B j = ([i \<mapsto> (3, 3)]) j"
    proof (cases "board_of w i = None")
      case True
      then have "ms = [MsgSignUp i ?n BOARD_MAX, MsgCreate i 3 3]" using assms(5) by (simp add: ms_def)
      then show ?thesis using that [of "[i \<mapsto> (3, 3)]"] follows_first [OF s(3) [OF assms(3)]] by simp
    next
      case False
      then have "follows_board i ms ((board_of w)(i \<mapsto> (3, 3)))"
        unfolding ms_def by (intro follows_enter s(5) s(3) assms(3)) (simp_all add: on_board_def)
      then show ?thesis using that by blast
    qed
    let ?B' = "\<lambda>j. if j \<in> set ?xs \<and> j \<noteq> i \<and> bs_instance (bw_object w1 j) \<noteq> None
      then bs_instance (bw_object w1 j) else B j"
    have "follows_board i (ms @ concat (map (world_data i w1) ?xs)) ?B'"
    proof (rule follows_data [OF B(1)])
      show "fits_pid j" if "j \<in> set ?xs" for j using that s(3) xs by simp
      show "on_board p" if "j \<in> set ?xs" "bs_instance (bw_object w1 j) = Some p" for j p
      proof (cases "j = i")
        case True
        then show ?thesis using that w1(4) by (auto simp: on_board_def)
      next
        case False
        then have "board_of w j = Some p" using that xs w1(1) by (simp add: same_seats_def board_of_def)
        then show ?thesis by (rule s(4))
      qed
    qed
    moreover have "?B' j = ((board_of w)(i \<mapsto> (3, 3))) j" for j
      using B(2) [of j] xs w1(1) by (cases "bs_instance (bw_object w j)") (auto simp: same_seats_def board_of_def)
    ultimately show "follows_board i (board_told (b_socket w i) (bw_log w')) ((board_of w)(i \<mapsto> (3, 3)))"
      by (simp add: told follows_board_def)
  qed
  ultimately show ?thesis using same_seats_board [OF seats(1) assms(3)] by auto
qed

lemma key_works:
  assumes "bo_works os" and "seated w" and "i \<in> bw_Clients w"
  shows "\<exists>w'. b_key os i i buf w = Inr w' \<and> seated w' \<and> same_seats i w w' \<and> same_bytes i w w'
    \<and> board_of w' = (case board_of w i of None \<Rightarrow> board_of w
        | Some p \<Rightarrow> (board_of w)(i \<mapsto> board_neighbour (read_le buf 7 8) p))"
proof (cases "board_of w i")
  case None
  then show ?thesis using assms by (simp add: b_key_def board_of_def same_seats_def same_bytes_def)
next
  case (Some p)
  note s = seatedD [OF assms(2)]
  let ?k = "read_le buf 7 8"
  define q where "q = board_neighbour ?k p"
  have p: "bs_instance (bw_object w i) = Some p" using Some assms(3) by (simp add: board_of_def)
  have on: "on_board p" "on_board q" using s(4) [OF Some] on_board_neighbour by (simp_all add: q_def)
  define w1 where "w1 = b_on_object i (\<lambda>s. s\<lparr>bs_instance := Some q\<rparr>) w"
  define L where "L = (if q \<noteq> p then board_cast os (MsgMove i (fst q) (snd q)) w1 else [])"
  define w' where "w' = b_emits L w1"
  have w1: "same_seats i w w1" "same_bytes i w w1" "bw_log w1 = bw_log w" "bs_instance (bw_object w1 i) = Some q"
    by (simp_all add: same_seats_def same_bytes_def w1_def)
  have cl: "bw_Clients w1 = bw_Clients w" using w1(1) by (simp add: same_seats_def)
  have "b_key os i i buf w = Inr w'"
    using broadcasts_work(3) [OF assms(1), of w1 i "fst q" "snd q"] s(1) cl assms(3) p b_TryMove_neighbour [OF on(1), of ?k]
    by (simp add: b_key_def w1_def [symmetric] q_def [symmetric] w'_def L_def)
  moreover have seats: "same_seats i w w'" "same_bytes i w w'" "bs_instance (bw_object w' i) = Some q"
    using w1 by (simp_all add: same_seats_def same_bytes_def w'_def)
  moreover have "seated w'"
  proof -
    have "follows_board j (board_told (b_socket w j) (bw_log w')) ((board_of w)(i \<mapsto> q))"
      if j: "board_of w j \<noteq> None" for j
    proof (cases "q = p")
      case True
      then have "(board_of w)(i \<mapsto> q) = board_of w" using Some by auto
      then show ?thesis using s(5) [OF j] True by (simp add: w'_def L_def w1(3))
    next
      case False
      have c: "j \<in> bw_Clients w" using j by (auto simp: board_of_def split: if_splits)
      have "board_of w i \<noteq> None" using Some by simp
      from follows_move [OF s(5) [OF j] this s(3) [OF assms(3)], of "fst q" "snd q"] on(2)
      show ?thesis using told_cast [OF assms(1,2) c w1(1)] False
        by (simp add: w'_def L_def w1(3))
    qed
    then show ?thesis
      using Some by (intro seatedI [OF assms(2) seats(1) assms(3) on(2) seats(3)]) simp_all
  qed
  ultimately show ?thesis using same_seats_board [OF seats(1) assms(3)] Some by (auto simp: q_def)
qed

lemma disconnect_works:
  assumes "bo_works os" and "seated w" and "board_of w i \<noteq> None"
  shows "\<exists>w'. b_Disconnect os final i w = Inr w' \<and> seated w' \<and> bw_Clients w' = bw_Clients w - {i}
    \<and> bw_object w' = bw_object w \<and> board_of w' = (board_of w)(i := None)"
proof -
  note s = seatedD [OF assms(2)]
  have i: "i \<in> bw_Clients w" using assms(3) by (auto simp: board_of_def split: if_splits)
  define w1 where "w1 = b_RemoveClient final i w"
  define L where "L = board_cast os (MsgSignOut i (b_GetClientsNumber w1)) w1"
  define w' where "w' = b_AddCandidateSocketToPool os (b_emits L w1)"
  have w1: "bw_Clients w1 = bw_Clients w - {i}" "bw_object w1 = bw_object w" "\<And>s. board_told s (bw_log w1) = board_told s (bw_log w)"
    using i by (auto simp: w1_def b_RemoveClient_def Let_def b_emit_def)
  have w': "bw_Clients w' = bw_Clients w - {i}" "bw_object w' = bw_object w"
    "\<And>s. board_told s (bw_log w') = board_told s (bw_log w) @ board_told s L"
    using w1 by (simp_all add: w'_def b_AddCandidateSocketToPool_def b_CreateSocket_def b_emit_def)
  have "b_Disconnect os final i w = Inr w'"
    using broadcasts_work(4) [OF assms(1), of w1 i] w1(1) s(1)
    by (simp add: b_Disconnect_def w1_def [symmetric] w'_def L_def)
  moreover have B: "board_of w' = (board_of w)(i := None)" by (simp add: board_of_def w' fun_eq_iff)
  moreover have "seated w'"
  proof -
    have "follows_board j (board_told (b_socket w' j) (bw_log w')) (board_of w')" if j: "board_of w' j \<noteq> None" for j
    proof -
      have j': "j \<noteq> i" "board_of w j \<noteq> None" using j by (auto simp: B split: if_splits)
      then have "j \<in> bw_Clients w1" by (auto simp: board_of_def w1 split: if_splits)
      moreover have "inj_on (b_socket w) (bw_Clients w1)" "finite (bw_Clients w1)"
        using s(1,2) by (simp_all add: w1 inj_on_diff)
      ultimately have "board_told (b_socket w j) L = [MsgSignOut i (b_GetClientsNumber w1)]"
        using board_told_cast [of "bo_order os" "bw_Clients w1" w j] assms(1) by (simp add: L_def board_cast_def w1 bo_works_def)
      then show ?thesis
        using follows_leave [OF s(5) [OF j'(2)] assms(3) s(3) [OF i]] j'(1) by (simp add: B w')
    qed
    moreover have "on_board p" if "board_of w' j = Some p" for j p
      using that s(4) [of j p] by (auto simp: B split: if_splits)
    moreover have "(\<lambda>j. b_socket w' j) = b_socket w" by (simp add: w')
    ultimately show ?thesis
      using s(1-3) unfolding seated_def w'(1) by (simp add: inj_on_diff)
  qed
  ultimately show ?thesis using w'(1,2) by blast
qed

subsection \<open>A buffer of commands\<close>

lemma BoardSignIn_bytes:
  assumes "cmd_ok (CmdSignIn nick)"
  shows "cmd_bytes i (CmdSignIn nick) = board_packet 37 B_CS_SIGNIN 0 @ nick @ replicate (30 - length nick) 0"
proof -
  have t: "takeWhile (\<lambda>c. c \<noteq> 0) nick = nick"
    by (rule takeWhile_eq_all_conv [THEN iffD2]) (use assms in auto)
  show ?thesis using assms unfolding cmd_bytes.simps BoardSignIn_def strcpy_s_def Let_def t by simp
qed

fun cmd_size :: "board_cmd \<Rightarrow> nat" where
  "cmd_size (CmdSignIn nick) = 37" | "cmd_size (CmdKey key) = 15" | "cmd_size CmdSignOut = 7"

fun cmd_type :: "board_cmd \<Rightarrow> u8" where
  "cmd_type (CmdSignIn nick) = B_CS_SIGNIN" | "cmd_type (CmdKey key) = B_CS_KEY" | "cmd_type CmdSignOut = B_CS_SIGNOUT"

fun cmd_owner :: "pid \<Rightarrow> board_cmd \<Rightarrow> pid" where
  "cmd_owner i (CmdSignIn nick) = 0" | "cmd_owner i (CmdKey key) = i" | "cmd_owner i CmdSignOut = i"

lemma cmd_bytes_packet:
  "cmd_ok c \<Longrightarrow> \<exists>t. cmd_bytes i c = board_packet (cmd_size c) (cmd_type c) (cmd_owner i c) @ t \<and> length t = cmd_size c - 7"
  using BoardSignIn_bytes by (cases c) (auto simp: BoardKeyInput_def BoardSignOut_def simp del: le_bytes.simps cmd_bytes.simps(1))

lemma cmd_bytes_reads:
  assumes "cmd_ok c" and "fits_pid i"
  shows "length (cmd_bytes i c) = cmd_size c" and "read_le (cmd_bytes i c @ z) 0 2 = cmd_size c"
    and "byte_at (cmd_bytes i c @ z) 2 = cmd_type c" and "int (read_le (cmd_bytes i c @ z) 3 4) = cmd_owner i c"
proof -
  obtain t where t: "cmd_bytes i c = board_packet (cmd_size c) (cmd_type c) (cmd_owner i c) @ t" "length t = cmd_size c - 7"
    using cmd_bytes_packet [OF assms(1)] by blast
  have n: "7 \<le> cmd_size c" "cmd_size c < 65536" by (cases c; simp)+
  have o: "0 \<le> cmd_owner i c" "cmd_owner i c < 2 ^ 32" using assms(2) by (cases c; simp)+
  show "length (cmd_bytes i c) = cmd_size c" using t n by simp
  show "read_le (cmd_bytes i c @ z) 0 2 = cmd_size c" "byte_at (cmd_bytes i c @ z) 2 = cmd_type c"
    "int (read_le (cmd_bytes i c @ z) 3 4) = cmd_owner i c"
    using board_packet_reads [OF n(2) o, of "cmd_type c" "t @ z"] by (simp_all add: t(1))
qed

lemma sign_in_name:
  assumes "cmd_ok (CmdSignIn nick)"
  shows "\<exists>nk. strcpy_s 30 (drop 7 (cmd_bytes i (CmdSignIn nick) @ z)) = Some nk"
proof -
  have "takeWhile (\<lambda>c. c \<noteq> 0) (nick @ replicate (30 - length nick) 0 @ z) = nick"
    using assms by (cases "30 - length nick") (auto simp: takeWhile_append takeWhile_eq_all_conv)
  moreover have "drop 7 (cmd_bytes i (CmdSignIn nick) @ z) = nick @ replicate (30 - length nick) 0 @ z"
    unfolding BoardSignIn_bytes [OF assms] by simp
  ultimately show ?thesis using assms by (simp add: strcpy_s_def Let_def)
qed

lemma key_read:
  assumes "cmd_ok (CmdKey key)"
  shows "read_le (cmd_bytes i (CmdKey key) @ z) 7 8 = key"
proof -
  have "key < 256 ^ 8" using assms by simp
  then show ?thesis by (simp add: BoardKeyInput_def field_reads del: le_bytes.simps)
qed

text \<open>Where the buffer of a session stands: \<open>data\<close> is still to be handled.\<close>

definition to_handle :: "pid \<Rightarrow> bytes \<Rightarrow> board_world \<Rightarrow> bool" where
  "to_handle i data w \<longleftrightarrow> (let s = bw_object w i in bs_start s = 0 \<and> length (bs_memory s) = BOARD_BUFFSIZE
     \<and> bs_recvBytes s = length data \<and> (\<exists>z. bs_memory s = data @ z))"

lemma to_handle_same:
  "same_bytes i w w' \<Longrightarrow> to_handle i data w' = to_handle i data w"
  by (simp add: to_handle_def same_bytes_def Let_def)

lemma seated_buffer:
  assumes "\<And>s. bs_socket (f s) = bs_socket s \<and> bs_instance (f s) = bs_instance s"
  shows "seated (b_on_object i f w) = seated w" and "board_of (b_on_object i f w) = board_of w"
proof -
  show B: "board_of (b_on_object i f w) = board_of w" using assms by (auto simp: board_of_def fun_eq_iff)
  have S: "b_socket (b_on_object i f w) j = b_socket w j" for j using assms by simp
  show "seated (b_on_object i f w) = seated w" unfolding seated_def B S by (simp add: inj_on_def)
qed

lemma consume_works:
  assumes "to_handle i (xs @ rest) w" and "n = length xs"
  shows "\<exists>w'. b_consume i n w = Inr w' \<and> to_handle i rest w' \<and> same_seats i w w' \<and> bw_log w' = bw_log w
    \<and> board_of w' = board_of w \<and> seated w' = seated w"
proof -
  let ?f = "\<lambda>s. s\<lparr>bs_recvBytes := bs_recvBytes s - n\<rparr>"
  let ?g = "\<lambda>s. s\<lparr>bs_memory := drop n (bs_memory s) @ replicate n 0\<rparr>"
  obtain z where z: "bs_memory (bw_object w i) = xs @ rest @ z" and
    h: "bs_start (bw_object w i) = 0" "length (bs_memory (bw_object w i)) = 512" "bs_recvBytes (bw_object w i) = n + length rest"
    using assms by (auto simp: to_handle_def Let_def)
  show ?thesis
  proof (cases "rest = []")
    case True
    then have "b_consume i n w = Inr (b_on_object i ?f w)" using h by (simp add: b_consume_def)
    then show ?thesis
      using True h by (auto simp: to_handle_def Let_def same_seats_def seated_buffer)
  next
    case False
    have "b_consume i n w = Inr (b_on_object i (\<lambda>_. ?g (?f (bw_object w i))) (b_on_object i ?f w))"
      using False h z assms(2) by (simp add: b_consume_def b_MoveStream_def Let_def)
    moreover have "b_on_object i (\<lambda>_. ?g (?f (bw_object w i))) (b_on_object i ?f w) = b_on_object i (\<lambda>s. ?g (?f s)) w"
      by (simp add: b_on_object_def)
    ultimately show ?thesis
      using h z assms(2) by (auto simp: to_handle_def Let_def same_seats_def seated_buffer)
  qed
qed

text \<open>One command at the front of the buffer, unless it is the last one of the player.\<close>

definition may_say :: "board_world \<Rightarrow> pid \<Rightarrow> board_cmd list \<Rightarrow> bool" where
  "may_say w i cmds \<longleftrightarrow> list_all cmd_ok cmds \<and> (board_of w i = None \<longrightarrow> cmds = []
     \<or> board_told (b_socket w i) (bw_log w) = [] \<and> (\<exists>nick. hd cmds = CmdSignIn nick))"

lemma same_seats_told: "same_seats i w w' \<Longrightarrow> b_socket w' j = b_socket w j"
  by (simp add: same_seats_def)

lemma command_works:
  assumes "bo_works os" and "seated w" and "i \<in> bw_Clients w" and "may_say w i (c # cs)" and "c \<noteq> CmdSignOut"
    and "to_handle i (cmd_bytes i c @ rest) w"
  shows "\<exists>w'. b_loop (Suc n) os i w = b_loop n os i w' \<and> seated w' \<and> to_handle i rest w' \<and> same_seats i w w'
    \<and> board_rules i (c # cs) (board_of w) = board_rules i cs (board_of w') \<and> board_of w' i \<noteq> None"
proof -
  have ok: "cmd_ok c" and fits: "fits_pid i" using assms(4) seatedD(3) [OF assms(2,3)] by (simp_all add: may_say_def)
  obtain z where z: "bs_start (bw_object w i) = 0" "bs_memory (bw_object w i) = cmd_bytes i c @ rest @ z"
    "bs_recvBytes (bw_object w i) = cmd_size c + length rest"
    using assms(6) cmd_bytes_reads(1) [OF ok fits] by (auto simp: to_handle_def Let_def)
  define buf where "buf = drop (bs_start (bw_object w i)) (bs_memory (bw_object w i))"
  have buf: "buf = cmd_bytes i c @ rest @ z" using z by (simp add: buf_def)
  note r = cmd_bytes_reads(2-4) [OF ok fits, of "rest @ z", folded buf]
  have n7: "\<not> cmd_size c + length rest < 7" by (cases c) auto
  have goon: "\<exists>w'. rbind R (\<lambda>w. rbind (b_consume i (cmd_size c) w) (b_loop n os i)) = b_loop n os i w' \<and> seated w'
      \<and> to_handle i rest w' \<and> same_seats i w w' \<and> board_of w' = board_of w1"
    if "R = Inr w1" "seated w1" "same_seats i w w1" "same_bytes i w w1" for R w1
  proof -
    have "to_handle i (cmd_bytes i c @ rest) w1" using to_handle_same [OF that(4)] assms(6) by simp
    from consume_works [OF this cmd_bytes_reads(1) [OF ok fits, symmetric]]
    obtain w' where "b_consume i (cmd_size c) w1 = Inr w'" "to_handle i rest w'" "same_seats i w1 w'"
      "board_of w' = board_of w1" "seated w' = seated w1" by blast
    then show ?thesis using that same_seats_trans by auto
  qed
  show ?thesis
  proof (cases c)
    case (CmdSignIn nick)
    have step: "b_loop (Suc n) os i w = rbind (b_sign_in os i buf w) (\<lambda>w. rbind (b_consume i (cmd_size c) w) (b_loop n os i))"
      using r z(3) n7 CmdSignIn by (simp add: b_loop.simps(2) Let_def buf_def [symmetric] del: cmd_bytes.simps)
    obtain nk where "strcpy_s 30 (drop 7 buf) = Some nk"
      using sign_in_name [of nick i "rest @ z"] ok CmdSignIn buf by auto
    moreover have "board_of w i \<noteq> None \<or> board_told (b_socket w i) (bw_log w) = []"
      using assms(4) by (auto simp: may_say_def)
    ultimately obtain w1 where w1: "b_sign_in os i buf w = Inr w1" "seated w1" "same_seats i w w1" "same_bytes i w w1"
      "board_of w1 = (board_of w)(i \<mapsto> (3, 3))"
      using sign_in_works [OF assms(1-3)] by blast
    obtain w' where "rbind (b_sign_in os i buf w) (\<lambda>w. rbind (b_consume i (cmd_size c) w) (b_loop n os i)) = b_loop n os i w'"
      "seated w'" "to_handle i rest w'" "same_seats i w w'" "board_of w' = board_of w1"
      using goon [OF w1(1-4)] by blast
    then show ?thesis unfolding step using w1(5) CmdSignIn by auto
  next
    case (CmdKey key)
    have step: "b_loop (Suc n) os i w = rbind (b_key os i i buf w) (\<lambda>w. rbind (b_consume i (cmd_size c) w) (b_loop n os i))"
      using r z(3) n7 CmdKey by (simp add: b_loop.simps(2) Let_def buf_def [symmetric] del: cmd_bytes.simps)
    have key: "read_le buf 7 8 = key" unfolding buf CmdKey by (rule key_read) (use ok CmdKey in simp)
    obtain p where p: "board_of w i = Some p" using assms(4) CmdKey by (auto simp: may_say_def)
    obtain w1 where w1: "b_key os i i buf w = Inr w1" "seated w1" "same_seats i w w1" "same_bytes i w w1"
      "board_of w1 = (board_of w)(i \<mapsto> board_neighbour key p)"
      using key_works [OF assms(1-3), of buf] by (auto simp: key p)
    obtain w' where "rbind (b_key os i i buf w) (\<lambda>w. rbind (b_consume i (cmd_size c) w) (b_loop n os i)) = b_loop n os i w'"
      "seated w'" "to_handle i rest w'" "same_seats i w w'" "board_of w' = board_of w1"
      using goon [OF w1(1-4)] by blast
    then show ?thesis unfolding step using w1(5) CmdKey p by auto
  next
    case CmdSignOut
    then show ?thesis using assms(5) by simp
  qed
qed

lemma loop_works:
  assumes "bo_works os" and "seated w" and "i \<in> bw_Clients w" and "may_say w i cmds"
    and "to_handle i (concat (map (cmd_bytes i) cmds)) w" and "length cmds < fuel"
  shows "\<exists>again w'. b_loop fuel os i w = Inr (again, w') \<and> seated w' \<and> board_of w' = board_rules i cmds (board_of w)
    \<and> (\<forall>j. j \<noteq> i \<longrightarrow> bw_object w' j = bw_object w j)
    \<and> (if again then bw_Clients w' = bw_Clients w \<and> to_handle i [] w' else bw_Clients w' = bw_Clients w - {i})"
  using assms(2-6)
proof (induction cmds arbitrary: w fuel)
  case Nil
  then obtain n where "fuel = Suc n" by (cases fuel) auto
  moreover have "bs_recvBytes (bw_object w i) = 0" using Nil.prems by (simp add: to_handle_def Let_def)
  ultimately show ?case
    using Nil.prems by (intro exI [of _ True] exI [of _ w]) (simp add: b_loop.simps(2) Let_def)
next
  case (Cons c cs)
  obtain n where n: "fuel = Suc n" "length cs < n" using Cons.prems(5) by (cases fuel) auto
  let ?rest = "concat (map (cmd_bytes i) cs)"
  have h: "to_handle i (cmd_bytes i c @ ?rest) w" using Cons.prems(4) by simp
  show ?case
  proof (cases "c = CmdSignOut")
    case True
    have fits: "fits_pid i" by (rule seatedD(3) [OF Cons.prems(1,2)])
    obtain z where z: "bs_start (bw_object w i) = 0" "bs_memory (bw_object w i) = cmd_bytes i CmdSignOut @ ?rest @ z"
      "bs_recvBytes (bw_object w i) = 7 + length ?rest"
      using h True cmd_bytes_reads(1) [of CmdSignOut, OF _ fits] by (auto simp: to_handle_def Let_def)
    note r = cmd_bytes_reads(2-4) [of CmdSignOut, OF _ fits, of "?rest @ z"]
    have "b_loop fuel os i w = rbind (b_Disconnect os False i w) (\<lambda>w. Inr (False, w))"
      using r z n(1) by (simp add: b_loop.simps(2) Let_def del: cmd_bytes.simps)
    moreover have "board_of w i \<noteq> None" using Cons.prems(3) True by (auto simp: may_say_def)
    moreover obtain w' where "b_Disconnect os False i w = Inr w'" "seated w'" "bw_Clients w' = bw_Clients w - {i}"
      "bw_object w' = bw_object w" "board_of w' = (board_of w)(i := None)"
      using disconnect_works [OF assms(1) Cons.prems(1) calculation(2), of False] by blast
    ultimately show ?thesis using True by (intro exI [of _ False] exI [of _ w']) simp
  next
    case False
    obtain w' where w': "b_loop (Suc n) os i w = b_loop n os i w'" "seated w'" "to_handle i ?rest w'" "same_seats i w w'"
      "board_rules i (c # cs) (board_of w) = board_rules i cs (board_of w')" "board_of w' i \<noteq> None"
      using command_works [OF assms(1) Cons.prems(1,2,3) False h] by blast
    have same: "bw_Clients w' = bw_Clients w" "\<And>j. j \<noteq> i \<Longrightarrow> bw_object w' j = bw_object w j"
      using w'(4) by (simp_all add: same_seats_def)
    have "may_say w' i cs" using Cons.prems(3) w'(6) by (cases "board_of w' i") (auto simp: may_say_def)
    with Cons.IH [OF w'(2) _ _ w'(3) n(2)] Cons.prems(2) obtain again w'' where
      "b_loop n os i w' = Inr (again, w'')" "seated w''" "board_of w'' = board_rules i cs (board_of w')"
      "\<forall>j. j \<noteq> i \<longrightarrow> bw_object w'' j = bw_object w' j"
      "if again then bw_Clients w'' = bw_Clients w' \<and> to_handle i [] w'' else bw_Clients w'' = bw_Clients w' - {i}"
      unfolding same by blast
    then show ?thesis using w'(1,5) same n(1) by auto
  qed
qed

end
