(* ===== verification/BoardRuns.thy ===== *)
theory BoardRuns
  imports BoardPlay
begin

section \<open>Whole games on the board\<close>

text \<open>
  Runs of the server of the board with its clients: the server never faults and plays by the rules, and every
  player in the game has the board of the server on its screen. After them, two ways to lose a program to the
  stream: a packet that arrives in two pieces, and two packets that arrive at once.
\<close>

subsection \<open>What may happen\<close>

datatype board_play =
  PlayKnock
| PlaySays pid "board_cmd list"
| PlaySent pid nat bool
| PlayBroken pid

definition play_event :: "board_play \<Rightarrow> board_event" where
  "play_event e = (case e of
      PlayKnock \<Rightarrow> BKnock
    | PlaySays i cmds \<Rightarrow> BGot i (concat (map (cmd_bytes i) cmds))
    | PlaySent i byte pending \<Rightarrow> BSent i byte pending
    | PlayBroken i \<Rightarrow> BBroken i)"

text \<open>
  A connection comes on a socket nobody had, under a number nobody has. A player's packets come whole, and
  its first one signs in, before the server told it anything. What breaks is the connection of a player in
  the game, or the listener.
\<close>

definition board_admits :: "board_world \<Rightarrow> board_play \<Rightarrow> bool" where
  "board_admits w e \<longleftrightarrow> (case e of
      PlayKnock \<Rightarrow> board_told (bw_newbie w) (bw_log w) = [] \<and> (\<forall>i \<in> bw_Clients w. b_socket w i \<noteq> bw_newbie w)
        \<and> fits_pid (bw_order w) \<and> bw_order w \<notin> bw_Clients w
    | PlaySays i cmds \<Rightarrow> i \<in> bw_Clients w \<and> may_say w i cmds \<and> length (concat (map (cmd_bytes i) cmds)) \<le> BOARD_BUFFSIZE
    | PlaySent i byte pending \<Rightarrow> 0 < byte \<or> pending
    | PlayBroken i \<Rightarrow> i = BOARD_SERVER_KEY \<or> board_of w i \<noteq> None)"

inductive board_step :: "nat \<Rightarrow> board_os \<Rightarrow> board_world \<Rightarrow> board_world \<Rightarrow> bool" for fuel os where
  board_step: "board_admits w e \<Longrightarrow> b_Update fuel os (play_event e) w = Inr w' \<Longrightarrow> board_step fuel os w w'"

inductive_cases board_stepE: "board_step fuel os w w'"

text \<open>What an event does to the board.\<close>

fun play_rules :: "board_play \<Rightarrow> (pid \<rightharpoonup> int \<times> int) \<Rightarrow> (pid \<rightharpoonup> int \<times> int)" where
  "play_rules PlayKnock B = B"
| "play_rules (PlaySays i cmds) B = board_rules i cmds B"
| "play_rules (PlaySent i byte pending) B = B"
| "play_rules (PlayBroken i) B = (if i = BOARD_SERVER_KEY then B else B(i := None))"

definition board_inv :: "board_world \<Rightarrow> bool" where
  "board_inv w \<longleftrightarrow> seated w \<and> (\<forall>i \<in> bw_Clients w. idle_session (bw_object w i))"

subsection \<open>Every event\<close>

lemma board_inv_silent:
  "board_inv w \<Longrightarrow> (\<And>s. board_told s L = []) \<Longrightarrow> board_inv (b_emits L w)"
  by (simp add: board_inv_def seated_silent)

lemma RecvStream_works:
  assumes "bo_works os"
  shows "b_RecvStream os i n w = Inr (bo_recv os (b_now (b_on_object i (\<lambda>s. s\<lparr>bs_start := n\<rparr>) w)) = IoDone,
    b_emits [BRecv (b_socket w i) n (BOARD_BUFFSIZE - n)] (b_on_object i (\<lambda>s. s\<lparr>bs_start := n\<rparr>) w))"
  using assms by (auto simp: b_RecvStream_def Let_def bo_works_def b_emit_emits split: io_result.splits)

lemma idle_to_handle: "to_handle i [] w \<Longrightarrow> idle_session (bw_object w i)"
  by (simp add: to_handle_def idle_session_def Let_def)

lemma to_handle_deliver:
  assumes "idle_session (bw_object w i)" and "length data \<le> BOARD_BUFFSIZE"
  shows "to_handle i data (b_on_object i (\<lambda>s. s\<lparr>bs_recvBytes := bs_recvBytes s + length data\<rparr>) (b_on_object i (b_deliver data) w))"
  using assms by (auto simp: to_handle_def idle_session_def b_deliver_def Let_def)

lemma says_works:
  assumes "bo_works os" and "board_inv w" and "i \<in> bw_Clients w" and "may_say w i cmds"
    and "length (concat (map (cmd_bytes i) cmds)) \<le> BOARD_BUFFSIZE" and "length cmds < fuel"
  shows "\<exists>w'. b_Update fuel os (play_event (PlaySays i cmds)) w = Inr w' \<and> board_inv w'
    \<and> board_of w' = board_rules i cmds (board_of w)"
proof -
  let ?data = "concat (map (cmd_bytes i) cmds)"
  define w1 where "w1 = b_on_object i (\<lambda>s. s\<lparr>bs_recvBytes := bs_recvBytes s + length ?data\<rparr>) (b_on_object i (b_deliver ?data) w)"
  have s: "seated w" and idle: "idle_session (bw_object w j)" if "j \<in> bw_Clients w" for j
    using assms(2) that by (simp_all add: board_inv_def)
  have s: "seated w" using assms(2) by (simp add: board_inv_def)
  have w1: "seated w1" "board_of w1 = board_of w" "bw_Clients w1 = bw_Clients w" "bw_log w1 = bw_log w"
    "b_socket w1 i = b_socket w i" "\<And>j. j \<noteq> i \<Longrightarrow> bw_object w1 j = bw_object w j"
    using s by (simp_all add: w1_def seated_buffer b_deliver_def)
  have h: "to_handle i ?data w1" unfolding w1_def using to_handle_deliver [OF idle [OF assms(3)] assms(5)] .
  have "may_say w1 i cmds" using assms(4) by (simp add: may_say_def w1)
  then obtain again w2 where w2: "b_loop fuel os i w1 = Inr (again, w2)" "seated w2" "board_of w2 = board_rules i cmds (board_of w)"
    "\<forall>j. j \<noteq> i \<longrightarrow> bw_object w2 j = bw_object w1 j"
    "if again then bw_Clients w2 = bw_Clients w \<and> to_handle i [] w2 else bw_Clients w2 = bw_Clients w - {i}"
    using loop_works [OF assms(1) w1(1) _ _ h assms(6)] assms(3) unfolding w1(2,3) by blast
  have run: "b_Update fuel os (play_event (PlaySays i cmds)) w
      = rbind (rbind (Inr (again, w2)) (\<lambda>(again, w). if again then rbind (b_RecvStream os i (bs_recvBytes (bw_object w i)) w) (\<lambda>(_, w). Inr w) else Inr w))
        (\<lambda>w. Inr (if i \<in> bw_Clients w then w else b_emit (BClose (bs_socket (bw_object w i))) w))"
    using assms(3) w2(1) by (simp add: b_Update_def play_event_def b_ProceedPacket_def b_ProceedReceived_def w1_def)
  have others: "idle_session (bw_object w2 j)" if "j \<in> bw_Clients w" "j \<noteq> i" for j
    using idle [OF that(1)] w2(4) w1(6) that(2) by simp
  show ?thesis
  proof (cases again)
    case True
    let ?w3 = "b_on_object i (\<lambda>s. s\<lparr>bs_start := bs_recvBytes (bw_object w2 i)\<rparr>) w2"
    define L where "L = [BRecv (b_socket w2 i) (bs_recvBytes (bw_object w2 i)) (BOARD_BUFFSIZE - bs_recvBytes (bw_object w2 i))]"
    have "to_handle i [] w2" "bw_Clients w2 = bw_Clients w" using True w2(5) by simp_all
    then have "idle_session (bw_object ?w3 j)" if "j \<in> bw_Clients w" for j
      using idle_to_handle [of i w2] others [OF that] by (cases "j = i") (simp_all add: idle_session_def)
    moreover have "seated ?w3" "board_of ?w3 = board_of w2" using w2(2) by (simp_all add: seated_buffer)
    ultimately have "board_inv (b_emits L ?w3)"
      using \<open>bw_Clients w2 = bw_Clients w\<close> by (intro board_inv_silent) (simp_all add: board_inv_def L_def)
    moreover have "b_Update fuel os (play_event (PlaySays i cmds)) w = Inr (b_emits L ?w3)"
      unfolding run using True assms(3) \<open>bw_Clients w2 = bw_Clients w\<close> by (simp add: RecvStream_works [OF assms(1)] L_def)
    ultimately show ?thesis using w2(3) \<open>board_of ?w3 = board_of w2\<close> by simp
  next
    case False
    then have cl: "bw_Clients w2 = bw_Clients w - {i}" using w2(5) by simp
    have "b_Update fuel os (play_event (PlaySays i cmds)) w = Inr (b_emits [BClose (b_socket w2 i)] w2)"
      unfolding run using False cl by (simp add: b_emit_emits)
    moreover have "board_inv (b_emits [BClose (b_socket w2 i)] w2)"
      using w2(2) others cl by (intro board_inv_silent) (simp_all add: board_inv_def)
    ultimately show ?thesis using w2(3) by simp
  qed
qed

lemma broken_works:
  assumes "bo_works os" and "board_inv w" and "i = BOARD_SERVER_KEY \<or> board_of w i \<noteq> None"
  shows "\<exists>w'. b_Update fuel os (play_event (PlayBroken i)) w = Inr w' \<and> board_inv w'
    \<and> board_of w' = play_rules (PlayBroken i) (board_of w)"
proof (cases "i = BOARD_SERVER_KEY")
  case True
  then show ?thesis using assms(2) by (simp add: b_Update_def play_event_def)
next
  case False
  then have "board_of w i \<noteq> None" using assms(3) by simp
  from disconnect_works [OF assms(1) _ this, of True] obtain w' where "b_Disconnect os True i w = Inr w'" "seated w'"
    "bw_Clients w' = bw_Clients w - {i}" "bw_object w' = bw_object w" "board_of w' = (board_of w)(i := None)"
    using assms(2) by (auto simp: board_inv_def)
  then show ?thesis using False assms(2) by (simp add: b_Update_def play_event_def board_inv_def)
qed

lemma sent_works:
  assumes "board_inv w" and "0 < byte \<or> pending"
  shows "\<exists>w'. b_Update fuel os (play_event (PlaySent i byte pending)) w = Inr w' \<and> board_inv w' \<and> board_of w' = board_of w"
  using assms by (auto simp: b_Update_def play_event_def b_ProceedPacket_def b_ProceedSent_def)

text \<open>A newcomer takes a seat, without a piece, or is turned away.\<close>

lemma new_object_seated:
  assumes "board_inv w" and "n \<notin> bw_Clients w"
  shows "board_inv (b_on_object n f w)" and "board_of (b_on_object n f w) = board_of w"
proof -
  have o: "bw_object (b_on_object n f w) j = bw_object w j" if "j \<in> bw_Clients w" for j
    using that assms(2) by auto
  show B: "board_of (b_on_object n f w) = board_of w" using o by (auto simp: board_of_def fun_eq_iff)
  have "b_socket (b_on_object n f w) j = b_socket w j" if "board_of w j \<noteq> None" for j
    using that o [of j] by (auto simp: board_of_def split: if_splits)
  moreover have "inj_on (b_socket (b_on_object n f w)) (bw_Clients w) = inj_on (b_socket w) (bw_Clients w)"
    by (rule inj_on_cong) (use assms(2) in auto)
  ultimately show "board_inv (b_on_object n f w)"
    using assms(1) o unfolding board_inv_def seated_def B by simp
qed

lemma new_seat:
  assumes "board_inv w" and "n \<notin> bw_Clients w" and "fits_pid n" and "idle_session (bw_object w n)"
    and "bs_instance (bw_object w n) = None" and "\<And>i. i \<in> bw_Clients w \<Longrightarrow> b_socket w i \<noteq> b_socket w n"
    and "bw_Clients w' = insert n (bw_Clients w)" and "bw_object w' = bw_object w" and "bw_log w' = bw_log w"
  shows "board_inv w'" and "board_of w' = board_of w"
proof -
  show B: "board_of w' = board_of w" using assms(2,5,7,8) by (auto simp: board_of_def fun_eq_iff)
  have "(\<lambda>j. b_socket w' j) = b_socket w" by (simp add: assms(8))
  moreover have "inj_on (b_socket w) (bw_Clients w)" "finite (bw_Clients w)" "\<forall>i \<in> bw_Clients w. fits_pid i"
    using assms(1) by (simp_all add: board_inv_def seated_def)
  moreover have "inj_on (b_socket w) (insert n (bw_Clients w))"
    using calculation(2) assms(2,6) assms(6) [THEN not_sym] by (auto simp: inj_on_def)
  ultimately have "seated w'"
    using assms(1,3) unfolding board_inv_def seated_def B assms(7,8,9) by simp
  then show "board_inv w'" using assms(1,4,7,8) by (simp add: board_inv_def)
qed

lemma board_of_books [simp]:
  "board_of (w\<lparr>bw_order := k\<rparr>) = board_of w" "board_of (w\<lparr>bw_newbie := s\<rparr>) = board_of w"
  by (simp_all add: board_of_def fun_eq_iff)

lemma board_inv_books [simp]:
  "board_inv (w\<lparr>bw_order := k\<rparr>) = board_inv w" "board_inv (w\<lparr>bw_newbie := s\<rparr>) = board_inv w"
  by (simp_all add: board_inv_def seated_def)

lemma CreateAndAssign_works:
  assumes "bo_works os" and "board_inv w" and "board_admits w PlayKnock"
  shows "\<exists>ok w'. b_CreateAndAssignClient os (bw_newbie w) w = Inr (ok, w') \<and> board_inv w' \<and> board_of w' = board_of w"
proof -
  let ?n = "bw_order w" and ?s = "bw_newbie w"
  have fresh: "?n \<notin> bw_Clients w" "fits_pid ?n" "\<And>i. i \<in> bw_Clients w \<Longrightarrow> b_socket w i \<noteq> ?s"
    using assms(3) by (simp_all add: board_admits_def)
  define w1 where "w1 = b_emits [BPort ?s ?n] (b_on_object ?n (\<lambda>_. BoardSession ?s) w)"
  have w1: "board_inv w1" "board_of w1 = board_of w" "bw_Clients w1 = bw_Clients w"
    using new_object_seated [OF assms(2) fresh(1)] board_inv_silent by (simp_all add: w1_def)
  define w2 where "w2 = w1\<lparr>bw_order := (?n + 1) mod 2 ^ 32\<rparr>"
  define w3 where "w3 = b_emits [BRecv (b_socket w2 ?n) 0 BOARD_BUFFSIZE] (b_on_object ?n (\<lambda>s. s\<lparr>bs_start := 0\<rparr>) w2)"
  have w2: "board_inv w2" "board_of w2 = board_of w" "?n \<notin> bw_Clients w2" using w1 fresh(1) by (simp_all add: w2_def)
  have w3: "board_inv w3" "board_of w3 = board_of w"
    using new_object_seated [OF w2(1,3)] w2(2) board_inv_silent by (simp_all add: w3_def)
  have recv: "b_RecvStream os ?n 0 w2 = Inr (bo_recv os (b_now (b_on_object ?n (\<lambda>s. s\<lparr>bs_start := 0\<rparr>) w2)) = IoDone, w3)"
    using RecvStream_works [OF assms(1), of ?n 0 w2] by (simp add: w3_def)
  have start: "b_CreateAndAssignClient os ?s w = (if \<not> bo_port os (b_now w) then Inr (False, b_emit (BClose ?s) w1)
      else rbind (b_RecvStream os ?n 0 w2) (\<lambda>(ok, w). if \<not> ok then Inr (False, b_emit (BClose ?s) w)
        else Inr (True, w\<lparr>bw_clientsID := bw_clientsID w @ [?n], bw_Clients := insert ?n (bw_Clients w), bw_number := bw_number w + 1\<rparr>)))"
    by (simp add: b_CreateAndAssignClient_def Let_def w1_def w2_def b_emit_emits)
  define w4 where "w4 = w3\<lparr>bw_clientsID := bw_clientsID w3 @ [?n], bw_Clients := insert ?n (bw_Clients w3), bw_number := bw_number w3 + 1\<rparr>"
  have n: "bw_object w3 ?n = BoardSession ?s" "bw_Clients w3 = bw_Clients w"
    "\<And>i. i \<in> bw_Clients w \<Longrightarrow> b_socket w3 i = b_socket w i"
    using fresh(1) by (auto simp: w3_def w2_def w1_def BoardSession_def)
  have w4: "board_inv w4" "board_of w4 = board_of w3"
    using n fresh by (intro new_seat [OF w3(1), of ?n w4]; simp add: w4_def idle_session_def BoardSession_def)+
  have closed: "board_inv (b_emit e v)" if "board_inv v" "e = BClose ?s" for e v
    using that by (simp add: b_emit_emits board_inv_silent)
  show ?thesis
    unfolding start recv using w1 w3 w4 closed
    by (auto simp: w4_def b_emit_emits)
qed

lemma knock_works:
  assumes "bo_works os" and "board_inv w" and "board_admits w PlayKnock"
  shows "\<exists>w'. b_Update fuel os (play_event PlayKnock) w = Inr w' \<and> board_inv w' \<and> board_of w' = board_of w"
proof -
  obtain ok w1 where w1: "b_CreateAndAssignClient os (bw_newbie w) w = Inr (ok, w1)" "board_inv w1" "board_of w1 = board_of w"
    using CreateAndAssign_works [OF assms] by blast
  have silent: "board_inv (b_emits L v)" if "board_inv v" "L \<in> {[BClose s], [BSocket s], [BAccept s]}" for L v s
    using that by (auto intro: board_inv_silent)
  show ?thesis
  proof (cases "bw_pool w = []")
    case True
    then show ?thesis using assms(2) by (simp add: b_Update_def play_event_def b_ProceedAccept_def)
  next
    case False
    then show ?thesis
      using w1 silent by (auto simp: b_Update_def play_event_def b_ProceedAccept_def b_Accept_def b_CreateSocket_def
        b_emit_emits Let_def simp del: b_emits_frame(9))
  qed
qed

subsection \<open>Runs\<close>

lemma event_works:
  assumes "bo_works os" and "board_inv w" and "board_admits w e" and "BOARD_BUFFSIZE div 7 < fuel"
  shows "\<exists>w'. b_Update fuel os (play_event e) w = Inr w' \<and> board_inv w' \<and> board_of w' = play_rules e (board_of w)"
proof (cases e)
  case PlayKnock
  then show ?thesis using knock_works [OF assms(1,2)] assms(3) by simp
next
  case (PlaySays i cmds)
  then have a: "i \<in> bw_Clients w" "may_say w i cmds" "length (concat (map (cmd_bytes i) cmds)) \<le> BOARD_BUFFSIZE"
    using assms(3) by (simp_all add: board_admits_def)
  have "fits_pid i" using assms(2) a(1) by (auto simp: board_inv_def seated_def)
  then have "7 * length cmds \<le> length (concat (map (cmd_bytes i) cmds))"
  proof -
    have "7 \<le> length (cmd_bytes i c)" if "cmd_ok c" for c
      using cmd_bytes_reads(1) [OF that \<open>fits_pid i\<close>] by (cases c) simp_all
    then have "7 * length cs \<le> length (concat (map (cmd_bytes i) cs))" if "list_all cmd_ok cs" for cs
      using that by (induction cs) (force simp del: cmd_bytes.simps)+
    then show ?thesis using a(2) by (simp add: may_say_def)
  qed
  then have "length cmds < fuel" using a(3) assms(4) by simp
  then show ?thesis using says_works [OF assms(1,2) a] PlaySays by simp
next
  case (PlaySent i byte pending)
  then show ?thesis using sent_works [OF assms(2)] assms(3) by (simp add: board_admits_def)
next
  case (PlayBroken i)
  then show ?thesis using broken_works [OF assms(1,2), of i fuel] assms(3) by (simp add: board_admits_def)
qed

lemma board_started:
  assumes "b_main b os = Some w"
  shows "board_inv w"
proof -
  have pool: "bw_Clients (fill_pool b os n v) = bw_Clients v" for n v
    by (induction b os n v rule: fill_pool.induct) (simp_all add: Let_def b_CreateSocket_def b_emit_emits)
  have "bw_Clients w = {}"
    using assms by (auto simp: b_main_def b_Start_def b_Init_def BoardFramework_def Let_def b_CreateSocket_def b_Accept_def
      b_emit_emits pool split: if_splits)
  then show ?thesis by (simp add: board_inv_def seated_def board_of_def)
qed

lemma board_inv_reaches:
  assumes "bo_works os" and "BOARD_BUFFSIZE div 7 < fuel" and "b_main b os = Some w0"
    and "reaches (board_step fuel os) w0 w"
  shows "board_inv w"
proof (rule reaches_invariant [where I = board_inv, OF assms(4) board_started [OF assms(3)]])
  fix t u assume "board_inv t" "board_step fuel os t u"
  then show "board_inv u"
    using event_works [OF assms(1) _ _ assms(2)] by (elim board_stepE) fastforce
qed

text \<open>A game of one: it enters and goes a cell to the left.\<close>

definition demo_board_os :: board_os where
  "demo_board_os = \<lparr>bo_send = (\<lambda>_. IoDone), bo_recv = (\<lambda>_. IoDone), bo_port = (\<lambda>_. True), bo_socket = Suc,
     bo_order = sorted_list_of_set\<rparr>"

definition demo_board_boot :: board_boot where
  "demo_board_boot = \<lparr>bb_ready = True, bb_made = (\<lambda>_. True), bb_set = (\<lambda>_. True), bb_reuse = True, bb_listen = True\<rparr>"

definition demo_cmds :: "board_cmd list" where
  "demo_cmds = [CmdSignIn [85], CmdKey VK_LEFT]"

lemma demo_os_works: "bo_works demo_board_os"
  by (simp add: bo_works_def demo_board_os_def is_order_sorted)

lemma demo_filled:
  "n \<le> 10 \<Longrightarrow> length (bw_log v) = length (bw_pool v) \<Longrightarrow>
    \<exists>p L. fill_pool demo_board_boot demo_board_os n v = v\<lparr>bw_pool := p, bw_log := L\<rparr> \<and> length p = length (bw_pool v) + n
      \<and> length L = length p \<and> (\<forall>s. board_told s L = board_told s (bw_log v))"
proof (induction n arbitrary: v)
  case 0
  then show ?case by (intro exI [of _ "bw_pool v"] exI [of _ "bw_log v"]) simp
next
  case (Suc n)
  let ?s = "Suc (length (bw_log v))"
  let ?v = "v\<lparr>bw_log := bw_log v @ [BSocket ?s], bw_pool := bw_pool v @ [?s]\<rparr>"
  have "fill_pool demo_board_boot demo_board_os (Suc n) v = fill_pool demo_board_boot demo_board_os n ?v"
    by (simp add: demo_board_boot_def demo_board_os_def b_CreateSocket_def b_emit_def b_now_def Let_def)
  with Suc.IH [of ?v] Suc.prems show ?case by fastforce
qed

lemma demo_board_start:
  "\<exists>w. b_main demo_board_boot demo_board_os = Some w \<and> bw_Clients w = {} \<and> bw_order w = BOARD_ORDER_BEGIN
    \<and> bw_pool w \<noteq> [] \<and> (\<forall>s. board_told s (bw_log w) = [])"
proof -
  obtain p L where "fill_pool demo_board_boot demo_board_os 10 BoardFramework = BoardFramework\<lparr>bw_pool := p, bw_log := L\<rparr>"
    "length p = 10" "\<forall>s. board_told s L = []"
    using demo_filled [of 10 BoardFramework] by (auto simp: BoardFramework_def)
  then show ?thesis
    by (auto simp: b_main_def b_Init_def b_Start_def demo_board_boot_def b_CreateSocket_def b_Accept_def b_emit_emits
      Let_def BoardFramework_def)
qed

lemma demo_game:
  "\<exists>w0 w. b_main demo_board_boot demo_board_os = Some w0 \<and> reaches (board_step 80 demo_board_os) w0 w
    \<and> board_of w = [BOARD_ORDER_BEGIN \<mapsto> (2, 3)]"
proof -
  obtain w0 where w0: "b_main demo_board_boot demo_board_os = Some w0" "bw_Clients w0 = {}" "bw_order w0 = BOARD_ORDER_BEGIN"
    "bw_pool w0 \<noteq> []" "\<And>s. board_told s (bw_log w0) = []"
    using demo_board_start by blast
  have a0: "board_admits w0 PlayKnock" using w0 by (simp add: board_admits_def)
  obtain w1 where w1: "b_Update 80 demo_board_os (play_event PlayKnock) w0 = Inr w1" "board_inv w1" "board_of w1 = board_of w0"
    using event_works [OF demo_os_works board_started [OF w0(1)] a0, of 80] by auto
  have "bw_Clients w1 = {BOARD_ORDER_BEGIN} \<and> (\<forall>s. board_told s (bw_log w1) = [])"
    using w1(1) w0(2-5) by (auto simp: b_Update_def play_event_def b_ProceedAccept_def b_CreateAndAssignClient_def
      b_RecvStream_def demo_board_os_def b_CreateSocket_def b_Accept_def b_emit_emits Let_def b_on_object_def)
  then have c1: "bw_Clients w1 = {BOARD_ORDER_BEGIN}" "\<And>s. board_told s (bw_log w1) = []" by simp_all
  have len: "length (concat (map (cmd_bytes BOARD_ORDER_BEGIN) demo_cmds)) = 52"
    using cmd_bytes_reads(1) [of "CmdSignIn [85]" BOARD_ORDER_BEGIN] cmd_bytes_reads(1) [of "CmdKey VK_LEFT" BOARD_ORDER_BEGIN]
    by (simp add: demo_cmds_def key_defs del: cmd_bytes.simps)
  have a1: "board_admits w1 (PlaySays BOARD_ORDER_BEGIN demo_cmds)"
    using c1 len by (simp add: board_admits_def may_say_def) (simp add: demo_cmds_def key_defs)
  obtain w2 where w2: "b_Update 80 demo_board_os (play_event (PlaySays BOARD_ORDER_BEGIN demo_cmds)) w1 = Inr w2"
    "board_of w2 = play_rules (PlaySays BOARD_ORDER_BEGIN demo_cmds) (board_of w1)"
    using event_works [OF demo_os_works w1(2) a1, of 80] by auto
  have "board_of w1 = Map.empty" using w1(3) w0(2) by (simp add: board_of_def fun_eq_iff)
  then have "board_of w2 = [BOARD_ORDER_BEGIN \<mapsto> (2, 3)]"
    by (simp add: w2(2) demo_cmds_def board_neighbour_def board_clamp_def key_defs)
  moreover have "reaches (board_step 80 demo_board_os) w0 w1"
    by (rule reaches_step [where r = "board_step 80 demo_board_os", OF reaches_refl board_step [OF a0 w1(1)]])
  then have "reaches (board_step 80 demo_board_os) w0 w2"
    by (rule reaches_step [where r = "board_step 80 demo_board_os", OF _ board_step [OF a1 w2(1)]])
  ultimately show ?thesis using w0(1) by blast
qed

subsection \<open>What a game is\<close>





subsection \<open>What the stream does to them\<close>

lemma bc_shift_zeros: "bc_shift n (replicate 512 0) = replicate 512 0"
  by (cases "n \<le> 512") (simp_all add: bc_shift_def flip: replicate_add)

lemma bc_loop_over_zeros:
  "bc_memory c = replicate 512 0 \<Longrightarrow> 7 \<le> bc_recvBytes c \<Longrightarrow> bc_loop n c = Inl NoReturn"
proof (induction n arbitrary: c)
  case 0
  then show ?case by simp
next
  case (Suc n)
  have "read_le (replicate 512 0) 0 2 = 0" "byte_at (replicate 512 0) 2 = 0"
    by (simp_all add: read_le_def byte_at_def numeral_2_eq_2)
  then have "bc_loop (Suc n) c = bc_loop n (c\<lparr>bc_memory := bc_shift (bc_recvBytes c) (replicate 512 0)\<rparr>)"
    using Suc.prems by (simp add: bc_loop.simps(2) bc_packet_def Let_def)
  then show ?case using Suc by (simp add: bc_shift_zeros)
qed

text \<open>C23: Two packets that arrive together hang the client. A player that enters is told its number and its piece
  one right after the other; when both come in one receive the client moves its buffer by all the bytes that
  came instead of those of the first packet, finds nothing but zeros, and turns in its loop for ever.
\<close>

theorem packets_together_hang_client:
  assumes "bc_Connect True (ClientFramework\<lparr>bc_serverIP := ip\<rparr>) = Inr c" and "fits_pid i"
  shows "bc_receive fuel (board_wire (MsgSignUp i u k) @ board_wire m) c = Inl NoReturn"
proof (cases fuel)
  case 0
  then show ?thesis by (simp add: bc_receive_def bc_ProceedRecv_def)
next
  case (Suc n)
  let ?a = "board_wire (MsgSignUp i u k)" and ?b = "board_wire m"
  have c: "bc_memory c = replicate 512 0" "bc_start c = 0" "bc_recvBytes c = 0" "bc_tidy c" "bc_view c = board_fresh"
    using assms(1) by (auto simp: bc_Connect_def bc_SendSignInMsg_def bc_Recv_def bc_call_def BoardSignIn_def strcpy_s_def
      ClientFramework_def Let_def bc_tidy_def bc_view_def board_fresh_def fun_eq_iff)
  define d where "d = c\<lparr>bc_memory := ?a @ ?b @ replicate (512 - (15 + board_size m)) 0, bc_recvBytes := 15 + board_size m\<rparr>"
  have d: "bc_tidy d" "bc_view d = board_fresh" using c(4,5) by (simp_all add: d_def)
  have fit: "msg_fits (MsgSignUp i u k)" using assms(2) by simp
  obtain v where "hears (MsgSignUp i u k) (bc_view d) = Some v" by (simp add: d board_fresh_def Let_def)
  then obtain e where e: "bc_packet d = Inr e" "bc_same_buffer d e"
    using bc_packet_hears [OF d(1) fit, of "?b @ replicate (512 - (15 + board_size m)) 0"] by (auto simp: d_def)
  have n: "7 \<le> board_size m" "board_size m \<le> 15" by (rule board_size_bounds)+
  have mem: "bc_shift (15 + board_size m) (bc_memory e) = replicate 512 0"
    using e(2) n by (simp add: bc_shift_def bc_same_buffer_def d_def flip: replicate_add)
  have "bc_loop (Suc n) d = bc_loop n (e\<lparr>bc_memory := bc_shift (15 + board_size m) (bc_memory e), bc_recvBytes := board_size m\<rparr>)"
    using e board_wire_reads(1) [OF fit, of "?b @ replicate (512 - (15 + board_size m)) 0"]
    by (simp add: bc_loop.simps(2) Let_def bc_same_buffer_def) (simp add: d_def)
  moreover have "bc_loop n (e\<lparr>bc_memory := bc_shift (15 + board_size m) (bc_memory e), bc_recvBytes := board_size m\<rparr>) = Inl NoReturn"
    by (rule bc_loop_over_zeros) (simp_all add: mem n)
  moreover have "bc_receive fuel (?a @ ?b) c = rbind (bc_loop (Suc n) d) (\<lambda>c. Inr (bc_Recv (bc_recvBytes c) c))"
    using c(1-3) Suc by (simp add: bc_receive_def bc_ProceedRecv_def d_def)
  ultimately show ?thesis by simp
qed

lemma packets_together_hang_client_witness:
  "\<exists>c. bc_receive 1000 (board_wire (MsgSignUp 10000 1 10) @ board_wire (MsgCreate 10000 3 3)) c = Inl NoReturn"
proof -
  obtain c where "bc_Connect True (ClientFramework\<lparr>bc_serverIP := []\<rparr>) = Inr c"
    by (simp add: bc_Connect_def bc_SendSignInMsg_def BoardSignIn_def strcpy_s_def)
  from packets_together_hang_client [OF this, of 10000 1000 1 10 "MsgCreate 10000 3 3"] show ?thesis by auto
qed



subsection \<open>The squares\<close>

text \<open>The cells of the board are black and white in turn, and each is drawn once.\<close>

lemma board_is_checkered:
  "bc_board = concat (map (\<lambda>row. map (\<lambda>column. (64 * int column, 64 * int row, odd (row + column))) [0..<8]) [0..<8])"
  by code_simp

end
